(* ===== verification/Osip_Prelude.thy ===== *)
theory Osip_Prelude
  imports Main "HOL-Library.Word" "HOL-Library.Multiset"
begin

text \<open>
  Shared vocabulary of the development: the return codes of the SIP stack
  (\<^verbatim>\<open>osip/include/osipparser2/osip_port.h\<close>), the theorem collections the component
  theories add to, and the generic facts on lists and options that several components use.
  A pointer that may be \<^verbatim>\<open>NULL\<close> is an \<open>option\<close>; a C string is a \<open>string\<close> without its
  terminating zero; an \<^verbatim>\<open>osip_list_t\<close> of headers is a list (theory \<open>Osip_List\<close> proves that
  the linked implementation behaves as one).
\<close>

section \<open>Return codes\<close>

abbreviation OSIP_SUCCESS :: int where "OSIP_SUCCESS \<equiv> 0"
abbreviation OSIP_UNDEFINED_ERROR :: int where "OSIP_UNDEFINED_ERROR \<equiv> - 1"
abbreviation OSIP_BADPARAMETER :: int where "OSIP_BADPARAMETER \<equiv> - 2"
abbreviation OSIP_WRONG_STATE :: int where "OSIP_WRONG_STATE \<equiv> - 3"
abbreviation OSIP_NOMEM :: int where "OSIP_NOMEM \<equiv> - 4"
abbreviation OSIP_SYNTAXERROR :: int where "OSIP_SYNTAXERROR \<equiv> - 5"

section \<open>Theorem collections\<close>

named_theorems osip_simps \<open>rewrite rules about the C string primitives\<close>
named_theorems fsm_defs \<open>definitions of the transaction handlers\<close>

section \<open>Generic facts\<close>

lemma takeWhile_append_neq [osip_simps]:
  "c \<notin> set a \<Longrightarrow> takeWhile (\<lambda>x. x \<noteq> c) (a @ c # b) = a"
  by (induction a) auto

lemma takeWhile_neq_id [osip_simps]:
  "c \<notin> set a \<Longrightarrow> takeWhile (\<lambda>x. x \<noteq> c) a = a"
  by (induction a) auto

lemma drop_length_append [osip_simps]: "drop (length a) (a @ b) = b"
  by simp

lemma takeWhile_none [osip_simps]:
  "xs = [] \<or> \<not> P (hd xs) \<Longrightarrow> takeWhile P xs = []"
  by (cases xs) auto

lemma option_pair_cases:
  "(a = None \<and> b = None) \<or> (\<exists>x. a = Some x \<and> b = None) \<or> (\<exists>y. a = None \<and> b = Some y)
   \<or> (\<exists>x y. a = Some x \<and> b = Some y)"
  by (cases a; cases b) auto

end
