(* ===== verification/Osip_List.thy ===== *)
theory Osip_List
  imports Osip_Prelude "HOL-Library.Monad_Syntax"
begin

text \<open>
  The singly linked list of \<^verbatim>\<open>osip/src/osipparser2/osip_list.c\<close> over an explicit heap.  A heap
  maps addresses to nodes; an operation returns \<open>None\<close> when it dereferences a pointer that is
  \<^verbatim>\<open>NULL\<close> or does not point to a node.  The allocator is a parameter \<open>malloc\<close>: it yields an address,
  or \<open>None\<close> when \<^verbatim>\<open>osip_malloc\<close> returns \<^verbatim>\<open>NULL\<close>.  The theory proves that the operations implement
  insertion, access and removal on lists and never fault on a well-formed list.
\<close>

section \<open>Data\<close>

type_synonym addr = nat

record 'a node =
  node_next :: "addr option"
  node_element :: 'a

type_synonym 'a heap = "addr \<rightharpoonup> 'a node"

record osip_list =
  nb_elt :: int
  list_node :: "addr option"

text \<open>\<^verbatim>\<open>iterator->prev\<close> points to the list's own \<^verbatim>\<open>node\<close> field or to a node's \<^verbatim>\<open>next\<close> field.\<close>

datatype prev_ref = Head | Next_of addr

record list_iterator =
  it_actual :: "addr option"
  it_prev :: prev_ref
  it_pos :: int

section \<open>Operations\<close>

definition load :: "'a heap \<Rightarrow> addr option \<Rightarrow> 'a node option" where
  "load h p = Option.bind p h"

text \<open>\<open>n\<close> rounds of \<^verbatim>\<open>ntmp = ntmp->next\<close>.\<close>

fun walk :: "'a heap \<Rightarrow> addr option \<Rightarrow> nat \<Rightarrow> addr option option" where
  "walk h p 0 = Some p"
| "walk h p (Suc n) = do { nd \<leftarrow> load h p; walk h (node_next nd) n }"

definition osip_list_init :: "osip_list option \<Rightarrow> int \<times> osip_list option" where
  "osip_list_init li =
     (case li of
        None \<Rightarrow> (OSIP_BADPARAMETER, None)
      | Some l \<Rightarrow> (OSIP_SUCCESS, Some \<lparr>nb_elt = 0, list_node = None\<rparr>))"

definition osip_list_size :: "osip_list option \<Rightarrow> int" where
  "osip_list_size li = (case li of None \<Rightarrow> OSIP_BADPARAMETER | Some l \<Rightarrow> nb_elt l)"

definition osip_list_eol :: "osip_list option \<Rightarrow> int \<Rightarrow> int" where
  "osip_list_eol li i =
     (case li of
        None \<Rightarrow> OSIP_BADPARAMETER
      | Some l \<Rightarrow> if i < nb_elt l then OSIP_SUCCESS else 1)"

definition osip_list_add ::
  "('a heap \<Rightarrow> addr option) \<Rightarrow> 'a heap \<Rightarrow> osip_list option \<Rightarrow> 'a \<Rightarrow> int
   \<Rightarrow> (int \<times> 'a heap \<times> osip_list option) option" where
  "osip_list_add malloc h li el pos0 =
     (case li of
        None \<Rightarrow> Some (OSIP_BADPARAMETER, h, None)
      | Some l \<Rightarrow>
          if nb_elt l = 0 then
            (case malloc h of
               None \<Rightarrow> Some (OSIP_NOMEM, h, Some (l\<lparr>list_node := None\<rparr>))
             | Some a \<Rightarrow> Some (nb_elt l + 1, h(a \<mapsto> \<lparr>node_next = None, node_element = el\<rparr>),
                            Some (l\<lparr>list_node := Some a, nb_elt := nb_elt l + 1\<rparr>)))
          else
            (let pos = (if pos0 = -1 \<or> pos0 \<ge> nb_elt l then nb_elt l else pos0)
             in if pos = 0 then
                  (case malloc h of
                     None \<Rightarrow> Some (OSIP_NOMEM, h, Some l)
                   | Some a \<Rightarrow> Some (nb_elt l + 1,
                        h(a \<mapsto> \<lparr>node_next = list_node l, node_element = el\<rparr>),
                        Some (l\<lparr>list_node := Some a, nb_elt := nb_elt l + 1\<rparr>)))
                else do {
                  p \<leftarrow> walk h (list_node l) (nat (pos - 1));
                  ntmp \<leftarrow> p;
                  nd \<leftarrow> h ntmp;
                  if pos = nb_elt l then
                    (case malloc h of
                       None \<Rightarrow> Some (OSIP_NOMEM, h(ntmp \<mapsto> nd\<lparr>node_next := None\<rparr>), Some l)
                     | Some a \<Rightarrow> Some (nb_elt l + 1,
                          h(ntmp \<mapsto> nd\<lparr>node_next := Some a\<rparr>,
                            a \<mapsto> \<lparr>node_next = None, node_element = el\<rparr>),
                          Some (l\<lparr>nb_elt := nb_elt l + 1\<rparr>)))
                  else
                    (case malloc h of
                       None \<Rightarrow> Some (OSIP_NOMEM, h, Some l)
                     | Some a \<Rightarrow> Some (nb_elt l + 1,
                          h(ntmp \<mapsto> nd\<lparr>node_next := Some a\<rparr>,
                            a \<mapsto> \<lparr>node_next = node_next nd, node_element = el\<rparr>),
                          Some (l\<lparr>nb_elt := nb_elt l + 1\<rparr>))) }))"

text \<open>The element at a position; the inner \<open>None\<close> is the \<^verbatim>\<open>NULL\<close> result.\<close>

definition osip_list_get :: "'a heap \<Rightarrow> osip_list option \<Rightarrow> int \<Rightarrow> 'a option option" where
  "osip_list_get h li pos =
     (case li of
        None \<Rightarrow> Some None
      | Some l \<Rightarrow>
          if pos < 0 \<or> pos \<ge> nb_elt l then Some None
          else do {
            p \<leftarrow> walk h (list_node l) (nat pos);
            nd \<leftarrow> load h p;
            Some (Some (node_element nd)) })"

definition osip_list_remove ::
  "'a heap \<Rightarrow> osip_list option \<Rightarrow> int \<Rightarrow> (int \<times> 'a heap \<times> osip_list option) option" where
  "osip_list_remove h li pos =
     (case li of
        None \<Rightarrow> Some (OSIP_BADPARAMETER, h, None)
      | Some l \<Rightarrow>
          if pos < 0 \<or> pos \<ge> nb_elt l then Some (OSIP_UNDEFINED_ERROR, h, Some l)
          else if pos = 0 then do {
            ntmp \<leftarrow> list_node l;
            nd \<leftarrow> h ntmp;
            Some (nb_elt l - 1, h(ntmp := None),
                  Some (l\<lparr>list_node := node_next nd, nb_elt := nb_elt l - 1\<rparr>)) }
          else do {
            p \<leftarrow> walk h (list_node l) (nat (pos - 1));
            ntmp \<leftarrow> p;
            nd \<leftarrow> h ntmp;
            remnode \<leftarrow> node_next nd;
            rd \<leftarrow> h remnode;
            Some (nb_elt l - 1, (h(ntmp \<mapsto> nd\<lparr>node_next := node_next rd\<rparr>))(remnode := None),
                  Some (l\<lparr>nb_elt := nb_elt l - 1\<rparr>)) })"

definition osip_list_iterator_has_elem :: "osip_list \<Rightarrow> list_iterator \<Rightarrow> bool" where
  "osip_list_iterator_has_elem l it \<longleftrightarrow> it_actual it \<noteq> None \<and> it_pos it < nb_elt l"

text \<open>Of the iterator of an empty list the source sets \<^verbatim>\<open>actual\<close> only; the other fields are not
  read before the next \<^verbatim>\<open>get_first\<close>.\<close>

definition osip_list_get_first ::
  "'a heap \<Rightarrow> osip_list option \<Rightarrow> ('a option \<times> list_iterator) option" where
  "osip_list_get_first h li =
     (case li of
        None \<Rightarrow> Some (None, \<lparr>it_actual = None, it_prev = Head, it_pos = 0\<rparr>)
      | Some l \<Rightarrow>
          if 0 \<ge> nb_elt l then Some (None, \<lparr>it_actual = None, it_prev = Head, it_pos = 0\<rparr>)
          else do {
            nd \<leftarrow> load h (list_node l);
            Some (Some (node_element nd),
                  \<lparr>it_actual = list_node l, it_prev = Head, it_pos = 0\<rparr>) })"

definition osip_list_get_next ::
  "'a heap \<Rightarrow> osip_list \<Rightarrow> list_iterator \<Rightarrow> ('a option \<times> list_iterator) option" where
  "osip_list_get_next h l it =
     (case it_actual it of
        None \<Rightarrow> Some (None, it)
      | Some a \<Rightarrow> do {
          nd \<leftarrow> h a;
          let it' = \<lparr>it_actual = node_next nd, it_prev = Next_of a, it_pos = it_pos it + 1\<rparr>;
          if osip_list_iterator_has_elem l it' then do {
            nd' \<leftarrow> load h (it_actual it');
            Some (Some (node_element nd'), it') }
          else Some (None, it'\<lparr>it_actual := None\<rparr>) })"

definition iterator_unlink ::
  "'a heap \<Rightarrow> osip_list \<Rightarrow> list_iterator \<Rightarrow> ('a heap \<times> osip_list \<times> list_iterator) option" where
  "iterator_unlink h l it = do {
     a \<leftarrow> it_actual it;
     nd \<leftarrow> h a;
     let l1 = l\<lparr>nb_elt := nb_elt l - 1\<rparr>;
     (h1, l2) \<leftarrow>
       (case it_prev it of
          Head \<Rightarrow> Some (h, l1\<lparr>list_node := node_next nd\<rparr>)
        | Next_of b \<Rightarrow> do {
            bd \<leftarrow> h b;
            Some (h(b \<mapsto> bd\<lparr>node_next := node_next nd\<rparr>), l1) });
     Some (h1(a := None), l2, it\<lparr>it_actual := node_next nd\<rparr>) }"

definition osip_list_iterator_remove ::
  "'a heap \<Rightarrow> osip_list \<Rightarrow> list_iterator \<Rightarrow> ('a option \<times> 'a heap \<times> osip_list \<times> list_iterator) option" where
  "osip_list_iterator_remove h l it = do {
     (h', l', it') \<leftarrow>
       (if osip_list_iterator_has_elem l it then iterator_unlink h l it else Some (h, l, it));
     if osip_list_iterator_has_elem l' it' then do {
       nd \<leftarrow> load h' (it_actual it');
       Some (Some (node_element nd), h', l', it') }
     else Some (None, h', l', it') }"

text \<open>
  \<^verbatim>\<open>osip_list_special_free\<close> and \<^verbatim>\<open>osip_list_ofchar_free\<close>: the third component lists the elements
  handed to \<^verbatim>\<open>free_func\<close> (or \<^verbatim>\<open>osip_free\<close>), in order.
\<close>

lemma osip_list_remove_first_nb:
  "osip_list_remove h (Some l) 0 = Some (rc, h', li') \<Longrightarrow> 0 < nb_elt l \<Longrightarrow>
   \<exists>l'. li' = Some l' \<and> nb_elt l' = nb_elt l - 1"
  by (auto simp: osip_list_remove_def bind_eq_Some_conv split: if_splits)

function free_loop ::
  "'a heap \<Rightarrow> osip_list \<Rightarrow> 'a option list \<Rightarrow> ('a heap \<times> osip_list \<times> 'a option list) option" where
  "free_loop h l freed =
     (if osip_list_eol (Some l) 0 \<noteq> 0 then Some (h, l, freed)
      else case osip_list_get h (Some l) 0 of
             None \<Rightarrow> None
           | Some element \<Rightarrow>
               (case osip_list_remove h (Some l) 0 of
                  None \<Rightarrow> None
                | Some (rc, h', None) \<Rightarrow> None
                | Some (rc, h', Some l') \<Rightarrow> free_loop h' l' (freed @ [element])))"
  by pat_completeness auto
termination
  by (relation "measure (\<lambda>(h, l, freed). nat (nb_elt l))")
     (auto simp: osip_list_eol_def split: if_splits dest!: osip_list_remove_first_nb)

declare free_loop.simps [simp del]

definition osip_list_special_free ::
  "'a heap \<Rightarrow> osip_list option \<Rightarrow> ('a heap \<times> osip_list option \<times> 'a option list) option" where
  "osip_list_special_free h li =
     (case li of
        None \<Rightarrow> Some (h, None, [])
      | Some l \<Rightarrow> do { (h', l', freed) \<leftarrow> free_loop h l []; Some (h', Some l', freed) })"

definition osip_list_ofchar_free ::
  "string heap \<Rightarrow> osip_list option \<Rightarrow> (string heap \<times> osip_list option \<times> string option list) option" where
  "osip_list_ofchar_free h li =
     (case li of
        None \<Rightarrow> Some (h, None, [])
      | Some l \<Rightarrow> do { (h', l', freed) \<leftarrow> free_loop h l []; Some (h', Some l', freed) })"

text \<open>
  \<^verbatim>\<open>osip_list_clone\<close>: \<open>clone_func\<close> returns its code and the clone.  The result of
  \<^verbatim>\<open>osip_list_add\<close> is ignored, as in the source.
\<close>

lemma osip_list_get_next_pos:
  "osip_list_get_next h l it = Some (data, it') \<Longrightarrow> it_actual it \<noteq> None \<Longrightarrow> it_pos it' = it_pos it + 1"
  by (auto simp: osip_list_get_next_def bind_eq_Some_conv Let_def split: if_splits)

function clone_loop ::
  "('a heap \<Rightarrow> addr option) \<Rightarrow> ('a \<Rightarrow> int \<times> 'a) \<Rightarrow> osip_list \<Rightarrow> 'a heap \<Rightarrow> osip_list option
   \<Rightarrow> 'a option \<Rightarrow> list_iterator \<Rightarrow> (int \<times> 'a heap \<times> osip_list option) option" where
  "clone_loop malloc clone_func src h dst data it =
     (if \<not> osip_list_iterator_has_elem src it then Some (OSIP_SUCCESS, h, dst)
      else case data of
             None \<Rightarrow> None
           | Some d \<Rightarrow>
               (case clone_func d of (i, data2) \<Rightarrow>
                  if i \<noteq> 0 then Some (i, h, dst)
                  else case osip_list_add malloc h dst data2 (-1) of
                         None \<Rightarrow> None
                       | Some (rc, h', dst') \<Rightarrow>
                           (case osip_list_get_next h' src it of
                              None \<Rightarrow> None
                            | Some (data', it') \<Rightarrow> clone_loop malloc clone_func src h' dst' data' it')))"
  by pat_completeness auto
termination
  by (relation "measure (\<lambda>(m, c, src, h, dst, data, it). nat (nb_elt src - it_pos it))")
     (auto simp: osip_list_iterator_has_elem_def dest!: osip_list_get_next_pos)

declare clone_loop.simps [simp del]

definition osip_list_clone ::
  "('a heap \<Rightarrow> addr option) \<Rightarrow> ('a \<Rightarrow> int \<times> 'a) \<Rightarrow> 'a heap \<Rightarrow> osip_list \<Rightarrow> osip_list option
   \<Rightarrow> (int \<times> 'a heap \<times> osip_list option) option" where
  "osip_list_clone malloc clone_func h src dst = do {
     (data, it) \<leftarrow> osip_list_get_first h (Some src);
     clone_loop malloc clone_func src h dst data it }"

section \<open>Abstraction to lists\<close>

text \<open>\<open>lseg h p ns q\<close>: from pointer \<open>p\<close> the nodes \<open>ns\<close> (address and element) lead to pointer \<open>q\<close>.\<close>

fun lseg :: "'a heap \<Rightarrow> addr option \<Rightarrow> (addr \<times> 'a) list \<Rightarrow> addr option \<Rightarrow> bool" where
  "lseg h p [] q \<longleftrightarrow> p = q"
| "lseg h p ((a, x) # ns) q \<longleftrightarrow>
     p = Some a \<and> (\<exists>nd. h a = Some nd \<and> node_element nd = x \<and> lseg h (node_next nd) ns q)"

definition list_at :: "'a heap \<Rightarrow> osip_list \<Rightarrow> (addr \<times> 'a) list \<Rightarrow> bool" where
  "list_at h l ns \<longleftrightarrow> lseg h (list_node l) ns None \<and> distinct (map fst ns) \<and> nb_elt l = int (length ns)"

definition list_rep :: "'a heap \<Rightarrow> osip_list \<Rightarrow> 'a list \<Rightarrow> bool" where
  "list_rep h l xs \<longleftrightarrow> (\<exists>ns. list_at h l ns \<and> map snd ns = xs)"

definition fresh_alloc :: "('a heap \<Rightarrow> addr option) \<Rightarrow> bool" where
  "fresh_alloc malloc \<longleftrightarrow> (\<forall>h a. malloc h = Some a \<longrightarrow> h a = None)"

text \<open>Insertion as the list operation performs it, for every position argument: \<open>-1\<close> and
  positions behind the end append, other negative positions insert behind the first element.\<close>

definition insert_pos :: "nat \<Rightarrow> int \<Rightarrow> nat" where
  "insert_pos n pos =
     (if n = 0 \<or> pos = -1 \<or> pos \<ge> int n then n else if pos < 0 then 1 else nat pos)"

definition insert_at :: "nat \<Rightarrow> 'b \<Rightarrow> 'b list \<Rightarrow> 'b list" where
  "insert_at k x xs = take k xs @ x # drop k xs"

definition remove_at :: "nat \<Rightarrow> 'b list \<Rightarrow> 'b list" where
  "remove_at k xs = take k xs @ drop (Suc k) xs"

subsection \<open>Segments\<close>

lemma lseg_append: "lseg h p (ns @ ms) q \<longleftrightarrow> (\<exists>r. lseg h p ns r \<and> lseg h r ms q)"
  by (induction ns arbitrary: p) fastforce+

lemma lseg_walk: "lseg h p ns q \<Longrightarrow> walk h p (length ns) = Some q"
  by (induction ns arbitrary: p) (auto simp: load_def)

lemma lseg_cong: "(\<And>a. a \<in> fst ` set ns \<Longrightarrow> h' a = h a) \<Longrightarrow> lseg h' p ns q = lseg h p ns q"
  by (induction ns arbitrary: p) auto

lemma lseg_dom: "lseg h p ns q \<Longrightarrow> a \<in> fst ` set ns \<Longrightarrow> h a \<noteq> None"
  by (induction ns arbitrary: p) force+

lemma lseg_upd: "a \<notin> fst ` set ns \<Longrightarrow> lseg (h(a := v)) p ns q = lseg h p ns q"
  by (rule lseg_cong) auto

lemma list_at_walk:
  assumes "list_at h l ns" and "k < length ns"
  obtains b nd where "walk h (list_node l) k = Some (Some b)" and "h b = Some nd"
    and "ns ! k = (b, node_element nd)" and "lseg h (list_node l) (take k ns) (Some b)"
    and "lseg h (node_next nd) (drop (Suc k) ns) None"
proof -
  have "ns = take k ns @ ns ! k # drop (Suc k) ns" using assms(2) by (rule id_take_nth_drop)
  moreover obtain b y where y: "ns ! k = (b, y)" by fastforce
  ultimately have "lseg h (list_node l) (take k ns @ (b, y) # drop (Suc k) ns) None"
    using assms(1) by (simp add: list_at_def)
  then obtain nd where seg: "lseg h (list_node l) (take k ns) (Some b)" and nd: "h b = Some nd"
    "node_element nd = y" "lseg h (node_next nd) (drop (Suc k) ns) None"
    by (auto simp: lseg_append)
  from lseg_walk [OF seg] assms(2) have "walk h (list_node l) k = Some (Some b)" by simp
  with seg nd y show thesis by (intro that) auto
qed

lemma list_at_distinct:
  assumes "list_at h l ns" and "k < length ns" and "ns ! k = (b, y)"
  shows "b \<notin> fst ` set (take k ns)" and "b \<notin> fst ` set (drop (Suc k) ns)"
proof -
  have "ns = take k ns @ (b, y) # drop (Suc k) ns"
    using assms(2,3) by (metis id_take_nth_drop)
  then have "distinct (map fst (take k ns @ (b, y) # drop (Suc k) ns))"
    using assms(1) by (metis list_at_def)
  then show "b \<notin> fst ` set (take k ns)" "b \<notin> fst ` set (drop (Suc k) ns)" by auto
qed

lemma fresh_not_in_list:
  "fresh_alloc malloc \<Longrightarrow> malloc h = Some a \<Longrightarrow> list_at h l ns \<Longrightarrow> a \<notin> fst ` set ns"
  unfolding fresh_alloc_def list_at_def by (metis lseg_dom)

lemma set_take_drop: "fst ` set ns = fst ` set (take k ns) \<union> fst ` set (drop k ns)"
  by (metis append_take_drop_id image_Un set_append)

lemma distinct_insert_at:
  "distinct (map fst ns) \<Longrightarrow> a \<notin> fst ` set ns \<Longrightarrow> distinct (map fst (insert_at k (a, x) ns))"
proof -
  assume d: "distinct (map fst ns)" and a: "a \<notin> fst ` set ns"
  have "mset (map fst (insert_at k (a, x) ns)) = mset (a # map fst ns)"
    unfolding insert_at_def by (metis (no_types, lifting) append_take_drop_id fst_conv list.simps(9)
        map_append mset.simps(2) mset_append union_mset_add_mset_right)
  then show ?thesis using d a by (metis distinct.simps(2) list.set_map mset_eq_imp_distinct_iff)
qed

subsection \<open>The operations on a represented list\<close>

lemma osip_list_get_at:
  assumes "list_at h l ns"
  shows "osip_list_get h (Some l) pos =
         Some (if 0 \<le> pos \<and> pos < int (length ns) then Some (snd (ns ! nat pos)) else None)"
proof (cases "0 \<le> pos \<and> pos < int (length ns)")
  case True
  then have "nat pos < length ns" by linarith
  then obtain b nd where "walk h (list_node l) (nat pos) = Some (Some b)" "h b = Some nd"
    "ns ! nat pos = (b, node_element nd)"
    by (rule list_at_walk [OF assms])
  with True assms show ?thesis by (simp add: osip_list_get_def list_at_def load_def)
next
  case False
  with assms show ?thesis by (auto simp: osip_list_get_def list_at_def)
qed

text \<open>Linking a fresh node behind the node at position \<open>k\<close>.\<close>

lemma list_at_link:
  assumes l: "list_at h l ns" and k: "k < length ns" and fresh: "a \<notin> fst ` set ns"
    and b: "h b = Some nd" "ns ! k = (b, node_element nd)"
    "lseg h (list_node l) (take k ns) (Some b)" "lseg h (node_next nd) (drop (Suc k) ns) None"
  shows "list_at (h(b \<mapsto> nd\<lparr>node_next := Some a\<rparr>, a \<mapsto> \<lparr>node_next = node_next nd, node_element = el\<rparr>))
           (l\<lparr>nb_elt := nb_elt l + 1\<rparr>) (insert_at (Suc k) (a, el) ns)" (is "list_at ?h _ _")
proof -
  have split: "take (Suc k) ns = take k ns @ [(b, node_element nd)]"
    using k b(2) by (simp add: take_Suc_conv_app_nth)
  have notin: "b \<notin> fst ` set (take k ns)" "b \<notin> fst ` set (drop (Suc k) ns)"
    by (rule list_at_distinct [OF l k b(2)])+
  have "b \<in> fst ` set ns" using b(2) k by (metis fst_conv image_eqI nth_mem)
  with fresh have ne: "a \<noteq> b" by auto
  have fresh': "a \<notin> fst ` set (take k ns)" "a \<notin> fst ` set (drop (Suc k) ns)"
    using fresh by (auto dest: in_set_takeD in_set_dropD)
  have "lseg ?h (list_node l) (take k ns) (Some b)"
    using b(3) notin fresh' by (simp add: lseg_upd)
  moreover have "lseg ?h (node_next nd) (drop (Suc k) ns) None"
    using b(4) notin fresh' by (simp add: lseg_upd)
  ultimately have "lseg ?h (list_node l) (insert_at (Suc k) (a, el) ns) None"
    using ne by (auto simp: insert_at_def split lseg_append)
  then show ?thesis
    using l fresh distinct_insert_at [of ns a "Suc k" el]
    by (simp add: list_at_def insert_at_def)
qed

lemma osip_list_add_at:
  assumes l: "list_at h l ns" and fr: "fresh_alloc malloc" and a: "malloc h = Some a"
  shows "\<exists>h' l'. osip_list_add malloc h (Some l) el pos = Some (int (length ns) + 1, h', Some l')
           \<and> list_at h' l' (insert_at (insert_pos (length ns) pos) (a, el) ns)
           \<and> (\<forall>b. b \<notin> insert a (fst ` set ns) \<longrightarrow> h' b = h b)"
proof -
  have fresh: "a \<notin> fst ` set ns" by (rule fresh_not_in_list [OF fr a l])
  have nb: "nb_elt l = int (length ns)" and d: "distinct (map fst ns)"
    and seg: "lseg h (list_node l) ns None" using l by (auto simp: list_at_def)
  consider (empty) "ns = []" | (front) "ns \<noteq> []" "pos = 0"
    | (mid) k where "k < length ns" "insert_pos (length ns) pos = Suc k" "pos \<noteq> 0" "ns \<noteq> []"
        "nat ((if pos = -1 \<or> pos \<ge> nb_elt l then nb_elt l else pos) - 1) = k"
  proof (cases "ns = [] \<or> pos = 0")
    case True
    then show ?thesis using that(1,2) by blast
  next
    case False
    then have "0 < length ns" "pos \<noteq> 0" by auto
    then show ?thesis
      using nb by (intro that(3) [of "insert_pos (length ns) pos - 1"]) (auto simp: insert_pos_def)
  qed
  then show ?thesis
  proof cases
    case empty
    then show ?thesis
      using a nb by (auto simp: osip_list_add_def list_at_def insert_at_def insert_pos_def)
  next
    case front
    then show ?thesis
      using a nb d seg fresh
      by (auto simp: osip_list_add_def list_at_def insert_at_def insert_pos_def lseg_upd)
  next
    case mid
    obtain b nd where w: "walk h (list_node l) k = Some (Some b)"
      and b: "h b = Some nd" "ns ! k = (b, node_element nd)"
        "lseg h (list_node l) (take k ns) (Some b)" "lseg h (node_next nd) (drop (Suc k) ns) None"
      by (rule list_at_walk [OF l mid(1)])
    let ?h = "h(b \<mapsto> nd\<lparr>node_next := Some a\<rparr>, a \<mapsto> \<lparr>node_next = node_next nd, node_element = el\<rparr>)"
    let ?pos = "if pos = -1 \<or> pos \<ge> nb_elt l then nb_elt l else pos"
    have last: "node_next nd = None" if "?pos = nb_elt l"
    proof -
      have "Suc k = length ns" using that mid nb by (auto split: if_splits)
      then show ?thesis using b(4) by simp
    qed
    have pos: "?pos \<noteq> 0" using mid nb by auto
    have "osip_list_add malloc h (Some l) el pos
        = Some (int (length ns) + 1, ?h, Some (l\<lparr>nb_elt := nb_elt l + 1\<rparr>))"
      using mid pos a nb w b(1) last
      by (auto simp: osip_list_add_def Let_def simp del: fun_upd_apply)
    moreover have "b \<in> fst ` set ns" using b(2) mid(1) by (metis fst_conv image_eqI nth_mem)
    ultimately show ?thesis
      using list_at_link [OF l mid(1) fresh b] mid(2) by auto
  qed
qed

lemma osip_list_add_nomem:
  assumes l: "list_at h l ns" and a: "malloc h = None"
  shows "osip_list_add malloc h (Some l) el pos = Some (OSIP_NOMEM, h, Some l)"
proof -
  let ?pos = "if pos = -1 \<or> pos \<ge> nb_elt l then nb_elt l else pos"
  have nb: "nb_elt l = int (length ns)" using l by (simp add: list_at_def)
  consider "ns = []" | "ns \<noteq> []" "?pos = 0" | "ns \<noteq> []" "?pos \<noteq> 0" by blast
  then show ?thesis
  proof cases
    case 1
    with l have "list_node l = None" by (simp add: list_at_def)
    with 1 a nb show ?thesis by (simp add: osip_list_add_def)
  next
    case 2
    with a nb show ?thesis by (auto simp: osip_list_add_def Let_def)
  next
    case 3
    define k where "k = nat (?pos - 1)"
    have len: "0 < length ns" using 3(1) by simp
    then have "nat (p - 1) < length ns" if "p \<le> int (length ns)" for p using that by linarith
    moreover have "?pos \<le> int (length ns)" using nb by auto
    ultimately have k: "k < length ns" unfolding k_def by blast
    obtain b nd where w: "walk h (list_node l) k = Some (Some b)"
      and b: "h b = Some nd" "lseg h (node_next nd) (drop (Suc k) ns) None"
      by (rule list_at_walk [OF l k])
    have last: "node_next nd = None" if "?pos = nb_elt l"
    proof -
      have "Suc k = length ns" using that len nb unfolding k_def by linarith
      then show ?thesis using b(2) by simp
    qed
    have same: "h(b \<mapsto> nd) = h" using b(1) by (simp add: fun_upd_idem)
    have tail: "nd\<lparr>node_next := None\<rparr> = nd" if "?pos = nb_elt l" using last [OF that] by simp
    have "osip_list_add malloc h (Some l) el pos =
        (if ?pos = nb_elt l then Some (OSIP_NOMEM, h(b \<mapsto> nd\<lparr>node_next := None\<rparr>), Some l)
         else Some (OSIP_NOMEM, h, Some l))"
      using 3 a w b(1) nb unfolding k_def
      by (auto simp: osip_list_add_def Let_def simp del: fun_upd_apply)
    then show ?thesis using tail same by (simp del: fun_upd_apply)
  qed
qed

text \<open>Unlinking the node at position \<open>k + 1\<close>.\<close>

lemma list_at_unlink:
  assumes l: "list_at h l ns" and k: "Suc k < length ns"
    and b: "h b = Some nd" "ns ! k = (b, node_element nd)"
      "lseg h (list_node l) (take k ns) (Some b)" "lseg h (node_next nd) (drop (Suc k) ns) None"
    and r: "ns ! Suc k = (r, y)"
  shows "\<exists>rd. node_next nd = Some r \<and> h r = Some rd \<and>
    list_at ((h(b \<mapsto> nd\<lparr>node_next := node_next rd\<rparr>))(r := None))
       (l\<lparr>nb_elt := nb_elt l - 1\<rparr>) (remove_at (Suc k) ns)"
proof -
  have dsplit: "drop (Suc k) ns = (r, y) # drop (Suc (Suc k)) ns"
    using k r by (metis Cons_nth_drop_Suc)
  with b(4) obtain rd where rd: "node_next nd = Some r" "h r = Some rd" "node_element rd = y"
    "lseg h (node_next rd) (drop (Suc (Suc k)) ns) None" by auto
  have tsplit: "take (Suc k) ns = take k ns @ [(b, node_element nd)]"
    using k b(2) by (simp add: take_Suc_conv_app_nth)
  have dist: "distinct (map fst (take k ns @ (b, node_element nd) # (r, y) # drop (Suc (Suc k)) ns))"
    using l dsplit tsplit by (metis append_Cons append_assoc append_self_conv2 append_take_drop_id list_at_def)
  let ?h = "(h(b \<mapsto> nd\<lparr>node_next := node_next rd\<rparr>))(r := None)"
  have "lseg ?h (list_node l) (take k ns) (Some b)"
    using b(3) dist by (simp add: lseg_upd)
  moreover have "lseg ?h (node_next rd) (drop (Suc (Suc k)) ns) None"
    using rd(4) dist by (simp add: lseg_upd)
  moreover have "?h b = Some (nd\<lparr>node_next := node_next rd\<rparr>)" using dist by auto
  ultimately have "lseg ?h (list_node l) (remove_at (Suc k) ns) None"
    by (auto simp: remove_at_def tsplit lseg_append)
  moreover have "distinct (map fst (remove_at (Suc k) ns))"
    using dist by (simp add: remove_at_def tsplit)
  ultimately show ?thesis
    using l k rd by (simp add: list_at_def remove_at_def)
qed

lemma osip_list_remove_at:
  assumes l: "list_at h l ns" and pos: "0 \<le> pos" "pos < int (length ns)"
  shows "\<exists>h' l'. osip_list_remove h (Some l) pos = Some (int (length ns) - 1, h', Some l')
           \<and> list_at h' l' (remove_at (nat pos) ns)
           \<and> (\<forall>b. b \<notin> fst ` set ns \<longrightarrow> h' b = h b)"
proof (cases "pos = 0")
  case True
  with pos obtain a x ms where ns: "ns = (a, x) # ms" by (cases ns) auto
  with l obtain nd where "list_node l = Some a" "h a = Some nd" "lseg h (node_next nd) ms None"
    "a \<notin> fst ` set ms" by (auto simp: list_at_def)
  with l ns True show ?thesis
    by (auto simp: osip_list_remove_def list_at_def remove_at_def lseg_upd)
next
  case False
  define k where "k = nat (pos - 1)"
  have k: "Suc k < length ns" "nat pos = Suc k" using pos False by (auto simp: k_def)
  then have "k < length ns" by simp
  then obtain b nd where w: "walk h (list_node l) k = Some (Some b)"
    and b: "h b = Some nd" "ns ! k = (b, node_element nd)"
      "lseg h (list_node l) (take k ns) (Some b)" "lseg h (node_next nd) (drop (Suc k) ns) None"
    by (rule list_at_walk [OF l])
  obtain r y where r: "ns ! Suc k = (r, y)" by fastforce
  obtain rd where rd: "node_next nd = Some r" "h r = Some rd"
    and res: "list_at ((h(b \<mapsto> nd\<lparr>node_next := node_next rd\<rparr>))(r := None))
       (l\<lparr>nb_elt := nb_elt l - 1\<rparr>) (remove_at (Suc k) ns)"
    using list_at_unlink [OF l k(1) b r] by blast
  have "b \<in> fst ` set ns" "r \<in> fst ` set ns"
    using b(2) r k(1) by (metis Suc_lessD fst_conv image_eqI nth_mem)+
  then show ?thesis
    using l pos False w b(1) rd res k by (auto simp: osip_list_remove_def list_at_def k_def)
qed

section \<open>Iterators\<close>

definition iter_at :: "(addr \<times> 'a) list \<Rightarrow> nat \<Rightarrow> list_iterator \<Rightarrow> bool" where
  "iter_at ns k it \<longleftrightarrow>
     it_pos it = int k \<and> it_actual it = (if k < length ns then Some (fst (ns ! k)) else None) \<and>
     it_prev it = (if k = 0 then Head else Next_of (fst (ns ! (k - 1))))"

definition nth_elem :: "(addr \<times> 'a) list \<Rightarrow> nat \<Rightarrow> 'a option" where
  "nth_elem ns k = (if k < length ns then Some (snd (ns ! k)) else None)"

lemma list_at_node:
  assumes "list_at h l ns" and "k < length ns"
  shows "\<exists>nd. h (fst (ns ! k)) = Some nd \<and> node_element nd = snd (ns ! k) \<and>
              node_next nd = (if Suc k < length ns then Some (fst (ns ! Suc k)) else None)"
proof -
  obtain b nd where b: "h b = Some nd" "ns ! k = (b, node_element nd)"
    "lseg h (node_next nd) (drop (Suc k) ns) None"
    by (rule list_at_walk [OF assms])
  have "node_next nd = (if Suc k < length ns then Some (fst (ns ! Suc k)) else None)"
  proof (cases "Suc k < length ns")
    case True
    then have "drop (Suc k) ns = ns ! Suc k # drop (Suc (Suc k)) ns" by (metis Cons_nth_drop_Suc)
    with b(3) True show ?thesis by (cases "ns ! Suc k") simp
  next
    case False
    with b(3) show ?thesis by simp
  qed
  with b show ?thesis by simp
qed

lemma osip_list_get_first_at:
  assumes "list_at h l ns"
  shows "\<exists>it. osip_list_get_first h (Some l) = Some (nth_elem ns 0, it) \<and> iter_at ns 0 it"
proof (cases "ns = []")
  case True
  with assms show ?thesis by (simp add: osip_list_get_first_def list_at_def nth_elem_def iter_at_def)
next
  case False
  then obtain nd where "h (fst (ns ! 0)) = Some nd" "node_element nd = snd (ns ! 0)"
    using list_at_node [OF assms, of 0] by auto
  moreover have "list_node l = Some (fst (ns ! 0))" using assms False
    by (cases ns) (auto simp: list_at_def)
  ultimately show ?thesis
    using assms False by (simp add: osip_list_get_first_def list_at_def nth_elem_def iter_at_def load_def)
qed

lemma osip_list_get_next_at:
  assumes "list_at h l ns" and "iter_at ns k it" and "k < length ns"
  shows "\<exists>it'. osip_list_get_next h l it = Some (nth_elem ns (Suc k), it') \<and> iter_at ns (Suc k) it'"
proof -
  obtain nd where nd: "h (fst (ns ! k)) = Some nd"
    "node_next nd = (if Suc k < length ns then Some (fst (ns ! Suc k)) else None)"
    using list_at_node [OF assms(1,3)] by auto
  show ?thesis
  proof (cases "Suc k < length ns")
    case True
    then obtain nd' where "h (fst (ns ! Suc k)) = Some nd'" "node_element nd' = snd (ns ! Suc k)"
      using list_at_node [OF assms(1)] by blast
    with nd True assms show ?thesis
      by (simp add: osip_list_get_next_def iter_at_def nth_elem_def load_def list_at_def
          osip_list_iterator_has_elem_def)
  next
    case False
    with nd assms show ?thesis
      by (simp add: osip_list_get_next_def iter_at_def nth_elem_def osip_list_iterator_has_elem_def)
  qed
qed

lemma osip_list_has_elem_at:
  "list_at h l ns \<Longrightarrow> iter_at ns k it \<Longrightarrow> osip_list_iterator_has_elem l it \<longleftrightarrow> k < length ns"
  by (auto simp: osip_list_iterator_has_elem_def iter_at_def list_at_def)

text \<open>Removing the element under the iterator leaves the iterator on the next element.\<close>

lemma iter_at_remove:
  assumes "iter_at ns k it" "k < length ns"
    "node_next nd = (if Suc k < length ns then Some (fst (ns ! Suc k)) else None)"
  shows "iter_at (remove_at k ns) k (it\<lparr>it_actual := node_next nd\<rparr>)"
  using assms by (auto simp: iter_at_def remove_at_def nth_append min_def)

lemma iterator_unlink_at:
  assumes l: "list_at h l ns" and it: "iter_at ns k it" and k: "k < length ns"
  shows "\<exists>h' l' it'. iterator_unlink h l it = Some (h', l', it') \<and>
     list_at h' l' (remove_at k ns) \<and> iter_at (remove_at k ns) k it'"
proof -
  obtain nd where nd: "h (fst (ns ! k)) = Some nd" "node_element nd = snd (ns ! k)"
    "node_next nd = (if Suc k < length ns then Some (fst (ns ! Suc k)) else None)"
    using list_at_node [OF l k] by auto
  have act: "it_actual it = Some (fst (ns ! k))" using it k by (simp add: iter_at_def)
  note it' = iter_at_remove [OF it k nd(3)]
  show ?thesis
  proof (cases k)
    case 0
    with k obtain a x ms where ns: "ns = (a, x) # ms" by (cases ns) auto
    have "list_at (h(a := None)) (l\<lparr>nb_elt := nb_elt l - 1, list_node := node_next nd\<rparr>) (remove_at k ns)"
      using l nd(1) ns 0 by (auto simp: list_at_def remove_at_def lseg_upd)
    moreover have "it_prev it = Head" using it 0 by (simp add: iter_at_def)
    moreover have "fst (ns ! k) = a" using ns 0 by simp
    ultimately show ?thesis
      using act nd(1) it' by (simp add: iterator_unlink_def Let_def)
  next
    case (Suc j)
    then have j: "j < length ns" "Suc j < length ns" using k by auto
    obtain b bd where b: "h b = Some bd" "ns ! j = (b, node_element bd)"
      "lseg h (list_node l) (take j ns) (Some b)" "lseg h (node_next bd) (drop (Suc j) ns) None"
      by (rule list_at_walk [OF l j(1)])
    obtain r y where r: "ns ! Suc j = (r, y)" by fastforce
    obtain rd where rd: "h r = Some rd" and
      res: "list_at ((h(b \<mapsto> bd\<lparr>node_next := node_next rd\<rparr>))(r := None))
              (l\<lparr>nb_elt := nb_elt l - 1\<rparr>) (remove_at (Suc j) ns)"
      using list_at_unlink [OF l j(2) b r] by blast
    have "it_prev it = Next_of b" using it Suc b by (simp add: iter_at_def)
    moreover have "rd = nd" "fst (ns ! k) = r" using rd nd r Suc by auto
    ultimately show ?thesis
      using act nd(1) b(1) Suc res it' by (simp add: iterator_unlink_def Let_def)
  qed
qed

lemma osip_list_iterator_remove_at:
  assumes l: "list_at h l ns" and it: "iter_at ns k it" and k: "k < length ns"
  shows "\<exists>h' l' it'. osip_list_iterator_remove h l it = Some (nth_elem (remove_at k ns) k, h', l', it')
     \<and> list_at h' l' (remove_at k ns) \<and> iter_at (remove_at k ns) k it'"
proof -
  obtain h' l' it' where r: "iterator_unlink h l it = Some (h', l', it')"
    "list_at h' l' (remove_at k ns)" "iter_at (remove_at k ns) k it'"
    using iterator_unlink_at [OF assms] by blast
  have he: "osip_list_iterator_has_elem l it" "osip_list_iterator_has_elem l' it' \<longleftrightarrow> k < length (remove_at k ns)"
    using osip_list_has_elem_at [OF l it] osip_list_has_elem_at [OF r(2,3)] k by simp_all
  show ?thesis
  proof (cases "k < length (remove_at k ns)")
    case True
    then obtain nd where "h' (fst (remove_at k ns ! k)) = Some nd" "node_element nd = snd (remove_at k ns ! k)"
      using list_at_node [OF r(2) True] by blast
    moreover have "it_actual it' = Some (fst (remove_at k ns ! k))" using r(3) True by (simp add: iter_at_def)
    ultimately show ?thesis using True r he
      by (simp add: osip_list_iterator_remove_def load_def nth_elem_def)
  next
    case False
    with r he show ?thesis by (simp add: osip_list_iterator_remove_def nth_elem_def)
  qed
qed

section \<open>Freeing and cloning a list\<close>

lemma free_loop_at:
  "list_at h l ns \<Longrightarrow>
   \<exists>h' l'. free_loop h l freed = Some (h', l', freed @ map (Some \<circ> snd) ns) \<and> list_at h' l' [] \<and>
     (\<forall>b. h' b = (if b \<in> fst ` set ns then None else h b))"
proof (induction ns arbitrary: h l freed)
  case Nil
  then show ?case by (simp add: free_loop.simps osip_list_eol_def list_at_def)
next
  case (Cons n ns)
  obtain a x where n: "n = (a, x)" by fastforce
  have get: "osip_list_get h (Some l) 0 = Some (Some x)"
    using osip_list_get_at [OF Cons.prems, of 0] n by simp
  obtain nd where "list_node l = Some a" "h a = Some nd" using Cons.prems n by (auto simp: list_at_def)
  then have rem: "osip_list_remove h (Some l) 0 = Some (nb_elt l - 1, h(a := None),
      Some (l\<lparr>list_node := node_next nd, nb_elt := nb_elt l - 1\<rparr>))" (is "_ = Some (_, ?h, Some ?l)")
    using Cons.prems by (simp add: osip_list_remove_def list_at_def)
  have at: "list_at ?h ?l ns"
    using Cons.prems n \<open>h a = Some nd\<close> by (auto simp: list_at_def lseg_upd)
  have eol: "osip_list_eol (Some l) 0 = 0" using Cons.prems by (simp add: osip_list_eol_def list_at_def)
  obtain h' l' where "free_loop ?h ?l (freed @ [Some x])
      = Some (h', l', (freed @ [Some x]) @ map (Some \<circ> snd) ns)"
    "list_at h' l' []" "\<forall>b. h' b = (if b \<in> fst ` set ns then None else ?h b)"
    using Cons.IH [OF at] by blast
  then show ?case using get rem eol n by (subst free_loop.simps) auto
qed

text \<open>
  A clone fills an empty list with the clones of the elements, in order, when every clone and
  every allocation succeeds; the source list is untouched.
\<close>

lemma list_at_frame:
  "list_at h l ns \<Longrightarrow> (\<And>b. b \<in> fst ` set ns \<Longrightarrow> h' b = h b) \<Longrightarrow> list_at h' l ns"
  using lseg_cong [of ns h' h "list_node l" None] by (simp add: list_at_def)

lemma insert_at_end: "insert_at (insert_pos (length ns) (-1)) x ns = ns @ [x]"
  by (simp add: insert_at_def insert_pos_def)

lemma clone_append:
  assumes fr: "fresh_alloc malloc" and a: "malloc h = Some a"
    and src: "list_at h src ns" and dst: "list_at h dst ms" and disj: "fst ` set ns \<inter> fst ` set ms = {}"
  shows "\<exists>h' dst'. osip_list_add malloc h (Some dst) y (-1) = Some (int (length ms) + 1, h', Some dst')
     \<and> list_at h' dst' (ms @ [(a, y)]) \<and> list_at h' src ns \<and> fst ` set ns \<inter> fst ` set (ms @ [(a, y)]) = {}"
proof -
  obtain h' dst' where add: "osip_list_add malloc h (Some dst) y (-1) = Some (int (length ms) + 1, h', Some dst')"
    and at: "list_at h' dst' (insert_at (insert_pos (length ms) (-1)) (a, y) ms)"
    and fra: "\<forall>b. b \<notin> insert a (fst ` set ms) \<longrightarrow> h' b = h b"
    using osip_list_add_at [OF dst fr a, of y "-1"] by blast
  have fresh: "a \<notin> fst ` set ns" by (rule fresh_not_in_list [OF fr a src])
  have "b \<notin> insert a (fst ` set ms)" if "b \<in> fst ` set ns" for b using that fresh disj by auto
  then have "list_at h' src ns" using list_at_frame [OF src] fra by metis
  moreover have "fst ` set ns \<inter> fst ` set (ms @ [(a, y)]) = {}" using fresh disj by simp
  ultimately show ?thesis using add at by (metis insert_at_end)
qed

lemma clone_loop_step:
  assumes "osip_list_iterator_has_elem src it" "clone_func x = (0, y)"
    "osip_list_add malloc h dst y (-1) = Some (rc, h', dst')"
    "osip_list_get_next h' src it = Some (data', it')"
  shows "clone_loop malloc clone_func src h dst (Some x) it = clone_loop malloc clone_func src h' dst' data' it'"
  using assms by (subst clone_loop.simps) simp

lemma osip_list_add_finite:
  "osip_list_add malloc h li el pos = Some (rc, h', li') \<Longrightarrow> finite (dom h) \<Longrightarrow> finite (dom h')"
  unfolding osip_list_add_def Let_def
  by (auto simp: bind_eq_Some_conv split: option.splits if_splits simp del: fun_upd_apply)

lemma clone_loop_at:
  assumes fr: "fresh_alloc malloc" and tot: "\<And>h. finite (dom h) \<Longrightarrow> malloc h \<noteq> None"
    and cl: "\<And>x. clone_func x = (0, f x)"
  shows "list_at h src ns \<Longrightarrow> list_at h dst ms \<Longrightarrow> fst ` set ns \<inter> fst ` set ms = {} \<Longrightarrow>
    iter_at ns k it \<Longrightarrow> k \<le> length ns \<Longrightarrow> finite (dom h) \<Longrightarrow>
    \<exists>h' dst' ms'. clone_loop malloc clone_func src h (Some dst) (nth_elem ns k) it = Some (0, h', Some dst')
      \<and> list_at h' dst' ms' \<and> map snd ms' = map snd ms @ map (f \<circ> snd) (drop k ns) \<and> list_at h' src ns"
proof (induction "length ns - k" arbitrary: k h dst ms it)
  case 0
  then have "k = length ns" by simp
  with 0 have "clone_loop malloc clone_func src h (Some dst) (nth_elem ns k) it = Some (0, h, Some dst)"
    by (subst clone_loop.simps) (simp add: osip_list_has_elem_at)
  moreover have "map snd ms = map snd ms @ map (f \<circ> snd) (drop k ns)" using \<open>k = length ns\<close> by simp
  ultimately show ?case using 0 by metis
next
  case (Suc n)
  then have k: "k < length ns" by simp
  have he: "osip_list_iterator_has_elem src it" using osip_list_has_elem_at [OF Suc.prems(1,4)] k by simp
  obtain a where a: "malloc h = Some a" using tot [OF Suc.prems(6)] by blast
  let ?ms = "ms @ [(a, f (snd (ns ! k)))]"
  obtain h1 dst1 where add: "osip_list_add malloc h (Some dst) (f (snd (ns ! k))) (-1)
      = Some (int (length ms) + 1, h1, Some dst1)"
    and at: "list_at h1 dst1 ?ms" and src: "list_at h1 src ns" and disj: "fst ` set ns \<inter> fst ` set ?ms = {}"
    using clone_append [OF fr a Suc.prems(1-3)] by metis
  obtain it1 where nx: "osip_list_get_next h1 src it = Some (nth_elem ns (Suc k), it1)"
    and it1: "iter_at ns (Suc k) it1"
    using osip_list_get_next_at [OF src Suc.prems(4) k] by metis
  have n: "n = length ns - Suc k" "Suc k \<le> length ns" using Suc.hyps(2) k by auto
  have "nth_elem ns k = Some (snd (ns ! k))" using k by (simp add: nth_elem_def)
  then have step: "clone_loop malloc clone_func src h (Some dst) (nth_elem ns k) it
      = clone_loop malloc clone_func src h1 (Some dst1) (nth_elem ns (Suc k)) it1"
    by (simp only:) (rule clone_loop_step [OF he _ add nx], rule cl)
  have "drop k ns = ns ! k # drop (Suc k) ns" using k by (metis Cons_nth_drop_Suc)
  then have "map snd ?ms @ map (f \<circ> snd) (drop (Suc k) ns) = map snd ms @ map (f \<circ> snd) (drop k ns)"
    by simp
  with Suc.hyps(1) [OF n(1) src at disj it1 n(2) osip_list_add_finite [OF add Suc.prems(6)]] step show ?case by metis
qed

section \<open>Properties of the list\<close>

text \<open>
  C4. On a well-formed list \<^verbatim>\<open>osip_list_add\<close> never dereferences an invalid pointer: when memory
  is available it returns the new size and the list holds the old elements with the new one
  inserted at the requested position (at the end for \<open>-1\<close> and for positions behind the end); when memory is exhausted it returns \<^verbatim>\<open>OSIP_NOMEM\<close> and changes
  nothing.
\<close>

theorem osip_list_add_refines:
  assumes "list_rep h l xs" and "fresh_alloc malloc"
  shows "case malloc h of
     None \<Rightarrow> osip_list_add malloc h (Some l) el pos = Some (OSIP_NOMEM, h, Some l)
   | Some a \<Rightarrow> \<exists>h' l'. osip_list_add malloc h (Some l) el pos = Some (int (length xs) + 1, h', Some l')
        \<and> list_rep h' l' (insert_at (insert_pos (length xs) pos) el xs)"
proof -
  obtain ns where ns: "list_at h l ns" "map snd ns = xs" using assms(1) by (auto simp: list_rep_def)
  have ins: "map snd (insert_at k (a, el) ns) = insert_at k el xs" for k a
    using ns(2) by (auto simp: insert_at_def take_map drop_map)
  have len: "length ns = length xs" using ns(2) by auto
  show ?thesis
  proof (cases "malloc h")
    case None
    then show ?thesis using osip_list_add_nomem [OF ns(1)] by simp
  next
    case (Some a)
    obtain h' l' where "osip_list_add malloc h (Some l) el pos = Some (int (length ns) + 1, h', Some l')"
      "list_at h' l' (insert_at (insert_pos (length ns) pos) (a, el) ns)"
      using osip_list_add_at [OF ns(1) assms(2) Some, of el pos] by blast
    moreover from this have "list_rep h' l' (insert_at (insert_pos (length xs) pos) el xs)"
      using ins len unfolding list_rep_def by metis
    ultimately show ?thesis using Some len by auto
  qed
qed

definition sample_heap :: "string heap" where
  "sample_heap = [0 \<mapsto> \<lparr>node_next = Some 1, node_element = ''a''\<rparr>, 1 \<mapsto> \<lparr>node_next = None, node_element = ''b''\<rparr>]"

definition sample_list :: osip_list where
  "sample_list = \<lparr>nb_elt = 2, list_node = Some 0\<rparr>"

text \<open>A bump allocator over the first five addresses.\<close>

definition sample_malloc :: "'a heap \<Rightarrow> addr option" where
  "sample_malloc h = find (\<lambda>a. h a = None) [0..<5]"

lemma sample_malloc_fresh: "fresh_alloc sample_malloc"
  unfolding fresh_alloc_def sample_malloc_def find_Some_iff by metis

lemma sample_list_rep: "list_rep sample_heap sample_list [''a'', ''b'']"
  unfolding list_rep_def
  by (rule exI [of _ "[(0, ''a''), (1, ''b'')]"])
     (simp add: list_at_def sample_list_def sample_heap_def)

lemma sample_malloc_heap: "sample_malloc sample_heap = Some 2"
  by (simp add: sample_malloc_def sample_heap_def upt_rec)

theorem osip_list_add_refines_witness:
  "\<exists>h' l'. osip_list_add sample_malloc sample_heap (Some sample_list) ''c'' 1 = Some (3, h', Some l')
     \<and> list_rep h' l' [''a'', ''c'', ''b'']"
  using osip_list_add_refines [OF sample_list_rep sample_malloc_fresh, of "''c''" 1]
  by (simp add: sample_malloc_heap insert_at_def insert_pos_def)

text \<open>
  C5. On a well-formed list \<^verbatim>\<open>osip_list_remove\<close> unlinks the node at the given position and returns
  the new size, without touching an invalid pointer; a position outside the list is refused with
  \<^verbatim>\<open>OSIP_UNDEFINED_ERROR\<close>.  \<^verbatim>\<open>osip_list_get\<close> returns the element at the position, or \<^verbatim>\<open>NULL\<close>.
\<close>

theorem osip_list_remove_refines:
  assumes "list_rep h l xs"
  shows "osip_list_get h (Some l) pos = Some (if 0 \<le> pos \<and> pos < int (length xs) then Some (xs ! nat pos) else None)
    \<and> (if 0 \<le> pos \<and> pos < int (length xs)
       then \<exists>h' l'. osip_list_remove h (Some l) pos = Some (int (length xs) - 1, h', Some l')
              \<and> list_rep h' l' (remove_at (nat pos) xs)
       else osip_list_remove h (Some l) pos = Some (OSIP_UNDEFINED_ERROR, h, Some l))"
proof -
  obtain ns where ns: "list_at h l ns" "map snd ns = xs" using assms by (auto simp: list_rep_def)
  then have len: "length ns = length xs" by auto
  have rem: "map snd (remove_at k ns) = remove_at k xs" for k
    using ns(2) by (auto simp: remove_at_def take_map drop_map)
  have get: "osip_list_get h (Some l) pos = Some (if 0 \<le> pos \<and> pos < int (length xs) then Some (xs ! nat pos) else None)"
    using osip_list_get_at [OF ns(1), of pos] unfolding ns(2) [symmetric] by auto
  show ?thesis
  proof (cases "0 \<le> pos \<and> pos < int (length xs)")
    case True
    then obtain h' l' where "osip_list_remove h (Some l) pos = Some (int (length ns) - 1, h', Some l')"
      "list_at h' l' (remove_at (nat pos) ns)"
      using osip_list_remove_at [OF ns(1), of pos] len by metis
    moreover from this have "list_rep h' l' (remove_at (nat pos) xs)"
      using rem unfolding list_rep_def by metis
    ultimately show ?thesis using get True len by auto
  next
    case False
    moreover have "nb_elt l = int (length xs)" using ns len by (simp add: list_at_def)
    ultimately show ?thesis using get by (auto simp: osip_list_remove_def)
  qed
qed

theorem osip_list_remove_refines_witness:
  "osip_list_get sample_heap (Some sample_list) 0 = Some (Some ''a'') \<and>
   (\<exists>h' l'. osip_list_remove sample_heap (Some sample_list) 0 = Some (1, h', Some l') \<and> list_rep h' l' [''b''])"
  using osip_list_remove_refines [OF sample_list_rep, of 0] by (simp add: remove_at_def)

text \<open>
  \<^verbatim>\<open>osip_list_clone\<close> into a fresh list fills it with the clones of the elements in order and
  leaves the source list as it was; \<^verbatim>\<open>osip_list_special_free\<close> hands every element to the free
  function exactly once, in order, and leaves an empty list whose nodes are all released.
\<close>

theorem osip_list_clone_and_free:
  assumes "list_rep h src xs" and "finite (dom h)"
    and "fresh_alloc malloc" and "\<And>h. finite (dom h) \<Longrightarrow> malloc h \<noteq> None"
    and "\<And>x. clone_func x = (OSIP_SUCCESS, f x)"
  shows "(\<exists>h' dst'. osip_list_clone malloc clone_func h src (snd (osip_list_init (Some dst))) = Some (OSIP_SUCCESS, h', Some dst')
            \<and> list_rep h' dst' (map f xs) \<and> list_rep h' src xs)
    \<and> (\<exists>h'. osip_list_special_free h (Some src) = Some (h', Some \<lparr>nb_elt = 0, list_node = None\<rparr>, map Some xs)
            \<and> dom h' \<subseteq> dom h)"
proof (rule conjI)
  obtain ns where ns: "list_at h src ns" "map snd ns = xs" using assms by (auto simp: list_rep_def)
  let ?dst = "\<lparr>nb_elt = 0, list_node = None\<rparr>"
  have dst: "list_at h ?dst []" by (simp add: list_at_def)
  obtain it where it: "osip_list_get_first h (Some src) = Some (nth_elem ns 0, it)" "iter_at ns 0 it"
    using osip_list_get_first_at [OF ns(1)] by metis
  obtain h' dst' ms' where r: "clone_loop malloc clone_func src h (Some ?dst) (nth_elem ns 0) it = Some (0, h', Some dst')"
    "list_at h' dst' ms'" "map snd ms' = map snd [] @ map (f \<circ> snd) (drop 0 ns)" "list_at h' src ns"
    using clone_loop_at [where f = f and clone_func = clone_func, OF assms(3-5) ns(1) dst _ it(2) _ assms(2)]
    by auto
  have "list_rep h' dst' (map f xs)" using r(2,3) ns(2) unfolding list_rep_def by auto
  moreover have "list_rep h' src xs" using r(4) ns(2) unfolding list_rep_def by auto
  ultimately show "\<exists>h' dst'. osip_list_clone malloc clone_func h src (snd (osip_list_init (Some dst))) = Some (OSIP_SUCCESS, h', Some dst')
            \<and> list_rep h' dst' (map f xs) \<and> list_rep h' src xs"
    using it r(1) by (simp add: osip_list_clone_def osip_list_init_def)
  obtain h2 l2 where f: "free_loop h src [] = Some (h2, l2, [] @ map (Some \<circ> snd) ns)" "list_at h2 l2 []"
    "\<forall>b. h2 b = (if b \<in> fst ` set ns then None else h b)"
    using free_loop_at [OF ns(1), of "[]"] by metis
  have "l2 = \<lparr>nb_elt = 0, list_node = None\<rparr>" using f(2) by (cases l2) (simp add: list_at_def)
  moreover have "map (Some \<circ> snd) ns = map Some xs" using ns(2) by auto
  moreover have "dom h2 \<subseteq> dom h" using f(3) by (auto simp: dom_def split: if_splits)
  ultimately show "\<exists>h'. osip_list_special_free h (Some src) = Some (h', Some \<lparr>nb_elt = 0, list_node = None\<rparr>, map Some xs)
            \<and> dom h' \<subseteq> dom h"
    using f(1) by (simp add: osip_list_special_free_def)
qed

definition least_malloc :: "'a heap \<Rightarrow> addr option" where
  "least_malloc h = (if \<exists>a. h a = None then Some (LEAST a. h a = None) else None)"

lemma least_malloc_fresh: "fresh_alloc least_malloc"
  by (auto simp: fresh_alloc_def least_malloc_def intro: LeastI split: if_splits)

lemma least_malloc_total: "finite (dom h) \<Longrightarrow> least_malloc h \<noteq> None"
proof -
  assume "finite (dom h)"
  then obtain a where "a \<notin> dom h" using ex_new_if_finite [OF infinite_UNIV_nat] by blast
  then show ?thesis by (auto simp: least_malloc_def)
qed

theorem osip_list_clone_and_free_witness:
  "\<exists>h' dst'. osip_list_clone least_malloc (\<lambda>x. (OSIP_SUCCESS, x)) sample_heap sample_list
       (snd (osip_list_init (Some sample_list))) = Some (OSIP_SUCCESS, h', Some dst')
     \<and> list_rep h' dst' [''a'', ''b''] \<and> list_rep h' sample_list [''a'', ''b'']"
proof -
  have "finite (dom sample_heap)" by (simp add: sample_heap_def)
  from osip_list_clone_and_free [OF sample_list_rep this least_malloc_fresh least_malloc_total,
      where f = "\<lambda>x. x" and clone_func = "\<lambda>x. (OSIP_SUCCESS, x)" and dst = sample_list]
  show ?thesis by simp
qed

end
