(* ===== verification/Osip_Fifo.thy ===== *)
theory Osip_Fifo
  imports Osip_List
begin

text \<open>
  The fifo of \<^verbatim>\<open>osip/src/osip2/port_fifo.c\<close>: a linked list, a state flag and the semaphore
  \<^verbatim>\<open>qisempty\<close> that counts the posted elements.  The mutex \<^verbatim>\<open>qislocked\<close> makes every operation atomic,
  so a concurrent use is a sequence of operations.  The interface of a queue is the locale
  \<open>event_queue\<close>; the fifo over any allocator that finds a free cell implements it.
\<close>

section \<open>The code\<close>

datatype osip_fifo_state = osip_ok | osip_empty

record osip_fifo =
  queue :: osip_list
  fifo_state :: osip_fifo_state
  qisempty :: nat

definition osip_fifo_init :: osip_fifo where
  "osip_fifo_init = \<lparr>queue = \<lparr>nb_elt = 0, list_node = None\<rparr>, fifo_state = osip_empty, qisempty = 0\<rparr>"

text \<open>The code of \<^verbatim>\<open>osip_fifo_add\<close> and \<^verbatim>\<open>osip_fifo_insert\<close> after the lock; the result of
  \<^verbatim>\<open>osip_list_add\<close> is dropped.\<close>

definition fifo_put ::
  "('a heap \<Rightarrow> addr option) \<Rightarrow> int \<Rightarrow> 'a \<Rightarrow> 'a heap \<Rightarrow> osip_fifo \<Rightarrow> (int \<times> 'a heap \<times> osip_fifo) option" where
  "fifo_put malloc pos el h ff = do {
     (rc, h', q) \<leftarrow> osip_list_add malloc h (Some (queue ff)) el pos;
     q' \<leftarrow> q;
     Some (OSIP_SUCCESS, h', ff\<lparr>queue := q', fifo_state := osip_ok, qisempty := qisempty ff + 1\<rparr>) }"

definition osip_fifo_add ::
  "('a heap \<Rightarrow> addr option) \<Rightarrow> 'a \<Rightarrow> 'a heap \<Rightarrow> osip_fifo \<Rightarrow> (int \<times> 'a heap \<times> osip_fifo) option" where
  "osip_fifo_add malloc el h ff = fifo_put malloc (-1) el h ff"

definition osip_fifo_insert ::
  "('a heap \<Rightarrow> addr option) \<Rightarrow> 'a \<Rightarrow> 'a heap \<Rightarrow> osip_fifo \<Rightarrow> (int \<times> 'a heap \<times> osip_fifo) option" where
  "osip_fifo_insert malloc el h ff = fifo_put malloc 0 el h ff"

definition osip_fifo_size :: "osip_fifo \<Rightarrow> int" where
  "osip_fifo_size ff = osip_list_size (Some (queue ff))"

text \<open>The part that \<^verbatim>\<open>osip_fifo_get\<close> and \<^verbatim>\<open>osip_fifo_tryget\<close> run after the semaphore was taken.\<close>

definition fifo_take :: "'a heap \<Rightarrow> osip_fifo \<Rightarrow> ('a option \<times> 'a heap \<times> osip_fifo) option" where
  "fifo_take h ff =
     (if fifo_state ff \<noteq> osip_empty then do {
        el \<leftarrow> osip_list_get h (Some (queue ff)) 0;
        (rc, h', q) \<leftarrow> osip_list_remove h (Some (queue ff)) 0;
        q' \<leftarrow> q;
        Some (el, h', ff\<lparr>queue := q',
          fifo_state := (if osip_list_size (Some q') \<le> 0 then osip_empty else osip_ok)\<rparr>) }
      else Some (None, h, ff))"

text \<open>\<open>Blocked\<close>: the thread waits in \<^verbatim>\<open>osip_sem_wait\<close>.\<close>

datatype 'r blocking = Blocked | Returned 'r

definition osip_fifo_get :: "'a heap \<Rightarrow> osip_fifo \<Rightarrow> ('a option \<times> 'a heap \<times> osip_fifo) blocking option" where
  "osip_fifo_get h ff =
     (if qisempty ff = 0 then Some Blocked
      else map_option Returned (fifo_take h (ff\<lparr>qisempty := qisempty ff - 1\<rparr>)))"

definition osip_fifo_tryget :: "'a heap \<Rightarrow> osip_fifo \<Rightarrow> ('a option \<times> 'a heap \<times> osip_fifo) option" where
  "osip_fifo_tryget h ff =
     (if qisempty ff = 0 then Some (None, h, ff)
      else fifo_take h (ff\<lparr>qisempty := qisempty ff - 1\<rparr>))"

section \<open>The interface of a queue\<close>

datatype 'a queue_op = Add 'a | Insert 'a | Tryget

fun spec_step :: "'a queue_op \<Rightarrow> 'a list \<Rightarrow> 'a option list \<times> 'a list" where
  "spec_step (Add x) xs = ([], xs @ [x])"
| "spec_step (Insert x) xs = ([], x # xs)"
| "spec_step Tryget [] = ([None], [])"
| "spec_step Tryget (x # xs) = ([Some x], xs)"

fun spec_run :: "'a queue_op list \<Rightarrow> 'a list \<Rightarrow> 'a option list \<times> 'a list" where
  "spec_run [] xs = ([], xs)"
| "spec_run (op # ops) xs =
     (case spec_step op xs of (out, ys) \<Rightarrow> case spec_run ops ys of (out', zs) \<Rightarrow> (out @ out', zs))"

text \<open>The elements put at the end, and the elements delivered.\<close>

fun added :: "'a queue_op list \<Rightarrow> 'a list" where
  "added [] = []"
| "added (Add x # ops) = x # added ops"
| "added (op # ops) = added ops"

fun no_insert :: "'a queue_op list \<Rightarrow> bool" where
  "no_insert [] = True"
| "no_insert (Insert x # ops) = False"
| "no_insert (op # ops) = no_insert ops"

definition delivered :: "'a option list \<Rightarrow> 'a list" where
  "delivered out = List.map_filter (\<lambda>x. x) out"

lemma delivered_simps [simp]:
  "delivered [] = []" "delivered (Some x # out) = x # delivered out" "delivered (None # out) = delivered out"
  by (simp_all add: delivered_def List.map_filter_def)

lemma spec_run_fifo:
  "no_insert ops \<Longrightarrow> spec_run ops xs = (out, ys) \<Longrightarrow> delivered out @ ys = xs @ added ops"
proof (induction ops arbitrary: xs out ys)
  case (Cons op ops)
  then show ?case
    by (cases op; cases xs) (fastforce split: prod.splits)+
qed simp

text \<open>A sequence of calls on an implementation: the results of the \<^verbatim>\<open>tryget\<close> calls and the final state.\<close>

fun queue_step ::
  "('a \<Rightarrow> 's \<Rightarrow> 's option) \<Rightarrow> ('a \<Rightarrow> 's \<Rightarrow> 's option) \<Rightarrow> ('s \<Rightarrow> ('a option \<times> 's) option)
   \<Rightarrow> 'a queue_op \<Rightarrow> 's \<Rightarrow> ('a option list \<times> 's) option" where
  "queue_step add push tryget (Add x) s = map_option (\<lambda>s'. ([], s')) (add x s)"
| "queue_step add push tryget (Insert x) s = map_option (\<lambda>s'. ([], s')) (push x s)"
| "queue_step add push tryget Tryget s = map_option (\<lambda>(r, s'). ([r], s')) (tryget s)"

fun queue_run ::
  "('a \<Rightarrow> 's \<Rightarrow> 's option) \<Rightarrow> ('a \<Rightarrow> 's \<Rightarrow> 's option) \<Rightarrow> ('s \<Rightarrow> ('a option \<times> 's) option)
   \<Rightarrow> 'a queue_op list \<Rightarrow> 's \<Rightarrow> ('a option list \<times> 's) option" where
  "queue_run add push tryget [] s = Some ([], s)"
| "queue_run add push tryget (op # ops) s =
     (case queue_step add push tryget op s of
        None \<Rightarrow> None
      | Some (out, s') \<Rightarrow>
          map_option (\<lambda>(out', s''). (out @ out', s'')) (queue_run add push tryget ops s'))"

locale event_queue =
  fixes rep :: "'s \<Rightarrow> 'a list \<Rightarrow> bool"
    and add :: "'a \<Rightarrow> 's \<Rightarrow> 's option"
    and push :: "'a \<Rightarrow> 's \<Rightarrow> 's option"
    and tryget :: "'s \<Rightarrow> ('a option \<times> 's) option"
  assumes add_ok: "rep s xs \<Longrightarrow> \<exists>s'. add x s = Some s' \<and> rep s' (xs @ [x])"
    and push_ok: "rep s xs \<Longrightarrow> \<exists>s'. push x s = Some s' \<and> rep s' (x # xs)"
    and tryget_empty: "rep s [] \<Longrightarrow> \<exists>s'. tryget s = Some (None, s') \<and> rep s' []"
    and tryget_first: "rep s (x # xs) \<Longrightarrow> \<exists>s'. tryget s = Some (Some x, s') \<and> rep s' xs"
begin

abbreviation step where "step \<equiv> queue_step add push tryget"
abbreviation run where "run \<equiv> queue_run add push tryget"

lemma step_refines:
  "rep s xs \<Longrightarrow> spec_step op xs = (out, ys) \<Longrightarrow> \<exists>s'. step op s = Some (out, s') \<and> rep s' ys"
  using add_ok [of s xs] push_ok [of s xs] tryget_empty [of s] tryget_first [of s]
  by (cases "(op, xs)" rule: spec_step.cases) force+

lemma run_refines:
  "rep s xs \<Longrightarrow> spec_run ops xs = (out, ys) \<Longrightarrow> \<exists>s'. run ops s = Some (out, s') \<and> rep s' ys"
proof (induction ops arbitrary: s xs out ys)
  case (Cons op ops)
  obtain o1 zs where st: "spec_step op xs = (o1, zs)" by fastforce
  with Cons.prems(2) obtain o2 where o2: "spec_run ops zs = (o2, ys)" "out = o1 @ o2"
    by (auto split: prod.splits)
  from step_refines [OF Cons.prems(1) st] obtain s1 where "step op s = Some (o1, s1)" "rep s1 zs" by blast
  with Cons.IH [of s1 zs o2 ys] o2 show ?case by auto
qed auto

lemma run_delivers_in_order:
  assumes "rep s xs" "no_insert ops"
  shows "\<exists>out s' ys. run ops s = Some (out, s') \<and> rep s' ys \<and> delivered out @ ys = xs @ added ops"
proof -
  obtain out ys where r: "spec_run ops xs = (out, ys)" by fastforce
  with run_refines [OF assms(1) r] spec_run_fifo [OF assms(2) r] show ?thesis by blast
qed

end

section \<open>The fifo implements the interface\<close>

definition fifo_rep :: "'a heap \<times> osip_fifo \<Rightarrow> 'a list \<Rightarrow> bool" where
  "fifo_rep s xs \<longleftrightarrow> (case s of (h, ff) \<Rightarrow>
     list_rep h (queue ff) xs \<and> qisempty ff = length xs \<and>
     fifo_state ff = (if xs = [] then osip_empty else osip_ok) \<and> finite (dom h))"

definition fifo_add_op :: "('a heap \<Rightarrow> addr option) \<Rightarrow> 'a \<Rightarrow> 'a heap \<times> osip_fifo \<Rightarrow> ('a heap \<times> osip_fifo) option" where
  "fifo_add_op malloc el s = map_option snd (osip_fifo_add malloc el (fst s) (snd s))"

definition fifo_insert_op :: "('a heap \<Rightarrow> addr option) \<Rightarrow> 'a \<Rightarrow> 'a heap \<times> osip_fifo \<Rightarrow> ('a heap \<times> osip_fifo) option" where
  "fifo_insert_op malloc el s = map_option snd (osip_fifo_insert malloc el (fst s) (snd s))"

definition fifo_tryget_op :: "'a heap \<times> osip_fifo \<Rightarrow> ('a option \<times> 'a heap \<times> osip_fifo) option" where
  "fifo_tryget_op s = osip_fifo_tryget (fst s) (snd s)"

lemma list_rep_add:
  assumes "list_rep h l xs" "fresh_alloc malloc" "malloc h = Some a"
  shows "\<exists>h' l'. osip_list_add malloc h (Some l) el pos = Some (int (length xs) + 1, h', Some l')
     \<and> list_rep h' l' (insert_at (insert_pos (length xs) pos) el xs)"
proof -
  obtain ns where ns: "list_at h l ns" "map snd ns = xs" using assms(1) by (auto simp: list_rep_def)
  obtain h' l' where "osip_list_add malloc h (Some l) el pos = Some (int (length ns) + 1, h', Some l')"
    "list_at h' l' (insert_at (insert_pos (length ns) pos) (a, el) ns)"
    using osip_list_add_at [OF ns(1) assms(2,3), of el pos] by blast
  moreover have "map snd (insert_at k (a, el) ns) = insert_at k el xs" for k
    using ns(2) by (auto simp: insert_at_def take_map drop_map)
  moreover have "length ns = length xs" using ns(2) by auto
  ultimately show ?thesis unfolding list_rep_def by metis
qed

lemma list_rep_get_remove_first:
  assumes "list_rep h l (x # xs)" "finite (dom h)"
  shows "osip_list_get h (Some l) 0 = Some (Some x) \<and>
     (\<exists>rc h' l'. osip_list_remove h (Some l) 0 = Some (rc, h', Some l') \<and> list_rep h' l' xs \<and> finite (dom h'))"
proof -
  obtain a ms where ns: "list_at h l ((a, x) # ms)" "map snd ms = xs"
    using assms by (auto simp: list_rep_def)
  obtain nd where nd: "list_node l = Some a" "h a = Some nd" using ns(1) by (auto simp: list_at_def)
  have "list_at (h(a := None)) (l\<lparr>list_node := node_next nd, nb_elt := nb_elt l - 1\<rparr>) ms"
    using ns(1) nd by (auto simp: list_at_def lseg_upd)
  moreover have "0 < nb_elt l" using ns(1) by (simp add: list_at_def)
  moreover have "osip_list_get h (Some l) 0 = Some (Some x)" using osip_list_get_at [OF ns(1), of 0] by simp
  ultimately show ?thesis
    using nd ns(2) assms(2) by (auto simp: osip_list_remove_def list_rep_def)
qed

lemma fifo_put_rep:
  assumes s: "fifo_rep (h, ff) xs" and fr: "fresh_alloc malloc" and a: "malloc h = Some a"
  shows "\<exists>h' ff'. fifo_put malloc pos el h ff = Some (OSIP_SUCCESS, h', ff') \<and>
     fifo_rep (h', ff') (insert_at (insert_pos (length xs) pos) el xs)"
proof -
  have rep: "list_rep h (queue ff) xs" using s by (simp add: fifo_rep_def)
  obtain h' l' where add: "osip_list_add malloc h (Some (queue ff)) el pos = Some (int (length xs) + 1, h', Some l')"
    and l': "list_rep h' l' (insert_at (insert_pos (length xs) pos) el xs)"
    using list_rep_add [OF rep fr a] by blast
  have "finite (dom h')" using osip_list_add_finite [OF add] s by (simp add: fifo_rep_def)
  with add l' s show ?thesis by (simp add: fifo_put_def fifo_rep_def insert_at_def)
qed

lemma fifo_rep_size: "fifo_rep (h, ff) xs \<Longrightarrow> osip_fifo_size ff = int (length xs)"
  by (auto simp: fifo_rep_def osip_fifo_size_def osip_list_size_def list_rep_def list_at_def)

lemma fifo_take_rep:
  assumes "list_rep h (queue ff) (x # xs)" "fifo_state ff = osip_ok" "qisempty ff = length xs" "finite (dom h)"
  shows "\<exists>h' ff'. fifo_take h ff = Some (Some x, h', ff') \<and> fifo_rep (h', ff') xs"
proof -
  obtain rc h' l' where r: "osip_list_get h (Some (queue ff)) 0 = Some (Some x)"
    "osip_list_remove h (Some (queue ff)) 0 = Some (rc, h', Some l')" "list_rep h' l' xs" "finite (dom h')"
    using list_rep_get_remove_first [OF assms(1,4)] by blast
  have "nb_elt l' = int (length xs)" using r(3) by (auto simp: list_rep_def list_at_def)
  with r assms show ?thesis by (simp add: fifo_take_def fifo_rep_def osip_list_size_def)
qed

locale allocator =
  fixes malloc :: "'a heap \<Rightarrow> addr option"
  assumes malloc_fresh: "fresh_alloc malloc"
    and malloc_total: "finite (dom h) \<Longrightarrow> malloc h \<noteq> None"
begin

lemma malloc_ok: "fifo_rep (h, ff) xs \<Longrightarrow> \<exists>a. malloc h = Some a"
  using malloc_total [of h] by (simp add: fifo_rep_def)

end

sublocale allocator \<subseteq> fifo: event_queue fifo_rep "fifo_add_op malloc" "fifo_insert_op malloc" fifo_tryget_op
proof
  fix s :: "'a heap \<times> osip_fifo" and xs x
  obtain h ff where s: "s = (h, ff)" by fastforce
  show "\<exists>s'. fifo_add_op malloc x s = Some s' \<and> fifo_rep s' (xs @ [x])" if rep: "fifo_rep s xs"
  proof -
    obtain a where a: "malloc h = Some a" using malloc_ok rep s by blast
    from fifo_put_rep [OF _ malloc_fresh a, of ff xs "-1" x] rep s show ?thesis
      by (force simp: fifo_add_op_def osip_fifo_add_def insert_at_end)
  qed
  show "\<exists>s'. fifo_insert_op malloc x s = Some s' \<and> fifo_rep s' (x # xs)" if rep: "fifo_rep s xs"
  proof -
    obtain a where a: "malloc h = Some a" using malloc_ok rep s by blast
    have "insert_at (insert_pos (length xs) 0) x xs = x # xs" by (simp add: insert_at_def insert_pos_def)
    with fifo_put_rep [OF _ malloc_fresh a, of ff xs 0 x] rep s show ?thesis
      by (force simp: fifo_insert_op_def osip_fifo_insert_def)
  qed
  show "\<exists>s'. fifo_tryget_op s = Some (None, s') \<and> fifo_rep s' []" if "fifo_rep s []"
    using that s by (simp add: fifo_tryget_op_def osip_fifo_tryget_def fifo_rep_def)
  show "\<exists>s'. fifo_tryget_op s = Some (Some x, s') \<and> fifo_rep s' xs" if "fifo_rep s (x # xs)"
    using that s fifo_take_rep [of h "ff\<lparr>qisempty := length xs\<rparr>" x xs]
    by (auto simp: fifo_tryget_op_def osip_fifo_tryget_def fifo_rep_def)
qed

lemma fifo_rep_init: "fifo_rep (Map.empty, osip_fifo_init) []"
  by (auto simp: fifo_rep_def osip_fifo_init_def list_rep_def list_at_def)

context allocator
begin

lemmas fifo_delivers_in_order = fifo.run_delivers_in_order [OF fifo_rep_init]

end

interpretation heap_fifo: allocator least_malloc
  by unfold_locales (simp_all add: least_malloc_fresh least_malloc_total)

section \<open>Properties of the fifo\<close>

text \<open>
  C6. Any sequence of \<^verbatim>\<open>osip_fifo_add\<close> and \<^verbatim>\<open>osip_fifo_tryget\<close> calls on a fresh fifo, from whichever
  threads, runs without an invalid memory access and delivers the added elements in the order
  of their addition, each once: what was delivered followed by what is still queued is what
  was added; \<^verbatim>\<open>osip_fifo_size\<close> and the semaphore count what is queued.
\<close>

theorem osip_fifo_in_order:
  assumes "fresh_alloc malloc" and "\<And>h. finite (dom h) \<Longrightarrow> malloc h \<noteq> None" and "no_insert ops"
  shows "\<exists>out h' ff' ys.
     queue_run (fifo_add_op malloc) (fifo_insert_op malloc) fifo_tryget_op ops (Map.empty, osip_fifo_init)
       = Some (out, (h', ff'))
     \<and> delivered out @ ys = added ops \<and> osip_fifo_size ff' = int (length ys) \<and> qisempty ff' = length ys"
proof -
  have al: "allocator malloc" using assms(1,2) by unfold_locales
  obtain out s' ys where
    "queue_run (fifo_add_op malloc) (fifo_insert_op malloc) fifo_tryget_op ops (Map.empty, osip_fifo_init)
       = Some (out, s')" "fifo_rep s' ys" "delivered out @ ys = [] @ added ops"
    using allocator.fifo_delivers_in_order [OF al assms(3)] by blast
  moreover obtain h' ff' where "s' = (h', ff')" by fastforce
  ultimately show ?thesis using fifo_rep_size by (fastforce simp: fifo_rep_def)
qed

theorem osip_fifo_in_order_witness:
  "\<exists>out h' ff' ys.
     queue_run (fifo_add_op least_malloc) (fifo_insert_op least_malloc) fifo_tryget_op
       [Add ''a'', Add ''b'', Tryget, Add ''c''] (Map.empty, osip_fifo_init) = Some (out, (h', ff'))
     \<and> delivered out @ ys = [''a'', ''b'', ''c''] \<and> osip_fifo_size ff' = int (length ys)"
  using osip_fifo_in_order [OF least_malloc_fresh least_malloc_total,
      of "[Add ''a'', Add ''b'', Tryget, Add ''c'']"]
  by auto

text \<open>
  C7. When memory is exhausted \<^verbatim>\<open>osip_fifo_add\<close> drops the element and still returns
  \<^verbatim>\<open>OSIP_SUCCESS\<close>: the queue holds what it held, but the semaphore counts one element more.
\<close>

theorem osip_fifo_add_nomem:
  assumes "fifo_rep (h, ff) xs" and "malloc h = None"
  shows "\<exists>ff'. osip_fifo_add malloc el h ff = Some (OSIP_SUCCESS, h, ff') \<and>
     list_rep h (queue ff') xs \<and> qisempty ff' = length xs + 1"
proof -
  obtain ns where ns: "list_at h (queue ff) ns" using assms(1) by (auto simp: fifo_rep_def list_rep_def)
  show ?thesis using osip_list_add_nomem [where el = el and pos = "-1" and malloc = malloc, OF ns assms(2)] assms(1)
    by (simp add: osip_fifo_add_def fifo_put_def fifo_rep_def)
qed

theorem osip_fifo_add_nomem_witness:
  "\<exists>ff'. osip_fifo_add (\<lambda>h. None) ''a'' Map.empty osip_fifo_init = Some (OSIP_SUCCESS, Map.empty, ff')
     \<and> qisempty ff' = 1"
  using osip_fifo_add_nomem [OF fifo_rep_init, of "\<lambda>h. None" "''a''"] by auto

end
