(* ===== verification/Osip_Port.thy ===== *)
theory Osip_Port
  imports Osip_Prelude
begin

unbundle bit_operations_syntax

text \<open>
  The C string helpers of \<^verbatim>\<open>osip/src/osipparser2/osip_port.c\<close> and the standard library
  functions that they and the header parsers call, in the Windows configuration the solution
  builds (\<^verbatim>\<open>WIN32\<close>, no \<^verbatim>\<open>MINISIZE\<close>).  A pointer into a string \<open>s\<close> is an offset into it;
  \<open>chr_at s i\<close> reads the character there and yields the zero byte at the end of the string.
\<close>

section \<open>Standard library functions\<close>

definition NUL :: char where "NUL = CHR 0x00"
definition CR :: char where "CR = CHR 0x0D"
definition LF :: char where "LF = CHR 0x0A"
definition HT :: char where "HT = CHR 0x09"
definition DQUOTE :: char where "DQUOTE = CHR 0x22"
definition BSLASH :: char where "BSLASH = CHR 0x5C"

lemmas char_defs = NUL_def CR_def LF_def HT_def DQUOTE_def BSLASH_def

definition chr_at :: "string \<Rightarrow> nat \<Rightarrow> char" where
  "chr_at s i = (if i < length s then s ! i else NUL)"

text \<open>\<^verbatim>\<open>strchr (s + i, c)\<close>, as an offset into \<open>s\<close>.\<close>

definition strchr :: "string \<Rightarrow> nat \<Rightarrow> char \<Rightarrow> nat option" where
  "strchr s i c =
     (let k = length (takeWhile (\<lambda>x. x \<noteq> c) (drop i s))
      in if i + k < length s then Some (i + k) else None)"

text \<open>\<open>n\<close> characters from offset \<open>i\<close>, cut short by the end of the string: what
  \<^verbatim>\<open>osip_strncpy (dest, s + i, n)\<close> leaves in \<^verbatim>\<open>dest\<close>.\<close>

definition osip_strncpy :: "string \<Rightarrow> nat \<Rightarrow> nat \<Rightarrow> string" where
  "osip_strncpy s i n = take n (drop i s)"

definition tolower :: "char \<Rightarrow> char" where
  "tolower c = (let n = (of_char c :: nat) in if 65 \<le> n \<and> n \<le> 90 then char_of (n + 32) else c)"

text \<open>\<^verbatim>\<open>_stricmp\<close>: the difference of the first lower-cased characters that differ.\<close>

fun stricmp :: "string \<Rightarrow> string \<Rightarrow> int" where
  "stricmp [] [] = 0"
| "stricmp [] (b # bs) = - int (of_char (tolower b))"
| "stricmp (a # as) [] = int (of_char (tolower a))"
| "stricmp (a # as) (b # bs) =
     (if tolower a = tolower b then stricmp as bs
      else int (of_char (tolower a)) - int (of_char (tolower b)))"

definition isspace :: "char \<Rightarrow> bool" where
  "isspace c = (let n = (of_char c :: nat) in n = 32 \<or> (9 \<le> n \<and> n \<le> 13))"

definition isdigit :: "char \<Rightarrow> bool" where
  "isdigit c = (let n = (of_char c :: nat) in 48 \<le> n \<and> n \<le> 57)"

definition digits_value :: "string \<Rightarrow> int" where
  "digits_value ds = foldl (\<lambda>a c. 10 * a + (int (of_char c) - 48)) 0 ds"

definition INT_MAX :: int where "INT_MAX = 2147483647"
definition INT_MIN :: int where "INT_MIN = - 2147483648"

text \<open>\<^verbatim>\<open>atoi\<close>: white space, an optional sign, decimal digits; out of range it saturates, as
  the Microsoft runtime documents.\<close>

definition atoi :: "string \<Rightarrow> int" where
  "atoi s =
     (let t = dropWhile isspace s;
          neg = (t \<noteq> [] \<and> hd t = CHR ''-'');
          u = (if t \<noteq> [] \<and> (hd t = CHR ''-'' \<or> hd t = CHR ''+'') then tl t else t);
          n = digits_value (takeWhile isdigit u)
      in max INT_MIN (min INT_MAX (if neg then - n else n)))"

section \<open>Comparison, copying, conversion\<close>

definition osip_strcasecmp :: "string \<Rightarrow> string \<Rightarrow> int" where
  "osip_strcasecmp s1 s2 = stricmp s1 s2"

definition osip_strncasecmp :: "string \<Rightarrow> string \<Rightarrow> nat \<Rightarrow> int" where
  "osip_strncasecmp s1 s2 len = stricmp (take len s1) (take len s2)"

definition osip_strdup :: "string option \<Rightarrow> string option" where
  "osip_strdup ch = (case ch of None \<Rightarrow> None | Some s \<Rightarrow> Some (osip_strncpy s 0 (length s)))"

definition osip_atoi :: "string \<Rightarrow> int" where
  "osip_atoi number = atoi number"

definition osip_tolower :: "string \<Rightarrow> string" where
  "osip_tolower word = map tolower word"

text \<open>
  \<^verbatim>\<open>osip_strdup_without_quote\<close>.  \<open>None\<close> stands for the write in front of the buffer: with
  the argument \<^verbatim>\<open>"\<close> the copy is empty and the terminating zero goes to \<^verbatim>\<open>copy - 1\<close>.
\<close>

definition osip_strdup_without_quote :: "string \<Rightarrow> string option" where
  "osip_strdup_without_quote ch =
     (if chr_at ch 0 = DQUOTE then
        (let copy = osip_strncpy ch 1 (length ch - 1)
         in if copy = [] then None else Some (take (length copy - 1) copy))
      else Some (osip_strncpy ch 0 (length ch)))"

text \<open>\<^verbatim>\<open>osip_strcasestr\<close>: \<open>needle\<close> is \<open>c # rest\<close> in the loop, \<open>pos\<close> the offset reached.\<close>

fun strcasestr_loop :: "char \<Rightarrow> string \<Rightarrow> string \<Rightarrow> nat \<Rightarrow> nat option" where
  "strcasestr_loop c rest [] pos = None"
| "strcasestr_loop c rest (sc # haystack) pos =
     (if tolower sc = c \<and> osip_strncasecmp haystack rest (length rest) = 0 then Some pos
      else strcasestr_loop c rest haystack (Suc pos))"

definition osip_strcasestr :: "string \<Rightarrow> string \<Rightarrow> nat option" where
  "osip_strcasestr haystack needle =
     (case needle of [] \<Rightarrow> Some 0
      | c # rest \<Rightarrow> strcasestr_loop (tolower c) rest haystack 0)"

text \<open>\<^verbatim>\<open>osip_hash\<close>: \<^verbatim>\<open>char\<close> is signed, so a byte above 127 is sign-extended when it is
  added to the 32-bit accumulator.\<close>

definition osip_hash :: "string \<Rightarrow> 32 word" where
  "osip_hash str =
     foldl (\<lambda>hash c. (push_bit 5 hash + hash) + signed (of_char c :: 8 word)) 5381 str
       AND 0xFFFFFFFF"

section \<open>Removing white space\<close>

definition is_lws :: "char \<Rightarrow> bool" where
  "is_lws c \<longleftrightarrow> c = CHR '' '' \<or> c = CR \<or> c = LF \<or> c = HT"

text \<open>The forward loop over \<^verbatim>\<open>pbeg\<close> and the backward loop over \<^verbatim>\<open>pend\<close>; \<open>None\<close> is the early
  exit \<^verbatim>\<open>pend < pbeg\<close>.\<close>

definition skip_lws :: "string \<Rightarrow> nat \<Rightarrow> nat" where
  "skip_lws s i = i + length (takeWhile is_lws (drop i s))"

fun clr_pend :: "string \<Rightarrow> nat \<Rightarrow> nat \<Rightarrow> nat option" where
  "clr_pend s pbeg pend =
     (if is_lws (chr_at s pend) then
        (if pend = 0 \<or> pend - 1 < pbeg then None else clr_pend s pbeg (pend - 1))
      else Some pend)"

declare clr_pend.simps [simp del]

definition osip_clrspace :: "string option \<Rightarrow> int \<times> string option" where
  "osip_clrspace word =
     (case word of
        None \<Rightarrow> (OSIP_UNDEFINED_ERROR, None)
      | Some w \<Rightarrow>
          if w = [] then (OSIP_SUCCESS, Some w)
          else (let pbeg = skip_lws w 0
                in case clr_pend w pbeg (length w - 1) of
                     None \<Rightarrow> (OSIP_SUCCESS, Some [])
                   | Some pend \<Rightarrow> (OSIP_SUCCESS, Some (take (pend + 1 - pbeg) (drop pbeg w)))))"

text \<open>
  \<^verbatim>\<open>osip_clrncpy (dst, s + src, len)\<close>: the string it leaves in \<^verbatim>\<open>dst\<close>.  The parsers call it with
  \<open>len > 0\<close>, or with \<open>len = 0\<close> just behind a separator at the end of the string.
\<close>

definition osip_clrncpy :: "string \<Rightarrow> nat \<Rightarrow> nat \<Rightarrow> string" where
  "osip_clrncpy s src len =
     (let pbeg = skip_lws s src
      in case clr_pend s pbeg (src + len - 1) of
           None \<Rightarrow> []
         | Some pend \<Rightarrow> take (pend + 1 - pbeg) (drop pbeg s))"

section \<open>Tokens and quoted strings\<close>

text \<open>\<^verbatim>\<open>__osip_set_next_token\<close>: return code, \<^verbatim>\<open>*dest\<close> and \<^verbatim>\<open>*next\<close>.\<close>

definition osip_set_next_token ::
  "string \<Rightarrow> nat \<Rightarrow> char \<Rightarrow> int \<times> string option \<times> nat option" where
  "osip_set_next_token s buf end_separator =
     (let sep = buf + length (takeWhile (\<lambda>x. x \<noteq> end_separator \<and> x \<noteq> CR \<and> x \<noteq> LF) (drop buf s));
          c = chr_at s sep
      in if (c = CR \<or> c = LF) \<and> c \<noteq> end_separator then (OSIP_UNDEFINED_ERROR, None, None)
         else if sep \<ge> length s then (OSIP_UNDEFINED_ERROR, None, None)
         else if sep = buf then (OSIP_UNDEFINED_ERROR, None, None)
         else (OSIP_SUCCESS, Some (osip_strncpy s buf (sep - buf)), Some (sep + 1)))"

text \<open>
  \<^verbatim>\<open>__osip_quote_find\<close>: \<open>q\<close> is \<^verbatim>\<open>qstring\<close>, \<open>quote - i\<close> the position examined.  The second half
  of the body is the test \<^verbatim>\<open>quote - i == qstring - 1\<close>.
\<close>

lemma strchr_bounds: "strchr s i c = Some j \<Longrightarrow> i \<le> j \<and> j < length s"
  by (auto simp: strchr_def Let_def split: if_splits)

function quote_find_loop :: "string \<Rightarrow> nat \<Rightarrow> nat \<Rightarrow> nat \<Rightarrow> nat option" where
  "quote_find_loop s q quote i =
     (let back = (i \<le> quote \<and> chr_at s (quote - i) = BSLASH)
      in if \<not> back \<and> i mod 2 = 1 then Some quote
         else
           (case (if back then Some (quote, i + 1)
                  else map_option (\<lambda>q'. (q', 1)) (strchr s (quote + 1) DQUOTE)) of
              None \<Rightarrow> None
            | Some (quote', i') \<Rightarrow>
                if quote' + 1 = q + i' then
                  (if (if chr_at s q = BSLASH then i' + 1 else i') mod 2 = 0 then Some quote'
                   else (case strchr s (quote' + 1) DQUOTE of
                           None \<Rightarrow> None
                         | Some quote'' \<Rightarrow> quote_find_loop s (quote' + 1) quote'' 1))
                else quote_find_loop s q quote' i'))"
  by pat_completeness auto
termination
  by (relation "measures [\<lambda>(s, q, quote, i). length s - quote, \<lambda>(s, q, quote, i). quote + 1 - i]")
     (auto split: if_splits dest!: strchr_bounds)

declare quote_find_loop.simps [simp del]

definition osip_quote_find :: "string \<Rightarrow> nat \<Rightarrow> nat option" where
  "osip_quote_find s qstring =
     (case strchr s qstring DQUOTE of
        None \<Rightarrow> None
      | Some quote \<Rightarrow> if quote = qstring then Some quote else quote_find_loop s qstring quote 1)"

definition enquote_char :: "char \<Rightarrow> string" where
  "enquote_char c =
     (if c = DQUOTE \<or> c = BSLASH \<or> c = CHR 0x7F then [BSLASH, c]
      else if c = LF \<or> c = CR then '' ''
      else [c])"

definition osip_enquote :: "string \<Rightarrow> string" where
  "osip_enquote s = DQUOTE # concat (map enquote_char s) @ [DQUOTE]"

text \<open>\<^verbatim>\<open>osip_dequote\<close>: drop the first quote, one quote at the end, then every escaping backslash
  (\<^verbatim>\<open>memmove\<close> pulls the next character over it and the loop steps past that one).\<close>

fun drop_escapes :: "string \<Rightarrow> string" where
  "drop_escapes [] = []"
| "drop_escapes (c # cs) =
     (if c = BSLASH then (case cs of [] \<Rightarrow> [] | d # ds \<Rightarrow> d # drop_escapes ds)
      else c # drop_escapes cs)"

definition osip_dequote :: "string \<Rightarrow> string" where
  "osip_dequote s =
     (if s = [] then s
      else if hd s \<noteq> DQUOTE then s
      else (let t = tl s
            in drop_escapes (if t \<noteq> [] \<and> last t = DQUOTE then butlast t else t)))"


text \<open>\<^verbatim>\<open>sprintf\<close> at the end of the string \<open>buf\<close> in a buffer of \<open>len\<close> bytes; \<open>None\<close> is a write behind
  the buffer, the terminating zero included.\<close>

definition sprintf_end :: "nat \<Rightarrow> string \<Rightarrow> string \<Rightarrow> string option" where
  "sprintf_end len buf s = (if length buf + length s < len then Some (buf @ s) else None)"

section \<open>Facts about the primitives\<close>

lemma sprintf_end_fits [simp]: "length buf + length s < len \<Longrightarrow> sprintf_end len buf s = Some (buf @ s)"
  by (simp add: sprintf_end_def)

lemma chr_at_append [osip_simps]:
  "chr_at (a @ b) i = (if i < length a then a ! i else chr_at b (i - length a))"
  by (auto simp: chr_at_def nth_append)

lemma strchr_Some_iff:
  "strchr s i c = Some j \<longleftrightarrow>
     i \<le> j \<and> j < length s \<and> s ! j = c \<and> (\<forall>k. i \<le> k \<and> k < j \<longrightarrow> s ! k \<noteq> c)"
proof (cases "i \<le> length s")
  case True
  define n where "n = length (takeWhile (\<lambda>x. x \<noteq> c) (drop i s))"
  have before: "s ! k \<noteq> c" if "i \<le> k" "k < i + n" for k
  proof -
    have "k - i < n" using that by linarith
    then have "takeWhile (\<lambda>x. x \<noteq> c) (drop i s) ! (k - i) \<noteq> c"
      using nth_mem [of "k - i" "takeWhile (\<lambda>x. x \<noteq> c) (drop i s)"] set_takeWhileD
      unfolding n_def by fastforce
    with \<open>k - i < n\<close> have "drop i s ! (k - i) \<noteq> c"
      unfolding n_def by (simp add: takeWhile_nth)
    then show ?thesis using that True by (simp add: nth_drop)
  qed
  have at: "s ! (i + n) = c" if "i + n < length s"
    using that nth_length_takeWhile [of "\<lambda>x. x \<noteq> c" "drop i s"] True
    by (simp add: n_def)
  have eq: "strchr s i c = (if i + n < length s then Some (i + n) else None)"
    by (simp add: strchr_def n_def Let_def)
  have "j = i + n"
    if "i \<le> j" "j < length s" "s ! j = c" "\<forall>k. i \<le> k \<and> k < j \<longrightarrow> s ! k \<noteq> c"
  proof (rule ccontr)
    assume "j \<noteq> i + n"
    then consider "j < i + n" | "i + n < j" by linarith
    then show False
      using before [of j] at that by cases auto
  qed
  then show ?thesis using before at by (auto simp: eq)
next
  case False
  then show ?thesis by (auto simp: strchr_def)
qed

lemma strchr_None_iff: "strchr s i c = None \<longleftrightarrow> (\<forall>k. i \<le> k \<and> k < length s \<longrightarrow> s ! k \<noteq> c)"
proof (cases "strchr s i c")
  case None
  show ?thesis
  proof (rule ccontr)
    assume "\<not> ?thesis"
    with None obtain k where k: "i \<le> k" "k < length s" "s ! k = c" by auto
    define j where "j = (LEAST k. i \<le> k \<and> k < length s \<and> s ! k = c)"
    have "i \<le> j \<and> j < length s \<and> s ! j = c"
      unfolding j_def by (rule LeastI [of _ k]) (use k in simp)
    moreover have "s ! m \<noteq> c" if "i \<le> m" "m < j" for m
      using not_less_Least [of m "\<lambda>k. i \<le> k \<and> k < length s \<and> s ! k = c"] that calculation
      by (auto simp: j_def)
    ultimately have "strchr s i c = Some j" by (simp add: strchr_Some_iff)
    with None show False by simp
  qed
next
  case (Some j)
  then have "i \<le> j \<and> j < length s \<and> s ! j = c" by (simp add: strchr_Some_iff)
  with Some show ?thesis by auto
qed

text \<open>The shape the round-trip proofs use: the separator behind a prefix that lacks it.\<close>

lemma strchr_sep [osip_simps]:
  "c \<notin> set (drop i a) \<Longrightarrow> i \<le> length a \<Longrightarrow> strchr (a @ c # b) i c = Some (length a)"
  by (simp add: strchr_def takeWhile_append_neq)

lemma strchr_no_sep [osip_simps]: "c \<notin> set (drop i a) \<Longrightarrow> strchr a i c = None"
  by (simp add: strchr_def takeWhile_neq_id Let_def)

lemma strncpy_mid [osip_simps]: "osip_strncpy (a @ b @ c) (length a) (length b) = b"
  by (simp add: osip_strncpy_def)

lemma osip_strdup_id [simp]: "osip_strdup ch = ch"
  by (simp add: osip_strdup_def osip_strncpy_def split: option.splits)

subsection \<open>White space\<close>

definition strip :: "string \<Rightarrow> string" where
  "strip s = rev (dropWhile is_lws (rev (dropWhile is_lws s)))"

definition trimmed :: "string \<Rightarrow> bool" where
  "trimmed s \<longleftrightarrow> s \<noteq> [] \<longrightarrow> \<not> is_lws (hd s) \<and> \<not> is_lws (last s)"

lemma is_lws_NUL [simp]: "\<not> is_lws NUL"
  by (simp add: is_lws_def char_defs)

lemma dropWhile_hd: "xs = [] \<or> \<not> P (hd xs) \<Longrightarrow> dropWhile P xs = xs"
  by (cases xs) auto

lemma strip_trimmed: "trimmed s \<Longrightarrow> strip s = s"
  by (cases "s = []") (simp_all add: trimmed_def strip_def dropWhile_hd hd_rev)

lemma trimmed_strip: "trimmed (strip s)"
proof -
  have "is_lws c \<Longrightarrow> dropWhile is_lws s = [] \<or> hd (dropWhile is_lws s) \<noteq> c" for c
    using hd_dropWhile [of is_lws s] by auto
  then show ?thesis
    unfolding trimmed_def strip_def
    by (metis append_is_Nil_conv hd_append2 hd_dropWhile hd_rev last_rev rev_is_Nil_conv
        takeWhile_dropWhile_id rev_append rev_rev_ident)
qed

text \<open>What the backward loop leaves of a segment that ends at offset \<open>pend\<close>.\<close>

lemma clr_pend_spec:
  "pbeg \<le> pend \<Longrightarrow> pend < length s \<Longrightarrow>
   (case clr_pend s pbeg pend of
      None \<Rightarrow> (\<forall>k. pbeg \<le> k \<and> k \<le> pend \<longrightarrow> is_lws (s ! k))
    | Some e \<Rightarrow> pbeg \<le> e \<and> e \<le> pend \<and> \<not> is_lws (s ! e) \<and> (\<forall>k. e < k \<and> k \<le> pend \<longrightarrow> is_lws (s ! k)))"
proof (induction s pbeg pend rule: clr_pend.induct)
  case (1 s pbeg pend)
  consider (stop) "\<not> is_lws (s ! pend)"
    | (out) "is_lws (s ! pend)" "pend = 0 \<or> pend - 1 < pbeg"
    | (rec) "is_lws (s ! pend)" "pend \<noteq> 0" "pbeg \<le> pend - 1"
    by linarith
  then show ?case
  proof cases
    case stop
    then show ?thesis using "1.prems" by (subst clr_pend.simps) (auto simp: chr_at_def)
  next
    case out
    then have "pbeg = pend" using "1.prems" by auto
    then show ?thesis using out "1.prems" by (subst clr_pend.simps) (auto simp: chr_at_def)
  next
    case rec
    then have IH: "case clr_pend s pbeg (pend - 1) of
        None \<Rightarrow> (\<forall>k. pbeg \<le> k \<and> k \<le> pend - 1 \<longrightarrow> is_lws (s ! k))
      | Some e \<Rightarrow> pbeg \<le> e \<and> e \<le> pend - 1 \<and> \<not> is_lws (s ! e)
          \<and> (\<forall>k. e < k \<and> k \<le> pend - 1 \<longrightarrow> is_lws (s ! k))"
      using "1.IH" "1.prems" by (auto simp: chr_at_def)
    have eq: "clr_pend s pbeg pend = clr_pend s pbeg (pend - 1)"
      using rec "1.prems" by (subst clr_pend.simps) (auto simp: chr_at_def)
    have last: "k \<le> pend \<longleftrightarrow> k = pend \<or> k \<le> pend - 1" for k using rec by auto
    show ?thesis
      unfolding eq last using IH rec by (auto split: option.splits)
  qed
qed

lemma strip_decomp:
  obtains w1 w2 where "s = w1 @ strip s @ w2" and "\<forall>c\<in>set w1. is_lws c" and "\<forall>c\<in>set w2. is_lws c"
proof -
  define t where "t = dropWhile is_lws s"
  have 1: "s = takeWhile is_lws s @ t" by (simp add: t_def)
  have "rev t = takeWhile is_lws (rev t) @ dropWhile is_lws (rev t)" by simp
  then have 2: "t = rev (dropWhile is_lws (rev t)) @ rev (takeWhile is_lws (rev t))"
    by (metis rev_append rev_rev_ident)
  show thesis
  proof (rule that)
    show "s = takeWhile is_lws s @ strip s @ rev (takeWhile is_lws (rev t))"
      using 1 2 by (metis strip_def t_def)
    show "\<forall>c\<in>set (takeWhile is_lws s). is_lws c" by (auto dest: set_takeWhileD)
    show "\<forall>c\<in>set (rev (takeWhile is_lws (rev t))). is_lws c"
      by (auto dest: set_takeWhileD)
  qed
qed

lemma skip_lws_at:
  assumes "\<forall>c\<in>set w. is_lws c" and "b = [] \<or> \<not> is_lws (hd b)"
  shows "skip_lws (a @ w @ b) (length a) = length a + length w"
proof -
  have "takeWhile is_lws (w @ b) = w"
    using assms by (induction w) (auto simp: takeWhile_none)
  then show ?thesis by (simp add: skip_lws_def)
qed

lemma clr_pend_at:
  assumes "core \<noteq> []" and "\<not> is_lws (last core)" and "\<forall>c\<in>set w. is_lws c"
  shows "clr_pend (a @ core @ w @ b) (length a) (length a + length core + length w - 1)
         = Some (length a + length core - 1)"
proof -
  let ?s = "a @ core @ w @ b"
  let ?p = "length a + length core + length w - 1"
  have w_at: "is_lws (?s ! k)" if "length a + length core \<le> k" "k \<le> ?p" for k
  proof -
    have "k - length a - length core < length w" using that assms(1)
      by (cases core) auto
    then show ?thesis using that assms(3) by (simp add: nth_append)
  qed
  have last_at: "\<not> is_lws (?s ! (length a + length core - 1))"
    using assms(1,2) by (cases core rule: rev_cases) (simp_all add: nth_append)
  have "length a \<le> ?p" "?p < length ?s" using assms(1) by (cases core; simp)+
  note spec = clr_pend_spec [OF this]
  have bound: "length a \<le> length a + length core - 1" "length a + length core - 1 \<le> ?p"
    using assms(1) by (cases core; simp)+
  show ?thesis
  proof (cases "clr_pend ?s (length a) ?p")
    case None
    with spec last_at bound show ?thesis by auto
  next
    case (Some e)
    with spec have e: "length a \<le> e" "e \<le> ?p" "\<not> is_lws (?s ! e)"
      "\<forall>k. e < k \<and> k \<le> ?p \<longrightarrow> is_lws (?s ! k)" by auto
    have "e < length a + length core" using w_at [of e] e by (meson not_less)
    moreover have "length a + length core - 1 \<le> e"
      using e(4) last_at bound by (meson not_less)
    ultimately have "e = length a + length core - 1" by linarith
    with Some show ?thesis by simp
  qed
qed

text \<open>On a non-empty segment inside the string, \<^verbatim>\<open>osip_clrncpy\<close> copies the segment without its
  leading and trailing white space.\<close>

lemma osip_clrncpy_segment:
  assumes "seg \<noteq> []"
  shows "osip_clrncpy (a @ seg @ b) (length a) (length seg) = strip seg"
proof -
  obtain w1 w2 where seg: "seg = w1 @ strip seg @ w2"
    and w1: "\<forall>c\<in>set w1. is_lws c" and w2: "\<forall>c\<in>set w2. is_lws c"
    by (rule strip_decomp)
  show ?thesis
  proof (cases "strip seg = []")
    case True
    with seg w1 w2 have all: "\<forall>c\<in>set seg. is_lws c" by (metis append_Nil in_set_conv_decomp set_append Un_iff)
    have "length (takeWhile is_lws (seg @ b)) \<ge> length seg"
      using all by (induction seg) auto
    then have p: "length a + length seg \<le> skip_lws (a @ seg @ b) (length a)"
      by (simp add: skip_lws_def)
    have "is_lws (chr_at (a @ seg @ b) (length a + length seg - 1))"
      using all assms by (cases seg rule: rev_cases) (simp_all add: chr_at_def nth_append)
    then have "clr_pend (a @ seg @ b) (skip_lws (a @ seg @ b) (length a)) (length a + length seg - 1) = None"
      using p assms by (subst clr_pend.simps) (cases seg; auto)
    with True show ?thesis by (simp add: osip_clrncpy_def)
  next
    case False
    define core where "core = strip seg"
    have core: "core \<noteq> []" "\<not> is_lws (hd core)" "\<not> is_lws (last core)"
      using False trimmed_strip [of seg] by (auto simp: core_def trimmed_def)
    have s: "a @ seg @ b = (a @ w1) @ core @ w2 @ b"
      using seg by (simp add: core_def)
    have len: "length seg = length w1 + length core + length w2"
      using seg by (metis core_def length_append add.assoc)
    have beg: "skip_lws (a @ seg @ b) (length a) = length (a @ w1)"
      using skip_lws_at [OF w1, of "core @ w2 @ b" a] core by (simp add: s)
    have "clr_pend (a @ seg @ b) (length (a @ w1)) (length a + length seg - 1)
          = Some (length (a @ w1) + length core - 1)"
      using clr_pend_at [OF core(1,3) w2, of "a @ w1" b] by (simp add: s len add.assoc)
    then have "osip_clrncpy (a @ seg @ b) (length a) (length seg)
        = take (length (a @ w1) + length core - length (a @ w1)) (drop (length (a @ w1)) (a @ seg @ b))"
      using core(1) unfolding osip_clrncpy_def beg Let_def by (cases core) simp_all
    then show ?thesis by (simp add: s core_def)
  qed
qed

lemma osip_clrncpy_prefix: "seg \<noteq> [] \<Longrightarrow> osip_clrncpy (seg @ b) 0 (length seg) = strip seg"
  using osip_clrncpy_segment [of seg "[]" b] by simp

lemma osip_clrncpy_at:
  assumes "0 < len" and "src + len \<le> length s"
  shows "osip_clrncpy s src len = strip (take len (drop src s))"
proof -
  have "s = take src s @ take len (drop src s) @ drop len (drop src s)"
    by (metis append_take_drop_id)
  moreover have "take len (drop src s) \<noteq> []" "length (take len (drop src s)) = len"
    "length (take src s) = src" using assms by auto
  ultimately show ?thesis
    using osip_clrncpy_segment [of "take len (drop src s)" "take src s" "drop len (drop src s)"]
    by metis
qed

lemma osip_clrspace_strip: "osip_clrspace (Some w) = (OSIP_SUCCESS, Some (strip w))"
proof (cases "w = []")
  case True
  then show ?thesis by (simp add: osip_clrspace_def strip_def)
next
  case False
  then have "osip_clrspace (Some w) = (OSIP_SUCCESS, Some (osip_clrncpy w 0 (length w)))"
    by (simp add: osip_clrspace_def osip_clrncpy_def Let_def split: option.splits)
  with False show ?thesis using osip_clrncpy_prefix [of w "[]"] by simp
qed

lemma length_strip: "length (strip s) \<le> length s"
  unfolding strip_def by (metis length_dropWhile_le length_rev order_trans)

subsection \<open>Case-insensitive comparison\<close>

definition cstring :: "string \<Rightarrow> bool" where
  "cstring s \<longleftrightarrow> NUL \<notin> set s"

lemma tolower_zero: "of_char (tolower c) = (0 :: nat) \<longleftrightarrow> c = NUL"
proof -
  have "of_char (tolower c) = (0 :: nat) \<longleftrightarrow> of_char c = (0 :: nat)"
    by (auto simp: tolower_def Let_def of_char_of take_bit_eq_mod)
  also have "\<dots> \<longleftrightarrow> of_char c = (of_char NUL :: nat)"
    by (simp add: NUL_def)
  also have "\<dots> \<longleftrightarrow> c = NUL" by (rule of_char_eq_iff)
  finally show ?thesis .
qed

lemma stricmp_zero_iff:
  "cstring s1 \<Longrightarrow> cstring s2 \<Longrightarrow> stricmp s1 s2 = 0 \<longleftrightarrow> map tolower s1 = map tolower s2"
proof (induction s1 s2 rule: stricmp.induct)
  case (4 a as b bs)
  then show ?case by (auto simp: cstring_def)
qed (auto simp: cstring_def tolower_zero)

lemma cstring_simps [simp]:
  "cstring []" "cstring (c # s) \<longleftrightarrow> c \<noteq> NUL \<and> cstring s"
  "cstring (s @ t) \<longleftrightarrow> cstring s \<and> cstring t"
  by (auto simp: cstring_def)

lemma cstring_take: "cstring s \<Longrightarrow> cstring (take n s)"
  by (auto simp: cstring_def dest: in_set_takeD)

lemma cstring_drop: "cstring s \<Longrightarrow> cstring (drop n s)"
  by (auto simp: cstring_def dest: in_set_dropD)

subsection \<open>Quoted strings\<close>

lemma drop_escapes_enquote:
  "drop_escapes (concat (map enquote_char s))
   = map (\<lambda>c. if c = LF \<or> c = CR then CHR '' '' else c) s"
  by (induction s) (auto simp: enquote_char_def char_defs)

lemma osip_dequote_enquote:
  "osip_dequote (osip_enquote s) = map (\<lambda>c. if c = LF \<or> c = CR then CHR '' '' else c) s"
  by (simp add: osip_enquote_def osip_dequote_def drop_escapes_enquote)

text \<open>The reading of a quoted string that the standard gives: scan once from the left, a
  backslash escapes the character behind it.\<close>

fun find_quote :: "bool \<Rightarrow> string \<Rightarrow> nat option" where
  "find_quote esc [] = None"
| "find_quote esc (c # cs) =
     (if c = DQUOTE \<and> \<not> esc then Some 0
      else map_option Suc (find_quote (c = BSLASH \<and> \<not> esc) cs))"

text \<open>\<open>first_at P p r\<close>: \<open>r\<close> is the first position from \<open>p\<close> on where \<open>P\<close> holds.\<close>

definition first_at :: "(nat \<Rightarrow> bool) \<Rightarrow> nat \<Rightarrow> nat option \<Rightarrow> bool" where
  "first_at P p r =
     (case r of None \<Rightarrow> \<forall>j\<ge>p. \<not> P j | Some j \<Rightarrow> p \<le> j \<and> P j \<and> (\<forall>k. p \<le> k \<and> k < j \<longrightarrow> \<not> P k))"

lemma first_at_unique: "first_at P p r \<Longrightarrow> first_at P p r' \<Longrightarrow> r = r'"
  unfolding first_at_def by (auto split: option.splits) (metis linorder_neqE_nat)

lemma first_at_skip:
  "p \<le> p' \<Longrightarrow> (\<And>k. p \<le> k \<Longrightarrow> k < p' \<Longrightarrow> \<not> P k) \<Longrightarrow> first_at P p' r \<Longrightarrow> first_at P p r"
  unfolding first_at_def by (auto split: option.splits) (metis not_less)+

lemma first_at_strchr: "first_at (\<lambda>j. j < length s \<and> s ! j = c) i (strchr s i c)"
  unfolding first_at_def using strchr_Some_iff [of s i c] strchr_None_iff [of s i c]
  by (auto split: option.split)

text \<open>The run of backslashes in front of a position, and the unescaped quotes.\<close>

fun bsrun :: "string \<Rightarrow> nat \<Rightarrow> nat \<Rightarrow> nat" where
  "bsrun s q 0 = 0"
| "bsrun s q (Suc p) = (if q \<le> p \<and> s ! p = BSLASH then Suc (bsrun s q p) else 0)"

definition unescaped_quote :: "string \<Rightarrow> nat \<Rightarrow> nat \<Rightarrow> bool" where
  "unescaped_quote s q p \<longleftrightarrow> p < length s \<and> s ! p = DQUOTE \<and> even (bsrun s q p)"

lemma bsrun_at_start: "bsrun s q q = 0"
  by (cases q) auto

lemma bsrun_eqI:
  "q + n \<le> p \<Longrightarrow> (\<And>k. p \<le> k + n \<Longrightarrow> k < p \<Longrightarrow> s ! k = BSLASH) \<Longrightarrow>
   q + n = p \<or> s ! (p - n - 1) \<noteq> BSLASH \<Longrightarrow> bsrun s q p = n"
proof (induction n arbitrary: p)
  case 0
  then show ?case by (cases p) (auto simp: bsrun_at_start)
next
  case (Suc n)
  then obtain p' where p: "p = Suc p'" by (cases p) auto
  have "bsrun s q p' = n"
    using Suc.prems p by (intro Suc.IH) auto
  moreover have "q \<le> p'" "s ! p' = BSLASH" using Suc.prems p by auto
  ultimately show ?case by (simp add: p)
qed

lemma find_quote_first:
  "q \<le> p \<Longrightarrow> p \<le> length s \<Longrightarrow>
   first_at (unescaped_quote s q) p (map_option ((+) p) (find_quote (odd (bsrun s q p)) (drop p s)))"
proof (induction "length s - p" arbitrary: p)
  case 0
  then show ?case by (simp add: first_at_def unescaped_quote_def)
next
  case (Suc n)
  then have p: "p < length s" by simp
  have step: "drop p s = s ! p # drop (Suc p) s" using p by (simp add: Cons_nth_drop_Suc)
  have esc: "(s ! p = BSLASH \<and> \<not> odd (bsrun s q p)) = odd (bsrun s q (Suc p))"
    using Suc.prems by simp
  have IH: "first_at (unescaped_quote s q) (Suc p)
     (map_option ((+) (Suc p)) (find_quote (odd (bsrun s q (Suc p))) (drop (Suc p) s)))"
    using Suc p by (intro Suc.hyps) auto
  show ?case
  proof (cases "unescaped_quote s q p")
    case True
    then show ?thesis by (auto simp: step unescaped_quote_def first_at_def)
  next
    case False
    with p have "\<not> (s ! p = DQUOTE \<and> \<not> odd (bsrun s q p))" by (simp add: unescaped_quote_def)
    then have "map_option ((+) p) (find_quote (odd (bsrun s q p)) (drop p s))
       = map_option ((+) (Suc p)) (find_quote (odd (bsrun s q (Suc p))) (drop (Suc p) s))"
      by (simp only: step find_quote.simps esc)
         (auto simp: option.map_comp comp_def simp del: bsrun.simps intro: option.map_cong)
    then show ?thesis
      using first_at_skip [OF _ _ IH, of p] False by (simp add: less_Suc_eq_le)
  qed
qed

definition quote_inv :: "string \<Rightarrow> nat \<Rightarrow> nat \<Rightarrow> nat \<Rightarrow> nat \<Rightarrow> bool" where
  "quote_inv s q0 q quote i \<longleftrightarrow>
     q0 \<le> q \<and> q \<le> quote \<and> quote < length s \<and> s ! quote = DQUOTE \<and> 1 \<le> i \<and>
     (\<forall>k. quote < k + i \<and> k < quote \<longrightarrow> s ! k = BSLASH) \<and>
     (q = q0 \<or> q0 < q \<and> s ! (q - 1) = DQUOTE) \<and>
     (q + i \<le> quote \<or> i = 1 \<and> quote = q \<and> q0 < q) \<and>
     (\<forall>k. q0 \<le> k \<and> k < quote \<longrightarrow> \<not> unescaped_quote s q0 k)"

lemma quote_inv_next:
  assumes "quote_inv s q0 q quote i" and "\<not> unescaped_quote s q0 quote"
    and "strchr s (quote + 1) DQUOTE = Some r"
  shows "quote_inv s q0 q r 1" and "quote_inv s q0 (quote + 1) r 1"
proof -
  from assms(3) have r: "quote < r" "r < length s" "s ! r = DQUOTE"
    "\<And>k. quote < k \<Longrightarrow> k < r \<Longrightarrow> s ! k \<noteq> DQUOTE"
    by (auto simp: strchr_Some_iff Suc_le_eq)
  have none: "\<not> unescaped_quote s q0 k" if "q0 \<le> k" "k < r" for k
    using assms(1,2) r(4) [of k] that
    by (cases k quote rule: linorder_cases) (auto simp: quote_inv_def unescaped_quote_def)
  show "quote_inv s q0 q r 1" "quote_inv s q0 (quote + 1) r 1"
    using assms(1) r(1-3) none unfolding quote_inv_def by auto
qed

lemma no_quote_left:
  assumes "quote_inv s q0 q quote i" and "\<not> unescaped_quote s q0 quote"
    and "strchr s (quote + 1) DQUOTE = None"
  shows "first_at (unescaped_quote s q0) q0 None"
proof -
  have "\<not> unescaped_quote s q0 k" if "q0 \<le> k" for k
    using assms that strchr_None_iff [of s "quote + 1" DQUOTE]
    by (cases k quote rule: linorder_cases) (auto simp: quote_inv_def unescaped_quote_def)
  then show ?thesis by (simp add: first_at_def)
qed

lemma quote_found:
  "quote_inv s q0 q quote i \<Longrightarrow> unescaped_quote s q0 quote \<Longrightarrow>
   first_at (unescaped_quote s q0) q0 (Some quote)"
  by (auto simp: quote_inv_def first_at_def)

text \<open>The two places where the loop has counted the whole run in front of the quote.\<close>

lemma quote_inv_run_stop:
  assumes "quote_inv s q0 q quote i" and "s ! (quote - i) \<noteq> BSLASH"
  shows "bsrun s q0 quote = i - 1"
  using assms by (intro bsrun_eqI) (auto simp: quote_inv_def)

lemma quote_inv_run_start:
  assumes "quote_inv s q0 q quote i" and "s ! (quote - i) = BSLASH" and "quote = q + i"
  shows "bsrun s q0 quote = i"
proof (rule bsrun_eqI)
  show "q0 + i \<le> quote" using assms by (auto simp: quote_inv_def)
  show "s ! k = BSLASH" if "quote \<le> k + i" "k < quote" for k
    using assms that by (cases "quote = k + i") (auto simp: quote_inv_def)
  show "q0 + i = quote \<or> s ! (quote - i - 1) \<noteq> BSLASH"
    using assms by (auto simp: quote_inv_def char_defs)
qed

lemma quote_inv_back:
  assumes "quote_inv s q0 q quote i" and "s ! (quote - i) = BSLASH"
  shows "q + i \<le> quote" and "q + i < quote \<Longrightarrow> quote_inv s q0 q quote (i + 1)"
proof -
  show le: "q + i \<le> quote" using assms by (auto simp: quote_inv_def char_defs)
  have run: "s ! k = BSLASH" if "quote < k + (i + 1)" "k < quote" for k
    using assms that by (cases "quote = k + i") (auto simp: quote_inv_def)
  show "quote_inv s q0 q quote (i + 1)" if "q + i < quote"
    using assms(1) that run unfolding quote_inv_def by auto
qed

lemma quote_find_loop_return:
  "i \<le> quote \<Longrightarrow> chr_at s (quote - i) \<noteq> BSLASH \<Longrightarrow> odd i \<Longrightarrow> quote_find_loop s q quote i = Some quote"
  by (subst quote_find_loop.simps) (simp add: Let_def odd_iff_mod_2_eq_one)

lemma quote_find_loop_escaped:
  "i \<le> quote \<Longrightarrow> chr_at s (quote - i) \<noteq> BSLASH \<Longrightarrow> even i \<Longrightarrow> q \<le> quote \<Longrightarrow>
   quote_find_loop s q quote i =
     (case strchr s (quote + 1) DQUOTE of None \<Rightarrow> None | Some r \<Rightarrow> quote_find_loop s q r 1)"
  by (subst quote_find_loop.simps) (auto simp: Let_def split: option.splits dest!: strchr_bounds)

lemma quote_find_loop_back:
  "i \<le> quote \<Longrightarrow> chr_at s (quote - i) = BSLASH \<Longrightarrow> quote \<noteq> q + i \<Longrightarrow>
   quote_find_loop s q quote i = quote_find_loop s q quote (i + 1)"
  by (subst quote_find_loop.simps) (simp add: Let_def)

lemma quote_find_loop_start:
  "chr_at s q = BSLASH \<Longrightarrow> quote = q + i \<Longrightarrow>
   quote_find_loop s q quote i =
     (if even i then Some quote
      else case strchr s (quote + 1) DQUOTE of
             None \<Rightarrow> None | Some r \<Rightarrow> quote_find_loop s (quote + 1) r 1)"
  by (subst quote_find_loop.simps) (auto simp: Let_def even_iff_mod_2_eq_zero)

lemma quote_find_loop_step:
  assumes inv: "quote_inv s q0 q quote i"
    and larger: "\<And>q r. quote < r \<Longrightarrow> quote_inv s q0 q r 1 \<Longrightarrow>
      first_at (unescaped_quote s q0) q0 (quote_find_loop s q r 1)"
    and further: "s ! (quote - i) = BSLASH \<Longrightarrow> quote_inv s q0 q quote (i + 1) \<Longrightarrow>
      first_at (unescaped_quote s q0) q0 (quote_find_loop s q quote (i + 1))"
  shows "first_at (unescaped_quote s q0) q0 (quote_find_loop s q quote i)"
proof -
  have len: "i \<le> quote" "quote < length s" "s ! quote = DQUOTE" "q \<le> quote" "1 \<le> i"
    using inv by (auto simp: quote_inv_def)
  have "quote - i < length s" using len by linarith
  then have at: "chr_at s (quote - i) = s ! (quote - i)" by (simp add: chr_at_def)
  show ?thesis
  proof (cases "s ! (quote - i) = BSLASH")
    case False
    have run: "bsrun s q0 quote = i - 1" by (rule quote_inv_run_stop [OF inv False])
    show ?thesis
    proof (cases "odd i")
      case True
      with run len have "unescaped_quote s q0 quote" by (simp add: unescaped_quote_def)
      then show ?thesis
        using False True len at quote_found [OF inv] by (simp add: quote_find_loop_return)
    next
      case even: False
      with run len have not: "\<not> unescaped_quote s q0 quote" by (simp add: unescaped_quote_def)
      then show ?thesis
        using False even len at no_quote_left [OF inv not] quote_inv_next(1) [OF inv not]
          strchr_bounds [of s "quote + 1" DQUOTE] larger
        by (auto simp: quote_find_loop_escaped split: option.split)
    qed
  next
    case True
    note le = quote_inv_back(1) [OF inv True]
    show ?thesis
    proof (cases "quote = q + i")
      case whole: True
      have run: "bsrun s q0 quote = i" by (rule quote_inv_run_start [OF inv True whole])
      have q: "chr_at s q = BSLASH" using True whole at by simp
      show ?thesis
      proof (cases "even i")
        case True
        with run len have "unescaped_quote s q0 quote" by (simp add: unescaped_quote_def)
        then show ?thesis
          using whole True q quote_found [OF inv] by (simp add: quote_find_loop_start)
      next
        case False
        with run have not: "\<not> unescaped_quote s q0 quote" by (simp add: unescaped_quote_def)
        then show ?thesis
          using False no_quote_left [OF inv not] quote_inv_next(2) [OF inv not]
            strchr_bounds [of s "quote + 1" DQUOTE] larger
          by (auto simp: quote_find_loop_start [OF q whole] split: option.split)
      qed
    next
      case False
      with le have "q + i < quote" by simp
      then show ?thesis
        using True False len at further quote_inv_back(2) [OF inv True]
        by (simp add: quote_find_loop_back)
    qed
  qed
qed

lemma quote_find_loop_first:
  "quote_inv s q0 q quote i \<Longrightarrow> first_at (unescaped_quote s q0) q0 (quote_find_loop s q quote i)"
proof (induction "length s - quote" arbitrary: q quote i rule: less_induct)
  case less
  note outer = less.hyps
  from less.prems show ?case
  proof (induction "quote + 1 - i" arbitrary: i rule: less_induct)
    case less
    have lt: "quote < length s" "i \<le> quote" using less.prems by (auto simp: quote_inv_def)
    show ?case
    proof (rule quote_find_loop_step [OF less.prems])
      show "first_at (unescaped_quote s q0) q0 (quote_find_loop s q' r 1)"
        if "quote < r" "quote_inv s q0 q' r 1" for q' r
        using that lt by (intro outer) auto
      show "first_at (unescaped_quote s q0) q0 (quote_find_loop s q quote (i + 1))"
        if "quote_inv s q0 q quote (i + 1)"
        using that lt by (intro less.hyps) auto
    qed
  qed
qed

lemma osip_quote_find_eq:
  "osip_quote_find s q = map_option ((+) q) (find_quote False (drop q s))"
proof (cases "q \<le> length s")
  case True
  have ref: "first_at (unescaped_quote s q) q (map_option ((+) q) (find_quote False (drop q s)))"
    using find_quote_first [of q q s] True by (simp add: bsrun_at_start)
  have "first_at (unescaped_quote s q) q (osip_quote_find s q)"
  proof (cases "strchr s q DQUOTE")
    case None
    then show ?thesis
      using strchr_None_iff [of s q DQUOTE]
      by (auto simp: osip_quote_find_def first_at_def unescaped_quote_def)
  next
    case (Some r)
    then have r: "q \<le> r" "r < length s" "s ! r = DQUOTE" "\<forall>k. q \<le> k \<and> k < r \<longrightarrow> s ! k \<noteq> DQUOTE"
      by (auto simp: strchr_Some_iff)
    show ?thesis
    proof (cases "r = q")
      case True
      with Some r show ?thesis
        by (simp add: osip_quote_find_def first_at_def unescaped_quote_def bsrun_at_start)
    next
      case False
      with r have "quote_inv s q q r 1" by (auto simp: quote_inv_def unescaped_quote_def)
      then show ?thesis using Some False by (simp add: osip_quote_find_def quote_find_loop_first)
    qed
  qed
  then show ?thesis using ref by (rule first_at_unique)
next
  case False
  then show ?thesis by (simp add: osip_quote_find_def strchr_def)
qed

subsection \<open>Searching\<close>

definition case_match :: "string \<Rightarrow> string \<Rightarrow> nat \<Rightarrow> bool" where
  "case_match haystack needle p \<longleftrightarrow>
     p \<le> length haystack \<and> map tolower (take (length needle) (drop p haystack)) = map tolower needle"

lemma strcasestr_loop_first:
  "cstring xs \<Longrightarrow> cstring rest \<Longrightarrow>
   first_at (case_match (pre @ xs) (c # rest)) (length pre)
     (strcasestr_loop (tolower c) rest xs (length pre))"
proof (induction xs arbitrary: pre)
  case Nil
  then show ?case by (auto simp: first_at_def case_match_def)
next
  case (Cons x xs)
  have here: "case_match (pre @ x # xs) (c # rest) (length pre) \<longleftrightarrow>
      tolower x = tolower c \<and> osip_strncasecmp xs rest (length rest) = 0"
    using Cons.prems
    by (auto simp: case_match_def osip_strncasecmp_def stricmp_zero_iff cstring_take)
  have IH: "first_at (case_match (pre @ x # xs) (c # rest)) (Suc (length pre))
      (strcasestr_loop (tolower c) rest xs (Suc (length pre)))"
    using Cons.IH [of "pre @ [x]"] Cons.prems by simp
  show ?case
  proof (cases "case_match (pre @ x # xs) (c # rest) (length pre)")
    case True
    then show ?thesis using here by (auto simp: first_at_def)
  next
    case False
    then have "first_at (case_match (pre @ x # xs) (c # rest)) (length pre)
        (strcasestr_loop (tolower c) rest xs (Suc (length pre)))"
      using first_at_skip [OF _ _ IH, of "length pre"] by (simp add: less_Suc_eq_le)
    then show ?thesis using False here by auto
  qed
qed

lemma osip_strcasestr_first:
  "cstring haystack \<Longrightarrow> cstring needle \<Longrightarrow>
   first_at (case_match haystack needle) 0 (osip_strcasestr haystack needle)"
  using strcasestr_loop_first [of haystack _ "[]"]
  by (cases needle) (simp_all add: osip_strcasestr_def first_at_def case_match_def)

lemma osip_hash_djb2:
  "osip_hash str = foldl (\<lambda>h c. 33 * h + signed (of_char c :: 8 word)) 5381 str"
proof -
  have "(push_bit 5 h + h) = 33 * h" for h :: "32 word"
    by (simp add: push_bit_eq_mult)
  moreover have "x AND 0xFFFFFFFF = x" for x :: "32 word"
  proof -
    have "(0xFFFFFFFF :: 32 word) = - 1" by simp
    then show ?thesis by (simp only: and_minus_numerals bit.conj_one_right)
  qed
  ultimately show ?thesis by (simp add: osip_hash_def)
qed

end
