(* ===== verification/Osip_Uri.thy ===== *)
theory Osip_Uri
  imports Osip_Port "HOL-Library.Monad_Syntax"
begin

text \<open>
  SIP URIs, \<^verbatim>\<open>osip/src/osipparser2/osip_uri.c\<close>: parsing, printing, escaping and the parameter
  lists.  A parser returns the return code and the structure it filled so far; a printer
  returns \<open>None\<close> when it writes behind its buffer or reads through \<^verbatim>\<open>NULL\<close>.  The parameter lists are
  HOL lists (the linked list refines them, see \<^verbatim>\<open>Osip_List\<close>); allocations succeed.
\<close>

section \<open>Data\<close>

record uri_param =
  gname :: "string option"
  gvalue :: "string option"

record uri =
  scheme :: "string option"
  username :: "string option"
  password :: "string option"
  host :: "string option"
  port :: "string option"
  url_params :: "uri_param list"
  url_headers :: "uri_param list"
  uri_string :: "string option"

definition osip_uri_init :: uri where
  "osip_uri_init = \<lparr>scheme = None, username = None, password = None, host = None, port = None,
     url_params = [], url_headers = [], uri_string = None\<rparr>"

section \<open>Parameters\<close>

definition osip_uri_param_init :: uri_param where
  "osip_uri_param_init = \<lparr>gname = None, gvalue = None\<rparr>"

definition osip_uri_param_set :: "uri_param \<Rightarrow> string option \<Rightarrow> string option \<Rightarrow> int \<times> uri_param" where
  "osip_uri_param_set p pname pvalue =
     (OSIP_SUCCESS, p\<lparr>gname := snd (osip_clrspace pname),
        gvalue := (if pvalue = None then None else snd (osip_clrspace pvalue))\<rparr>)"

definition osip_uri_param_add ::
  "uri_param list \<Rightarrow> string option \<Rightarrow> string option \<Rightarrow> int \<times> uri_param list" where
  "osip_uri_param_add params pname pvalue =
     (case osip_uri_param_set osip_uri_param_init pname pvalue of (i, p) \<Rightarrow>
        if i \<noteq> 0 then (i, params) else (OSIP_SUCCESS, params @ [p]))"

text \<open>\<^verbatim>\<open>osip_uri_param_get_byname\<close>; a parameter without a name is a \<^verbatim>\<open>strlen (NULL)\<close>.\<close>

fun get_byname_loop :: "uri_param list \<Rightarrow> string \<Rightarrow> (int \<times> uri_param option) option" where
  "get_byname_loop [] pname = Some (OSIP_UNDEFINED_ERROR, None)"
| "get_byname_loop (u_param # params) pname =
     (case gname u_param of
        None \<Rightarrow> None
      | Some n \<Rightarrow>
          if length pname = length n \<and> osip_strncasecmp n pname (length pname) = 0
          then Some (OSIP_SUCCESS, Some u_param)
          else get_byname_loop params pname)"

definition osip_uri_param_get_byname ::
  "uri_param list \<Rightarrow> string option \<Rightarrow> (int \<times> uri_param option) option" where
  "osip_uri_param_get_byname params pname =
     (case pname of
        None \<Rightarrow> Some (OSIP_BADPARAMETER, None)
      | Some n \<Rightarrow> if length n \<le> 0 then Some (OSIP_BADPARAMETER, None) else get_byname_loop params n)"

definition osip_uri_param_clone :: "uri_param option \<Rightarrow> int \<times> uri_param option" where
  "osip_uri_param_clone uparam =
     (case uparam of
        None \<Rightarrow> (OSIP_BADPARAMETER, None)
      | Some p \<Rightarrow>
          if gname p = None then (OSIP_BADPARAMETER, None)
          else (OSIP_SUCCESS, Some \<lparr>gname = osip_strdup (gname p),
                  gvalue = (if gvalue p \<noteq> None then osip_strdup (gvalue p) else None)\<rparr>))"

text \<open>\<^verbatim>\<open>osip_list_clone\<close> with \<^verbatim>\<open>osip_uri_param_clone\<close>.\<close>

fun param_list_clone :: "uri_param list \<Rightarrow> int \<times> uri_param list" where
  "param_list_clone [] = (OSIP_SUCCESS, [])"
| "param_list_clone (p # ps) =
     (case osip_uri_param_clone (Some p) of
        (i, Some q) \<Rightarrow>
          if i \<noteq> 0 then (i, [])
          else (case param_list_clone ps of (j, qs) \<Rightarrow> (j, q # qs))
      | (i, None) \<Rightarrow> (i, []))"

section \<open>Escaping\<close>

definition char_in :: "char \<Rightarrow> char \<Rightarrow> char \<Rightarrow> bool" where
  "char_in a b c \<longleftrightarrow> (of_char a :: nat) \<le> of_char c \<and> (of_char c :: nat) \<le> of_char b"

definition osip_is_alpha :: "char \<Rightarrow> bool" where
  "osip_is_alpha c \<longleftrightarrow> char_in (CHR ''a'') (CHR ''z'') c \<or> char_in (CHR ''A'') (CHR ''Z'') c"

definition osip_is_alphanum :: "char \<Rightarrow> bool" where
  "osip_is_alphanum c \<longleftrightarrow> char_in (CHR ''a'') (CHR ''z'') c \<or> char_in (CHR ''A'') (CHR ''Z'') c
     \<or> char_in (CHR ''0'') (CHR ''9'') c"

definition hex_digit :: "nat \<Rightarrow> char" where
  "hex_digit n = (if n < 10 then char_of (48 + n) else char_of (55 + n))"

text \<open>\<^verbatim>\<open>sprintf ("%%%02X", in)\<close>.\<close>

definition percent_encode :: "char \<Rightarrow> string" where
  "percent_encode c = [CHR ''%'', hex_digit (of_char c div 16), hex_digit (of_char c mod 16)]"

text \<open>
  \<^verbatim>\<open>__osip_uri_escape_nonascii_and_nondef\<close>: \<open>ns\<close> is what was written (its length is \<^verbatim>\<open>index\<close>),
  \<open>alloc\<close> the size of the buffer, \<open>newlen\<close> the size the result needs.  \<open>None\<close> is a write behind
  the buffer.
\<close>

fun escape_loop :: "string \<Rightarrow> string \<Rightarrow> string \<Rightarrow> nat \<Rightarrow> nat \<Rightarrow> string option" where
  "escape_loop def [] ns alloc newlen = (if length ns < alloc then Some ns else None)"
| "escape_loop def (c # string) ns alloc newlen =
     (if osip_is_alphanum c \<or> c \<in> set def then
        (if length ns < alloc then escape_loop def string (ns @ [c]) alloc newlen else None)
      else
        (let newlen = newlen + 2;
             alloc = (if newlen > alloc then alloc * 2 else alloc)
         in do {
           ns \<leftarrow> sprintf_end alloc ns (percent_encode c);
           escape_loop def string ns alloc newlen }))"

definition osip_uri_escape_nonascii_and_nondef :: "string \<Rightarrow> string \<Rightarrow> string option" where
  "osip_uri_escape_nonascii_and_nondef string def =
     (let alloc = length string + 1 in escape_loop def string [] alloc alloc)"

definition userinfo_def :: string where "userinfo_def = ''-_.!~*'' @ [CHR 0x27] @ ''()&=+$,;?/''"
definition password_def :: string where "password_def = ''-_.!~*'' @ [CHR 0x27] @ ''()&=+$,''"
definition uri_param_def :: string where "uri_param_def = ''-_.!~*'' @ [CHR 0x27] @ ''()[]/:&+$''"
definition header_param_def :: string where "header_param_def = ''-_.!~*'' @ [CHR 0x27] @ ''()[]/?:+$''"

definition osip_uri_escape_userinfo :: "string \<Rightarrow> string option" where
  "osip_uri_escape_userinfo s = osip_uri_escape_nonascii_and_nondef s userinfo_def"

definition osip_uri_escape_password :: "string \<Rightarrow> string option" where
  "osip_uri_escape_password s = osip_uri_escape_nonascii_and_nondef s password_def"

definition osip_uri_escape_uri_param :: "string \<Rightarrow> string option" where
  "osip_uri_escape_uri_param s = osip_uri_escape_nonascii_and_nondef s uri_param_def"

definition osip_uri_escape_header_param :: "string \<Rightarrow> string option" where
  "osip_uri_escape_header_param s = osip_uri_escape_nonascii_and_nondef s header_param_def"

definition hex_value :: "char \<Rightarrow> nat option" where
  "hex_value c =
     (if char_in (CHR ''0'') (CHR ''9'') c then Some (of_char c - 48)
      else if char_in (CHR ''a'') (CHR ''f'') c then Some (of_char c - 87)
      else if char_in (CHR ''A'') (CHR ''F'') c then Some (of_char c - 55)
      else None)"

text \<open>
  \<^verbatim>\<open>sscanf (s, "%02X", &hex)\<close>: white space is skipped, then at most two characters are read: a
  sign and a digit, or one or two digits.  A lone prefix \<^verbatim>\<open>0x\<close> does not match.
\<close>

definition sscanf_02X :: "string \<Rightarrow> nat option" where
  "sscanf_02X s =
     (case dropWhile isspace s of
        [] \<Rightarrow> None
      | c # t \<Rightarrow>
          if c = CHR ''+'' then (case t of [] \<Rightarrow> None | d # _ \<Rightarrow> hex_value d)
          else if c = CHR ''-'' then
            (case t of [] \<Rightarrow> None | d # _ \<Rightarrow> map_option (\<lambda>n. nat ((- int n) mod 2 ^ 32)) (hex_value d))
          else (case hex_value c of
                  None \<Rightarrow> None
                | Some n \<Rightarrow>
                    (case t of [] \<Rightarrow> Some n
                     | d # _ \<Rightarrow>
                         if n = 0 \<and> c = CHR ''0'' \<and> (d = CHR ''x'' \<or> d = CHR ''X'') then None
                         else (case hex_value d of None \<Rightarrow> Some n | Some m \<Rightarrow> Some (16 * n + m)))))"

text \<open>\<^verbatim>\<open>__osip_uri_unescape\<close>: the loop over the rest of the string; \<^verbatim>\<open>alloc\<close> is the length of the rest.\<close>

function (sequential) unescape_loop :: "string \<Rightarrow> string" where
  "unescape_loop [] = []"
| "unescape_loop (c # ptr) =
     (if c = CHR ''%'' then
        (if length (c # ptr) > 2 then
           (case sscanf_02X ptr of
              Some hex \<Rightarrow>
                char_of (hex mod 256) #
                unescape_loop (if hex_value (chr_at ptr 1) \<noteq> None then drop 2 ptr else drop 1 ptr)
            | None \<Rightarrow> [])
         else [])
      else c # unescape_loop ptr)"
  by pat_completeness auto
termination by (relation "measure length") auto

text \<open>A decoded zero byte ends the string.\<close>

definition osip_uri_unescape :: "string \<Rightarrow> string" where
  "osip_uri_unescape s = takeWhile (\<lambda>c. c \<noteq> NUL) (unescape_loop s)"

section \<open>Parsing\<close>

text \<open>The separator \<open>c\<close> from offset \<open>ch\<close>, if it comes before the separator \<open>before\<close>.\<close>

definition next_separator :: "string \<Rightarrow> nat \<Rightarrow> char \<Rightarrow> char \<Rightarrow> nat option" where
  "next_separator s ch c before =
     (case strchr s ch c of
        None \<Rightarrow> None
      | Some ind \<Rightarrow>
          (case (if before \<noteq> NUL then strchr s ch before else None) of
             Some tmp \<Rightarrow> if ind < tmp then Some ind else None
           | None \<Rightarrow> Some ind))"

text \<open>
  \<^verbatim>\<open>osip_uri_parse_headers\<close> on the string that starts with \<^verbatim>\<open>?\<close> (in later rounds with \<^verbatim>\<open>&\<close>).  The
  distances between pointers are written as sums.
\<close>

function osip_uri_parse_headers :: "uri \<Rightarrow> string \<Rightarrow> int \<times> uri" where
  "osip_uri_parse_headers url headers =
     (case strchr headers 0 (CHR ''='') of
        None \<Rightarrow> (OSIP_SYNTAXERROR, url)
      | Some equal \<Rightarrow>
          (let hname = osip_uri_unescape (osip_strncpy headers 1 (equal - 1))
           in case strchr headers 1 (CHR ''&'') of
                Some amp \<Rightarrow>
                  if amp < equal + 2 then (OSIP_SYNTAXERROR, url)
                  else
                    (let hvalue = osip_uri_unescape (osip_strncpy headers (equal + 1) (amp - equal - 1))
                     in case osip_uri_param_add (url_headers url) (Some hname) (Some hvalue) of
                          (i, hs) \<Rightarrow>
                            if i \<noteq> OSIP_SUCCESS then (i, url)
                            else osip_uri_parse_headers (url\<lparr>url_headers := hs\<rparr>) (drop amp headers))
              | None \<Rightarrow>
                  if length headers + 1 < equal + 2 then (OSIP_SYNTAXERROR, url)
                  else
                    (let hvalue = osip_uri_unescape (osip_strncpy headers (equal + 1) (length headers - equal))
                     in case osip_uri_param_add (url_headers url) (Some hname) (Some hvalue) of
                          (i, hs) \<Rightarrow>
                            if i \<noteq> OSIP_SUCCESS then (i, url)
                            else (OSIP_SUCCESS, url\<lparr>url_headers := hs\<rparr>))))"
  by pat_completeness auto
termination
  by (relation "measure (\<lambda>(url, headers). length headers)") (auto dest!: strchr_bounds)

declare osip_uri_parse_headers.simps [simp del]

text \<open>One parameter of \<^verbatim>\<open>osip_uri_parse_params\<close>, from the separator at offset 0 up to \<open>comma\<close>.\<close>

definition parse_one_param :: "uri_param list \<Rightarrow> string \<Rightarrow> nat \<Rightarrow> int \<times> uri_param list" where
  "parse_one_param ps params comma =
     (case (case next_separator params 1 (CHR ''='') (CHR '';'') of
              None \<Rightarrow> Some (comma, None)
            | Some equal \<Rightarrow>
                if comma < equal + 2 then None
                else Some (equal, Some (osip_uri_unescape (osip_strncpy params (equal + 1) (comma - equal - 1))))) of
        None \<Rightarrow> (OSIP_SYNTAXERROR, ps)
      | Some (equal, pvalue) \<Rightarrow>
          if equal < 2 then (OSIP_SYNTAXERROR, ps)
          else
            (case osip_uri_param_add ps (Some (osip_uri_unescape (osip_strncpy params 1 (equal - 1)))) pvalue of
               (i, qs) \<Rightarrow> if i \<noteq> OSIP_SUCCESS then (OSIP_NOMEM, ps) else (OSIP_SUCCESS, qs)))"

function parse_params_loop :: "uri_param list \<Rightarrow> string \<Rightarrow> int \<times> uri_param list" where
  "parse_params_loop ps params =
     (case strchr params 1 (CHR '';'') of
        None \<Rightarrow> parse_one_param ps params (length params)
      | Some comma \<Rightarrow>
          (case parse_one_param ps params comma of
             (i, qs) \<Rightarrow> if i \<noteq> OSIP_SUCCESS then (i, qs) else parse_params_loop qs (drop comma params)))"
  by pat_completeness auto
termination
  by (relation "measure (\<lambda>(ps, params). length params)") (auto dest!: strchr_bounds)

declare parse_params_loop.simps [simp del]

definition osip_uri_parse_params :: "uri \<Rightarrow> string \<Rightarrow> int \<times> uri" where
  "osip_uri_parse_params url params =
     (case parse_params_loop (url_params url) params of (i, ps) \<Rightarrow> (i, url\<lparr>url_params := ps\<rparr>))"

text \<open>The backward and forward scans for the port and the brackets of an IPv6 address.\<close>

fun scan_back :: "(char \<Rightarrow> bool) \<Rightarrow> string \<Rightarrow> nat \<Rightarrow> nat \<Rightarrow> nat" where
  "scan_back stop s lo p =
     (if p > lo \<and> \<not> stop (chr_at s p) then scan_back stop s lo (p - 1) else p)"

function scan_forw :: "(char \<Rightarrow> bool) \<Rightarrow> string \<Rightarrow> nat \<Rightarrow> nat \<Rightarrow> nat" where
  "scan_forw stop s p hi =
     (if p < hi \<and> \<not> stop (chr_at s p) then scan_forw stop s (p + 1) hi else p)"
  by pat_completeness auto
termination by (relation "measure (\<lambda>(stop, s, p, hi). hi - p)") auto

declare scan_back.simps [simp del] scan_forw.simps [simp del]

text \<open>The user part, between the colon at \<open>usr\<close> and the at sign at \<open>at\<close>.\<close>

definition parse_userinfo :: "uri \<Rightarrow> string \<Rightarrow> nat \<Rightarrow> nat \<Rightarrow> int \<times> uri" where
  "parse_userinfo url buf usr at =
     (let pw = next_separator buf (usr + 1) (CHR '':'') (CHR ''@'')
      in case (case pw of
                 None \<Rightarrow> (OSIP_SUCCESS, url, at)
               | Some pw \<Rightarrow>
                   if at < pw + 2 then (OSIP_SYNTAXERROR, url, pw)
                   else (OSIP_SUCCESS,
                         url\<lparr>password := Some (osip_uri_unescape (osip_strncpy buf (pw + 1) (at - pw - 1)))\<rparr>, pw)) of
           (i, url, pw) \<Rightarrow>
             if i \<noteq> OSIP_SUCCESS then (i, url)
             else if pw < usr + 2 then (OSIP_SYNTAXERROR, url)
             else (OSIP_SUCCESS,
                   url\<lparr>username := Some (osip_uri_unescape (osip_strncpy buf (usr + 1) (pw - usr - 1)))\<rparr>))"

text \<open>The host, once the end \<open>prt\<close> of the host part is known; an IPv6 address is in brackets.\<close>

definition bracket_host :: "uri \<Rightarrow> string \<Rightarrow> nat \<Rightarrow> nat \<Rightarrow> int \<times> uri" where
  "bracket_host url buf hst prt =
     (let tmp = scan_back (\<lambda>c. c = CHR '']'') buf hst prt;
          bracket = (chr_at buf tmp = CHR '']'');
          prt = (if bracket then tmp else prt);
          hst = (if bracket then scan_forw (\<lambda>c. c = CHR ''['') buf hst prt else hst)
      in if bracket \<and> hst \<ge> prt then (OSIP_SYNTAXERROR, url)
         else if prt < hst + 2 then (OSIP_SYNTAXERROR, url)
         else (OSIP_SUCCESS, url\<lparr>host := Some (osip_clrncpy buf (hst + 1) (prt - hst - 1))\<rparr>))"

text \<open>The host and the port, from the separator at \<open>hst\<close> up to the parameters at \<open>params\<close>.\<close>

definition parse_hostport :: "uri \<Rightarrow> string \<Rightarrow> nat \<Rightarrow> nat \<Rightarrow> int \<times> uri" where
  "parse_hostport url buf hst params =
     (let prt = scan_back (\<lambda>c. c = CHR '']'' \<or> c = CHR '':'') buf hst (params - 1)
      in case (if chr_at buf prt = CHR '':'' then
                 (if hst = prt then (OSIP_SUCCESS, url, params)
                  else if params < prt + 2 \<or> params > prt + 8 then (OSIP_SYNTAXERROR, url, prt)
                  else (OSIP_SUCCESS,
                        url\<lparr>port := Some (osip_clrncpy buf (prt + 1) (params - prt - 1))\<rparr>, prt))
               else (OSIP_SUCCESS, url, params)) of
           (i, url, prt) \<Rightarrow>
             if i \<noteq> OSIP_SUCCESS then (i, url)
             else bracket_host url buf hst prt)"

text \<open>The part of a SIP URI behind the user part.\<close>

definition parse_hostpart :: "uri \<Rightarrow> string \<Rightarrow> nat \<Rightarrow> int \<times> uri" where
  "parse_hostpart url buf hst =
     (case (case strchr buf hst (CHR ''?'') of
              None \<Rightarrow> (length buf, url)
            | Some headers \<Rightarrow> (headers, snd (osip_uri_parse_headers url (drop headers buf)))) of
        (headers, url) \<Rightarrow>
          (case strchr buf hst (CHR '';'') of
             None \<Rightarrow> parse_hostport url buf hst headers
           | Some params \<Rightarrow>
               if headers < params + 1 then (OSIP_SYNTAXERROR, url)
               else parse_hostport
                      (snd (osip_uri_parse_params url (osip_strncpy buf params (headers - params))))
                      buf hst params))"

definition osip_uri_parse :: "uri \<Rightarrow> string option \<Rightarrow> int \<times> uri" where
  "osip_uri_parse url bufp =
     (case bufp of
        None \<Rightarrow> (OSIP_BADPARAMETER, url)
      | Some buf \<Rightarrow>
          if buf = [] then (OSIP_BADPARAMETER, url)
          else
            (case strchr buf 0 (CHR '':'') of
               None \<Rightarrow> (OSIP_SYNTAXERROR, url)
             | Some tmp \<Rightarrow>
                 if tmp < 2 then (OSIP_SYNTAXERROR, url)
                 else if \<not> list_all osip_is_alpha (take tmp buf) then (OSIP_SYNTAXERROR, url)
                 else
                   (let sch = osip_strncpy buf 0 tmp;
                        url = url\<lparr>scheme := Some sch\<rparr>
                    in if strchr sch 0 (CHR '' '') \<noteq> None then (OSIP_SYNTAXERROR, url)
                       else if length sch < 3 \<or>
                         (osip_strncasecmp sch ''sip'' 3 \<noteq> 0 \<and> osip_strncasecmp sch ''sips'' 4 \<noteq> 0) then
                         (let i = length buf - (tmp + 1)
                          in if i < 2 then (OSIP_SYNTAXERROR, url)
                             else (OSIP_SUCCESS, url\<lparr>uri_string := Some (osip_strncpy buf (tmp + 1) i)\<rparr>))
                       else
                         (case strchr buf 0 (CHR ''@'') of
                            None \<Rightarrow> parse_hostpart url buf tmp
                          | Some at \<Rightarrow>
                              if chr_at buf (tmp + 1) = CHR ''@'' then parse_hostpart url buf (tmp + 1)
                              else
                                (case parse_userinfo url buf tmp at of
                                   (i, url) \<Rightarrow>
                                     if i \<noteq> OSIP_SUCCESS then (i, url) else parse_hostpart url buf at)))))"

section \<open>Printing\<close>

fun print_params :: "nat \<Rightarrow> string \<Rightarrow> uri_param list \<Rightarrow> (nat \<times> string) option" where
  "print_params len buf [] = Some (len, buf)"
| "print_params len buf (u_param # ps) = do {
     n \<leftarrow> gname u_param;
     if osip_strcasecmp n ''x-obr'' = 0 \<or> osip_strcasecmp n ''x-obp'' = 0 then print_params len buf ps
     else do {
       tmp1 \<leftarrow> osip_uri_escape_uri_param n;
       case gvalue u_param of
         None \<Rightarrow> do {
           let len = len + (length tmp1 + 2);
           buf \<leftarrow> sprintf_end len buf ('';'' @ tmp1);
           print_params len buf ps }
       | Some v \<Rightarrow> do {
           tmp2 \<leftarrow> osip_uri_escape_uri_param v;
           let len = len + (length tmp1 + length tmp2 + 3);
           buf \<leftarrow> sprintf_end len buf ('';'' @ tmp1 @ ''='' @ tmp2);
           print_params len buf ps } } }"

text \<open>\<^verbatim>\<open>snprintf\<close> with the rest of the buffer: the text is cut at the end of the buffer.\<close>

definition snprintf_end :: "nat \<Rightarrow> string \<Rightarrow> string \<Rightarrow> string" where
  "snprintf_end len buf s = buf @ take (len - length buf - 1) s"

fun print_headers :: "nat \<Rightarrow> nat \<Rightarrow> string \<Rightarrow> uri_param list \<Rightarrow> (nat \<times> string) option" where
  "print_headers pos len buf [] = Some (len, buf)"
| "print_headers pos len buf (u_header # hs) = do {
     n \<leftarrow> gname u_header;
     tmp1 \<leftarrow> osip_uri_escape_header_param n;
     v \<leftarrow> gvalue u_header;
     tmp2 \<leftarrow> osip_uri_escape_header_param v;
     let len = len + (length tmp1 + length tmp2 + 4);
     let buf = snprintf_end len buf ((if pos = 0 then ''?'' else ''&'') @ tmp1 @ ''='' @ tmp2);
     print_headers (pos + 1) len buf hs }"

text \<open>The size of the first buffer and what is written to it: scheme, user part, host and port.\<close>

definition base_len :: "string \<Rightarrow> string \<Rightarrow> uri \<Rightarrow> nat" where
  "base_len sch h url =
     (let len = length sch + 1 + length h + 5;
          len = (case username url of Some u \<Rightarrow> len + length u * 3 + 1 | None \<Rightarrow> len);
          len = (case password url of Some p \<Rightarrow> len + length p * 3 + 1 | None \<Rightarrow> len)
      in case port url of Some p \<Rightarrow> len + length p + 3 | None \<Rightarrow> len)"

definition print_userinfo :: "nat \<Rightarrow> string \<Rightarrow> uri \<Rightarrow> string option" where
  "print_userinfo len buf url = do {
     buf \<leftarrow> (case username url of
               None \<Rightarrow> Some buf
             | Some u \<Rightarrow> do { t \<leftarrow> osip_uri_escape_userinfo u; sprintf_end len buf t });
     buf \<leftarrow> (case (password url, username url) of
               (Some p, Some u) \<Rightarrow> do { t \<leftarrow> osip_uri_escape_password p; sprintf_end len buf ('':'' @ t) }
             | _ \<Rightarrow> Some buf);
     if username url \<noteq> None then sprintf_end len buf ''@'' else Some buf }"

definition print_hostport :: "nat \<Rightarrow> string \<Rightarrow> string \<Rightarrow> uri \<Rightarrow> string option" where
  "print_hostport len buf h url = do {
     buf \<leftarrow> (if strchr h 0 (CHR '':'') \<noteq> None then sprintf_end len buf (''['' @ h @ '']'')
             else sprintf_end len buf h);
     case port url of None \<Rightarrow> Some buf | Some p \<Rightarrow> sprintf_end len buf ('':'' @ p) }"

definition osip_uri_to_str :: "uri option \<Rightarrow> (int \<times> string option) option" where
  "osip_uri_to_str urlp =
     (case urlp of
        None \<Rightarrow> Some (OSIP_BADPARAMETER, None)
      | Some url \<Rightarrow>
          if host url = None \<and> uri_string url = None then Some (OSIP_BADPARAMETER, None)
          else if scheme url = None \<and> uri_string url \<noteq> None then Some (OSIP_BADPARAMETER, None)
          else do {
            sch \<leftarrow> (if uri_string url = None \<and> scheme url = None then Some ''sip'' else scheme url);
            case uri_string url of
              Some str \<Rightarrow> do {
                let len = length sch + length str + 3;
                buf \<leftarrow> sprintf_end len [] (sch @ '':'');
                buf \<leftarrow> sprintf_end len buf str;
                Some (OSIP_SUCCESS, Some buf) }
            | None \<Rightarrow> do {
                h \<leftarrow> host url;
                let len = base_len sch h url;
                buf \<leftarrow> sprintf_end len [] (sch @ '':'');
                buf \<leftarrow> print_userinfo len buf url;
                buf \<leftarrow> print_hostport len buf h url;
                (len, buf) \<leftarrow> print_params len buf (url_params url);
                (len, buf) \<leftarrow> print_headers 0 len buf (url_headers url);
                Some (OSIP_SUCCESS, Some buf) } })"

definition osip_uri_to_str_canonical :: "uri option \<Rightarrow> (int \<times> string option) option" where
  "osip_uri_to_str_canonical url = do {
     (result, dest) \<leftarrow> osip_uri_to_str url;
     if result = 0 then do { d \<leftarrow> dest; Some (result, Some (osip_uri_unescape d)) }
     else Some (result, dest) }"

section \<open>Cloning\<close>

definition osip_uri_clone :: "uri option \<Rightarrow> int \<times> uri option" where
  "osip_uri_clone urlp =
     (case urlp of
        None \<Rightarrow> (OSIP_BADPARAMETER, None)
      | Some url \<Rightarrow>
          if host url = None \<and> uri_string url = None then (OSIP_BADPARAMETER, None)
          else
            (let dup = (\<lambda>s. if s \<noteq> None then osip_strdup s else None);
                 ur = osip_uri_init\<lparr>scheme := dup (scheme url), username := dup (username url),
                        password := dup (password url), host := dup (host url), port := dup (port url),
                        uri_string := dup (uri_string url)\<rparr>
             in case param_list_clone (url_params url) of
                  (i, ps) \<Rightarrow>
                    if i \<noteq> 0 then (i, None)
                    else (case param_list_clone (url_headers url) of
                            (i, hs) \<Rightarrow>
                              if i \<noteq> 0 then (i, None)
                              else (OSIP_SUCCESS, Some (ur\<lparr>url_params := ps, url_headers := hs\<rparr>)))))"

end
