(* ===== verification/Osip_Headers.thy ===== *)
theory Osip_Headers
  imports Osip_Uri
begin

text \<open>
  The SIP headers the transaction layer reads: \<^verbatim>\<open>osip_cseq.c\<close>, \<^verbatim>\<open>osip_call_id.c\<close>,
  \<^verbatim>\<open>osip_content_length.c\<close>, \<^verbatim>\<open>osip_via.c\<close>, \<^verbatim>\<open>osip_from.c\<close> with its generic parameters, and the headers
  \<^verbatim>\<open>To\<close>, \<^verbatim>\<open>Contact\<close>, \<^verbatim>\<open>Route\<close> and \<^verbatim>\<open>Record-Route\<close> built on it, under \<^verbatim>\<open>osip/src/osipparser2\<close>.
\<close>

definition skip_chars :: "(char \<Rightarrow> bool) \<Rightarrow> string \<Rightarrow> nat \<Rightarrow> nat" where
  "skip_chars P s i = i + length (takeWhile P (drop i s))"

definition dup :: "string option \<Rightarrow> string option" where
  "dup s = (if s \<noteq> None then osip_strdup s else None)"

lemma dup_id [simp]: "dup s = s" by (simp add: dup_def)

section \<open>CSeq\<close>

record cseq =
  cseq_method :: "string option"
  cseq_number :: "string option"

definition osip_cseq_init :: cseq where
  "osip_cseq_init = \<lparr>cseq_method = None, cseq_number = None\<rparr>"

definition osip_cseq_parse :: "cseq option \<Rightarrow> string option \<Rightarrow> int \<times> cseq option" where
  "osip_cseq_parse csp hv =
     (case (csp, hv) of
        (Some cs, Some hvalue) \<Rightarrow>
          (let cs = cs\<lparr>cseq_number := None, cseq_method := None\<rparr>
           in case strchr hvalue 0 (CHR '' '') of
                None \<Rightarrow> (OSIP_SYNTAXERROR, Some cs)
              | Some method \<Rightarrow>
                  if method + 1 < 2 then (OSIP_SYNTAXERROR, Some cs)
                  else
                    (let cs = cs\<lparr>cseq_number := Some (osip_clrncpy hvalue 0 method)\<rparr>
                     in if length hvalue + 1 < method + 2 then (OSIP_SYNTAXERROR, Some cs)
                        else (OSIP_SUCCESS,
                          Some (cs\<lparr>cseq_method := Some (osip_clrncpy hvalue (method + 1) (length hvalue - method))\<rparr>))))
      | _ \<Rightarrow> (OSIP_BADPARAMETER, csp))"

definition osip_cseq_to_str :: "cseq option \<Rightarrow> int \<times> string option" where
  "osip_cseq_to_str csp =
     (case csp of
        None \<Rightarrow> (OSIP_BADPARAMETER, None)
      | Some cs \<Rightarrow>
          (case (cseq_number cs, cseq_method cs) of
             (Some n, Some m) \<Rightarrow>
               (let len = length m + length n + 2
                in (OSIP_SUCCESS, Some (snprintf_end len [] (n @ '' '' @ m))))
           | _ \<Rightarrow> (OSIP_BADPARAMETER, None)))"

definition osip_cseq_clone :: "cseq option \<Rightarrow> int \<times> cseq option" where
  "osip_cseq_clone csp =
     (case csp of
        None \<Rightarrow> (OSIP_BADPARAMETER, None)
      | Some cs \<Rightarrow>
          if cseq_method cs = None then (OSIP_BADPARAMETER, None)
          else if cseq_number cs = None then (OSIP_BADPARAMETER, None)
          else (OSIP_SUCCESS, Some (osip_cseq_init\<lparr>cseq_method := osip_strdup (cseq_method cs),
                  cseq_number := osip_strdup (cseq_number cs)\<rparr>)))"

definition osip_cseq_match :: "cseq option \<Rightarrow> cseq option \<Rightarrow> int" where
  "osip_cseq_match cseq1 cseq2 =
     (case (cseq1, cseq2) of
        (Some c1, Some c2) \<Rightarrow>
          if cseq_number c1 = None \<or> cseq_number c2 = None \<or> cseq_method c1 = None \<or> cseq_method c2 = None
          then OSIP_BADPARAMETER
          else if cseq_number c1 = cseq_number c2 then
            (if cseq_method c2 = Some ''INVITE'' \<or> cseq_method c2 = Some ''ACK'' then
               (if cseq_method c1 = Some ''INVITE'' \<or> cseq_method c1 = Some ''ACK'' then OSIP_SUCCESS
                else OSIP_UNDEFINED_ERROR)
             else if cseq_method c1 = cseq_method c2 then OSIP_SUCCESS
             else OSIP_UNDEFINED_ERROR)
          else OSIP_UNDEFINED_ERROR
      | _ \<Rightarrow> OSIP_BADPARAMETER)"

section \<open>Call-ID\<close>

record call_id =
  call_id_number :: "string option"
  call_id_host :: "string option"

definition osip_call_id_init :: call_id where
  "osip_call_id_init = \<lparr>call_id_number = None, call_id_host = None\<rparr>"

definition osip_call_id_parse :: "call_id \<Rightarrow> string \<Rightarrow> int \<times> call_id" where
  "osip_call_id_parse ci hvalue =
     (let ci = ci\<lparr>call_id_number := None, call_id_host := None\<rparr>;
          end' = length hvalue;
          (i, ci, h) =
            (case strchr hvalue 0 (CHR ''@'') of
               None \<Rightarrow> (OSIP_SUCCESS, ci, end')
             | Some h \<Rightarrow>
                 if end' + 1 < h + 2 then (OSIP_SYNTAXERROR, ci, h)
                 else (OSIP_SUCCESS, ci\<lparr>call_id_host := Some (osip_clrncpy hvalue (h + 1) (end' - h - 1))\<rparr>, h))
      in if i \<noteq> OSIP_SUCCESS then (i, ci)
         else if h + 1 < 2 then (OSIP_SYNTAXERROR, ci)
         else (OSIP_SUCCESS, ci\<lparr>call_id_number := Some (osip_clrncpy hvalue 0 h)\<rparr>))"

definition osip_call_id_to_str :: "call_id option \<Rightarrow> (int \<times> string option) option" where
  "osip_call_id_to_str cip =
     (case cip of
        None \<Rightarrow> Some (OSIP_BADPARAMETER, None)
      | Some ci \<Rightarrow>
          (case call_id_number ci of
             None \<Rightarrow> Some (OSIP_BADPARAMETER, None)
           | Some n \<Rightarrow>
               (case call_id_host ci of
                  None \<Rightarrow> do {
                    d \<leftarrow> sprintf_end (length n + 1) [] n;
                    Some (OSIP_SUCCESS, Some d) }
                | Some h \<Rightarrow> do {
                    d \<leftarrow> sprintf_end (length n + length h + 2) [] (n @ ''@'' @ h);
                    Some (OSIP_SUCCESS, Some d) })))"

definition osip_call_id_clone :: "call_id option \<Rightarrow> int \<times> call_id option" where
  "osip_call_id_clone cip =
     (case cip of
        None \<Rightarrow> (OSIP_BADPARAMETER, None)
      | Some ci \<Rightarrow>
          if call_id_number ci = None then (OSIP_BADPARAMETER, None)
          else (OSIP_SUCCESS, Some (osip_call_id_init\<lparr>call_id_number := osip_strdup (call_id_number ci),
                  call_id_host := dup (call_id_host ci)\<rparr>)))"

definition osip_call_id_match :: "call_id option \<Rightarrow> call_id option \<Rightarrow> int" where
  "osip_call_id_match callid1 callid2 =
     (case (callid1, callid2) of
        (Some c1, Some c2) \<Rightarrow>
          if call_id_number c1 = None \<or> call_id_number c2 = None then OSIP_BADPARAMETER
          else if call_id_number c1 \<noteq> call_id_number c2 then OSIP_UNDEFINED_ERROR
          else if call_id_host c1 = None \<and> call_id_host c2 = None then OSIP_SUCCESS
          else if call_id_host c1 = None \<and> call_id_host c2 \<noteq> None then OSIP_UNDEFINED_ERROR
          else if call_id_host c1 \<noteq> None \<and> call_id_host c2 = None then OSIP_UNDEFINED_ERROR
          else if call_id_host c1 \<noteq> call_id_host c2 then OSIP_UNDEFINED_ERROR
          else OSIP_SUCCESS
      | _ \<Rightarrow> OSIP_BADPARAMETER)"

section \<open>Content-Length\<close>

record content_length =
  cl_value :: "string option"

definition osip_content_length_init :: content_length where
  "osip_content_length_init = \<lparr>cl_value = None\<rparr>"

definition osip_content_length_parse :: "content_length \<Rightarrow> string option \<Rightarrow> int \<times> content_length" where
  "osip_content_length_parse cl hv =
     (case hv of
        None \<Rightarrow> (OSIP_BADPARAMETER, cl)
      | Some hvalue \<Rightarrow>
          if length hvalue + 1 < 2 then (OSIP_SYNTAXERROR, cl)
          else (OSIP_SUCCESS, cl\<lparr>cl_value := Some (osip_strncpy hvalue 0 (length hvalue))\<rparr>))"

definition osip_content_length_to_str :: "content_length option \<Rightarrow> int \<times> string option" where
  "osip_content_length_to_str clp =
     (case clp of
        None \<Rightarrow> (OSIP_BADPARAMETER, None)
      | Some cl \<Rightarrow>
          (case osip_strdup (cl_value cl) of
             None \<Rightarrow> (OSIP_NOMEM, None)
           | Some d \<Rightarrow> (OSIP_SUCCESS, Some d)))"

definition osip_content_length_clone :: "content_length option \<Rightarrow> int \<times> content_length option" where
  "osip_content_length_clone ctl =
     (case ctl of
        None \<Rightarrow> (OSIP_BADPARAMETER, None)
      | Some c \<Rightarrow> (OSIP_SUCCESS, Some (osip_content_length_init\<lparr>cl_value := dup (cl_value c)\<rparr>)))"

section \<open>Generic parameters\<close>

text \<open>The offsets of the equals sign and of the semicolon that ends the parameter starting at
  offset 0; a semicolon inside a quoted value does not count.\<close>

definition param_separators :: "string \<Rightarrow> nat option \<times> nat option" where
  "param_separators params =
     (let equal = next_separator params 1 (CHR ''='') (CHR '';'');
          comma = strchr params 1 (CHR '';'')
      in case equal of
           None \<Rightarrow> (equal, comma)
         | Some e \<Rightarrow>
             (let tmp = skip_chars (\<lambda>c. c = CHR '' '') params (e + 1)
              in if chr_at params tmp = DQUOTE then
                   (case comma of
                      None \<Rightarrow> (equal, None)
                    | Some c \<Rightarrow>
                        if c > tmp then
                          (equal, case osip_quote_find params (tmp + 1) of
                                    None \<Rightarrow> None
                                  | Some endquote \<Rightarrow> strchr params endquote (CHR '';''))
                        else (equal, comma))
                 else (equal, comma)))"

text \<open>One parameter that ends at offset \<open>comma\<close>.\<close>

definition generic_param_one ::
  "uri_param list \<Rightarrow> string \<Rightarrow> nat option \<Rightarrow> nat \<Rightarrow> int \<times> uri_param list" where
  "generic_param_one ps params equal comma =
     (case (case equal of
              None \<Rightarrow> Some (comma, None)
            | Some e \<Rightarrow>
                (let tmp = skip_chars (\<lambda>c. c = HT \<or> c = CHR '' '') params (e + 1)
                 in if chr_at params tmp \<noteq> CHR '','' \<and> chr_at params tmp \<noteq> NUL then
                      (if comma < e + 2 then None
                       else Some (e, Some (osip_strncpy params (e + 1) (comma - e - 1))))
                    else Some (e, None))) of
        None \<Rightarrow> (OSIP_SYNTAXERROR, ps)
      | Some (e, pvalue) \<Rightarrow>
          if e < 2 then (OSIP_SYNTAXERROR, ps)
          else (case osip_uri_param_add ps (Some (osip_strncpy params 1 (e - 1))) pvalue of
                  (i, qs) \<Rightarrow> if i \<noteq> OSIP_SUCCESS then (OSIP_NOMEM, ps) else (OSIP_SUCCESS, qs)))"

lemma param_separators_comma:
  "param_separators params = (e, Some comma) \<Longrightarrow> 1 \<le> comma \<and> comma < length params"
proof -
  have q: "1 \<le> q \<and> q < length params" if "osip_quote_find params (Suc t) = Some q'"
    "strchr params q' (CHR '';'') = Some q" for t q q'
    using that(1) strchr_bounds [OF that(2)] by (auto simp: osip_quote_find_eq)
  assume "param_separators params = (e, Some comma)"
  then show ?thesis
    using q by (auto simp: param_separators_def Let_def split: option.splits if_splits dest!: strchr_bounds)
qed

function osip_generic_param_parseall :: "uri_param list \<Rightarrow> string \<Rightarrow> int \<times> uri_param list" where
  "osip_generic_param_parseall ps params =
     (case param_separators params of
        (equal, None) \<Rightarrow>
          if equal = None \<and> length params < 2 then (OSIP_SUCCESS, ps)
          else generic_param_one ps params equal (length params)
      | (equal, Some comma) \<Rightarrow>
          (case generic_param_one ps params equal comma of
             (i, qs) \<Rightarrow>
               if i \<noteq> OSIP_SUCCESS then (i, qs)
               else osip_generic_param_parseall qs (drop comma params)))"
  by pat_completeness auto
termination
  by (relation "measure (\<lambda>(ps, params). length params)")
     (auto dest!: param_separators_comma [OF sym])

declare osip_generic_param_parseall.simps [simp del]

section \<open>Via\<close>

record via =
  via_version :: "string option"
  via_protocol :: "string option"
  via_host :: "string option"
  via_port :: "string option"
  via_comment :: "string option"
  via_params :: "uri_param list"

definition osip_via_init :: via where
  "osip_via_init = \<lparr>via_version = None, via_protocol = None, via_host = None, via_port = None,
     via_comment = None, via_params = []\<rparr>"

text \<open>The loop over extra blanks in front of the protocol; \<open>None\<close> is the syntax error.\<close>

function via_skip :: "string \<Rightarrow> nat \<Rightarrow> nat option" where
  "via_skip s h =
     (if chr_at s h = CHR '' '' then
        (if length s - (h + 1) = 1 then None else via_skip s (h + 1))
      else Some h)"
  by pat_completeness auto
termination
  by (relation "measure (\<lambda>(s, h). length s - h)") (auto simp: chr_at_def NUL_def split: if_splits)

declare via_skip.simps [simp del]

text \<open>The blank behind the protocol.  \<open>None\<close> is a read behind the end of the string: the search
  starts at \<^verbatim>\<open>host + 1\<close> when \<^verbatim>\<open>host\<close> already points to the terminating zero.\<close>

definition via_find_host :: "string \<Rightarrow> nat \<Rightarrow> nat option option" where
  "via_find_host hvalue protocol =
     (case strchr hvalue (protocol + 1) (CHR '' '') of
        None \<Rightarrow> Some None
      | Some h \<Rightarrow>
          if h = protocol + 1 then
            (case via_skip hvalue h of
               None \<Rightarrow> Some None
             | Some h \<Rightarrow>
                 if h \<ge> length hvalue then None
                 else Some (strchr hvalue (h + 1) (CHR '' '')))
          else Some (Some h))"

text \<open>The comment: the offset where it begins (the end of the string without one).\<close>

definition via_parse_comment :: "via \<Rightarrow> string \<Rightarrow> nat \<Rightarrow> int \<times> via \<times> nat" where
  "via_parse_comment via hvalue h =
     (case strchr hvalue h (CHR ''('') of
        None \<Rightarrow> (OSIP_SUCCESS, via, length hvalue)
      | Some comment \<Rightarrow>
          (case strchr hvalue h (CHR '')'') of
             None \<Rightarrow> (OSIP_SYNTAXERROR, via, comment)
           | Some end_comment \<Rightarrow>
               if end_comment < comment + 2 then (OSIP_SYNTAXERROR, via, comment)
               else (OSIP_SUCCESS,
                     via\<lparr>via_comment := Some (osip_strncpy hvalue (comment + 1) (end_comment - comment - 1))\<rparr>,
                     comment - 1)))"

definition via_parse_port :: "via \<Rightarrow> string \<Rightarrow> nat option \<Rightarrow> nat \<Rightarrow> int \<times> via \<times> nat" where
  "via_parse_port via hvalue prt params =
     (case prt of
        Some p \<Rightarrow>
          if p < params then
            (if params < p + 2 then (OSIP_SYNTAXERROR, via, p)
             else
               (let v = osip_clrncpy hvalue (p + 1) (params - p - 1);
                    via = via\<lparr>via_port := Some v\<rparr>
                in if osip_atoi v < 0 then (OSIP_SYNTAXERROR, via, p) else (OSIP_SUCCESS, via, p)))
          else (OSIP_SUCCESS, via, params)
      | None \<Rightarrow> (OSIP_SUCCESS, via, params))"

text \<open>Host and port, from the blank at \<open>h\<close> to the parameters at \<open>params\<close>.\<close>

definition via_parse_hostport :: "via \<Rightarrow> string \<Rightarrow> nat \<Rightarrow> nat \<Rightarrow> int \<times> via" where
  "via_parse_hostport via hvalue h params =
     (case strchr hvalue h (CHR ''['') of
        Some ipv6host \<Rightarrow>
          if ipv6host < params then
            (case strchr hvalue ipv6host (CHR '']'') of
               None \<Rightarrow> (OSIP_SYNTAXERROR, via)
             | Some prt \<Rightarrow>
                 if prt > params then (OSIP_SYNTAXERROR, via)
                 else if prt < ipv6host + 2 then (OSIP_SYNTAXERROR, via)
                 else
                   (let via = via\<lparr>via_host := Some (osip_clrncpy hvalue (ipv6host + 1) (prt - ipv6host - 1))\<rparr>
                    in case via_parse_port via hvalue (strchr hvalue prt (CHR '':'')) params of
                         (i, via, _) \<Rightarrow> (i, via)))
          else
            (case via_parse_port via hvalue (strchr hvalue h (CHR '':'')) params of
               (i, via, prt) \<Rightarrow>
                 if i \<noteq> OSIP_SUCCESS then (i, via)
                 else if prt < h + 2 then (OSIP_SYNTAXERROR, via)
                 else (OSIP_SUCCESS, via\<lparr>via_host := Some (osip_clrncpy hvalue (h + 1) (prt - h - 1))\<rparr>))
      | None \<Rightarrow>
          (case via_parse_port via hvalue (strchr hvalue h (CHR '':'')) params of
             (i, via, prt) \<Rightarrow>
               if i \<noteq> OSIP_SUCCESS then (i, via)
               else if prt < h + 2 then (OSIP_SYNTAXERROR, via)
               else (OSIP_SUCCESS, via\<lparr>via_host := Some (osip_clrncpy hvalue (h + 1) (prt - h - 1))\<rparr>)))"

text \<open>From the blank behind the protocol on: comment, parameters, host and port.\<close>

definition via_parse_sentby :: "via \<Rightarrow> string \<Rightarrow> nat \<Rightarrow> int \<times> via" where
  "via_parse_sentby via hvalue h =
     (case via_parse_comment via hvalue h of
        (i, via, comment) \<Rightarrow>
          if i \<noteq> OSIP_SUCCESS then (i, via)
          else
            (case strchr hvalue h (CHR '';'') of
               None \<Rightarrow> via_parse_hostport via hvalue h comment
             | Some params \<Rightarrow>
                 if params < comment then
                   (case osip_generic_param_parseall (via_params via) (osip_strncpy hvalue params (comment - params)) of
                      (i, ps) \<Rightarrow>
                        if i \<noteq> 0 then (i, via\<lparr>via_params := ps\<rparr>)
                        else via_parse_hostport (via\<lparr>via_params := ps\<rparr>) hvalue h params)
                 else via_parse_hostport via hvalue h params))"

definition osip_via_parse :: "via \<Rightarrow> string option \<Rightarrow> (int \<times> via) option" where
  "osip_via_parse via hv =
     (case hv of
        None \<Rightarrow> Some (OSIP_BADPARAMETER, via)
      | Some hvalue \<Rightarrow>
          (case strchr hvalue 0 (CHR ''/'') of
             None \<Rightarrow> Some (OSIP_SYNTAXERROR, via)
           | Some version \<Rightarrow>
               (case strchr hvalue (version + 1) (CHR ''/'') of
                  None \<Rightarrow> Some (OSIP_SYNTAXERROR, via)
                | Some protocol \<Rightarrow>
                    if protocol < version + 2 then Some (OSIP_SYNTAXERROR, via)
                    else
                      (let via = via\<lparr>via_version := Some (osip_clrncpy hvalue (version + 1) (protocol - version - 1))\<rparr>
                       in case via_find_host hvalue protocol of
                            None \<Rightarrow> None
                          | Some None \<Rightarrow> Some (OSIP_SYNTAXERROR, via)
                          | Some (Some h) \<Rightarrow>
                              if h < protocol + 2 then Some (OSIP_SYNTAXERROR, via)
                              else Some (via_parse_sentby
                                (via\<lparr>via_protocol := Some (osip_clrncpy hvalue (protocol + 1) (h - protocol - 1))\<rparr>)
                                hvalue h)))))"

text \<open>The loop that prints generic parameters with \<^verbatim>\<open>sprintf\<close> into the growing buffer.\<close>

fun sprint_generic_params :: "nat \<Rightarrow> string \<Rightarrow> uri_param list \<Rightarrow> (nat \<times> string) option" where
  "sprint_generic_params len buf [] = Some (len, buf)"
| "sprint_generic_params len buf (u_param # ps) = do {
     n \<leftarrow> gname u_param;
     case gvalue u_param of
       None \<Rightarrow> do {
         let len = len + (length n + 2);
         buf \<leftarrow> sprintf_end len buf ('';'' @ n);
         sprint_generic_params len buf ps }
     | Some v \<Rightarrow> do {
         let len = len + (length n + length v + 3);
         buf \<leftarrow> sprintf_end len buf ('';'' @ n @ ''='' @ v);
         sprint_generic_params len buf ps } }"

definition osip_via_to_str :: "via option \<Rightarrow> (int \<times> string option) option" where
  "osip_via_to_str viap =
     (case viap of
        None \<Rightarrow> Some (OSIP_BADPARAMETER, None)
      | Some via \<Rightarrow>
          (case (via_host via, via_version via, via_protocol via) of
             (Some h, Some vers, Some proto) \<Rightarrow> do {
               let len = length vers + 1 + length proto + 1 + 3 + 2;
               let len = len + length h + 3 + 1;
               let len = (case via_port via of None \<Rightarrow> len | Some p \<Rightarrow> len + length p + 2);
               let hostpart = (if strchr h 0 (CHR '':'') \<noteq> None then ''['' @ h @ '']'' else h);
               let portpart = (case via_port via of None \<Rightarrow> [] | Some p \<Rightarrow> '':'' @ p);
               buf \<leftarrow> sprintf_end len [] (''SIP/'' @ vers @ ''/'' @ proto @ '' '' @ hostpart @ portpart);
               (len, buf) \<leftarrow> sprint_generic_params len buf (via_params via);
               (case via_comment via of
                  None \<Rightarrow> Some (OSIP_SUCCESS, Some buf)
                | Some c \<Rightarrow>
                    (let len = len + length c + 4
                     in Some (OSIP_SUCCESS, Some (snprintf_end len buf ('' ('' @ c @ '')''))))) }
           | _ \<Rightarrow> Some (OSIP_BADPARAMETER, None)))"

definition via_get_protocol :: "via option \<Rightarrow> string option" where
  "via_get_protocol via = (case via of None \<Rightarrow> None | Some v \<Rightarrow> via_protocol v)"

definition osip_via_clone :: "via option \<Rightarrow> int \<times> via option" where
  "osip_via_clone viap =
     (case viap of
        None \<Rightarrow> (OSIP_BADPARAMETER, None)
      | Some via \<Rightarrow>
          if via_version via = None then (OSIP_BADPARAMETER, None)
          else if via_protocol via = None then (OSIP_BADPARAMETER, None)
          else if via_host via = None then (OSIP_BADPARAMETER, None)
          else
            (case param_list_clone (via_params via) of
               (i, ps) \<Rightarrow>
                 if i \<noteq> 0 then (i, None)
                 else (OSIP_SUCCESS, Some (osip_via_init\<lparr>via_version := osip_strdup (via_version via),
                         via_protocol := osip_strdup (via_protocol via), via_host := osip_strdup (via_host via),
                         via_port := dup (via_port via), via_comment := dup (via_comment via),
                         via_params := ps\<rparr>))))"

definition osip_via_match :: "via option \<Rightarrow> via option \<Rightarrow> int option" where
  "osip_via_match via1 via2 =
     (if via1 = None \<or> via2 = None then Some OSIP_BADPARAMETER
      else do {
        (i, s1) \<leftarrow> osip_via_to_str via1;
        if i \<noteq> 0 then Some i
        else do {
          (i, s2) \<leftarrow> osip_via_to_str via2;
          if i \<noteq> 0 then Some i
          else if s1 \<noteq> s2 then Some OSIP_UNDEFINED_ERROR
          else Some OSIP_SUCCESS } })"

section \<open>From, To, Contact, Route, Record-Route\<close>

record from_hdr =
  displayname :: "string option"
  from_url :: "uri option"
  gen_params :: "uri_param list"

definition osip_from_init :: from_hdr where
  "osip_from_init = \<lparr>displayname = None, from_url = None, gen_params = []\<rparr>"

text \<open>Characters of an unquoted display name.\<close>

definition is_display_char :: "char \<Rightarrow> bool" where
  "is_display_char c \<longleftrightarrow> c = CHR '' '' \<or> osip_is_alphanum c \<or>
     c \<in> {CHR ''-'', CHR ''.'', CHR ''!'', CHR ''%'', CHR ''*'', CHR ''_'', CHR ''+'', CHR 0x60, CHR 0x27, CHR ''~''}"

text \<open>The first half of \<^verbatim>\<open>osip_from_parse\<close>: the display name and the offset of the URI (of the
  opening bracket, if there is one).  \<open>Inr (code, header)\<close> is an early return.\<close>

definition from_parse_name :: "from_hdr \<Rightarrow> string \<Rightarrow> nat \<Rightarrow> (nat \<times> from_hdr) + (int \<times> from_hdr)" where
  "from_parse_name fr hvalue ptr =
     (if chr_at hvalue ptr = DQUOTE then
        (case osip_quote_find hvalue (ptr + 1) of
           None \<Rightarrow> Inr (OSIP_SYNTAXERROR, fr)
         | Some second \<Rightarrow>
             (let fr = fr\<lparr>displayname := Some (osip_strncpy hvalue ptr (second - ptr + 1))\<rparr>;
                  ptr = skip_chars (\<lambda>c. c = CHR '' '') hvalue (second + 1)
              in if chr_at hvalue ptr \<noteq> CHR ''<'' then Inr (OSIP_SYNTAXERROR, fr)
                 else if ptr + 1 \<ge> length hvalue then Inr (OSIP_SYNTAXERROR, fr)
                 else Inl (ptr, fr)))
      else
        (let beg = ptr; ptr = skip_chars is_display_char hvalue ptr
         in if ptr \<ge> length hvalue then Inr (OSIP_SYNTAXERROR, fr)
            else if chr_at hvalue ptr = CHR ''<'' then
              (if ptr + 1 \<ge> length hvalue then Inr (OSIP_SYNTAXERROR, fr)
               else if ptr > beg then Inl (ptr, fr\<lparr>displayname := Some (osip_clrncpy hvalue 0 (ptr - beg))\<rparr>)
               else Inl (ptr, fr))
            else Inl (beg, fr)))"

text \<open>The second half: \<open>uend\<close> is the offset behind the last character of the URI.\<close>

definition from_parse_uri :: "from_hdr \<Rightarrow> string \<Rightarrow> nat \<Rightarrow> nat \<Rightarrow> nat option \<Rightarrow> int \<times> from_hdr" where
  "from_parse_uri fr hvalue url uend params =
     (case (case params of
              None \<Rightarrow> (OSIP_SUCCESS, gen_params fr)
            | Some g \<Rightarrow> osip_generic_param_parseall (gen_params fr) (drop g hvalue)) of
        (i, ps) \<Rightarrow>
          (let fr = fr\<lparr>gen_params := ps\<rparr>
           in if i \<noteq> 0 then (i, fr)
              else if uend + 1 < url + 7 then (OSIP_SYNTAXERROR, fr)
              else
                (case osip_uri_parse osip_uri_init (Some (osip_strncpy hvalue url (uend - url))) of
                   (i, u) \<Rightarrow>
                     (let fr = fr\<lparr>from_url := Some u\<rparr>
                      in if i \<noteq> 0 then (i, fr) else (OSIP_SUCCESS, fr)))))"

definition osip_from_parse :: "from_hdr option \<Rightarrow> string option \<Rightarrow> int \<times> from_hdr option" where
  "osip_from_parse frp hv =
     (case (frp, hv) of
        (Some fr, Some hvalue) \<Rightarrow>
          (let ptr = skip_chars (\<lambda>c. c = CHR '' '') hvalue 0
           in if ptr \<ge> length hvalue then (OSIP_SUCCESS, frp)
              else
                (case from_parse_name fr hvalue ptr of
                   Inr (i, fr) \<Rightarrow> (i, Some fr)
                 | Inl (url, fr) \<Rightarrow>
                     if chr_at hvalue url = CHR ''<'' then
                       (case strchr hvalue (url + 1) (CHR ''>'') of
                          None \<Rightarrow> (OSIP_SYNTAXERROR, Some fr)
                        | Some uend \<Rightarrow>
                            (case from_parse_uri fr hvalue (url + 1) uend (strchr hvalue (uend - 1) (CHR '';'')) of
                               (i, fr) \<Rightarrow> (i, Some fr)))
                     else
                       (let params = strchr hvalue url (CHR '';'');
                            uend = (case params of Some g \<Rightarrow> g | None \<Rightarrow> length hvalue + 1)
                        in case from_parse_uri fr hvalue url uend params of (i, fr) \<Rightarrow> (i, Some fr))))
      | _ \<Rightarrow> (OSIP_BADPARAMETER, frp))"

text \<open>The parameter loop with \<^verbatim>\<open>snprintf\<close>.\<close>

fun snprint_generic_params :: "nat \<Rightarrow> string \<Rightarrow> uri_param list \<Rightarrow> (nat \<times> string) option" where
  "snprint_generic_params len buf [] = Some (len, buf)"
| "snprint_generic_params len buf (u_param # ps) = do {
     n \<leftarrow> gname u_param;
     case gvalue u_param of
       None \<Rightarrow>
         (let len = len + (length n + 2)
          in snprint_generic_params len (snprintf_end len buf ('';'' @ n)) ps)
     | Some v \<Rightarrow>
         (let len = len + (length n + length v + 3)
          in snprint_generic_params len (snprintf_end len buf ('';'' @ n @ ''='' @ v)) ps) }"

definition osip_from_to_str :: "from_hdr option \<Rightarrow> (int \<times> string option) option" where
  "osip_from_to_str frp =
     (case frp of
        None \<Rightarrow> Some (OSIP_BADPARAMETER, None)
      | Some fr \<Rightarrow>
          if from_url fr = None then Some (OSIP_BADPARAMETER, None)
          else do {
            (i, u) \<leftarrow> osip_uri_to_str (from_url fr);
            if i \<noteq> 0 then Some (i, None)
            else do {
              url \<leftarrow> u;
              let len = (case displayname fr of None \<Rightarrow> length url + 5 | Some d \<Rightarrow> length url + length d + 5);
              buf \<leftarrow> (case displayname fr of
                        Some d \<Rightarrow> sprintf_end len [] (d @ '' <'' @ url @ ''>'')
                      | None \<Rightarrow> sprintf_end len [] (''<'' @ url @ ''>''));
              (len, buf) \<leftarrow> snprint_generic_params len buf (gen_params fr);
              Some (OSIP_SUCCESS, Some buf) } })"

definition osip_from_param_get :: "from_hdr option \<Rightarrow> int \<Rightarrow> int \<times> uri_param option" where
  "osip_from_param_get frp pos =
     (case frp of
        None \<Rightarrow> (OSIP_BADPARAMETER, None)
      | Some fr \<Rightarrow>
          if int (length (gen_params fr)) \<le> pos then (OSIP_UNDEFINED_ERROR, None)
          else (pos, if pos < 0 then None else Some (gen_params fr ! nat pos)))"

definition osip_from_clone :: "from_hdr option \<Rightarrow> int \<times> from_hdr option" where
  "osip_from_clone frp =
     (case frp of
        None \<Rightarrow> (OSIP_BADPARAMETER, None)
      | Some fr \<Rightarrow>
          (case (if from_url fr \<noteq> None then osip_uri_clone (from_url fr) else (OSIP_SUCCESS, None)) of
             (i, u) \<Rightarrow>
               if i \<noteq> 0 then (i, None)
               else (case param_list_clone (gen_params fr) of
                       (i, ps) \<Rightarrow>
                         if i \<noteq> 0 then (i, None)
                         else (OSIP_SUCCESS, Some (osip_from_init\<lparr>displayname := dup (displayname fr),
                                 from_url := u, gen_params := ps\<rparr>)))))"

text \<open>The value of the first parameter whose name begins with \<^verbatim>\<open>tag\<close>.\<close>

fun first_tag :: "uri_param list \<Rightarrow> string option option" where
  "first_tag [] = Some None"
| "first_tag (p # ps) =
     (case gname p of
        None \<Rightarrow> None
      | Some n \<Rightarrow> if take 3 n = ''tag'' then Some (gvalue p) else first_tag ps)"

text \<open>\<^verbatim>\<open>osip_from_compare\<close>; \<open>None\<close> when a parameter without a name is read.\<close>

definition osip_from_compare :: "from_hdr option \<Rightarrow> from_hdr option \<Rightarrow> int option" where
  "osip_from_compare from1 from2 =
     (case (from1, from2) of
        (Some f1, Some f2) \<Rightarrow>
          (case (from_url f1, from_url f2) of
             (Some u1, Some u2) \<Rightarrow>
               if host u1 = None \<and> host u2 = None \<and> (uri_string u1 = None \<or> uri_string u2 = None) then
                 Some OSIP_UNDEFINED_ERROR
               else if host u1 = None \<and> host u2 = None \<and> uri_string u1 = uri_string u2 then Some OSIP_SUCCESS
               else if host u1 = None \<or> host u2 = None then Some OSIP_UNDEFINED_ERROR
               else if host u1 \<noteq> host u2 then Some OSIP_UNDEFINED_ERROR
               else if username u1 \<noteq> None \<and> username u2 \<noteq> None \<and> username u1 \<noteq> username u2 then
                 Some OSIP_UNDEFINED_ERROR
               else do {
                 tag1 \<leftarrow> first_tag (gen_params f1);
                 tag2 \<leftarrow> first_tag (gen_params f2);
                 if tag1 \<noteq> None \<and> tag2 \<noteq> None \<and> tag1 \<noteq> tag2 then Some OSIP_UNDEFINED_ERROR
                 else Some OSIP_SUCCESS }
           | _ \<Rightarrow> Some OSIP_BADPARAMETER)
      | _ \<Rightarrow> Some OSIP_BADPARAMETER)"

definition osip_from_get_tag :: "from_hdr \<Rightarrow> (int \<times> uri_param option) option" where
  "osip_from_get_tag fr = osip_uri_param_get_byname (gen_params fr) (Some ''tag'')"

definition osip_from_tag_match :: "from_hdr option \<Rightarrow> from_hdr option \<Rightarrow> int option" where
  "osip_from_tag_match from1 from2 =
     (case (from1, from2) of
        (Some f1, Some f2) \<Rightarrow> do {
          (_, t1) \<leftarrow> osip_from_get_tag f1;
          (_, t2) \<leftarrow> osip_from_get_tag f2;
          (case (t1, t2) of
             (None, None) \<Rightarrow> Some OSIP_SUCCESS
           | (Some p1, Some p2) \<Rightarrow>
               if gvalue p1 = None \<or> gvalue p2 = None then Some OSIP_UNDEFINED_ERROR
               else if gvalue p1 \<noteq> gvalue p2 then Some OSIP_UNDEFINED_ERROR
               else Some OSIP_SUCCESS
           | _ \<Rightarrow> Some OSIP_UNDEFINED_ERROR) }
      | _ \<Rightarrow> Some OSIP_BADPARAMETER)"

definition osip_to_parse :: "from_hdr option \<Rightarrow> string option \<Rightarrow> int \<times> from_hdr option" where
  "osip_to_parse to hvalue = osip_from_parse to hvalue"

definition osip_to_to_str :: "from_hdr option \<Rightarrow> (int \<times> string option) option" where
  "osip_to_to_str to = osip_from_to_str to"

definition osip_to_clone :: "from_hdr option \<Rightarrow> int \<times> from_hdr option" where
  "osip_to_clone to = osip_from_clone to"

definition osip_to_tag_match :: "from_hdr option \<Rightarrow> from_hdr option \<Rightarrow> int option" where
  "osip_to_tag_match to1 to2 = osip_from_tag_match to1 to2"

definition osip_contact_parse :: "from_hdr option \<Rightarrow> string \<Rightarrow> int \<times> from_hdr option" where
  "osip_contact_parse contact hvalue =
     (case contact of
        None \<Rightarrow> (OSIP_BADPARAMETER, None)
      | Some c \<Rightarrow>
          if chr_at hvalue 0 = CHR ''*'' then (OSIP_SUCCESS, Some (c\<lparr>displayname := osip_strdup (Some hvalue)\<rparr>))
          else osip_from_parse contact (Some hvalue))"

definition osip_contact_to_str :: "from_hdr option \<Rightarrow> (int \<times> string option) option" where
  "osip_contact_to_str contact =
     (case contact of
        None \<Rightarrow> Some (OSIP_BADPARAMETER, None)
      | Some c \<Rightarrow>
          (case displayname c of
             Some d \<Rightarrow> if chr_at d 0 = CHR ''*'' then Some (OSIP_SUCCESS, Some ''*'') else osip_from_to_str contact
           | None \<Rightarrow> osip_from_to_str contact))"

definition osip_record_route_to_str :: "from_hdr option \<Rightarrow> (int \<times> string option) option" where
  "osip_record_route_to_str rrp =
     (case rrp of
        None \<Rightarrow> Some (OSIP_BADPARAMETER, None)
      | Some rr \<Rightarrow>
          if from_url rr = None then Some (OSIP_BADPARAMETER, None)
          else do {
            (i, u) \<leftarrow> osip_uri_to_str (from_url rr);
            if i \<noteq> 0 then Some (i, None)
            else do {
              url \<leftarrow> u;
              let len = (case displayname rr of None \<Rightarrow> length url + 5 | Some d \<Rightarrow> length url + length d + 5);
              buf \<leftarrow> (case displayname rr of
                        Some d \<Rightarrow> sprintf_end len [] (d @ '' <'' @ url @ ''>'')
                      | None \<Rightarrow> sprintf_end len [] (''<'' @ url @ ''>''));
              (len, buf) \<leftarrow> snprint_generic_params len buf (gen_params rr);
              Some (OSIP_SUCCESS, Some buf) } })"

definition osip_route_to_str :: "from_hdr option \<Rightarrow> (int \<times> string option) option" where
  "osip_route_to_str route = osip_record_route_to_str route"

definition osip_route_parse :: "from_hdr option \<Rightarrow> string option \<Rightarrow> int \<times> from_hdr option" where
  "osip_route_parse route hvalue = osip_from_parse route hvalue"

definition osip_record_route_parse :: "from_hdr option \<Rightarrow> string option \<Rightarrow> int \<times> from_hdr option" where
  "osip_record_route_parse rr hvalue = osip_from_parse rr hvalue"

end
