(* ===== verification/Osip_Message.thy ===== *)
theory Osip_Message
  imports Osip_Headers
begin

text \<open>
  The SIP message: the structure \<^verbatim>\<open>osip_message_t\<close> with every header list of
  \<^verbatim>\<open>osip/include/osipparser2/osip_message.h\<close>, the records of the headers that other theories do not
  define, the tests \<^verbatim>\<open>MSG_IS_...\<close>, the access to the top \<^verbatim>\<open>Via\<close> and \<^verbatim>\<open>Route\<close>
  (\<^verbatim>\<open>osip_via.c\<close>, \<^verbatim>\<open>osip_route.c\<close>), the generic headers of \<^verbatim>\<open>osip_header.c\<close> and the cloning of
  credentials (\<^verbatim>\<open>osip_authorization.c\<close>).  A macro that would compare a \<^verbatim>\<open>NULL\<close> method is
  \<open>None\<close>.
\<close>

section \<open>The remaining header records\<close>

record www_authenticate =
  wa_auth_type :: "string option"
  wa_realm :: "string option"
  wa_domain :: "string option"
  wa_nonce :: "string option"
  wa_opaque :: "string option"
  wa_stale :: "string option"
  wa_algorithm :: "string option"
  wa_qop_options :: "string option"
  wa_version :: "string option"
  wa_targetname :: "string option"
  wa_gssapi_data :: "string option"
  wa_auth_param :: "string option"

record authorization =
  au_auth_type :: "string option"
  au_username :: "string option"
  au_realm :: "string option"
  au_nonce :: "string option"
  au_uri :: "string option"
  au_response :: "string option"
  au_digest :: "string option"
  au_algorithm :: "string option"
  au_cnonce :: "string option"
  au_opaque :: "string option"
  au_message_qop :: "string option"
  au_nonce_count :: "string option"
  au_version :: "string option"
  au_targetname :: "string option"
  au_gssapi_data :: "string option"
  au_crand :: "string option"
  au_cnum :: "string option"
  au_auth_param :: "string option"

record authentication_info =
  ai_auth_type :: "string option"
  ai_nextnonce :: "string option"
  ai_qop_options :: "string option"
  ai_rspauth :: "string option"
  ai_cnonce :: "string option"
  ai_nonce_count :: "string option"
  ai_snum :: "string option"
  ai_srand :: "string option"
  ai_realm :: "string option"
  ai_targetname :: "string option"
  ai_opaque :: "string option"

record content_type =
  ct_type :: "string option"
  ct_subtype :: "string option"
  ct_gen_params :: "uri_param list"

record accept_encoding =
  ae_element :: "string option"
  ae_gen_params :: "uri_param list"

record call_info =
  ci_element :: "string option"
  ci_gen_params :: "uri_param list"

record header =
  hname :: "string option"
  hvalue :: "string option"

record body =
  body_buffer :: "string option"
  body_length :: nat
  body_headers :: "header list option"
  body_content_type :: "content_type option"

section \<open>The message\<close>

record message =
  sip_version :: "string option"
  req_uri :: "uri option"
  sip_method :: "string option"
  status_code :: int
  reason_phrase :: "string option"
  accepts :: "content_type list"
  accept_encodings :: "accept_encoding list"
  accept_languages :: "accept_encoding list"
  alert_infos :: "call_info list"
  allows :: "content_length list"
  authentication_infos :: "authentication_info list"
  authorizations :: "authorization list"
  msg_call_id :: "call_id option"
  call_infos :: "call_info list"
  contacts :: "from_hdr list"
  content_encodings :: "content_length list"
  msg_content_length :: "content_length option"
  msg_content_type :: "content_type option"
  msg_cseq :: "cseq option"
  error_infos :: "call_info list"
  msg_from :: "from_hdr option"
  mime_version :: "content_length option"
  proxy_authenticates :: "www_authenticate list"
  proxy_authentication_infos :: "authentication_info list"
  proxy_authorizations :: "authorization list"
  record_routes :: "from_hdr list"
  routes :: "from_hdr list"
  msg_to :: "from_hdr option"
  vias :: "via list"
  www_authenticates :: "www_authenticate list"
  headers :: "header list"
  bodies :: "body list"
  message_property :: int
  msg_buffer :: "string option"
  message_length :: nat
  application_data :: "nat option"

definition osip_message_init :: message where
  "osip_message_init = \<lparr>sip_version = None, req_uri = None, sip_method = None, status_code = 0,
     reason_phrase = None, accepts = [], accept_encodings = [], accept_languages = [], alert_infos = [],
     allows = [], authentication_infos = [], authorizations = [], msg_call_id = None, call_infos = [],
     contacts = [], content_encodings = [], msg_content_length = None, msg_content_type = None,
     msg_cseq = None, error_infos = [], msg_from = None, mime_version = None, proxy_authenticates = [],
     proxy_authentication_infos = [], proxy_authorizations = [], record_routes = [], routes = [],
     msg_to = None, vias = [], www_authenticates = [], headers = [], bodies = [],
     message_property = 3, msg_buffer = None, message_length = 0, application_data = None\<rparr>"

section \<open>Tests on messages\<close>

definition MSG_IS_RESPONSE :: "message \<Rightarrow> bool" where
  "MSG_IS_RESPONSE msg \<longleftrightarrow> status_code msg \<noteq> 0"

definition MSG_IS_REQUEST :: "message \<Rightarrow> bool" where
  "MSG_IS_REQUEST msg \<longleftrightarrow> status_code msg = 0"

text \<open>The common shape of the macros \<^verbatim>\<open>MSG_IS_INVITE\<close>, \<^verbatim>\<open>MSG_IS_ACK\<close>, ...\<close>

definition msg_is_method :: "string \<Rightarrow> message \<Rightarrow> bool option" where
  "msg_is_method name msg =
     (if \<not> MSG_IS_REQUEST msg then Some False
      else case sip_method msg of None \<Rightarrow> None | Some m \<Rightarrow> Some (m = name))"

definition MSG_IS_INVITE :: "message \<Rightarrow> bool option" where "MSG_IS_INVITE = msg_is_method ''INVITE''"
definition MSG_IS_ACK :: "message \<Rightarrow> bool option" where "MSG_IS_ACK = msg_is_method ''ACK''"
definition MSG_IS_REGISTER :: "message \<Rightarrow> bool option" where "MSG_IS_REGISTER = msg_is_method ''REGISTER''"
definition MSG_IS_BYE :: "message \<Rightarrow> bool option" where "MSG_IS_BYE = msg_is_method ''BYE''"
definition MSG_IS_OPTIONS :: "message \<Rightarrow> bool option" where "MSG_IS_OPTIONS = msg_is_method ''OPTIONS''"
definition MSG_IS_INFO :: "message \<Rightarrow> bool option" where "MSG_IS_INFO = msg_is_method ''INFO''"
definition MSG_IS_CANCEL :: "message \<Rightarrow> bool option" where "MSG_IS_CANCEL = msg_is_method ''CANCEL''"
definition MSG_IS_NOTIFY :: "message \<Rightarrow> bool option" where "MSG_IS_NOTIFY = msg_is_method ''NOTIFY''"
definition MSG_IS_SUBSCRIBE :: "message \<Rightarrow> bool option" where "MSG_IS_SUBSCRIBE = msg_is_method ''SUBSCRIBE''"

lemmas msg_method_defs = msg_is_method_def MSG_IS_INVITE_def MSG_IS_ACK_def MSG_IS_REGISTER_def
  MSG_IS_BYE_def MSG_IS_OPTIONS_def MSG_IS_INFO_def MSG_IS_CANCEL_def MSG_IS_NOTIFY_def MSG_IS_SUBSCRIBE_def

definition MSG_IS_STATUS_1XX :: "message \<Rightarrow> bool" where
  "MSG_IS_STATUS_1XX msg \<longleftrightarrow> status_code msg \<ge> 100 \<and> status_code msg < 200"

definition MSG_IS_STATUS_2XX :: "message \<Rightarrow> bool" where
  "MSG_IS_STATUS_2XX msg \<longleftrightarrow> status_code msg \<ge> 200 \<and> status_code msg < 300"

definition MSG_IS_STATUS_3XX :: "message \<Rightarrow> bool" where
  "MSG_IS_STATUS_3XX msg \<longleftrightarrow> status_code msg \<ge> 300 \<and> status_code msg < 400"

definition MSG_IS_STATUS_4XX :: "message \<Rightarrow> bool" where
  "MSG_IS_STATUS_4XX msg \<longleftrightarrow> status_code msg \<ge> 400 \<and> status_code msg < 500"

definition MSG_IS_STATUS_5XX :: "message \<Rightarrow> bool" where
  "MSG_IS_STATUS_5XX msg \<longleftrightarrow> status_code msg \<ge> 500 \<and> status_code msg < 600"

definition MSG_IS_STATUS_6XX :: "message \<Rightarrow> bool" where
  "MSG_IS_STATUS_6XX msg \<longleftrightarrow> status_code msg \<ge> 600 \<and> status_code msg < 700"

text \<open>An \<^verbatim>\<open>if ... else if ...\<close> chain whose conditions may fault.\<close>

fun first_case :: "(bool option \<times> 'a) list \<Rightarrow> 'a \<Rightarrow> 'a option" where
  "first_case [] d = Some d"
| "first_case ((c, x) # cs) d =
     (case c of None \<Rightarrow> None | Some b \<Rightarrow> if b then Some x else first_case cs d)"

lemma first_case_total:
  "(\<And>c x. (c, x) \<in> set cs \<Longrightarrow> c \<noteq> None) \<Longrightarrow> \<exists>y. first_case cs d = Some y"
proof (induction cs)
  case (Cons p cs)
  obtain c x where p: "p = (c, x)" by (cases p)
  with Cons.prems [of c x] obtain b where "c = Some b" by auto
  with p Cons.IH Cons.prems show ?case by auto
qed simp

section \<open>Access to headers\<close>

text \<open>\<^verbatim>\<open>osip_list_get\<close> on the list view of an \<^verbatim>\<open>osip_list_t\<close>.\<close>

definition list_at :: "'a list \<Rightarrow> int \<Rightarrow> 'a option" where
  "list_at xs pos = (if pos < 0 \<or> int (length xs) \<le> pos then None else Some (xs ! nat pos))"

lemma list_at_0 [simp]: "list_at xs 0 = (case xs of [] \<Rightarrow> None | x # _ \<Rightarrow> Some x)"
  by (cases xs) (simp_all add: list_at_def)

definition osip_message_get_via :: "message option \<Rightarrow> int \<Rightarrow> int \<times> via option" where
  "osip_message_get_via sip pos =
     (case sip of
        None \<Rightarrow> (OSIP_BADPARAMETER, None)
      | Some m \<Rightarrow>
          if int (length (vias m)) \<le> pos then (OSIP_UNDEFINED_ERROR, None)
          else (pos, list_at (vias m) pos))"

definition osip_message_get_route :: "message \<Rightarrow> int \<Rightarrow> int \<times> from_hdr option" where
  "osip_message_get_route sip pos =
     (if int (length (routes sip)) \<le> pos then (OSIP_UNDEFINED_ERROR, None)
      else (pos, list_at (routes sip) pos))"

lemma get_top_via:
  "osip_message_get_via (Some m) 0 =
     (case vias m of [] \<Rightarrow> (OSIP_UNDEFINED_ERROR, None) | v # _ \<Rightarrow> (0, Some v))"
  by (cases "vias m") (simp_all add: osip_message_get_via_def)

lemma get_top_route:
  "osip_message_get_route m 0 =
     (case routes m of [] \<Rightarrow> (OSIP_UNDEFINED_ERROR, None) | r # _ \<Rightarrow> (0, Some r))"
  by (cases "routes m") (simp_all add: osip_message_get_route_def)

section \<open>Generic headers (osip_header.c)\<close>

definition osip_header_init :: header where
  "osip_header_init = \<lparr>hname = None, hvalue = None\<rparr>"

text \<open>The header that \<^verbatim>\<open>osip_message_set_header\<close>, \<^verbatim>\<open>..._replace_header\<close> and \<^verbatim>\<open>..._set_topheader\<close> build.\<close>

definition new_header :: "string \<Rightarrow> string option \<Rightarrow> header" where
  "new_header name value =
     osip_header_init\<lparr>hname := Some (osip_clrncpy name 0 (length name)),
        hvalue := map_option (\<lambda>v. osip_clrncpy v 0 (length v)) value\<rparr>"

definition osip_message_set_header ::
  "message option \<Rightarrow> string option \<Rightarrow> string option \<Rightarrow> int \<times> message option" where
  "osip_message_set_header sip name value =
     (case (sip, name) of
        (Some m, Some n) \<Rightarrow>
          (OSIP_SUCCESS, Some (m\<lparr>message_property := 2, headers := headers m @ [new_header n value]\<rparr>))
      | _ \<Rightarrow> (OSIP_BADPARAMETER, sip))"

definition osip_message_set_topheader ::
  "message option \<Rightarrow> string option \<Rightarrow> string option \<Rightarrow> int \<times> message option" where
  "osip_message_set_topheader sip name value =
     (case (sip, name) of
        (Some m, Some n) \<Rightarrow>
          (OSIP_SUCCESS, Some (m\<lparr>message_property := 2, headers := new_header n value # headers m\<rparr>))
      | _ \<Rightarrow> (OSIP_BADPARAMETER, sip))"

definition osip_message_get_header :: "message \<Rightarrow> int \<Rightarrow> int \<times> header option" where
  "osip_message_get_header sip pos =
     (if int (length (headers sip)) \<le> pos then (OSIP_UNDEFINED_ERROR, None)
      else (pos, list_at (headers sip) pos))"

text \<open>The search from a position on; a header without a name is a fault of \<^verbatim>\<open>osip_strcasecmp\<close>.\<close>

fun header_search :: "header list \<Rightarrow> string \<Rightarrow> int \<Rightarrow> (int \<times> header option) option" where
  "header_search [] name i = Some (OSIP_UNDEFINED_ERROR, None)"
| "header_search (tmp # hs) name i =
     (case hname tmp of
        None \<Rightarrow> None
      | Some n \<Rightarrow> if osip_strcasecmp n name = 0 then Some (i, Some tmp) else header_search hs name (i + 1))"

definition osip_message_header_get_byname :: "message \<Rightarrow> string \<Rightarrow> nat \<Rightarrow> (int \<times> header option) option" where
  "osip_message_header_get_byname sip name pos =
     (if length (headers sip) \<le> pos then Some (OSIP_UNDEFINED_ERROR, None)
      else header_search (drop pos (headers sip)) name (int pos))"

definition remove_at :: "'a list \<Rightarrow> int \<Rightarrow> 'a list" where
  "remove_at xs pos = (if pos < 0 then xs else take (nat pos) xs @ drop (Suc (nat pos)) xs)"

definition osip_message_replace_header ::
  "message option \<Rightarrow> string option \<Rightarrow> string option \<Rightarrow> (int \<times> message option) option" where
  "osip_message_replace_header sip name value =
     (case (sip, name) of
        (Some m, Some n) \<Rightarrow> do {
          (oldpos, oldh) \<leftarrow> osip_message_header_get_byname m n 0;
          let hs = (if oldpos \<noteq> -1 then remove_at (headers m) oldpos else headers m);
          Some (OSIP_SUCCESS, Some (m\<lparr>message_property := 2, headers := hs @ [new_header n value]\<rparr>)) }
      | _ \<Rightarrow> Some (OSIP_BADPARAMETER, sip))"

definition osip_header_to_str :: "header option \<Rightarrow> int \<times> string option" where
  "osip_header_to_str hp =
     (case hp of
        None \<Rightarrow> (OSIP_BADPARAMETER, None)
      | Some h \<Rightarrow>
          (case hname h of
             None \<Rightarrow> (OSIP_BADPARAMETER, None)
           | Some n \<Rightarrow>
               let dest = (case hvalue h of Some v \<Rightarrow> n @ '': '' @ v | None \<Rightarrow> n @ '': '');
                   c = chr_at dest 0
               in (OSIP_SUCCESS,
                   Some (if char_in (CHR ''a'') (CHR ''z'') c then char_of (of_char c - 32 :: nat) # drop 1 dest else dest))))"

definition osip_header_clone :: "header option \<Rightarrow> int \<times> header option" where
  "osip_header_clone hp =
     (case hp of
        None \<Rightarrow> (OSIP_BADPARAMETER, None)
      | Some h \<Rightarrow>
          if hname h = None then (OSIP_BADPARAMETER, None)
          else (OSIP_SUCCESS, Some (osip_header_init\<lparr>hname := osip_strdup (hname h),
                  hvalue := (if hvalue h \<noteq> None then osip_strdup (hvalue h) else None)\<rparr>)))"

section \<open>Credentials\<close>

definition osip_authorization_init :: authorization where
  "osip_authorization_init = \<lparr>au_auth_type = None, au_username = None, au_realm = None, au_nonce = None,
     au_uri = None, au_response = None, au_digest = None, au_algorithm = None, au_cnonce = None,
     au_opaque = None, au_message_qop = None, au_nonce_count = None, au_version = None,
     au_targetname = None, au_gssapi_data = None, au_crand = None, au_cnum = None, au_auth_param = None\<rparr>"

text \<open>\<^verbatim>\<open>osip_authorization_clone\<close> copies every field but \<^verbatim>\<open>auth_param\<close>.\<close>

definition osip_authorization_clone :: "authorization option \<Rightarrow> int \<times> authorization option" where
  "osip_authorization_clone ap =
     (case ap of
        None \<Rightarrow> (OSIP_BADPARAMETER, None)
      | Some a \<Rightarrow>
          (OSIP_SUCCESS, Some (osip_authorization_init
             \<lparr>au_auth_type := dup (au_auth_type a), au_username := dup (au_username a),
              au_realm := dup (au_realm a), au_nonce := dup (au_nonce a), au_uri := dup (au_uri a),
              au_response := dup (au_response a), au_digest := dup (au_digest a),
              au_algorithm := dup (au_algorithm a), au_cnonce := dup (au_cnonce a),
              au_opaque := dup (au_opaque a), au_message_qop := dup (au_message_qop a),
              au_nonce_count := dup (au_nonce_count a), au_version := dup (au_version a),
              au_targetname := dup (au_targetname a), au_gssapi_data := dup (au_gssapi_data a),
              au_crand := dup (au_crand a), au_cnum := dup (au_cnum a)\<rparr>)))"

text \<open>\<^verbatim>\<open>osip_list_clone\<close> on the list view.\<close>

fun list_clone :: "('a option \<Rightarrow> int \<times> 'a option) \<Rightarrow> 'a list \<Rightarrow> int \<times> 'a list" where
  "list_clone clone_func [] = (OSIP_SUCCESS, [])"
| "list_clone clone_func (x # xs) =
     (case clone_func (Some x) of
        (i, y) \<Rightarrow>
          if i \<noteq> 0 then (i, [])
          else case y of
                 None \<Rightarrow> (OSIP_SUCCESS, [])
               | Some d \<Rightarrow> (case list_clone clone_func xs of (j, ys) \<Rightarrow> (j, d # ys)))"

lemma list_clone_map:
  assumes "\<And>x. x \<in> set xs \<Longrightarrow> clone_func (Some x) = (OSIP_SUCCESS, Some (f x))"
  shows "list_clone clone_func xs = (OSIP_SUCCESS, map f xs)"
  using assms by (induction xs) auto

section \<open>A clone is a copy\<close>

text \<open>
  A clone function that reports success has copied every field; the copy of a parameter list only
  succeeds when every parameter has a name.
\<close>

definition named :: "uri_param list \<Rightarrow> bool" where
  "named ps \<longleftrightarrow> (\<forall>p\<in>set ps. gname p \<noteq> None)"

lemma named_simps [simp]: "named []" "named (p # ps) \<longleftrightarrow> gname p \<noteq> None \<and> named ps"
  by (simp_all add: named_def)

lemma param_list_clone_exact: "param_list_clone ps = (0, qs) \<Longrightarrow> qs = ps \<and> named ps"
proof (induction ps arbitrary: qs)
  case (Cons p ps)
  obtain j rs where r: "param_list_clone ps = (j, rs)" by (cases "param_list_clone ps")
  show ?case
    using Cons.prems Cons.IH [of rs] r
    by (cases p) (auto simp: osip_uri_param_clone_def split: if_splits)
qed simp

lemma param_list_clone_named: "named ps \<Longrightarrow> param_list_clone ps = (0, ps)"
  by (induction ps) (auto simp: osip_uri_param_clone_def)

lemma osip_uri_clone_copy:
  assumes "osip_uri_clone up = (0, vp)"
  shows "vp = up \<and> (\<exists>u. up = Some u \<and> named (url_params u))"
proof -
  from assms obtain u where u: "up = Some u" by (auto simp: osip_uri_clone_def split: option.splits)
  obtain i ps j hs where c: "param_list_clone (url_params u) = (i, ps)" "param_list_clone (url_headers u) = (j, hs)"
    by (cases "param_list_clone (url_params u)"; cases "param_list_clone (url_headers u)")
  show ?thesis
    using assms u c param_list_clone_exact [of "url_params u" ps] param_list_clone_exact [of "url_headers u" hs]
    by (cases u) (auto simp: osip_uri_clone_def osip_uri_init_def Let_def split: if_splits)
qed

lemma osip_from_clone_copy:
  assumes "osip_from_clone fp = (0, gp)"
  shows "gp = fp \<and> (\<exists>f. fp = Some f \<and> named (gen_params f) \<and> (\<forall>u. from_url f = Some u \<longrightarrow> named (url_params u)))"
proof -
  from assms obtain f where f: "fp = Some f" by (auto simp: osip_from_clone_def split: option.splits)
  obtain i u j ps where c: "osip_uri_clone (from_url f) = (i, u)" "param_list_clone (gen_params f) = (j, ps)"
    by (cases "osip_uri_clone (from_url f)"; cases "param_list_clone (gen_params f)")
  show ?thesis
    using assms f c osip_uri_clone_copy [of "from_url f" u] param_list_clone_exact [of "gen_params f" ps]
    by (cases f) (auto simp: osip_from_clone_def osip_from_init_def split: if_splits)
qed

lemma osip_via_clone_copy:
  assumes "osip_via_clone vp = (0, wp)"
  shows "wp = vp \<and> (\<exists>v. vp = Some v \<and> named (via_params v) \<and> via_protocol v \<noteq> None \<and> via_host v \<noteq> None)"
proof -
  from assms obtain v where v: "vp = Some v" by (auto simp: osip_via_clone_def split: option.splits)
  obtain j ps where c: "param_list_clone (via_params v) = (j, ps)" by (cases "param_list_clone (via_params v)")
  show ?thesis
    using assms v c param_list_clone_exact [of "via_params v" ps]
    by (cases v) (auto simp: osip_via_clone_def osip_via_init_def split: if_splits)
qed

lemma osip_call_id_clone_copy:
  "osip_call_id_clone cp = (0, dp) \<Longrightarrow> dp = cp \<and> (\<exists>c. cp = Some c \<and> call_id_number c \<noteq> None)"
  by (cases cp) (auto simp: osip_call_id_clone_def osip_call_id_init_def split: if_splits)

lemma osip_cseq_clone_copy:
  "osip_cseq_clone cp = (0, dp) \<Longrightarrow> dp = cp \<and> (\<exists>c. cp = Some c \<and> cseq_method c \<noteq> None \<and> cseq_number c \<noteq> None)"
  by (cases cp) (auto simp: osip_cseq_clone_def osip_cseq_init_def split: if_splits)

text \<open>Headers that are complete enough to be copied.\<close>

definition uri_ok :: "uri \<Rightarrow> bool" where
  "uri_ok u \<longleftrightarrow> (host u \<noteq> None \<or> uri_string u \<noteq> None) \<and> named (url_params u) \<and> named (url_headers u)"

definition from_ok :: "from_hdr \<Rightarrow> bool" where
  "from_ok f \<longleftrightarrow> named (gen_params f) \<and> (\<forall>u. from_url f = Some u \<longrightarrow> uri_ok u)"

definition via_ok :: "via \<Rightarrow> bool" where
  "via_ok v \<longleftrightarrow> via_version v \<noteq> None \<and> via_protocol v \<noteq> None \<and> via_host v \<noteq> None \<and> named (via_params v)"

lemma clones_of_ok:
  "uri_ok u \<Longrightarrow> osip_uri_clone (Some u) = (OSIP_SUCCESS, Some u)"
  "from_ok f \<Longrightarrow> osip_from_clone (Some f) = (OSIP_SUCCESS, Some f)"
  "via_ok v \<Longrightarrow> osip_via_clone (Some v) = (OSIP_SUCCESS, Some v)"
proof -
  show u: "osip_uri_clone (Some u) = (OSIP_SUCCESS, Some u)" if "uri_ok u" for u
    using that by (cases u) (auto simp: uri_ok_def osip_uri_clone_def param_list_clone_named osip_uri_init_def)
  show "osip_from_clone (Some f) = (OSIP_SUCCESS, Some f)" if "from_ok f"
    using that u by (cases f; cases "from_url f")
      (auto simp: from_ok_def osip_from_clone_def param_list_clone_named osip_from_init_def)
  show "osip_via_clone (Some v) = (OSIP_SUCCESS, Some v)" if "via_ok v"
    using that by (cases v) (auto simp: via_ok_def osip_via_clone_def param_list_clone_named osip_via_init_def)
qed

lemma list_clone_copy:
  assumes "list_clone f xs = (0, ys)" and "\<And>x y. x \<in> set xs \<Longrightarrow> f (Some x) = (0, y) \<Longrightarrow> y = Some x"
  shows "ys = xs"
  using assms
proof (induction xs arbitrary: ys)
  case (Cons x xs)
  obtain i y where fx: "f (Some x) = (i, y)" by (cases "f (Some x)")
  obtain j zs where r: "list_clone f xs = (j, zs)" by (cases "list_clone f xs")
  have i0: "i = 0" using Cons.prems(1) fx by (simp split: if_splits)
  then have y: "y = Some x" using Cons.prems(2) [of x y] fx by simp
  have "j = 0" "ys = x # zs" using Cons.prems(1) fx r i0 y by simp_all
  moreover have "j = 0 \<Longrightarrow> zs = xs" using Cons.IH [of zs] Cons.prems(2) r by simp
  ultimately show ?case by simp
qed simp

text \<open>Looking up a parameter never faults when all parameters have names.\<close>

lemma get_byname_total: "named ps \<Longrightarrow> \<exists>i r. osip_uri_param_get_byname ps (Some n) = Some (i, r)"
proof -
  assume "named ps"
  then have "\<exists>i r. get_byname_loop ps n = Some (i, r)" by (induction ps) auto
  then show ?thesis by (auto simp: osip_uri_param_get_byname_def)
qed

end
