(* ===== verification/Osip_Time.thy ===== *)
theory Osip_Time
  imports Osip_Prelude "HOL-Library.Signed_Division"
begin

text \<open>
  Time values (\<^verbatim>\<open>osip2/osip_time.c\<close>, \<^verbatim>\<open>osip_time.h\<close>): comparison, addition of milliseconds and the
  minimum of two timers.  The C operators \<^verbatim>\<open>/\<close> and \<^verbatim>\<open>%\<close> round towards zero, hence
  \<open>sdiv\<close> and \<open>smod\<close>.  A timer that is not running has \<^verbatim>\<open>tv_sec == -1\<close>.
\<close>

record timeval =
  tv_sec :: int
  tv_usec :: int

definition osip_timer_gt :: "timeval \<Rightarrow> timeval \<Rightarrow> bool" where
  "osip_timer_gt a b \<longleftrightarrow>
     (if tv_sec a = tv_sec b then tv_usec a > tv_usec b else tv_sec a > tv_sec b)"

definition add_gettimeofday :: "timeval \<Rightarrow> int \<Rightarrow> timeval" where
  "add_gettimeofday atv ms =
     (if ms \<ge> 1000000 then
        (let m = ms sdiv 1000 in atv\<lparr>tv_usec := 0, tv_sec := tv_sec atv + m\<rparr>)
      else
        (let u = tv_usec atv + ms * 1000;
             m = u sdiv 1000000
         in atv\<lparr>tv_usec := u smod 1000000, tv_sec := tv_sec atv + m\<rparr>))"

definition min_timercmp :: "timeval \<Rightarrow> timeval \<Rightarrow> timeval" where
  "min_timercmp tv1 tv2 =
     (if tv_sec tv2 = -1 then tv1
      else if osip_timer_gt tv1 tv2 then tv1\<lparr>tv_sec := tv_sec tv2, tv_usec := tv_usec tv2\<rparr>
      else tv1)"

text \<open>A timer that does not run: the code only overwrites the seconds.\<close>

definition timer_off :: "timeval \<Rightarrow> timeval" where
  "timer_off tv = tv\<lparr>tv_sec := -1\<rparr>"

section \<open>Microseconds\<close>

definition wf_time :: "timeval \<Rightarrow> bool" where
  "wf_time t \<longleftrightarrow> 0 \<le> tv_sec t \<and> 0 \<le> tv_usec t \<and> tv_usec t < 1000000"

definition usecs :: "timeval \<Rightarrow> int" where
  "usecs t = tv_sec t * 1000000 + tv_usec t"

lemma osip_timer_gt_usecs: "wf_time a \<Longrightarrow> wf_time b \<Longrightarrow> osip_timer_gt a b \<longleftrightarrow> usecs a > usecs b"
  by (auto simp: osip_timer_gt_def wf_time_def usecs_def)

lemma sdiv_nonneg: "0 \<le> (a::int) \<Longrightarrow> 0 < b \<Longrightarrow> a sdiv b = a div b"
  by (simp add: signed_divide_int_def sgn_if)

lemma smod_nonneg: "0 \<le> (a::int) \<Longrightarrow> 0 < b \<Longrightarrow> a smod b = a mod b"
  by (metis smod_sdiv_mult_eq div_mult_mod_eq sdiv_nonneg add_left_cancel add.commute)

lemma add_gettimeofday_usecs:
  assumes "wf_time t" and "0 \<le> ms" and "ms < 1000000"
  shows "wf_time (add_gettimeofday t ms) \<and> usecs (add_gettimeofday t ms) = usecs t + ms * 1000"
proof -
  have u: "0 \<le> tv_usec t + ms * 1000" using assms by (simp add: wf_time_def)
  show ?thesis
    using assms u by (auto simp: add_gettimeofday_def wf_time_def usecs_def sdiv_nonneg smod_nonneg Let_def
        pos_imp_zdiv_nonneg_iff div_mult_mod_eq algebra_simps)
qed

lemma add_gettimeofday_running:
  assumes "wf_time t" and "0 \<le> ms"
  shows "0 \<le> tv_sec (add_gettimeofday t ms)"
proof (cases "ms < 1000000")
  case True
  then show ?thesis using add_gettimeofday_usecs [OF assms] by (simp add: wf_time_def)
next
  case False
  with assms show ?thesis by (simp add: wf_time_def add_gettimeofday_def sdiv_nonneg pos_imp_zdiv_nonneg_iff)
qed

lemma min_timercmp_usecs:
  assumes "wf_time t" and "wf_time s"
  shows "min_timercmp t s = (if usecs s < usecs t then s else t)"
  using assms by (cases t; cases s) (auto simp: min_timercmp_def osip_timer_gt_usecs wf_time_def)

end
