(* ===== verification/Osip_Transaction.thy ===== *)
theory Osip_Transaction
  imports Osip_Message Osip_Time
begin

text \<open>
  What the four transaction machines share (\<^verbatim>\<open>osip2/osip.h\<close>, \<^verbatim>\<open>fsm_misc.c\<close>, \<^verbatim>\<open>osip_event.c\<close> and the common
  part of \<^verbatim>\<open>osip_transaction.c\<close>): states, events, the transaction record with the timer contexts,
  the callbacks, and the dispatch over a transition table.

  A handler maps a transaction and an event to the new transaction and the list of what it did to
  the outside world, in order: messages handed to the transport, callbacks to the application, and
  messages allocated and freed.  The transport, \<^verbatim>\<open>cb_send_message\<close>, belongs to the application and is a field of the
  environment of a step, as is the clock; a step reads one time.  A \<^verbatim>\<open>NULL\<close> that the code would
  dereference makes the step \<open>None\<close>.  The code is compiled without \<^verbatim>\<open>USE_BLOCKINGSOCKET\<close>.
\<close>

section \<open>States, events and callbacks\<close>

datatype state_t =
    ICT_PRE_CALLING | ICT_CALLING | ICT_PROCEEDING | ICT_COMPLETED | ICT_TERMINATED
  | IST_PRE_PROCEEDING | IST_PROCEEDING | IST_COMPLETED | IST_CONFIRMED | IST_TERMINATED
  | NICT_PRE_TRYING | NICT_TRYING | NICT_PROCEEDING | NICT_COMPLETED | NICT_TERMINATED
  | NIST_PRE_TRYING | NIST_TRYING | NIST_PROCEEDING | NIST_COMPLETED | NIST_TERMINATED
  | DIALOG_EARLY | DIALOG_CONFIRMED | DIALOG_CLOSE

datatype type_t =
    TIMEOUT_A | TIMEOUT_B | TIMEOUT_D | TIMEOUT_E | TIMEOUT_F | TIMEOUT_K
  | TIMEOUT_G | TIMEOUT_H | TIMEOUT_I | TIMEOUT_J
  | RCV_REQINVITE | RCV_REQACK | RCV_REQUEST | RCV_STATUS_1XX | RCV_STATUS_2XX | RCV_STATUS_3456XX
  | SND_REQINVITE | SND_REQACK | SND_REQUEST | SND_STATUS_1XX | SND_STATUS_2XX | SND_STATUS_3456XX
  | KILL_TRANSACTION | UNKNOWN_EVT

datatype fsm_type = ICT | IST | NICT | NIST

text \<open>The numbers the C compiler gives to the event types; the macros compare them.\<close>

fun type_number :: "type_t \<Rightarrow> nat" where
  "type_number TIMEOUT_A = 0" | "type_number TIMEOUT_B = 1" | "type_number TIMEOUT_D = 2"
| "type_number TIMEOUT_E = 3" | "type_number TIMEOUT_F = 4" | "type_number TIMEOUT_K = 5"
| "type_number TIMEOUT_G = 6" | "type_number TIMEOUT_H = 7" | "type_number TIMEOUT_I = 8"
| "type_number TIMEOUT_J = 9" | "type_number RCV_REQINVITE = 10" | "type_number RCV_REQACK = 11"
| "type_number RCV_REQUEST = 12" | "type_number RCV_STATUS_1XX = 13" | "type_number RCV_STATUS_2XX = 14"
| "type_number RCV_STATUS_3456XX = 15" | "type_number SND_REQINVITE = 16" | "type_number SND_REQACK = 17"
| "type_number SND_REQUEST = 18" | "type_number SND_STATUS_1XX = 19" | "type_number SND_STATUS_2XX = 20"
| "type_number SND_STATUS_3456XX = 21" | "type_number KILL_TRANSACTION = 22" | "type_number UNKNOWN_EVT = 23"

lemma type_number_inj: "type_number s = type_number t \<longleftrightarrow> s = t"
  by (cases s; cases t; simp)

instantiation type_t :: linorder
begin

definition less_eq_type_t :: "type_t \<Rightarrow> type_t \<Rightarrow> bool" where
  "less_eq_type_t s t \<longleftrightarrow> type_number s \<le> type_number t"

definition less_type_t :: "type_t \<Rightarrow> type_t \<Rightarrow> bool" where
  "less_type_t s t \<longleftrightarrow> type_number s < type_number t"

instance
  by standard (auto simp: less_eq_type_t_def less_type_t_def type_number_inj)

end

datatype osip_message_callback_type =
    OSIP_ICT_INVITE_SENT | OSIP_ICT_INVITE_SENT_AGAIN | OSIP_ICT_ACK_SENT | OSIP_ICT_ACK_SENT_AGAIN
  | OSIP_ICT_STATUS_1XX_RECEIVED | OSIP_ICT_STATUS_2XX_RECEIVED | OSIP_ICT_STATUS_2XX_RECEIVED_AGAIN
  | OSIP_ICT_STATUS_3XX_RECEIVED | OSIP_ICT_STATUS_4XX_RECEIVED | OSIP_ICT_STATUS_5XX_RECEIVED
  | OSIP_ICT_STATUS_6XX_RECEIVED | OSIP_ICT_STATUS_3456XX_RECEIVED_AGAIN | OSIP_IST_INVITE_RECEIVED
  | OSIP_IST_INVITE_RECEIVED_AGAIN | OSIP_IST_ACK_RECEIVED | OSIP_IST_ACK_RECEIVED_AGAIN
  | OSIP_IST_STATUS_1XX_SENT | OSIP_IST_STATUS_2XX_SENT | OSIP_IST_STATUS_2XX_SENT_AGAIN
  | OSIP_IST_STATUS_3XX_SENT | OSIP_IST_STATUS_4XX_SENT | OSIP_IST_STATUS_5XX_SENT
  | OSIP_IST_STATUS_6XX_SENT | OSIP_IST_STATUS_3456XX_SENT_AGAIN | OSIP_NICT_REGISTER_SENT
  | OSIP_NICT_BYE_SENT | OSIP_NICT_OPTIONS_SENT | OSIP_NICT_INFO_SENT | OSIP_NICT_CANCEL_SENT
  | OSIP_NICT_NOTIFY_SENT | OSIP_NICT_SUBSCRIBE_SENT | OSIP_NICT_UNKNOWN_REQUEST_SENT
  | OSIP_NICT_REQUEST_SENT_AGAIN | OSIP_NICT_STATUS_1XX_RECEIVED | OSIP_NICT_STATUS_2XX_RECEIVED
  | OSIP_NICT_STATUS_2XX_RECEIVED_AGAIN | OSIP_NICT_STATUS_3XX_RECEIVED | OSIP_NICT_STATUS_4XX_RECEIVED
  | OSIP_NICT_STATUS_5XX_RECEIVED | OSIP_NICT_STATUS_6XX_RECEIVED
  | OSIP_NICT_STATUS_3456XX_RECEIVED_AGAIN | OSIP_NIST_REGISTER_RECEIVED | OSIP_NIST_BYE_RECEIVED
  | OSIP_NIST_OPTIONS_RECEIVED | OSIP_NIST_INFO_RECEIVED | OSIP_NIST_CANCEL_RECEIVED
  | OSIP_NIST_NOTIFY_RECEIVED | OSIP_NIST_SUBSCRIBE_RECEIVED | OSIP_NIST_UNKNOWN_REQUEST_RECEIVED
  | OSIP_NIST_REQUEST_RECEIVED_AGAIN | OSIP_NIST_STATUS_1XX_SENT | OSIP_NIST_STATUS_2XX_SENT
  | OSIP_NIST_STATUS_2XX_SENT_AGAIN | OSIP_NIST_STATUS_3XX_SENT | OSIP_NIST_STATUS_4XX_SENT
  | OSIP_NIST_STATUS_5XX_SENT | OSIP_NIST_STATUS_6XX_SENT | OSIP_NIST_STATUS_3456XX_SENT_AGAIN
  | OSIP_ICT_STATUS_TIMEOUT | OSIP_NICT_STATUS_TIMEOUT

datatype osip_kill_callback_type =
    OSIP_ICT_KILL_TRANSACTION | OSIP_IST_KILL_TRANSACTION | OSIP_NICT_KILL_TRANSACTION
  | OSIP_NIST_KILL_TRANSACTION

datatype osip_transport_error_callback_type =
    OSIP_ICT_TRANSPORT_ERROR | OSIP_IST_TRANSPORT_ERROR | OSIP_NICT_TRANSPORT_ERROR
  | OSIP_NIST_TRANSPORT_ERROR

section \<open>Transactions\<close>

definition DEFAULT_T1 :: int where "DEFAULT_T1 = 500"
definition DEFAULT_T1_TCP_PROGRESS :: int where "DEFAULT_T1_TCP_PROGRESS = 50"
definition DEFAULT_T2 :: int where "DEFAULT_T2 = 4000"
definition DEFAULT_T4 :: int where "DEFAULT_T4 = 5000"

lemmas timer_consts = DEFAULT_T1_def DEFAULT_T1_TCP_PROGRESS_def DEFAULT_T2_def DEFAULT_T4_def

record ict_t =
  timer_a_length :: int
  timer_a_start :: timeval
  timer_b_length :: int
  timer_b_start :: timeval
  timer_d_length :: int
  timer_d_start :: timeval
  ict_destination :: "string option"
  ict_port :: int

record nict_t =
  timer_e_length :: int
  timer_e_start :: timeval
  timer_f_length :: int
  timer_f_start :: timeval
  timer_k_length :: int
  timer_k_start :: timeval
  nict_destination :: "string option"
  nict_port :: int

record ist_t =
  timer_g_length :: int
  timer_g_start :: timeval
  timer_h_length :: int
  timer_h_start :: timeval
  timer_i_length :: int
  timer_i_start :: timeval

record nist_t =
  timer_j_length :: int
  timer_j_start :: timeval

record osip_event =
  evt_type :: type_t
  evt_transactionid :: int
  evt_sip :: "message option"

text \<open>
  \<^verbatim>\<open>struct osip_transaction\<close>; the opaque pointers of the application and the DNS records, which the
  transaction layer stores and never reads, are left out.  The event queue is the list that the
  fifo of theory \<open>Osip_Fifo\<close> implements.
\<close>

record transaction =
  transactionid :: int
  transactionff :: "osip_event list"
  topvia :: "via option"
  tr_from :: "from_hdr option"
  tr_to :: "from_hdr option"
  callid :: "call_id option"
  tr_cseq :: "cseq option"
  orig_request :: "message option"
  last_response :: "message option"
  ack :: "message option"
  state :: state_t
  birth_time :: int
  completed_time :: int
  in_socket :: int
  out_socket :: int
  ctx_type :: fsm_type
  ict_context :: "ict_t option"
  ist_context :: "ist_t option"
  nict_context :: "nict_t option"
  nist_context :: "nist_t option"

datatype action =
    Send message "string option" int int
  | MessageCb osip_message_callback_type "message option"
  | KillCb osip_kill_callback_type
  | TransportErrorCb osip_transport_error_callback_type int
  | FreeMessage message
  | NewMessage message

record osip_env =
  env_now :: timeval
  env_systemtime :: int
  cb_send_message :: "transaction \<Rightarrow> message \<Rightarrow> string option \<Rightarrow> int \<Rightarrow> int \<Rightarrow> int"

text \<open>
  A context pointer after an initialisation: the pointer is \<^verbatim>\<open>NULL\<close>, valid, or still names a block that
  was freed (the error paths of \<^verbatim>\<open>__osip_ict_init\<close> free the context and keep the pointer).
\<close>

datatype 'a ptr = Null | Valid 'a | Freed

type_synonym step_result = "(transaction \<times> action list) option"
type_synonym handler = "osip_env \<Rightarrow> transaction \<Rightarrow> osip_event \<Rightarrow> step_result"

section \<open>Steps that all machines share\<close>

definition osip_message_free :: "message option \<Rightarrow> action list" where
  "osip_message_free m = (case m of None \<Rightarrow> [] | Some sip \<Rightarrow> [FreeMessage sip])"

definition osip_transaction_set_state :: "transaction \<Rightarrow> state_t \<Rightarrow> transaction" where
  "osip_transaction_set_state tr st = tr\<lparr>state := st\<rparr>"

definition osip_kill_transaction_callback ::
  "osip_env \<Rightarrow> osip_kill_callback_type \<Rightarrow> transaction \<Rightarrow> transaction \<times> action list" where
  "osip_kill_transaction_callback env ty tr = (tr\<lparr>completed_time := env_systemtime env\<rparr>, [KillCb ty])"

text \<open>Enter the final state and tell the application; the last two calls of every such path.\<close>

definition terminate ::
  "osip_env \<Rightarrow> state_t \<Rightarrow> osip_kill_callback_type \<Rightarrow> transaction \<Rightarrow> transaction \<times> action list" where
  "terminate env st ty tr = osip_kill_transaction_callback env ty (osip_transaction_set_state tr st)"

definition is_reliable :: "string \<Rightarrow> bool" where
  "is_reliable proto \<longleftrightarrow>
     \<not> (osip_strcasecmp proto ''TCP'' \<noteq> 0 \<and> osip_strcasecmp proto ''TLS'' \<noteq> 0 \<and> osip_strcasecmp proto ''SCTP'' \<noteq> 0)"

definition timer_from :: "osip_env \<Rightarrow> int \<Rightarrow> timeval" where
  "timer_from env ms = add_gettimeofday (env_now env) ms"

text \<open>
  The next hop of a request, as \<^verbatim>\<open>__osip_ict_init\<close>, \<^verbatim>\<open>__osip_nict_init\<close> and \<^verbatim>\<open>ict_rcv_3456xx\<close> compute it: the
  first route if it has \<^verbatim>\<open>lr\<close>, else \<^verbatim>\<open>maddr\<close>, the \<^verbatim>\<open>x-obr\<close>/\<^verbatim>\<open>x-obp\<close> pair or the host of the request URI.
\<close>

definition uri_port :: "uri \<Rightarrow> int" where
  "uri_port u = (case port u of None \<Rightarrow> 5060 | Some p \<Rightarrow> osip_atoi p)"

definition param_value :: "uri_param option \<Rightarrow> string option" where
  "param_value p = (case p of None \<Rightarrow> None | Some q \<Rightarrow> gvalue q)"

definition uri_destination :: "uri \<Rightarrow> (string option \<times> int) option" where
  "uri_destination u = do {
     (_, obr_param) \<leftarrow> osip_uri_param_get_byname (url_params u) (Some ''x-obr'');
     (_, obp_param) \<leftarrow> osip_uri_param_get_byname (url_params u) (Some ''x-obp'');
     (_, maddr_param) \<leftarrow> osip_uri_param_get_byname (url_params u) (Some ''maddr'');
     (case (param_value maddr_param, param_value obr_param, param_value obp_param) of
        (Some m, _, _) \<Rightarrow> Some (osip_strdup (Some m), uri_port u)
      | (None, Some r, Some p) \<Rightarrow> Some (osip_strdup (Some r), osip_atoi p)
      | _ \<Rightarrow> Some (osip_strdup (host u), uri_port u)) }"

definition loose_route :: "message \<Rightarrow> uri option option" where
  "loose_route request =
     (case osip_message_get_route request 0 of
        (_, Some route) \<Rightarrow>
          (case from_url route of
             Some u \<Rightarrow> do {
               (_, lr_param) \<leftarrow> osip_uri_param_get_byname (url_params u) (Some ''lr'');
               Some (if lr_param = None then None else Some u) }
           | None \<Rightarrow> Some None)
      | (_, None) \<Rightarrow> Some None)"

definition next_hop :: "message \<Rightarrow> (string option \<times> int) option" where
  "next_hop request = do {
     route \<leftarrow> loose_route request;
     (case route of
        Some u \<Rightarrow> Some (osip_strdup (host u), uri_port u)
      | None \<Rightarrow> do { u \<leftarrow> req_uri request; uri_destination u }) }"

text \<open>Sending a response: \<^verbatim>\<open>maddr\<close>, \<^verbatim>\<open>received\<close> or the host of the top \<^verbatim>\<open>Via\<close>, and \<^verbatim>\<open>rport\<close> or its port.\<close>

definition osip_transaction_snd_xxx :: "osip_env \<Rightarrow> transaction \<Rightarrow> message \<Rightarrow> (int \<times> action list) option" where
  "osip_transaction_snd_xxx env ist msg =
     (case list_at (vias msg) 0 of
        None \<Rightarrow> Some (OSIP_SYNTAXERROR, [])
      | Some via \<Rightarrow> do {
          (_, maddr) \<leftarrow> osip_uri_param_get_byname (via_params via) (Some ''maddr'');
          (_, received) \<leftarrow> osip_uri_param_get_byname (via_params via) (Some ''received'');
          (_, rport) \<leftarrow> osip_uri_param_get_byname (via_params via) (Some ''rport'');
          let hst = (case maddr of
                       Some p \<Rightarrow> gvalue p
                     | None \<Rightarrow> (case received of Some p \<Rightarrow> gvalue p | None \<Rightarrow> via_host via));
          let prt = (case param_value rport of
                       None \<Rightarrow> (case via_port via of Some p \<Rightarrow> osip_atoi p | None \<Rightarrow> 5060)
                     | Some p \<Rightarrow> osip_atoi p);
          Some (cb_send_message env ist msg hst prt (out_socket ist), [Send msg hst prt (out_socket ist)]) })"

section \<open>Events\<close>

definition osip_event_new :: "type_t \<Rightarrow> int \<Rightarrow> osip_event" where
  "osip_event_new ty i = \<lparr>evt_type = ty, evt_transactionid = i, evt_sip = None\<rparr>"

definition EVT_IS_MSG :: "osip_event \<Rightarrow> bool" where
  "EVT_IS_MSG event \<longleftrightarrow> evt_type event \<ge> RCV_REQINVITE \<and> evt_type event \<le> SND_STATUS_3456XX"

definition EVT_IS_INCOMINGMSG :: "osip_event \<Rightarrow> bool" where
  "EVT_IS_INCOMINGMSG event \<longleftrightarrow> evt_type event \<ge> RCV_REQINVITE \<and> evt_type event \<le> RCV_STATUS_3456XX"

definition EVT_IS_OUTGOINGMSG :: "osip_event \<Rightarrow> bool" where
  "EVT_IS_OUTGOINGMSG event \<longleftrightarrow> evt_type event \<ge> SND_REQINVITE \<and> evt_type event \<le> SND_STATUS_3456XX"

definition EVT_IS_INCOMINGREQ :: "osip_event \<Rightarrow> bool" where
  "EVT_IS_INCOMINGREQ event \<longleftrightarrow>
     evt_type event = RCV_REQINVITE \<or> evt_type event = RCV_REQACK \<or> evt_type event = RCV_REQUEST"

definition EVT_IS_INCOMINGRESP :: "osip_event \<Rightarrow> bool" where
  "EVT_IS_INCOMINGRESP event \<longleftrightarrow>
     evt_type event = RCV_STATUS_1XX \<or> evt_type event = RCV_STATUS_2XX \<or> evt_type event = RCV_STATUS_3456XX"

definition evt_set_type_incoming_sipmessage :: "message \<Rightarrow> type_t option" where
  "evt_set_type_incoming_sipmessage sip =
     (if MSG_IS_REQUEST sip then
        first_case [(MSG_IS_INVITE sip, RCV_REQINVITE), (MSG_IS_ACK sip, RCV_REQACK)] RCV_REQUEST
      else if MSG_IS_STATUS_1XX sip then Some RCV_STATUS_1XX
      else if MSG_IS_STATUS_2XX sip then Some RCV_STATUS_2XX
      else Some RCV_STATUS_3456XX)"

definition evt_set_type_outgoing_sipmessage :: "message \<Rightarrow> type_t option" where
  "evt_set_type_outgoing_sipmessage sip =
     (if MSG_IS_REQUEST sip then
        first_case [(MSG_IS_INVITE sip, SND_REQINVITE), (MSG_IS_ACK sip, SND_REQACK)] SND_REQUEST
      else if MSG_IS_STATUS_1XX sip then Some SND_STATUS_1XX
      else if MSG_IS_STATUS_2XX sip then Some SND_STATUS_2XX
      else Some SND_STATUS_3456XX)"

text \<open>The outer \<open>None\<close> is a fault, the inner one the \<^verbatim>\<open>NULL\<close> the function returns.\<close>

definition osip_new_outgoing_sipmessage :: "message option \<Rightarrow> osip_event option option" where
  "osip_new_outgoing_sipmessage msg =
     (case msg of
        None \<Rightarrow> Some None
      | Some sip \<Rightarrow>
          if MSG_IS_REQUEST sip \<and> sip_method sip = None then Some None
          else if MSG_IS_REQUEST sip \<and> req_uri sip = None then Some None
          else do {
            ty \<leftarrow> evt_set_type_outgoing_sipmessage sip;
            Some (Some \<lparr>evt_type = ty, evt_transactionid = 0, evt_sip = Some sip\<rparr>) })"

definition osip_transaction_need_timer_x_event ::
  "timeval \<Rightarrow> bool \<Rightarrow> timeval \<Rightarrow> bool \<Rightarrow> int \<Rightarrow> type_t \<Rightarrow> osip_event option" where
  "osip_transaction_need_timer_x_event now xixt timer cond_state tid TIMER_VAL =
     (if \<not> xixt then None
      else if cond_state then
        (if tv_sec timer = -1 then None
         else if osip_timer_gt now timer then Some (osip_event_new TIMER_VAL tid)
         else None)
      else None)"

section \<open>Dispatch (fsm_misc.c)\<close>

record transition =
  trans_state :: state_t
  trans_type :: type_t
  trans_method :: handler

fun fsm_findmethod :: "type_t \<Rightarrow> state_t \<Rightarrow> transition list \<Rightarrow> transition option" where
  "fsm_findmethod ty st [] = None"
| "fsm_findmethod ty st (t # ts) =
     (if trans_type t = ty \<and> trans_state t = st then Some t else fsm_findmethod ty st ts)"

definition fsm_callmethod ::
  "type_t \<Rightarrow> state_t \<Rightarrow> transition list \<Rightarrow> osip_env \<Rightarrow> osip_event \<Rightarrow> transaction
   \<Rightarrow> (int \<times> transaction \<times> action list) option" where
  "fsm_callmethod ty st statemachine env sipevent tr =
     (case fsm_findmethod ty st statemachine of
        None \<Rightarrow> Some (OSIP_UNDEFINED_ERROR, tr, [])
      | Some t \<Rightarrow> do {
          (tr', acts) \<leftarrow> trans_method t env tr sipevent;
          Some (OSIP_SUCCESS, tr', acts) })"

text \<open>
  \<^verbatim>\<open>osip_transaction_execute\<close>, with the table of the machine as an argument; theory \<open>Osip_Fsm\<close> chooses
  the table from the type of the transaction.
\<close>

definition execute_with ::
  "transition list \<Rightarrow> osip_env \<Rightarrow> transaction \<Rightarrow> osip_event \<Rightarrow> (int \<times> transaction \<times> action list) option" where
  "execute_with statemachine env tr evt =
     (if evt_type evt = KILL_TRANSACTION then Some (OSIP_SUCCESS, tr, [])
      else do {
        (i, tr', acts) \<leftarrow> fsm_callmethod (evt_type evt) (state tr) statemachine env evt tr;
        Some (1, tr', if i \<noteq> 0 \<and> EVT_IS_MSG evt then acts @ osip_message_free (evt_sip evt) else acts) })"

end
