(* ===== verification/Osip_Dialog.thy ===== *)
theory Osip_Dialog
  imports Osip_Transaction
begin

text \<open>
  The dialog (\<^verbatim>\<open>osip2/osip_dialog.c\<close>): creation from a response or a request, the updates by later
  messages and the two functions that decide whether a message belongs to a dialog.  A \<^verbatim>\<open>NULL\<close> string
  that the code hands to \<^verbatim>\<open>strcmp\<close> or \<^verbatim>\<open>atoi\<close>, and a missing structure that it reads, is \<open>None\<close>.
\<close>

section \<open>The code\<close>

datatype dialog_type = CALLER | CALLEE

record dialog =
  dlg_call_id :: "string option"
  local_tag :: "string option"
  remote_tag :: "string option"
  line_param :: "string option"
  route_set :: "from_hdr list"
  local_cseq :: int
  remote_cseq :: int
  remote_uri :: "from_hdr option"
  local_uri :: "from_hdr option"
  remote_contact_uri :: "from_hdr option"
  secure :: int
  dlg_type :: dialog_type
  dlg_state :: state_t

definition osip_dialog_set_state :: "dialog \<Rightarrow> state_t \<Rightarrow> dialog" where
  "osip_dialog_set_state dlg st = dlg\<lparr>dlg_state := st\<rparr>"

text \<open>The replacement of the remote target by the first \<^verbatim>\<open>Contact\<close> of a message.\<close>

definition update_contact :: "dialog \<Rightarrow> from_hdr list \<Rightarrow> int \<times> dialog" where
  "update_contact dlg cs =
     (case cs of
        [] \<Rightarrow> (OSIP_SUCCESS, dlg)
      | c # _ \<Rightarrow>
          (case osip_from_clone (Some c) of
             (i, d) \<Rightarrow> if i \<noteq> 0 then (i, dlg\<lparr>remote_contact_uri := None\<rparr>)
                       else (OSIP_SUCCESS, dlg\<lparr>remote_contact_uri := d\<rparr>)))"

definition osip_dialog_update_route_set_as_uas :: "dialog option \<Rightarrow> message option \<Rightarrow> int \<times> dialog option" where
  "osip_dialog_update_route_set_as_uas dialog invite =
     (case (dialog, invite) of
        (Some dlg, Some inv') \<Rightarrow> (case update_contact dlg (contacts inv') of (i, d) \<Rightarrow> (i, Some d))
      | _ \<Rightarrow> (OSIP_BADPARAMETER, dialog))"

definition osip_dialog_update_osip_cseq_as_uas :: "dialog option \<Rightarrow> message option \<Rightarrow> int \<times> dialog option" where
  "osip_dialog_update_osip_cseq_as_uas dialog invite =
     (case (dialog, invite) of
        (Some dlg, Some m) \<Rightarrow>
          (case msg_cseq m of
             None \<Rightarrow> (OSIP_BADPARAMETER, dialog)
           | Some cs \<Rightarrow>
               (case cseq_number cs of
                  None \<Rightarrow> (OSIP_BADPARAMETER, dialog)
                | Some n \<Rightarrow> (OSIP_SUCCESS, Some (dlg\<lparr>remote_cseq := osip_atoi n\<rparr>))))
      | _ \<Rightarrow> (OSIP_BADPARAMETER, dialog))"

text \<open>
  The loop that copies the \<^verbatim>\<open>Record-Route\<close> headers into the route set, each new one in front
  (\<open>front\<close>) or at the end; an error leaves what was copied so far.
\<close>

fun copy_routes :: "bool \<Rightarrow> from_hdr list \<Rightarrow> from_hdr list \<Rightarrow> int \<times> from_hdr list" where
  "copy_routes front [] acc = (OSIP_SUCCESS, acc)"
| "copy_routes front (rr # rrs) acc =
     (case osip_from_clone (Some rr) of
        (i, rr2) \<Rightarrow>
          if i \<noteq> 0 then (i, acc)
          else case rr2 of
                 None \<Rightarrow> copy_routes front rrs acc
               | Some r \<Rightarrow> copy_routes front rrs (if front then r # acc else acc @ [r]))"

definition osip_dialog_update_route_set_as_uac :: "dialog option \<Rightarrow> message option \<Rightarrow> int \<times> dialog option" where
  "osip_dialog_update_route_set_as_uac dialog response =
     (case (dialog, response) of
        (Some dlg, Some resp) \<Rightarrow>
          (case update_contact dlg (contacts resp) of
             (i, dlg) \<Rightarrow>
               if i \<noteq> 0 then (i, Some dlg)
               else
                 (let dlg = (if dlg_state dlg = DIALOG_EARLY \<and> length (route_set dlg) > 0
                             then dlg\<lparr>route_set := []\<rparr> else dlg);
                      (i, dlg) = (if dlg_state dlg = DIALOG_EARLY \<and> length (route_set dlg) = 0
                                  then case copy_routes True (record_routes resp) (route_set dlg) of
                                         (i, rs) \<Rightarrow> (i, dlg\<lparr>route_set := rs\<rparr>)
                                  else (OSIP_SUCCESS, dlg))
                  in if i \<noteq> 0 then (i, Some dlg)
                     else (OSIP_SUCCESS,
                           Some (if MSG_IS_STATUS_2XX resp then dlg\<lparr>dlg_state := DIALOG_CONFIRMED\<rparr> else dlg))))
      | _ \<Rightarrow> (OSIP_BADPARAMETER, dialog))"

definition osip_dialog_update_tag_as_uac :: "dialog option \<Rightarrow> message option \<Rightarrow> (int \<times> dialog option) option" where
  "osip_dialog_update_tag_as_uac dialog response =
     (case (dialog, response) of
        (Some dlg, Some resp) \<Rightarrow>
          (case msg_to resp of
             None \<Rightarrow> Some (OSIP_BADPARAMETER, dialog)
           | Some t \<Rightarrow>
               if remote_tag dlg \<noteq> None then Some (OSIP_WRONG_STATE, dialog)
               else do {
                 (i, tag) \<leftarrow> osip_from_get_tag t;
                 Some (OSIP_SUCCESS, Some (dlg\<lparr>remote_tag :=
                   (case tag of
                      Some p \<Rightarrow> if i \<noteq> 0 \<or> gvalue p = None then None else osip_strdup (gvalue p)
                    | None \<Rightarrow> None)\<rparr>)) })
      | _ \<Rightarrow> Some (OSIP_BADPARAMETER, dialog))"

text \<open>The comparison of the \<^verbatim>\<open>Call-ID\<close> with the one of the dialog; \<open>Inl\<close> is an early return.\<close>

definition match_call_id :: "string \<Rightarrow> call_id \<Rightarrow> (int + unit) option" where
  "match_call_id cid ci = do {
     (i, tmp) \<leftarrow> osip_call_id_to_str (Some ci);
     if i \<noteq> 0 then Some (Inl i)
     else do {
       s \<leftarrow> tmp;
       Some (if cid \<noteq> s then Inl OSIP_UNDEFINED_ERROR else Inr ()) } }"

text \<open>\<^verbatim>\<open>strcmp\<close> of the value of a parameter that was found.\<close>

definition param_is :: "uri_param option \<Rightarrow> string \<Rightarrow> bool option" where
  "param_is p s = do { q \<leftarrow> p; v \<leftarrow> gvalue q; Some (v = s) }"

text \<open>The comparison of the URIs when one side has no remote tag.\<close>

definition compare_uris :: "from_hdr option \<Rightarrow> from_hdr option \<Rightarrow> from_hdr option \<Rightarrow> from_hdr option \<Rightarrow> int option" where
  "compare_uris a b c d = do {
     i \<leftarrow> osip_from_compare a b;
     if i \<noteq> 0 then Some OSIP_UNDEFINED_ERROR
     else do { j \<leftarrow> osip_from_compare c d; Some (if j = 0 then OSIP_SUCCESS else OSIP_UNDEFINED_ERROR) } }"

definition osip_dialog_match_as_uac :: "dialog option \<Rightarrow> message option \<Rightarrow> int option" where
  "osip_dialog_match_as_uac dlgp answerp =
     (case (dlgp, answerp) of
        (Some dlg, Some answer) \<Rightarrow>
          (case (dlg_call_id dlg, msg_call_id answer, msg_from answer, msg_to answer) of
             (Some cid, Some ci, Some fr, Some t) \<Rightarrow> do {
               m \<leftarrow> match_call_id cid ci;
               (case m of
                  Inl i \<Rightarrow> Some i
                | Inr _ \<Rightarrow> do {
                    (i, tag_param_local) \<leftarrow> osip_from_get_tag fr;
                    if i \<noteq> 0 then Some OSIP_SYNTAXERROR
                    else (case local_tag dlg of
                            None \<Rightarrow> Some OSIP_SYNTAXERROR
                          | Some ltag \<Rightarrow> do {
                              same \<leftarrow> param_is tag_param_local ltag;
                              if \<not> same then Some OSIP_UNDEFINED_ERROR
                              else do {
                                (i, tag_param_remote) \<leftarrow> osip_from_get_tag t;
                                (case remote_tag dlg of
                                   Some rtag \<Rightarrow>
                                     if i \<noteq> 0 then Some OSIP_SYNTAXERROR
                                     else do { same \<leftarrow> param_is tag_param_remote rtag;
                                               Some (if same then OSIP_SUCCESS else OSIP_UNDEFINED_ERROR) }
                                 | None \<Rightarrow> compare_uris (local_uri dlg) (Some fr) (remote_uri dlg) (Some t)) } }) }) }
           | _ \<Rightarrow> Some OSIP_BADPARAMETER)
      | _ \<Rightarrow> Some OSIP_BADPARAMETER)"

definition osip_dialog_match_as_uas :: "dialog option \<Rightarrow> message option \<Rightarrow> int option" where
  "osip_dialog_match_as_uas dlgp requestp =
     (case (dlgp, requestp) of
        (Some dlg, Some request) \<Rightarrow>
          (case (dlg_call_id dlg, msg_call_id request, msg_from request, msg_to request) of
             (Some cid, Some ci, Some fr, Some t) \<Rightarrow> do {
               m \<leftarrow> match_call_id cid ci;
               (case m of
                  Inl i \<Rightarrow> Some i
                | Inr _ \<Rightarrow>
                    if local_tag dlg = None then Some OSIP_SYNTAXERROR
                    else do {
                      (i, tag_param_remote) \<leftarrow> osip_from_get_tag fr;
                      (case remote_tag dlg of
                         Some rtag \<Rightarrow>
                           if i \<noteq> 0 then Some OSIP_SYNTAXERROR
                           else do { same \<leftarrow> param_is tag_param_remote rtag;
                                     Some (if same then OSIP_SUCCESS else OSIP_UNDEFINED_ERROR) }
                       | None \<Rightarrow> compare_uris (remote_uri dlg) (Some fr) (local_uri dlg) (Some t)) }) }
           | _ \<Rightarrow> Some OSIP_BADPARAMETER)
      | _ \<Rightarrow> Some OSIP_BADPARAMETER)"

definition dialog_zero :: dialog where
  "dialog_zero = \<lparr>dlg_call_id = None, local_tag = None, remote_tag = None, line_param = None, route_set = [],
     local_cseq = 0, remote_cseq = 0, remote_uri = None, local_uri = None, remote_contact_uri = None,
     secure = 0, dlg_type = CALLER, dlg_state = ICT_PRE_CALLING\<rparr>"

text \<open>The value of the \<^verbatim>\<open>line\<close> parameter of the request URI.\<close>

definition invite_line :: "message option \<Rightarrow> string option option" where
  "invite_line invite =
     (case invite of
        None \<Rightarrow> Some None
      | Some m \<Rightarrow> do {
          u \<leftarrow> req_uri m;
          (i, p) \<leftarrow> osip_uri_param_get_byname (url_params u) (Some ''line'');
          Some (if i = 0 \<and> param_value p \<noteq> None then osip_strdup (param_value p) else None) })"

text \<open>The end of the initialisation: sequence number, the two addresses and the remote target.\<close>

definition dialog_addresses ::
  "dialog \<Rightarrow> message \<Rightarrow> from_hdr \<Rightarrow> from_hdr \<Rightarrow> message option \<Rightarrow> (int \<times> dialog option) option" where
  "dialog_addresses dlg resp lc rm remote_msg = do {
     cs \<leftarrow> msg_cseq resp;
     number \<leftarrow> cseq_number cs;
     let dlg = dlg\<lparr>local_cseq := osip_atoi number\<rparr>;
     let (i, ruri) = osip_from_clone (Some rm);
     if i \<noteq> 0 then Some (i, None)
     else do {
       let (i, luri) = osip_to_clone (Some lc);
       if i \<noteq> 0 then Some (i, None)
       else do {
         rmsg \<leftarrow> remote_msg;
         let (i, target) = (case contacts rmsg of [] \<Rightarrow> (OSIP_SUCCESS, None) | c # _ \<Rightarrow> osip_from_clone (Some c));
         if i \<noteq> 0 then Some (i, None)
         else Some (OSIP_SUCCESS, Some (dlg\<lparr>remote_uri := ruri, local_uri := luri,
                      remote_contact_uri := target, secure := -1\<rparr>)) } } }"

definition osip_dialog_init ::
  "message option \<Rightarrow> message option \<Rightarrow> from_hdr option \<Rightarrow> from_hdr option \<Rightarrow> message option
   \<Rightarrow> (int \<times> dialog option) option" where
  "osip_dialog_init invite response loc remote remote_msg =
     (case response of
        None \<Rightarrow> Some (OSIP_BADPARAMETER, None)
      | Some resp \<Rightarrow>
          (case (msg_cseq resp, loc, remote) of
             (Some cs, Some lc, Some rm) \<Rightarrow> do {
               let dlg = dialog_zero\<lparr>dlg_state := (if MSG_IS_STATUS_2XX resp then DIALOG_CONFIRMED else DIALOG_EARLY)\<rparr>;
               (i, cid) \<leftarrow> osip_call_id_to_str (msg_call_id resp);
               if i \<noteq> 0 then Some (i, None)
               else do {
                 (i, tag) \<leftarrow> osip_from_get_tag lc;
                 if i \<noteq> 0 then Some (i, None)
                 else do {
                   p \<leftarrow> tag;
                   (j, rtag) \<leftarrow> osip_from_get_tag rm;
                   rt \<leftarrow> (if j = 0 then do { q \<leftarrow> rtag; Some (osip_strdup (gvalue q)) } else Some None);
                   line \<leftarrow> invite_line invite;
                   let dlg = dlg\<lparr>dlg_call_id := cid, local_tag := osip_strdup (gvalue p), remote_tag := rt,
                                line_param := line\<rparr>;
                   let (i, rs) = copy_routes (invite = None) (record_routes resp) [];
                   if i \<noteq> 0 then Some (i, None)
                   else dialog_addresses (dlg\<lparr>route_set := rs\<rparr>) resp lc rm remote_msg } } }
           | _ \<Rightarrow> Some (OSIP_SYNTAXERROR, None)))"

definition osip_dialog_init_as_uac :: "message \<Rightarrow> (int \<times> dialog option) option" where
  "osip_dialog_init_as_uac response = do {
     (i, d) \<leftarrow> osip_dialog_init None (Some response) (msg_from response) (msg_to response) (Some response);
     if i \<noteq> 0 then Some (i, None)
     else do { dlg \<leftarrow> d; Some (OSIP_SUCCESS, Some (dlg\<lparr>dlg_type := CALLER, remote_cseq := -1\<rparr>)) } }"

definition osip_dialog_init_as_uac_with_remote_request :: "message \<Rightarrow> int \<Rightarrow> (int \<times> dialog option) option" where
  "osip_dialog_init_as_uac_with_remote_request next_request loc_cseq =
     (case msg_cseq next_request of
        None \<Rightarrow> Some (OSIP_BADPARAMETER, None)
      | Some cs \<Rightarrow> do {
          (i, d) \<leftarrow> osip_dialog_init (Some next_request) (Some next_request) (msg_to next_request)
                      (msg_from next_request) (Some next_request);
          if i \<noteq> 0 then Some (i, None)
          else do {
            dlg \<leftarrow> d;
            n \<leftarrow> cseq_number cs;
            Some (OSIP_SUCCESS, Some (dlg\<lparr>dlg_type := CALLER, dlg_state := DIALOG_CONFIRMED,
                    local_cseq := loc_cseq, remote_cseq := osip_atoi n\<rparr>)) } })"

definition osip_dialog_init_as_uas :: "message option \<Rightarrow> message \<Rightarrow> (int \<times> dialog option) option" where
  "osip_dialog_init_as_uas invite response =
     (case msg_cseq response of
        None \<Rightarrow> Some (OSIP_SYNTAXERROR, None)
      | Some cs \<Rightarrow> do {
          (i, d) \<leftarrow> osip_dialog_init invite (Some response) (msg_to response) (msg_from response) invite;
          if i \<noteq> 0 then Some (i, None)
          else do {
            dlg \<leftarrow> d;
            n \<leftarrow> cseq_number cs;
            Some (OSIP_SUCCESS, Some (dlg\<lparr>dlg_type := CALLEE, remote_cseq := osip_atoi n\<rparr>)) } })"

end
