(* ===== verification/Osip_Machine.thy ===== *)
theory Osip_Machine
  imports Osip_Transaction
begin

text \<open>
  The contract of a transaction machine, as a locale over its transition table: every handler
  returns without a fault, keeps the invariant of the machine, follows the state diagram, accounts
  for every message it is given, allocates or frees, and calls the kill callback exactly when it
  enters the final state, which has no way out.  From it, for any sequence of events: the execution
  never faults, the kill callback comes once, and no message is lost or freed twice.
\<close>

section \<open>Accounts\<close>

definition mset_opt :: "message option \<Rightarrow> message multiset" where
  "mset_opt m = (case m of None \<Rightarrow> {#} | Some sip \<Rightarrow> {#sip#})"

lemma mset_opt_simps [simp]: "mset_opt None = {#}" "mset_opt (Some m) = {#m#}"
  by (simp_all add: mset_opt_def)

definition owned :: "transaction \<Rightarrow> message multiset" where
  "owned tr = mset_opt (orig_request tr) + mset_opt (last_response tr) + mset_opt (ack tr)"

primrec freed :: "action list \<Rightarrow> message multiset" where
  "freed [] = {#}"
| "freed (a # as) = (case a of FreeMessage m \<Rightarrow> add_mset m (freed as) | _ \<Rightarrow> freed as)"

primrec created :: "action list \<Rightarrow> message multiset" where
  "created [] = {#}"
| "created (a # as) = (case a of NewMessage m \<Rightarrow> add_mset m (created as) | _ \<Rightarrow> created as)"

primrec kills :: "action list \<Rightarrow> nat" where
  "kills [] = 0"
| "kills (a # as) = (case a of KillCb _ \<Rightarrow> Suc (kills as) | _ \<Rightarrow> kills as)"

primrec sends :: "action list \<Rightarrow> message list" where
  "sends [] = []"
| "sends (a # as) = (case a of Send m _ _ _ \<Rightarrow> m # sends as | _ \<Rightarrow> sends as)"

lemma account_append [simp]:
  "freed (as @ bs) = freed as + freed bs"
  "created (as @ bs) = created as + created bs"
  "kills (as @ bs) = kills as + kills bs"
  "sends (as @ bs) = sends as @ sends bs"
  by (induction as) (auto split: action.splits)

lemma account_message_free [simp]:
  "freed (osip_message_free m) = mset_opt m"
  "created (osip_message_free m) = {#}"
  "kills (osip_message_free m) = 0"
  "sends (osip_message_free m) = []"
  by (cases m; simp add: osip_message_free_def)+

section \<open>Well-formed messages and events\<close>

text \<open>
  What the parser and \<^verbatim>\<open>osip_new_outgoing_sipmessage\<close> establish: parameters have names and a request has
  a method.  A message event carries such a message; a timer event carries none.
\<close>

definition msg_ok :: "message \<Rightarrow> bool" where
  "msg_ok m \<longleftrightarrow> (\<forall>v\<in>set (vias m). named (via_params v))
     \<and> (\<forall>r\<in>set (routes m). \<forall>u. from_url r = Some u \<longrightarrow> named (url_params u))
     \<and> (\<forall>u. req_uri m = Some u \<longrightarrow> named (url_params u))
     \<and> (MSG_IS_REQUEST m \<longrightarrow> sip_method m \<noteq> None)"

definition event_ok :: "osip_event \<Rightarrow> bool" where
  "event_ok evt \<longleftrightarrow> (if EVT_IS_MSG evt then \<exists>m. evt_sip evt = Some m \<and> msg_ok m else evt_sip evt = None)"

lemma event_ok_msg:
  "event_ok evt \<Longrightarrow> RCV_REQINVITE \<le> evt_type evt \<Longrightarrow> evt_type evt \<le> SND_STATUS_3456XX
   \<Longrightarrow> \<exists>m. evt_sip evt = Some m \<and> msg_ok m"
  by (simp add: event_ok_def EVT_IS_MSG_def)

lemma event_ok_timer:
  "event_ok evt \<Longrightarrow> \<not> (RCV_REQINVITE \<le> evt_type evt \<and> evt_type evt \<le> SND_STATUS_3456XX) \<Longrightarrow> evt_sip evt = None"
  unfolding event_ok_def EVT_IS_MSG_def by (simp split: if_splits)

definition event_sips :: "osip_event list \<Rightarrow> message multiset" where
  "event_sips evts = sum_list (map (\<lambda>e. mset_opt (evt_sip e)) evts)"

lemma event_sips_simps [simp]:
  "event_sips [] = {#}" "event_sips (e # es) = mset_opt (evt_sip e) + event_sips es"
  "event_sips (es @ fs) = event_sips es + event_sips fs"
  by (simp_all add: event_sips_def)

text \<open>The fields that identify a transaction; no handler touches them.\<close>

definition identity where
  "identity tr = (transactionid tr, transactionff tr, topvia tr, tr_from tr, tr_to tr, callid tr, tr_cseq tr, ctx_type tr)"

lemma snd_xxx_total:
  assumes "msg_ok m"
  shows "\<exists>i acts. osip_transaction_snd_xxx env tr m = Some (i, acts) \<and> kills acts = 0
           \<and> freed acts = {#} \<and> created acts = {#} \<and> set (sends acts) \<subseteq> {m}"
proof (cases "vias m")
  case Nil
  then show ?thesis by (simp add: osip_transaction_snd_xxx_def)
next
  case (Cons v vs)
  then have n: "named (via_params v)" using assms by (simp add: msg_ok_def)
  obtain i1 r1 where 1: "osip_uri_param_get_byname (via_params v) (Some ''maddr'') = Some (i1, r1)"
    using get_byname_total [OF n, of "''maddr''"] by blast
  obtain i2 r2 where 2: "osip_uri_param_get_byname (via_params v) (Some ''received'') = Some (i2, r2)"
    using get_byname_total [OF n, of "''received''"] by blast
  obtain i3 r3 where 3: "osip_uri_param_get_byname (via_params v) (Some ''rport'') = Some (i3, r3)"
    using get_byname_total [OF n, of "''rport''"] by blast
  show ?thesis using Cons 1 2 3 by (simp add: osip_transaction_snd_xxx_def Let_def)
qed

section \<open>Steps\<close>

definition step_ok ::
  "(transaction \<Rightarrow> bool) \<Rightarrow> state_t \<Rightarrow> (state_t \<Rightarrow> type_t \<Rightarrow> state_t \<Rightarrow> bool)
   \<Rightarrow> transaction \<Rightarrow> osip_event \<Rightarrow> step_result \<Rightarrow> bool" where
  "step_ok tinv final diagram tr evt res \<longleftrightarrow>
     (\<exists>tr' acts. res = Some (tr', acts) \<and> tinv tr' \<and> identity tr' = identity tr
        \<and> diagram (state tr) (evt_type evt) (state tr')
        \<and> kills acts = of_bool (state tr' = final)
        \<and> owned tr + mset_opt (evt_sip evt) + created acts = owned tr' + freed acts)"

lemma step_ok_Some [simp]:
  "step_ok tinv final diagram tr evt (Some (tr', acts)) \<longleftrightarrow>
     tinv tr' \<and> identity tr' = identity tr \<and> diagram (state tr) (evt_type evt) (state tr')
     \<and> kills acts = of_bool (state tr' = final)
     \<and> owned tr + mset_opt (evt_sip evt) + created acts = owned tr' + freed acts"
  by (simp add: step_ok_def)

lemma step_ok_if [simp]:
  "step_ok tinv final diagram tr evt (Some (if b then r else s)) \<longleftrightarrow>
     (if b then step_ok tinv final diagram tr evt (Some r) else step_ok tinv final diagram tr evt (Some s))"
  by simp

text \<open>A sequence of events, each executed in an environment of its own.\<close>

fun run ::
  "transition list \<Rightarrow> transaction \<Rightarrow> (osip_env \<times> osip_event) list \<Rightarrow> (transaction \<times> action list) option" where
  "run table tr [] = Some (tr, [])"
| "run table tr ((env, evt) # steps) = do {
     (_, tr', acts) \<leftarrow> execute_with table env tr evt;
     (tr'', acts') \<leftarrow> run table tr' steps;
     Some (tr'', acts @ acts') }"

definition steps_ok :: "(osip_env \<times> osip_event) list \<Rightarrow> bool" where
  "steps_ok steps \<longleftrightarrow> (\<forall>(env, evt)\<in>set steps. event_ok evt \<and> wf_time (env_now env))"

lemma steps_ok_simps [simp]:
  "steps_ok []" "steps_ok ((env, evt) # steps) \<longleftrightarrow> event_ok evt \<and> wf_time (env_now env) \<and> steps_ok steps"
  by (auto simp: steps_ok_def)

lemma fsm_findmethod_some:
  "fsm_findmethod ty st table = Some t \<Longrightarrow> t \<in> set table \<and> trans_type t = ty \<and> trans_state t = st"
  by (induction table) (auto split: if_splits)

lemma fsm_findmethod_none:
  "(\<forall>t\<in>set table. trans_state t \<noteq> st) \<Longrightarrow> fsm_findmethod ty st table = None"
  by (induction table) auto

locale transaction_machine =
  fixes table :: "transition list"
    and tinv :: "transaction \<Rightarrow> bool"
    and final :: state_t
    and diagram :: "state_t \<Rightarrow> type_t \<Rightarrow> state_t \<Rightarrow> bool"
  assumes step: "t \<in> set table \<Longrightarrow> trans_state t = state tr \<Longrightarrow> trans_type t = evt_type evt \<Longrightarrow> tinv tr
      \<Longrightarrow> event_ok evt \<Longrightarrow> wf_time (env_now env) \<Longrightarrow> step_ok tinv final diagram tr evt (trans_method t env tr evt)"
    and final_no_exit: "t \<in> set table \<Longrightarrow> trans_state t \<noteq> final"
begin

definition edge :: "transaction \<Rightarrow> osip_event \<Rightarrow> transaction \<Rightarrow> bool" where
  "edge tr evt tr' \<longleftrightarrow> tr' = tr \<or> diagram (state tr) (evt_type evt) (state tr')"

text \<open>One event: no fault, and every part of the contract.\<close>

lemma execute_ok:
  assumes "tinv tr" and "event_ok evt" and "wf_time (env_now env)"
  shows "\<exists>i tr' acts. execute_with table env tr evt = Some (i, tr', acts) \<and> tinv tr' \<and> identity tr' = identity tr
    \<and> edge tr evt tr' \<and> kills acts = of_bool (state tr \<noteq> final \<and> state tr' = final)
    \<and> owned tr + mset_opt (evt_sip evt) + created acts = owned tr' + freed acts"
proof (cases "evt_type evt = KILL_TRANSACTION")
  case True
  then have "\<not> (RCV_REQINVITE \<le> evt_type evt \<and> evt_type evt \<le> SND_STATUS_3456XX)"
    by (simp add: less_eq_type_t_def)
  then have "evt_sip evt = None" by (rule event_ok_timer [OF assms(2)])
  with True assms(1) show ?thesis by (simp add: execute_with_def edge_def)
next
  case False
  show ?thesis
  proof (cases "fsm_findmethod (evt_type evt) (state tr) table")
    case None
    have "EVT_IS_MSG evt \<or> evt_sip evt = None" using assms(2) by (cases "EVT_IS_MSG evt") (simp_all add: event_ok_def)
    with False None assms(1) show ?thesis
      by (auto simp: execute_with_def fsm_callmethod_def edge_def)
  next
    case (Some t)
    note t = fsm_findmethod_some [OF Some]
    have "state tr \<noteq> final" using final_no_exit t by metis
    moreover obtain tr' acts where m: "trans_method t env tr evt = Some (tr', acts)" "tinv tr'"
        "identity tr' = identity tr" "diagram (state tr) (evt_type evt) (state tr')"
        "kills acts = of_bool (state tr' = final)"
        "owned tr + mset_opt (evt_sip evt) + created acts = owned tr' + freed acts"
      using step [of t tr evt env] t assms by (auto simp: step_ok_def)
    moreover have "execute_with table env tr evt = Some (1, tr', acts)"
      using False Some m(1) by (simp add: execute_with_def fsm_callmethod_def)
    ultimately show ?thesis by (intro exI [of _ 1] exI [of _ tr'] exI [of _ acts]) (simp add: edge_def)
  qed
qed

text \<open>The final state is final: an event is discarded and nothing is sent or announced.\<close>

lemma final_absorbs:
  assumes "state tr = final"
  shows "\<exists>i. execute_with table env tr evt = Some (i, tr, if EVT_IS_MSG evt then osip_message_free (evt_sip evt) else [])"
proof (cases "evt_type evt = KILL_TRANSACTION")
  case True
  then have "\<not> EVT_IS_MSG evt" by (simp add: EVT_IS_MSG_def less_eq_type_t_def)
  with True show ?thesis by (simp add: execute_with_def)
next
  case False
  have "fsm_findmethod (evt_type evt) (state tr) table = None"
    using fsm_findmethod_none [of table "state tr"] final_no_exit assms by auto
  with False show ?thesis by (simp add: execute_with_def fsm_callmethod_def)
qed

lemma run_ok:
  assumes "tinv tr" and "steps_ok steps"
  shows "\<exists>tr' acts. run table tr steps = Some (tr', acts) \<and> tinv tr' \<and> identity tr' = identity tr
    \<and> kills acts = of_bool (state tr \<noteq> final \<and> state tr' = final) \<and> (state tr = final \<longrightarrow> state tr' = final)
    \<and> owned tr + event_sips (map snd steps) + created acts = owned tr' + freed acts"
  using assms
proof (induction steps arbitrary: tr)
  case (Cons s steps)
  obtain env evt where s: "s = (env, evt)" by (cases s)
  with Cons.prems have e: "event_ok evt" "wf_time (env_now env)" "steps_ok steps" by simp_all
  from execute_ok [OF Cons.prems(1) e(1,2)]
  obtain i tr1 acts1 where 1: "execute_with table env tr evt = Some (i, tr1, acts1)" "tinv tr1"
      "identity tr1 = identity tr" "kills acts1 = of_bool (state tr \<noteq> final \<and> state tr1 = final)"
      "owned tr + mset_opt (evt_sip evt) + created acts1 = owned tr1 + freed acts1" by blast
  from Cons.IH [OF 1(2) e(3)]
  obtain tr2 acts2 where 2: "run table tr1 steps = Some (tr2, acts2)" "tinv tr2" "identity tr2 = identity tr1"
      "kills acts2 = of_bool (state tr1 \<noteq> final \<and> state tr2 = final)" "state tr1 = final \<longrightarrow> state tr2 = final"
      "owned tr1 + event_sips (map snd steps) + created acts2 = owned tr2 + freed acts2" by blast
  have stay: "state tr = final \<longrightarrow> state tr1 = final" using final_absorbs [of tr env evt] 1(1) by auto
  have "run table tr (s # steps) = Some (tr2, acts1 @ acts2)" using s 1(1) 2(1) by simp
  moreover have "kills (acts1 @ acts2) = of_bool (state tr \<noteq> final \<and> state tr2 = final)"
    using 1(4) 2(4,5) stay by auto
  moreover have "owned tr + event_sips (map snd (s # steps)) + created (acts1 @ acts2) = owned tr2 + freed (acts1 @ acts2)"
    using 1(5) 2(6) s by (simp add: ac_simps) (metis (no_types, lifting) add.assoc add.commute)
  ultimately show ?case using 1(3) 2(2,3,5) stay by auto
qed simp

end

end
