(* ===== verification/Osip_Ict.thy ===== *)
theory Osip_Ict
  imports Osip_Transaction
begin

text \<open>
  The INVITE client transaction: \<^verbatim>\<open>osip2/ict.c\<close> (context and timers) and \<^verbatim>\<open>osip2/ict_fsm.c\<close> (handlers and
  the transition table).
\<close>

section \<open>The context (ict.c)\<close>

definition osip_ict_set_destination :: "ict_t \<Rightarrow> string option \<Rightarrow> int \<Rightarrow> ict_t" where
  "osip_ict_set_destination ict destination prt = ict\<lparr>ict_destination := destination, ict_port := prt\<rparr>"

definition no_time :: timeval where "no_time = \<lparr>tv_sec = 0, tv_usec = 0\<rparr>"

definition ict_zero :: ict_t where
  "ict_zero = \<lparr>timer_a_length = 0, timer_a_start = no_time, timer_b_length = 0, timer_b_start = no_time,
     timer_d_length = 0, timer_d_start = no_time, ict_destination = None, ict_port = 0\<rparr>"

text \<open>Both branches start timer A; only the length of timer D depends on the transport.\<close>

definition osip_ict_init :: "osip_env \<Rightarrow> message \<Rightarrow> (int \<times> ict_t ptr) option" where
  "osip_ict_init env invite =
     (let ict = ict_zero; (i, via) = osip_message_get_via (Some invite) 0 in
      if i < 0 then Some (i, Freed)
      else case via_get_protocol via of
             None \<Rightarrow> Some (OSIP_SYNTAXERROR, Freed)
           | Some proto \<Rightarrow> do {
               let ict = (if \<not> is_reliable proto then
                            ict\<lparr>timer_a_length := DEFAULT_T1,
                                timer_d_length := (if 64 * DEFAULT_T1 < 32000 then 32000 else 64 * DEFAULT_T1),
                                timer_a_start := timer_from env DEFAULT_T1,
                                timer_d_start := timer_off (timer_d_start ict)\<rparr>
                          else
                            ict\<lparr>timer_a_length := DEFAULT_T1, timer_d_length := 0,
                                timer_a_start := timer_from env DEFAULT_T1,
                                timer_d_start := timer_off (timer_d_start ict)\<rparr>);
               (dest, prt) \<leftarrow> next_hop invite;
               let ict = osip_ict_set_destination ict dest prt;
               Some (OSIP_SUCCESS,
                 Valid (ict\<lparr>timer_b_length := 64 * DEFAULT_T1, timer_b_start := timer_from env (64 * DEFAULT_T1)\<rparr>)) })"

definition osip_ict_need_timer_a_event :: "timeval \<Rightarrow> ict_t \<Rightarrow> state_t \<Rightarrow> int \<Rightarrow> osip_event option" where
  "osip_ict_need_timer_a_event now ict st tid =
     osip_transaction_need_timer_x_event now True (timer_a_start ict) (st = ICT_CALLING) tid TIMEOUT_A"

definition osip_ict_need_timer_b_event :: "timeval \<Rightarrow> ict_t \<Rightarrow> state_t \<Rightarrow> int \<Rightarrow> osip_event option" where
  "osip_ict_need_timer_b_event now ict st tid =
     osip_transaction_need_timer_x_event now True (timer_b_start ict) (st = ICT_CALLING) tid TIMEOUT_B"

definition osip_ict_need_timer_d_event :: "timeval \<Rightarrow> ict_t \<Rightarrow> state_t \<Rightarrow> int \<Rightarrow> osip_event option" where
  "osip_ict_need_timer_d_event now ict st tid =
     osip_transaction_need_timer_x_event now True (timer_d_start ict) (st = ICT_COMPLETED) tid TIMEOUT_D"

section \<open>Handlers (ict_fsm.c)\<close>

definition ict_handle_transport_error :: "osip_env \<Rightarrow> transaction \<Rightarrow> int \<Rightarrow> transaction \<times> action list" where
  "ict_handle_transport_error env ict err =
     (let (ict, acts) = terminate env ICT_TERMINATED OSIP_ICT_KILL_TRANSACTION ict
      in (ict, TransportErrorCb OSIP_ICT_TRANSPORT_ERROR err # acts))"

text \<open>
  The block behind a successful transmission: a reliable transport stops timer A.  \<open>Inl\<close> is the
  error code for the transport error handler.
\<close>

definition ict_message_sent :: "transaction \<Rightarrow> ict_t \<Rightarrow> message \<Rightarrow> int \<Rightarrow> int + transaction" where
  "ict_message_sent ict ctx sip i =
     (if i = 0 then
        (case osip_message_get_via (Some sip) 0 of (i, via) \<Rightarrow>
           if i < 0 then Inl i
           else case via_get_protocol via of
                  None \<Rightarrow> Inl i
                | Some proto \<Rightarrow>
                    if \<not> is_reliable proto then Inr ict
                    else Inr (ict\<lparr>ict_context := Some (ctx\<lparr>timer_a_length := -1,
                                timer_a_start := timer_off (timer_a_start ctx)\<rparr>)\<rparr>))
      else Inr ict)"

definition ict_snd_invite :: handler where
  "ict_snd_invite env ict evt = do {
     sip \<leftarrow> evt_sip evt;
     ctx \<leftarrow> ict_context ict;
     let ict = ict\<lparr>orig_request := Some sip\<rparr>;
     let i = cb_send_message env ict sip (ict_destination ctx) (ict_port ctx) (out_socket ict);
     let sent = Send sip (ict_destination ctx) (ict_port ctx) (out_socket ict);
     Some (if i < 0 then
             (let (ict, acts) = ict_handle_transport_error env ict i in (ict, sent # acts))
           else case ict_message_sent ict ctx sip i of
                  Inl err \<Rightarrow> (let (ict, acts) = ict_handle_transport_error env ict err in (ict, sent # acts))
                | Inr ict \<Rightarrow>
                    (osip_transaction_set_state ict ICT_CALLING,
                     [sent, MessageCb OSIP_ICT_INVITE_SENT (orig_request ict)])) }"

definition osip_ict_timeout_a_event :: handler where
  "osip_ict_timeout_a_event env ict evt = do {
     ctx \<leftarrow> ict_context ict;
     sip \<leftarrow> orig_request ict;
     let len = timer_a_length ctx * 2;
     let ctx = ctx\<lparr>timer_a_length := len, timer_a_start := timer_from env len\<rparr>;
     let ict = ict\<lparr>ict_context := Some ctx\<rparr>;
     let i = cb_send_message env ict sip (ict_destination ctx) (ict_port ctx) (out_socket ict);
     let sent = Send sip (ict_destination ctx) (ict_port ctx) (out_socket ict);
     Some (if i < 0 then
             (let (ict, acts) = ict_handle_transport_error env ict i in (ict, sent # acts))
           else case ict_message_sent ict ctx sip i of
                  Inl err \<Rightarrow> (let (ict, acts) = ict_handle_transport_error env ict err in (ict, sent # acts))
                | Inr ict \<Rightarrow>
                    (ict, sent # (if i = 0 then [MessageCb OSIP_ICT_INVITE_SENT_AGAIN (orig_request ict)] else []))) }"

definition osip_ict_timeout_b_event :: handler where
  "osip_ict_timeout_b_event env ict evt = do {
     ctx \<leftarrow> ict_context ict;
     let ict = ict\<lparr>ict_context := Some (ctx\<lparr>timer_b_length := -1, timer_b_start := timer_off (timer_b_start ctx)\<rparr>)\<rparr>;
     let (ict, acts) = terminate env ICT_TERMINATED OSIP_ICT_KILL_TRANSACTION ict;
     Some (ict, MessageCb OSIP_ICT_STATUS_TIMEOUT (evt_sip evt) # acts) }"

definition ict_rcv_1xx :: handler where
  "ict_rcv_1xx env ict evt =
     Some (osip_transaction_set_state (ict\<lparr>last_response := evt_sip evt\<rparr>) ICT_PROCEEDING,
           osip_message_free (last_response ict) @ [MessageCb OSIP_ICT_STATUS_1XX_RECEIVED (evt_sip evt)])"

definition ict_rcv_2xx :: handler where
  "ict_rcv_2xx env ict evt =
     (let (ict', acts) = terminate env ICT_TERMINATED OSIP_ICT_KILL_TRANSACTION (ict\<lparr>last_response := evt_sip evt\<rparr>)
      in Some (ict', osip_message_free (last_response ict) @ MessageCb OSIP_ICT_STATUS_2XX_RECEIVED (evt_sip evt) # acts))"

text \<open>
  \<^verbatim>\<open>ict_create_ack\<close>: every clone that fails, and a request without version, URI or \<^verbatim>\<open>Via\<close>, gives
  \<^verbatim>\<open>NULL\<close>.  Only reading the original request through a \<^verbatim>\<open>NULL\<close> pointer is a fault.
\<close>

definition clone_ok :: "int \<times> 'a option \<Rightarrow> 'a option" where
  "clone_ok r = (if fst r \<noteq> 0 then None else snd r)"

definition ack_credentials :: "message \<Rightarrow> message \<Rightarrow> message \<Rightarrow> message option" where
  "ack_credentials orig response am =
     (if status_code response \<noteq> 401 \<and> status_code response \<noteq> 407 then do {
        auths \<leftarrow> (if length (authorizations orig) > 0
                  then (case list_clone osip_authorization_clone (authorizations orig) of
                          (i, as) \<Rightarrow> if i \<noteq> 0 then None else Some as)
                  else Some []);
        pauths \<leftarrow> (if length (proxy_authorizations orig) > 0
                   then (case list_clone osip_authorization_clone (proxy_authorizations orig) of
                           (i, as) \<Rightarrow> if i \<noteq> 0 then None else Some as)
                   else Some []);
        Some (am\<lparr>authorizations := auths, proxy_authorizations := pauths\<rparr>) }
      else Some am)"

definition ack_for :: "message \<Rightarrow> message \<Rightarrow> message option" where
  "ack_for orig response = do {
     frm \<leftarrow> clone_ok (osip_from_clone (msg_from response));
     to \<leftarrow> clone_ok (osip_to_clone (msg_to response));
     cid \<leftarrow> clone_ok (osip_call_id_clone (msg_call_id response));
     cs \<leftarrow> clone_ok (osip_cseq_clone (msg_cseq response));
     let cs = cs\<lparr>cseq_method := osip_strdup (Some ''ACK'')\<rparr>;
     version \<leftarrow> osip_strdup (sip_version orig);
     ruri \<leftarrow> clone_ok (osip_uri_clone (req_uri orig));
     orig_via \<leftarrow> snd (osip_message_get_via (Some orig) 0);
     via \<leftarrow> clone_ok (osip_via_clone (Some orig_via));
     rts \<leftarrow> (case list_clone osip_from_clone (routes orig) of (i, rs) \<Rightarrow> if i \<noteq> 0 then None else Some rs);
     ack_credentials orig response
       (osip_message_init\<lparr>msg_from := Some frm, msg_to := Some to, msg_call_id := Some cid, msg_cseq := Some cs,
          sip_method := Some ''ACK'', sip_version := Some version, status_code := 0, reason_phrase := None,
          req_uri := Some ruri, vias := [via], routes := rts\<rparr>) }"

definition ict_create_ack :: "transaction \<Rightarrow> message \<Rightarrow> message option option" where
  "ict_create_ack ict response = do { orig \<leftarrow> orig_request ict; Some (ack_for orig response) }"

definition ict_status_callback :: "message \<Rightarrow> osip_message_callback_type" where
  "ict_status_callback sip =
     (if MSG_IS_STATUS_3XX sip then OSIP_ICT_STATUS_3XX_RECEIVED
      else if MSG_IS_STATUS_4XX sip then OSIP_ICT_STATUS_4XX_RECEIVED
      else if MSG_IS_STATUS_5XX sip then OSIP_ICT_STATUS_5XX_RECEIVED
      else OSIP_ICT_STATUS_6XX_RECEIVED)"

definition ict_start_timer_d :: "osip_env \<Rightarrow> ict_t \<Rightarrow> transaction \<Rightarrow> transaction" where
  "ict_start_timer_d env ctx ict =
     osip_transaction_set_state
       (ict\<lparr>ict_context := Some (ctx\<lparr>timer_d_start := timer_from env (timer_d_length ctx)\<rparr>)\<rparr>) ICT_COMPLETED"

definition ict_rcv_3456xx :: handler where
  "ict_rcv_3456xx env ict evt = do {
     let freed = osip_message_free (last_response ict);
     let ict = ict\<lparr>last_response := evt_sip evt\<rparr>;
     if state ict \<noteq> ICT_COMPLETED then do {
       sip \<leftarrow> evt_sip evt;
       ackp \<leftarrow> ict_create_ack ict sip;
       let ict = ict\<lparr>ack := ackp\<rparr>;
       (case ackp of
          None \<Rightarrow> (let (ict, acts) = terminate env ICT_TERMINATED OSIP_ICT_KILL_TRANSACTION ict
                   in Some (ict, freed @ acts))
        | Some am \<Rightarrow> do {
            ctx \<leftarrow> ict_context ict;
            ctx \<leftarrow> (if ict_destination ctx = None then do {
                      (dest, prt) \<leftarrow> next_hop am;
                      Some (osip_ict_set_destination ctx dest prt) }
                    else Some ctx);
            let ict = ict\<lparr>ict_context := Some ctx\<rparr>;
            let i = cb_send_message env ict am (ict_destination ctx) (ict_port ctx) (out_socket ict);
            let sent = Send am (ict_destination ctx) (ict_port ctx) (out_socket ict);
            Some (if i \<noteq> 0 then
                    (let (ict, acts) = ict_handle_transport_error env ict i in (ict, freed @ NewMessage am # sent # acts))
                  else
                    (ict_start_timer_d env ctx ict,
                     freed @ [NewMessage am, sent, MessageCb (ict_status_callback sip) (Some sip),
                              MessageCb OSIP_ICT_ACK_SENT (Some am)])) }) }
     else do {
       ctx \<leftarrow> ict_context ict;
       Some (ict_start_timer_d env ctx ict, freed) } }"

definition osip_ict_timeout_d_event :: handler where
  "osip_ict_timeout_d_event env ict evt = do {
     ctx \<leftarrow> ict_context ict;
     let ict = ict\<lparr>ict_context := Some (ctx\<lparr>timer_d_length := -1, timer_d_start := timer_off (timer_d_start ctx)\<rparr>)\<rparr>;
     Some (terminate env ICT_TERMINATED OSIP_ICT_KILL_TRANSACTION ict) }"

definition ict_retransmit_ack :: handler where
  "ict_retransmit_ack env ict evt = do {
     ctx \<leftarrow> ict_context ict;
     am \<leftarrow> ack ict;
     let i = cb_send_message env ict am (ict_destination ctx) (ict_port ctx) (out_socket ict);
     let begun = MessageCb OSIP_ICT_STATUS_3456XX_RECEIVED_AGAIN (evt_sip evt) # osip_message_free (evt_sip evt)
                 @ [Send am (ict_destination ctx) (ict_port ctx) (out_socket ict)];
     Some (if i = 0 then
             (osip_transaction_set_state ict ICT_COMPLETED, begun @ [MessageCb OSIP_ICT_ACK_SENT_AGAIN (Some am)])
           else (let (ict, acts) = ict_handle_transport_error env ict i in (ict, begun @ acts))) }"

section \<open>The transition table\<close>

definition ict_fsm :: "transition list" where
  "ict_fsm =
    [\<lparr>trans_state = ICT_PRE_CALLING, trans_type = SND_REQINVITE, trans_method = ict_snd_invite\<rparr>,
     \<lparr>trans_state = ICT_CALLING, trans_type = TIMEOUT_A, trans_method = osip_ict_timeout_a_event\<rparr>,
     \<lparr>trans_state = ICT_CALLING, trans_type = TIMEOUT_B, trans_method = osip_ict_timeout_b_event\<rparr>,
     \<lparr>trans_state = ICT_CALLING, trans_type = RCV_STATUS_1XX, trans_method = ict_rcv_1xx\<rparr>,
     \<lparr>trans_state = ICT_CALLING, trans_type = RCV_STATUS_2XX, trans_method = ict_rcv_2xx\<rparr>,
     \<lparr>trans_state = ICT_CALLING, trans_type = RCV_STATUS_3456XX, trans_method = ict_rcv_3456xx\<rparr>,
     \<lparr>trans_state = ICT_PROCEEDING, trans_type = RCV_STATUS_1XX, trans_method = ict_rcv_1xx\<rparr>,
     \<lparr>trans_state = ICT_PROCEEDING, trans_type = RCV_STATUS_2XX, trans_method = ict_rcv_2xx\<rparr>,
     \<lparr>trans_state = ICT_PROCEEDING, trans_type = RCV_STATUS_3456XX, trans_method = ict_rcv_3456xx\<rparr>,
     \<lparr>trans_state = ICT_COMPLETED, trans_type = RCV_STATUS_3456XX, trans_method = ict_retransmit_ack\<rparr>,
     \<lparr>trans_state = ICT_COMPLETED, trans_type = TIMEOUT_D, trans_method = osip_ict_timeout_d_event\<rparr>]"

end
