(* ===== verification/Osip_Nict.thy ===== *)
theory Osip_Nict
  imports Osip_Ict
begin

text \<open>
  The non-INVITE client transaction: \<^verbatim>\<open>osip2/nict.c\<close> and \<^verbatim>\<open>osip2/nict_fsm.c\<close>.
\<close>

section \<open>The context (nict.c)\<close>

definition osip_nict_set_destination :: "nict_t \<Rightarrow> string option \<Rightarrow> int \<Rightarrow> nict_t" where
  "osip_nict_set_destination nict destination prt = nict\<lparr>nict_destination := destination, nict_port := prt\<rparr>"

definition nict_zero :: nict_t where
  "nict_zero = \<lparr>timer_e_length = 0, timer_e_start = no_time, timer_f_length = 0, timer_f_start = no_time,
     timer_k_length = 0, timer_k_start = no_time, nict_destination = None, nict_port = 0\<rparr>"

definition osip_nict_init :: "osip_env \<Rightarrow> message \<Rightarrow> (int \<times> nict_t ptr) option" where
  "osip_nict_init env request =
     (let nict = nict_zero; (i, via) = osip_message_get_via (Some request) 0 in
      if i < 0 then Some (i, Null)
      else case via_get_protocol via of
             None \<Rightarrow> Some (OSIP_UNDEFINED_ERROR, Null)
           | Some proto \<Rightarrow> do {
               let nict = (if \<not> is_reliable proto then
                             nict\<lparr>timer_e_length := DEFAULT_T1, timer_k_length := DEFAULT_T4,
                                  timer_e_start := timer_off (timer_e_start nict),
                                  timer_k_start := timer_off (timer_k_start nict)\<rparr>
                           else
                             nict\<lparr>timer_e_length := DEFAULT_T1, timer_k_length := 0,
                                  timer_e_start := timer_off (timer_e_start nict),
                                  timer_k_start := timer_off (timer_k_start nict)\<rparr>);
               (dest, prt) \<leftarrow> next_hop request;
               let nict = osip_nict_set_destination nict dest prt;
               Some (OSIP_SUCCESS,
                 Valid (nict\<lparr>timer_f_length := 64 * DEFAULT_T1, timer_f_start := timer_from env (64 * DEFAULT_T1)\<rparr>)) })"

definition osip_nict_need_timer_e_event :: "timeval \<Rightarrow> nict_t \<Rightarrow> state_t \<Rightarrow> int \<Rightarrow> osip_event option" where
  "osip_nict_need_timer_e_event now nict st tid =
     osip_transaction_need_timer_x_event now True (timer_e_start nict)
       (st = NICT_PROCEEDING \<or> st = NICT_TRYING) tid TIMEOUT_E"

definition osip_nict_need_timer_f_event :: "timeval \<Rightarrow> nict_t \<Rightarrow> state_t \<Rightarrow> int \<Rightarrow> osip_event option" where
  "osip_nict_need_timer_f_event now nict st tid =
     osip_transaction_need_timer_x_event now True (timer_f_start nict)
       (st = NICT_PROCEEDING \<or> st = NICT_TRYING) tid TIMEOUT_F"

definition osip_nict_need_timer_k_event :: "timeval \<Rightarrow> nict_t \<Rightarrow> state_t \<Rightarrow> int \<Rightarrow> osip_event option" where
  "osip_nict_need_timer_k_event now nict st tid =
     osip_transaction_need_timer_x_event now True (timer_k_start nict) (st = NICT_COMPLETED) tid TIMEOUT_K"

section \<open>Handlers (nict_fsm.c)\<close>

definition nict_handle_transport_error :: "osip_env \<Rightarrow> transaction \<Rightarrow> int \<Rightarrow> transaction \<times> action list" where
  "nict_handle_transport_error env nict err =
     (let (nict, acts) = terminate env NICT_TERMINATED OSIP_NICT_KILL_TRANSACTION nict
      in (nict, TransportErrorCb OSIP_NICT_TRANSPORT_ERROR err # acts))"

definition nict_sent_callback :: "message \<Rightarrow> osip_message_callback_type option" where
  "nict_sent_callback sip =
     first_case
       [(MSG_IS_REGISTER sip, OSIP_NICT_REGISTER_SENT), (MSG_IS_BYE sip, OSIP_NICT_BYE_SENT),
        (MSG_IS_OPTIONS sip, OSIP_NICT_OPTIONS_SENT), (MSG_IS_INFO sip, OSIP_NICT_INFO_SENT),
        (MSG_IS_CANCEL sip, OSIP_NICT_CANCEL_SENT), (MSG_IS_NOTIFY sip, OSIP_NICT_NOTIFY_SENT),
        (MSG_IS_SUBSCRIBE sip, OSIP_NICT_SUBSCRIBE_SENT)] OSIP_NICT_UNKNOWN_REQUEST_SENT"

text \<open>Timer E behind the first transmission, with the result \<open>i\<close> of the transport.\<close>

definition nict_first_timer_e :: "osip_env \<Rightarrow> nict_t \<Rightarrow> string \<Rightarrow> int \<Rightarrow> nict_t" where
  "nict_first_timer_e env ctx proto i =
     (let ctx = (if i = 0 then
                   (if \<not> is_reliable proto then ctx
                    else ctx\<lparr>timer_e_length := -1, timer_e_start := timer_off (timer_e_start ctx)\<rparr>)
                 else
                   (if \<not> is_reliable proto then ctx
                    else ctx\<lparr>timer_e_length := DEFAULT_T1_TCP_PROGRESS\<rparr>))
      in if timer_e_length ctx > 0 then ctx\<lparr>timer_e_start := timer_from env (timer_e_length ctx)\<rparr> else ctx)"

definition nict_snd_request :: handler where
  "nict_snd_request env nict evt = do {
     sip \<leftarrow> evt_sip evt;
     ctx \<leftarrow> nict_context nict;
     let nict = nict\<lparr>orig_request := Some sip\<rparr>;
     let i = cb_send_message env nict sip (nict_destination ctx) (nict_port ctx) (out_socket nict);
     let sent = Send sip (nict_destination ctx) (nict_port ctx) (out_socket nict);
     if i \<ge> 0 then do {
       cb \<leftarrow> nict_sent_callback sip;
       let begun = [sent, MessageCb cb (Some sip)];
       let (k, via) = osip_message_get_via (Some sip) 0;
       Some (if k < 0 then
               (let (nict, acts) = nict_handle_transport_error env nict (-1) in (nict, begun @ acts))
             else case via_get_protocol via of
                    None \<Rightarrow> (let (nict, acts) = nict_handle_transport_error env nict (-1) in (nict, begun @ acts))
                  | Some proto \<Rightarrow>
                      (osip_transaction_set_state
                         (nict\<lparr>nict_context := Some (nict_first_timer_e env ctx proto i)\<rparr>) NICT_TRYING, begun)) }
     else (let (nict, acts) = nict_handle_transport_error env nict i in Some (nict, sent # acts)) }"

definition nict_next_timer_e :: "state_t \<Rightarrow> int \<Rightarrow> int" where
  "nict_next_timer_e st len =
     (if st = NICT_TRYING then
        (let len = (if len < DEFAULT_T1 then len + DEFAULT_T1_TCP_PROGRESS else len * 2)
         in if len > DEFAULT_T2 then DEFAULT_T2 else len)
      else DEFAULT_T2)"

definition nict_message_sent :: "transaction \<Rightarrow> nict_t \<Rightarrow> message \<Rightarrow> int \<Rightarrow> int + transaction" where
  "nict_message_sent nict ctx sip i =
     (if i = 0 then
        (case osip_message_get_via (Some sip) 0 of (i, via) \<Rightarrow>
           if i < 0 then Inl (-1)
           else case via_get_protocol via of
                  None \<Rightarrow> Inl (-1)
                | Some proto \<Rightarrow>
                    if \<not> is_reliable proto then Inr nict
                    else Inr (nict\<lparr>nict_context := Some (ctx\<lparr>timer_e_length := -1,
                                timer_e_start := timer_off (timer_e_start ctx)\<rparr>)\<rparr>))
      else Inr nict)"

definition osip_nict_timeout_e_event :: handler where
  "osip_nict_timeout_e_event env nict evt = do {
     ctx \<leftarrow> nict_context nict;
     sip \<leftarrow> orig_request nict;
     let len = nict_next_timer_e (state nict) (timer_e_length ctx);
     let ctx = ctx\<lparr>timer_e_length := len, timer_e_start := timer_from env len\<rparr>;
     let nict = nict\<lparr>nict_context := Some ctx\<rparr>;
     let i = cb_send_message env nict sip (nict_destination ctx) (nict_port ctx) (out_socket nict);
     let sent = Send sip (nict_destination ctx) (nict_port ctx) (out_socket nict);
     Some (if i < 0 then
             (let (nict, acts) = nict_handle_transport_error env nict i in (nict, sent # acts))
           else case nict_message_sent nict ctx sip i of
                  Inl err \<Rightarrow> (let (nict, acts) = nict_handle_transport_error env nict err in (nict, sent # acts))
                | Inr nict \<Rightarrow>
                    (nict, sent # (if i = 0 then [MessageCb OSIP_NICT_REQUEST_SENT_AGAIN (orig_request nict)] else []))) }"

definition osip_nict_timeout_f_event :: handler where
  "osip_nict_timeout_f_event env nict evt = do {
     ctx \<leftarrow> nict_context nict;
     let nict = nict\<lparr>nict_context := Some (ctx\<lparr>timer_f_length := -1, timer_f_start := timer_off (timer_f_start ctx)\<rparr>)\<rparr>;
     let (nict, acts) = terminate env NICT_TERMINATED OSIP_NICT_KILL_TRANSACTION nict;
     Some (nict, MessageCb OSIP_NICT_STATUS_TIMEOUT (evt_sip evt) # acts) }"

definition osip_nict_timeout_k_event :: handler where
  "osip_nict_timeout_k_event env nict evt = do {
     ctx \<leftarrow> nict_context nict;
     let nict = nict\<lparr>nict_context := Some (ctx\<lparr>timer_k_length := -1, timer_k_start := timer_off (timer_k_start ctx)\<rparr>)\<rparr>;
     Some (terminate env NICT_TERMINATED OSIP_NICT_KILL_TRANSACTION nict) }"

definition nict_rcv_1xx :: handler where
  "nict_rcv_1xx env nict evt = do {
     ctx \<leftarrow> nict_context nict;
     let ctx = (if timer_e_length ctx > 0
                then ctx\<lparr>timer_e_length := DEFAULT_T2, timer_e_start := timer_from env DEFAULT_T2\<rparr> else ctx);
     Some (osip_transaction_set_state (nict\<lparr>last_response := evt_sip evt, nict_context := Some ctx\<rparr>) NICT_PROCEEDING,
           osip_message_free (last_response nict) @ [MessageCb OSIP_NICT_STATUS_1XX_RECEIVED (evt_sip evt)]) }"

text \<open>\<^verbatim>\<open>MSG_IS_STATUS_3XX (nict->last_response)\<close> reads the message of the event, unless the event is a 2xx.\<close>

definition nict_status_callback :: "osip_event \<Rightarrow> osip_message_callback_type option" where
  "nict_status_callback evt =
     (if evt_type evt = RCV_STATUS_2XX then Some OSIP_NICT_STATUS_2XX_RECEIVED
      else do {
        sip \<leftarrow> evt_sip evt;
        Some (if MSG_IS_STATUS_3XX sip then OSIP_NICT_STATUS_3XX_RECEIVED
              else if MSG_IS_STATUS_4XX sip then OSIP_NICT_STATUS_4XX_RECEIVED
              else if MSG_IS_STATUS_5XX sip then OSIP_NICT_STATUS_5XX_RECEIVED
              else OSIP_NICT_STATUS_6XX_RECEIVED) })"

definition nict_rcv_23456xx :: handler where
  "nict_rcv_23456xx env nict evt = do {
     ctx \<leftarrow> nict_context nict;
     cb \<leftarrow> nict_status_callback evt;
     let ctx = (if state nict \<noteq> NICT_COMPLETED then ctx\<lparr>timer_k_start := timer_from env (timer_k_length ctx)\<rparr> else ctx);
     Some (osip_transaction_set_state (nict\<lparr>last_response := evt_sip evt, nict_context := Some ctx\<rparr>) NICT_COMPLETED,
           osip_message_free (last_response nict) @ [MessageCb cb (evt_sip evt)]) }"

section \<open>The transition table\<close>

definition nict_fsm :: "transition list" where
  "nict_fsm =
    [\<lparr>trans_state = NICT_PRE_TRYING, trans_type = SND_REQUEST, trans_method = nict_snd_request\<rparr>,
     \<lparr>trans_state = NICT_TRYING, trans_type = TIMEOUT_F, trans_method = osip_nict_timeout_f_event\<rparr>,
     \<lparr>trans_state = NICT_TRYING, trans_type = TIMEOUT_E, trans_method = osip_nict_timeout_e_event\<rparr>,
     \<lparr>trans_state = NICT_TRYING, trans_type = RCV_STATUS_1XX, trans_method = nict_rcv_1xx\<rparr>,
     \<lparr>trans_state = NICT_TRYING, trans_type = RCV_STATUS_2XX, trans_method = nict_rcv_23456xx\<rparr>,
     \<lparr>trans_state = NICT_TRYING, trans_type = RCV_STATUS_3456XX, trans_method = nict_rcv_23456xx\<rparr>,
     \<lparr>trans_state = NICT_PROCEEDING, trans_type = TIMEOUT_F, trans_method = osip_nict_timeout_f_event\<rparr>,
     \<lparr>trans_state = NICT_PROCEEDING, trans_type = TIMEOUT_E, trans_method = osip_nict_timeout_e_event\<rparr>,
     \<lparr>trans_state = NICT_PROCEEDING, trans_type = RCV_STATUS_1XX, trans_method = nict_rcv_1xx\<rparr>,
     \<lparr>trans_state = NICT_PROCEEDING, trans_type = RCV_STATUS_2XX, trans_method = nict_rcv_23456xx\<rparr>,
     \<lparr>trans_state = NICT_PROCEEDING, trans_type = RCV_STATUS_3456XX, trans_method = nict_rcv_23456xx\<rparr>,
     \<lparr>trans_state = NICT_COMPLETED, trans_type = TIMEOUT_K, trans_method = osip_nict_timeout_k_event\<rparr>]"

end
