(* ===== verification/Osip_Ist.thy ===== *)
theory Osip_Ist
  imports Osip_Ict
begin

text \<open>
  The INVITE server transaction: \<^verbatim>\<open>osip2/ist.c\<close> and \<^verbatim>\<open>osip2/ist_fsm.c\<close>.
\<close>

section \<open>The context (ist.c)\<close>

definition ist_zero :: ist_t where
  "ist_zero = \<lparr>timer_g_length = 0, timer_g_start = no_time, timer_h_length = 0, timer_h_start = no_time,
     timer_i_length = 0, timer_i_start = no_time\<rparr>"

definition osip_ist_init :: "message \<Rightarrow> int \<times> ist_t ptr" where
  "osip_ist_init invite =
     (let ist = ist_zero; (i, via) = osip_message_get_via (Some invite) 0 in
      if i < 0 then (i, Null)
      else case via_get_protocol via of
             None \<Rightarrow> (OSIP_UNDEFINED_ERROR, Null)
           | Some proto \<Rightarrow>
               (let ist = (if \<not> is_reliable proto then
                             ist\<lparr>timer_g_length := DEFAULT_T1, timer_i_length := DEFAULT_T4,
                                 timer_g_start := timer_off (timer_g_start ist),
                                 timer_i_start := timer_off (timer_i_start ist)\<rparr>
                           else
                             ist\<lparr>timer_g_length := -1, timer_i_length := 0,
                                 timer_g_start := timer_off (timer_g_start ist),
                                 timer_i_start := timer_off (timer_i_start ist)\<rparr>)
                in (OSIP_SUCCESS,
                    Valid (ist\<lparr>timer_h_length := 64 * DEFAULT_T1, timer_h_start := timer_off (timer_h_start ist)\<rparr>))))"

definition osip_ist_need_timer_g_event :: "timeval \<Rightarrow> ist_t \<Rightarrow> state_t \<Rightarrow> int \<Rightarrow> osip_event option" where
  "osip_ist_need_timer_g_event now ist st tid =
     osip_transaction_need_timer_x_event now True (timer_g_start ist) (st = IST_COMPLETED) tid TIMEOUT_G"

definition osip_ist_need_timer_h_event :: "timeval \<Rightarrow> ist_t \<Rightarrow> state_t \<Rightarrow> int \<Rightarrow> osip_event option" where
  "osip_ist_need_timer_h_event now ist st tid =
     osip_transaction_need_timer_x_event now True (timer_h_start ist) (st = IST_COMPLETED) tid TIMEOUT_H"

definition osip_ist_need_timer_i_event :: "timeval \<Rightarrow> ist_t \<Rightarrow> state_t \<Rightarrow> int \<Rightarrow> osip_event option" where
  "osip_ist_need_timer_i_event now ist st tid =
     osip_transaction_need_timer_x_event now True (timer_i_start ist) (st = IST_CONFIRMED) tid TIMEOUT_I"

section \<open>Handlers (ist_fsm.c)\<close>

definition ist_handle_transport_error :: "osip_env \<Rightarrow> transaction \<Rightarrow> int \<Rightarrow> transaction \<times> action list" where
  "ist_handle_transport_error env ist err =
     (let (ist, acts) = terminate env IST_TERMINATED OSIP_IST_KILL_TRANSACTION ist
      in (ist, TransportErrorCb OSIP_IST_TRANSPORT_ERROR err # acts))"

definition ist_again_callback :: "message \<Rightarrow> osip_message_callback_type" where
  "ist_again_callback resp =
     (if MSG_IS_STATUS_1XX resp then OSIP_IST_STATUS_1XX_SENT
      else if MSG_IS_STATUS_2XX resp then OSIP_IST_STATUS_2XX_SENT_AGAIN
      else OSIP_IST_STATUS_3456XX_SENT_AGAIN)"

definition ist_rcv_invite :: handler where
  "ist_rcv_invite env ist evt =
     (if state ist = IST_PRE_PROCEEDING then
        Some (osip_transaction_set_state (ist\<lparr>orig_request := evt_sip evt\<rparr>) IST_PROCEEDING,
              [MessageCb OSIP_IST_INVITE_RECEIVED (evt_sip evt)])
      else
        (let begun = osip_message_free (evt_sip evt) @ [MessageCb OSIP_IST_INVITE_RECEIVED_AGAIN (orig_request ist)] in
         case last_response ist of
           None \<Rightarrow> Some (ist, begun)
         | Some resp \<Rightarrow> do {
             (i, sent) \<leftarrow> osip_transaction_snd_xxx env ist resp;
             Some (if i \<noteq> 0 then
                     (let (ist, acts) = ist_handle_transport_error env ist i in (ist, begun @ sent @ acts))
                   else (ist, begun @ sent @ [MessageCb (ist_again_callback resp) (Some resp)])) }))"

definition osip_ist_timeout_g_event :: handler where
  "osip_ist_timeout_g_event env ist evt = do {
     ctx \<leftarrow> ist_context ist;
     resp \<leftarrow> last_response ist;
     let len = timer_g_length ctx * 2;
     let len = (if len > DEFAULT_T2 then DEFAULT_T2 else len);
     let ist = ist\<lparr>ist_context := Some (ctx\<lparr>timer_g_length := len, timer_g_start := timer_from env len\<rparr>)\<rparr>;
     (i, sent) \<leftarrow> osip_transaction_snd_xxx env ist resp;
     Some (if i \<noteq> 0 then (let (ist, acts) = ist_handle_transport_error env ist i in (ist, sent @ acts))
           else (ist, sent @ [MessageCb OSIP_IST_STATUS_3456XX_SENT_AGAIN (Some resp)])) }"

definition osip_ist_timeout_h_event :: handler where
  "osip_ist_timeout_h_event env ist evt = do {
     ctx \<leftarrow> ist_context ist;
     let ist = ist\<lparr>ist_context := Some (ctx\<lparr>timer_h_length := -1, timer_h_start := timer_off (timer_h_start ctx)\<rparr>)\<rparr>;
     Some (terminate env IST_TERMINATED OSIP_IST_KILL_TRANSACTION ist) }"

definition osip_ist_timeout_i_event :: handler where
  "osip_ist_timeout_i_event env ist evt = do {
     ctx \<leftarrow> ist_context ist;
     let ist = ist\<lparr>ist_context := Some (ctx\<lparr>timer_i_length := -1, timer_i_start := timer_off (timer_i_start ctx)\<rparr>)\<rparr>;
     Some (terminate env IST_TERMINATED OSIP_IST_KILL_TRANSACTION ist) }"

definition ist_snd_1xx :: handler where
  "ist_snd_1xx env ist evt = do {
     sip \<leftarrow> evt_sip evt;
     let freed = osip_message_free (last_response ist);
     let ist = ist\<lparr>last_response := Some sip\<rparr>;
     (i, sent) \<leftarrow> osip_transaction_snd_xxx env ist sip;
     Some (if i \<noteq> 0 then (let (ist, acts) = ist_handle_transport_error env ist i in (ist, freed @ sent @ acts))
           else (ist, freed @ sent @ [MessageCb OSIP_IST_STATUS_1XX_SENT (Some sip)])) }"

definition ist_snd_2xx :: handler where
  "ist_snd_2xx env ist evt = do {
     sip \<leftarrow> evt_sip evt;
     let freed = osip_message_free (last_response ist);
     let ist = ist\<lparr>last_response := Some sip\<rparr>;
     (i, sent) \<leftarrow> osip_transaction_snd_xxx env ist sip;
     Some (if i \<noteq> 0 then (let (ist, acts) = ist_handle_transport_error env ist i in (ist, freed @ sent @ acts))
           else (let (ist, acts) = terminate env IST_TERMINATED OSIP_IST_KILL_TRANSACTION ist
                 in (ist, freed @ sent @ MessageCb OSIP_IST_STATUS_2XX_SENT (Some sip) # acts))) }"

definition ist_status_callback :: "message \<Rightarrow> osip_message_callback_type" where
  "ist_status_callback sip =
     (if MSG_IS_STATUS_3XX sip then OSIP_IST_STATUS_3XX_SENT
      else if MSG_IS_STATUS_4XX sip then OSIP_IST_STATUS_4XX_SENT
      else if MSG_IS_STATUS_5XX sip then OSIP_IST_STATUS_5XX_SENT
      else OSIP_IST_STATUS_6XX_SENT)"

definition ist_snd_3456xx :: handler where
  "ist_snd_3456xx env ist evt = do {
     sip \<leftarrow> evt_sip evt;
     let freed = osip_message_free (last_response ist);
     let ist = ist\<lparr>last_response := Some sip\<rparr>;
     (i, sent) \<leftarrow> osip_transaction_snd_xxx env ist sip;
     if i \<noteq> 0 then (let (ist, acts) = ist_handle_transport_error env ist i in Some (ist, freed @ sent @ acts))
     else do {
       ctx \<leftarrow> ist_context ist;
       let ctx = (if timer_g_length ctx \<noteq> -1 then ctx\<lparr>timer_g_start := timer_from env (timer_g_length ctx)\<rparr> else ctx);
       let ctx = ctx\<lparr>timer_h_start := timer_from env (timer_h_length ctx)\<rparr>;
       Some (osip_transaction_set_state (ist\<lparr>ist_context := Some ctx\<rparr>) IST_COMPLETED,
             freed @ sent @ [MessageCb (ist_status_callback sip) (Some sip)]) } }"

definition ist_rcv_ack :: handler where
  "ist_rcv_ack env ist evt = do {
     ctx \<leftarrow> ist_context ist;
     let cb = (if state ist = IST_COMPLETED then OSIP_IST_ACK_RECEIVED else OSIP_IST_ACK_RECEIVED_AGAIN);
     Some (osip_transaction_set_state
             (ist\<lparr>ack := evt_sip evt,
                  ist_context := Some (ctx\<lparr>timer_i_start := timer_from env (timer_i_length ctx)\<rparr>)\<rparr>) IST_CONFIRMED,
           osip_message_free (ack ist) @ [MessageCb cb (evt_sip evt)]) }"

section \<open>The transition table\<close>

definition ist_fsm :: "transition list" where
  "ist_fsm =
    [\<lparr>trans_state = IST_PRE_PROCEEDING, trans_type = RCV_REQINVITE, trans_method = ist_rcv_invite\<rparr>,
     \<lparr>trans_state = IST_PROCEEDING, trans_type = RCV_REQINVITE, trans_method = ist_rcv_invite\<rparr>,
     \<lparr>trans_state = IST_COMPLETED, trans_type = RCV_REQINVITE, trans_method = ist_rcv_invite\<rparr>,
     \<lparr>trans_state = IST_COMPLETED, trans_type = TIMEOUT_G, trans_method = osip_ist_timeout_g_event\<rparr>,
     \<lparr>trans_state = IST_COMPLETED, trans_type = TIMEOUT_H, trans_method = osip_ist_timeout_h_event\<rparr>,
     \<lparr>trans_state = IST_PROCEEDING, trans_type = SND_STATUS_1XX, trans_method = ist_snd_1xx\<rparr>,
     \<lparr>trans_state = IST_PROCEEDING, trans_type = SND_STATUS_2XX, trans_method = ist_snd_2xx\<rparr>,
     \<lparr>trans_state = IST_PROCEEDING, trans_type = SND_STATUS_3456XX, trans_method = ist_snd_3456xx\<rparr>,
     \<lparr>trans_state = IST_COMPLETED, trans_type = RCV_REQACK, trans_method = ist_rcv_ack\<rparr>,
     \<lparr>trans_state = IST_CONFIRMED, trans_type = RCV_REQACK, trans_method = ist_rcv_ack\<rparr>,
     \<lparr>trans_state = IST_CONFIRMED, trans_type = TIMEOUT_I, trans_method = osip_ist_timeout_i_event\<rparr>]"

end
