(* ===== verification/Osip_Nist.thy ===== *)
theory Osip_Nist
  imports Osip_Ict
begin

text \<open>
  The non-INVITE server transaction: \<^verbatim>\<open>osip2/nist.c\<close> and \<^verbatim>\<open>osip2/nist_fsm.c\<close>.
\<close>

section \<open>The context (nist.c)\<close>

definition nist_zero :: nist_t where
  "nist_zero = \<lparr>timer_j_length = 0, timer_j_start = no_time\<rparr>"

definition osip_nist_init :: "message \<Rightarrow> int \<times> nist_t ptr" where
  "osip_nist_init request =
     (let nist = nist_zero; (i, via) = osip_message_get_via (Some request) 0 in
      if i < 0 then (i, Null)
      else case via_get_protocol via of
             None \<Rightarrow> (OSIP_UNDEFINED_ERROR, Null)
           | Some proto \<Rightarrow>
               (OSIP_SUCCESS,
                Valid (if \<not> is_reliable proto
                       then nist\<lparr>timer_j_length := 64 * DEFAULT_T1, timer_j_start := timer_off (timer_j_start nist)\<rparr>
                       else nist\<lparr>timer_j_length := 0, timer_j_start := timer_off (timer_j_start nist)\<rparr>)))"

definition osip_nist_need_timer_j_event :: "timeval \<Rightarrow> nist_t \<Rightarrow> state_t \<Rightarrow> int \<Rightarrow> osip_event option" where
  "osip_nist_need_timer_j_event now nist st tid =
     osip_transaction_need_timer_x_event now True (timer_j_start nist) (st = NIST_COMPLETED) tid TIMEOUT_J"

section \<open>Handlers (nist_fsm.c)\<close>

definition nist_handle_transport_error :: "osip_env \<Rightarrow> transaction \<Rightarrow> int \<Rightarrow> transaction \<times> action list" where
  "nist_handle_transport_error env nist err =
     (let (nist, acts) = terminate env NIST_TERMINATED OSIP_NIST_KILL_TRANSACTION nist
      in (nist, TransportErrorCb OSIP_NIST_TRANSPORT_ERROR err # acts))"

definition nist_received_callback :: "message \<Rightarrow> osip_message_callback_type option" where
  "nist_received_callback sip =
     first_case
       [(MSG_IS_REGISTER sip, OSIP_NIST_REGISTER_RECEIVED), (MSG_IS_BYE sip, OSIP_NIST_BYE_RECEIVED),
        (MSG_IS_OPTIONS sip, OSIP_NIST_OPTIONS_RECEIVED), (MSG_IS_INFO sip, OSIP_NIST_INFO_RECEIVED),
        (MSG_IS_CANCEL sip, OSIP_NIST_CANCEL_RECEIVED), (MSG_IS_NOTIFY sip, OSIP_NIST_NOTIFY_RECEIVED),
        (MSG_IS_SUBSCRIBE sip, OSIP_NIST_SUBSCRIBE_RECEIVED)] OSIP_NIST_UNKNOWN_REQUEST_RECEIVED"

definition nist_again_callback :: "message \<Rightarrow> osip_message_callback_type" where
  "nist_again_callback resp =
     (if MSG_IS_STATUS_1XX resp then OSIP_NIST_STATUS_1XX_SENT
      else if MSG_IS_STATUS_2XX resp then OSIP_NIST_STATUS_2XX_SENT_AGAIN
      else OSIP_NIST_STATUS_3456XX_SENT_AGAIN)"

definition nist_rcv_request :: handler where
  "nist_rcv_request env nist evt =
     (if state nist = NIST_PRE_TRYING then do {
        sip \<leftarrow> evt_sip evt;
        cb \<leftarrow> nist_received_callback sip;
        Some (osip_transaction_set_state (nist\<lparr>orig_request := Some sip\<rparr>) NIST_TRYING, [MessageCb cb (Some sip)]) }
      else
        (let begun = osip_message_free (evt_sip evt) @ [MessageCb OSIP_NIST_REQUEST_RECEIVED_AGAIN (orig_request nist)] in
         case last_response nist of
           None \<Rightarrow> Some (nist, begun)
         | Some resp \<Rightarrow> do {
             (i, sent) \<leftarrow> osip_transaction_snd_xxx env nist resp;
             Some (if i \<noteq> 0 then
                     (let (nist, acts) = nist_handle_transport_error env nist i in (nist, begun @ sent @ acts))
                   else (nist, begun @ sent @ [MessageCb (nist_again_callback resp) (Some resp)])) }))"

definition nist_snd_1xx :: handler where
  "nist_snd_1xx env nist evt = do {
     sip \<leftarrow> evt_sip evt;
     let freed = osip_message_free (last_response nist);
     let nist = nist\<lparr>last_response := Some sip\<rparr>;
     (i, sent) \<leftarrow> osip_transaction_snd_xxx env nist sip;
     Some (if i \<noteq> 0 then (let (nist, acts) = nist_handle_transport_error env nist i in (nist, freed @ sent @ acts))
           else (osip_transaction_set_state nist NIST_PROCEEDING,
                 freed @ sent @ [MessageCb OSIP_NIST_STATUS_1XX_SENT (Some sip)])) }"

definition nist_status_callback :: "osip_event \<Rightarrow> message \<Rightarrow> osip_message_callback_type" where
  "nist_status_callback evt sip =
     (if evt_type evt = SND_STATUS_2XX then OSIP_NIST_STATUS_2XX_SENT
      else if MSG_IS_STATUS_3XX sip then OSIP_NIST_STATUS_3XX_SENT
      else if MSG_IS_STATUS_4XX sip then OSIP_NIST_STATUS_4XX_SENT
      else if MSG_IS_STATUS_5XX sip then OSIP_NIST_STATUS_5XX_SENT
      else OSIP_NIST_STATUS_6XX_SENT)"

definition nist_snd_23456xx :: handler where
  "nist_snd_23456xx env nist evt = do {
     sip \<leftarrow> evt_sip evt;
     let freed = osip_message_free (last_response nist);
     let nist = nist\<lparr>last_response := Some sip\<rparr>;
     (i, sent) \<leftarrow> osip_transaction_snd_xxx env nist sip;
     if i \<noteq> 0 then (let (nist, acts) = nist_handle_transport_error env nist i in Some (nist, freed @ sent @ acts))
     else do {
       ctx \<leftarrow> nist_context nist;
       let ctx = (if state nist \<noteq> NIST_COMPLETED then ctx\<lparr>timer_j_start := timer_from env (timer_j_length ctx)\<rparr> else ctx);
       Some (osip_transaction_set_state (nist\<lparr>nist_context := Some ctx\<rparr>) NIST_COMPLETED,
             freed @ sent @ [MessageCb (nist_status_callback evt sip) (Some sip)]) } }"

definition osip_nist_timeout_j_event :: handler where
  "osip_nist_timeout_j_event env nist evt = do {
     ctx \<leftarrow> nist_context nist;
     let nist = nist\<lparr>nist_context := Some (ctx\<lparr>timer_j_length := -1, timer_j_start := timer_off (timer_j_start ctx)\<rparr>)\<rparr>;
     Some (terminate env NIST_TERMINATED OSIP_NIST_KILL_TRANSACTION nist) }"

section \<open>The transition table\<close>

definition nist_fsm :: "transition list" where
  "nist_fsm =
    [\<lparr>trans_state = NIST_PRE_TRYING, trans_type = RCV_REQUEST, trans_method = nist_rcv_request\<rparr>,
     \<lparr>trans_state = NIST_TRYING, trans_type = SND_STATUS_1XX, trans_method = nist_snd_1xx\<rparr>,
     \<lparr>trans_state = NIST_TRYING, trans_type = SND_STATUS_2XX, trans_method = nist_snd_23456xx\<rparr>,
     \<lparr>trans_state = NIST_TRYING, trans_type = SND_STATUS_3456XX, trans_method = nist_snd_23456xx\<rparr>,
     \<lparr>trans_state = NIST_PROCEEDING, trans_type = SND_STATUS_1XX, trans_method = nist_snd_1xx\<rparr>,
     \<lparr>trans_state = NIST_PROCEEDING, trans_type = SND_STATUS_2XX, trans_method = nist_snd_23456xx\<rparr>,
     \<lparr>trans_state = NIST_PROCEEDING, trans_type = SND_STATUS_3456XX, trans_method = nist_snd_23456xx\<rparr>,
     \<lparr>trans_state = NIST_PROCEEDING, trans_type = RCV_REQUEST, trans_method = nist_rcv_request\<rparr>,
     \<lparr>trans_state = NIST_COMPLETED, trans_type = TIMEOUT_J, trans_method = osip_nist_timeout_j_event\<rparr>,
     \<lparr>trans_state = NIST_COMPLETED, trans_type = RCV_REQUEST, trans_method = nist_rcv_request\<rparr>]"

end
