(* ===== verification/Osip_Fsm.thy ===== *)
theory Osip_Fsm
  imports Osip_Ict Osip_Nict Osip_Ist Osip_Nist
begin

text \<open>
  The transaction as a whole (\<^verbatim>\<open>osip2/osip_transaction.c\<close>): creation from a request, the event queue,
  execution of an event by the machine of the transaction, release, and the rules of RFC 3261,
  17.1.3 and 17.2.3, that match an incoming message with a transaction.
\<close>

section \<open>Creation and release\<close>

definition copy_or_null :: "int \<times> 'a option \<Rightarrow> int \<times> 'a option" where
  "copy_or_null r = (case r of (i, x) \<Rightarrow> if i = 0 then (OSIP_SUCCESS, x) else (i, None))"

definition osip_transaction_set_topvia :: "transaction \<Rightarrow> via option \<Rightarrow> int \<times> transaction" where
  "osip_transaction_set_topvia tr v = (case copy_or_null (osip_via_clone v) of (i, x) \<Rightarrow> (i, tr\<lparr>topvia := x\<rparr>))"

definition osip_transaction_set_from :: "transaction \<Rightarrow> from_hdr option \<Rightarrow> int \<times> transaction" where
  "osip_transaction_set_from tr f = (case copy_or_null (osip_from_clone f) of (i, x) \<Rightarrow> (i, tr\<lparr>tr_from := x\<rparr>))"

definition osip_transaction_set_to :: "transaction \<Rightarrow> from_hdr option \<Rightarrow> int \<times> transaction" where
  "osip_transaction_set_to tr t = (case copy_or_null (osip_to_clone t) of (i, x) \<Rightarrow> (i, tr\<lparr>tr_to := x\<rparr>))"

definition osip_transaction_set_call_id :: "transaction \<Rightarrow> call_id option \<Rightarrow> int \<times> transaction" where
  "osip_transaction_set_call_id tr c = (case copy_or_null (osip_call_id_clone c) of (i, x) \<Rightarrow> (i, tr\<lparr>callid := x\<rparr>))"

definition osip_transaction_set_cseq :: "transaction \<Rightarrow> cseq option \<Rightarrow> int \<times> transaction" where
  "osip_transaction_set_cseq tr c = (case copy_or_null (osip_cseq_clone c) of (i, x) \<Rightarrow> (i, tr\<lparr>tr_cseq := x\<rparr>))"

text \<open>The zeroed structure with the identifier, the birth date and the type.\<close>

definition transaction_zero :: "osip_env \<Rightarrow> int \<Rightarrow> fsm_type \<Rightarrow> transaction" where
  "transaction_zero env tid ty = \<lparr>transactionid = tid, transactionff = [], topvia = None, tr_from = None,
     tr_to = None, callid = None, tr_cseq = None, orig_request = None, last_response = None, ack = None,
     state = ICT_PRE_CALLING, birth_time = env_systemtime env, completed_time = 0, in_socket = 0, out_socket = 0,
     ctx_type = ty, ict_context = None, ist_context = None, nict_context = None, nist_context = None\<rparr>"

text \<open>
  The end of \<^verbatim>\<open>osip_transaction_init\<close> for one machine: an error releases the transaction and with it
  the context, and releasing a context that is freed already is a fault.
\<close>

definition context_done :: "int \<times> 'a ptr \<Rightarrow> ('a \<Rightarrow> transaction) \<Rightarrow> (int \<times> transaction option) option" where
  "context_done r store =
     (case r of (i, p) \<Rightarrow>
        if i \<noteq> 0 then (case p of Freed \<Rightarrow> None | _ \<Rightarrow> Some (i, None))
        else case p of Valid ctx \<Rightarrow> Some (OSIP_SUCCESS, Some (store ctx)) | _ \<Rightarrow> None)"

definition init_context :: "osip_env \<Rightarrow> transaction \<Rightarrow> message \<Rightarrow> (int \<times> transaction option) option" where
  "init_context env tr request =
     (case ctx_type tr of
        ICT \<Rightarrow> do { r \<leftarrow> osip_ict_init env request;
                    context_done r (\<lambda>c. tr\<lparr>state := ICT_PRE_CALLING, ict_context := Some c\<rparr>) }
      | IST \<Rightarrow> context_done (osip_ist_init request) (\<lambda>c. tr\<lparr>state := IST_PRE_PROCEEDING, ist_context := Some c\<rparr>)
      | NICT \<Rightarrow> do { r \<leftarrow> osip_nict_init env request;
                     context_done r (\<lambda>c. tr\<lparr>state := NICT_PRE_TRYING, nict_context := Some c\<rparr>) }
      | NIST \<Rightarrow> context_done (osip_nist_init request) (\<lambda>c. tr\<lparr>state := NIST_PRE_TRYING, nist_context := Some c\<rparr>))"

text \<open>
  \<^verbatim>\<open>osip_transaction_init\<close> with the identifier that the stack gives out; theory \<open>Osip_Core\<close> counts the
  identifiers and registers the transaction.
\<close>

definition transaction_new :: "osip_env \<Rightarrow> int \<Rightarrow> fsm_type \<Rightarrow> message option \<Rightarrow> (int \<times> transaction option) option" where
  "transaction_new env tid ty request =
     (case request of
        None \<Rightarrow> Some (OSIP_BADPARAMETER, None)
      | Some req \<Rightarrow>
          (case msg_call_id req of
             None \<Rightarrow> Some (OSIP_BADPARAMETER, None)
           | Some cid \<Rightarrow>
               if call_id_number cid = None then Some (OSIP_BADPARAMETER, None)
               else
                 (let tr = transaction_zero env tid ty; tvia = list_at (vias req) 0 in
                  if tvia = None then Some (OSIP_SYNTAXERROR, None)
                  else let (i, tr) = osip_transaction_set_topvia tr tvia in
                  if i \<noteq> 0 then Some (i, None)
                  else let (i, tr) = osip_transaction_set_from tr (msg_from req) in
                  if i \<noteq> 0 then Some (i, None)
                  else let (i, tr) = osip_transaction_set_to tr (msg_to req) in
                  if i \<noteq> 0 then Some (i, None)
                  else let (i, tr) = osip_transaction_set_call_id tr (msg_call_id req) in
                  if i \<noteq> 0 then Some (i, None)
                  else let (i, tr) = osip_transaction_set_cseq tr (msg_cseq req) in
                  if i \<noteq> 0 then Some (i, None)
                  else init_context env tr req)))"

definition osip_transaction_free2 :: "transaction \<Rightarrow> action list" where
  "osip_transaction_free2 tr =
     concat (map (\<lambda>evt. osip_message_free (evt_sip evt)) (transactionff tr))
     @ osip_message_free (orig_request tr) @ osip_message_free (last_response tr) @ osip_message_free (ack tr)"

section \<open>Events\<close>

definition osip_transaction_add_event :: "transaction option \<Rightarrow> osip_event option \<Rightarrow> int \<times> transaction option" where
  "osip_transaction_add_event transaction evt =
     (case (evt, transaction) of
        (Some e, Some tr) \<Rightarrow>
          (OSIP_SUCCESS, Some (tr\<lparr>transactionff := transactionff tr @ [e\<lparr>evt_transactionid := transactionid tr\<rparr>]\<rparr>))
      | _ \<Rightarrow> (OSIP_BADPARAMETER, transaction))"

definition statemachine_of :: "fsm_type \<Rightarrow> transition list" where
  "statemachine_of ty = (case ty of ICT \<Rightarrow> ict_fsm | IST \<Rightarrow> ist_fsm | NICT \<Rightarrow> nict_fsm | NIST \<Rightarrow> nist_fsm)"

definition osip_transaction_execute ::
  "osip_env \<Rightarrow> transaction \<Rightarrow> osip_event \<Rightarrow> (int \<times> transaction \<times> action list) option" where
  "osip_transaction_execute env transaction evt = execute_with (statemachine_of (ctx_type transaction)) env transaction evt"

definition osip_transaction_get_destination :: "transaction option \<Rightarrow> int \<times> string option \<times> int" where
  "osip_transaction_get_destination transaction =
     (case transaction of
        None \<Rightarrow> (OSIP_BADPARAMETER, None, 0)
      | Some tr \<Rightarrow>
          (case ict_context tr of
             Some c \<Rightarrow> (OSIP_SUCCESS, ict_destination c, ict_port c)
           | None \<Rightarrow>
               (case nict_context tr of
                  Some c \<Rightarrow> (OSIP_SUCCESS, nict_destination c, nict_port c)
                | None \<Rightarrow> (OSIP_UNDEFINED_ERROR, None, 0))))"

section \<open>Matching\<close>

definition via_branch :: "via \<Rightarrow> uri_param option option" where
  "via_branch v = map_option snd (osip_uri_param_get_byname (via_params v) (Some ''branch''))"

definition cseq_method_of :: "message \<Rightarrow> string option" where
  "cseq_method_of m = (case msg_cseq m of None \<Rightarrow> None | Some c \<Rightarrow> cseq_method c)"

definition osip_transaction_matching_response_osip_to_xict_17_1_3 ::
  "transaction option \<Rightarrow> message option \<Rightarrow> int option" where
  "osip_transaction_matching_response_osip_to_xict_17_1_3 trp resp =
     (case (trp, resp) of
        (Some tr, Some response) \<Rightarrow>
          if ict_context tr = None \<and> nict_context tr = None then Some OSIP_BADPARAMETER
          else (case cseq_method_of response of
                  None \<Rightarrow> Some OSIP_BADPARAMETER
                | Some rmethod \<Rightarrow>
                    (case list_at (vias response) 0 of
                       None \<Rightarrow> Some OSIP_SYNTAXERROR
                     | Some topvia_response \<Rightarrow> do {
                         tvia \<leftarrow> topvia tr;
                         b_request \<leftarrow> via_branch tvia;
                         if b_request = None then Some OSIP_SYNTAXERROR
                         else do {
                           b_response \<leftarrow> via_branch topvia_response;
                           if b_response = None then Some OSIP_SYNTAXERROR
                           else (case (param_value b_request, param_value b_response) of
                                   (Some x, Some y) \<Rightarrow>
                                     if x \<noteq> y then Some OSIP_UNDEFINED_ERROR
                                     else do {
                                       cs \<leftarrow> tr_cseq tr;
                                       m \<leftarrow> cseq_method cs;
                                       Some (if rmethod = m then OSIP_SUCCESS else OSIP_UNDEFINED_ERROR) }
                                 | _ \<Rightarrow> Some OSIP_SYNTAXERROR) } }))
      | _ \<Rightarrow> Some OSIP_BADPARAMETER)"

definition magic_cookie :: string where "magic_cookie = ''z9hG4bK''"

text \<open>The comparison of the sent-by values; a missing port is 5060.\<close>

definition same_sent_by :: "via \<Rightarrow> via \<Rightarrow> bool" where
  "same_sent_by orig tvia =
     (case (via_host tvia, via_host orig) of
        (Some b_host, Some b_orighost) \<Rightarrow>
          b_orighost = b_host \<and>
          (case (via_port tvia, via_port orig) of
             (Some b_port, None) \<Rightarrow> b_port = ''5060''
           | (None, Some b_origport) \<Rightarrow> b_origport = ''5060''
           | (Some b_port, Some b_origport) \<Rightarrow> b_origport = b_port
           | (None, None) \<Rightarrow> True)
      | _ \<Rightarrow> False)"

definition match_tags :: "transaction \<Rightarrow> message \<Rightarrow> bool option" where
  "match_tags tr request = do {
     is_ack \<leftarrow> MSG_IS_ACK request;
     if is_ack then do {
       t1 \<leftarrow> tr_to tr;
       (_, tag_from1) \<leftarrow> osip_uri_param_get_byname (gen_params t1) (Some ''tag'');
       t2 \<leftarrow> msg_to request;
       (_, tag_from2) \<leftarrow> osip_uri_param_get_byname (gen_params t2) (Some ''tag'');
       if tag_from1 = None \<and> tag_from2 \<noteq> None then Some True
       else if tag_from1 \<noteq> None \<and> tag_from2 = None then Some False
       else do { i \<leftarrow> osip_to_tag_match (tr_to tr) (msg_to request); Some (i = 0) } }
     else
       (case orig_request tr of
          None \<Rightarrow> Some False
        | Some orig \<Rightarrow>
            if msg_to orig = None then Some False
            else do { i \<leftarrow> osip_to_tag_match (msg_to orig) (msg_to request); Some (i = 0) }) }"

text \<open>The rules of RFC 2543, used when one of the requests has no branch with the magic cookie.\<close>

definition match_rfc2543 :: "transaction \<Rightarrow> message \<Rightarrow> via \<Rightarrow> int option" where
  "match_rfc2543 tr request topvia_request =
     (if osip_call_id_match (callid tr) (msg_call_id request) \<noteq> 0 then Some OSIP_UNDEFINED_ERROR
      else do {
        tags \<leftarrow> match_tags tr request;
        if \<not> tags then Some OSIP_UNDEFINED_ERROR
        else do {
          i \<leftarrow> osip_from_tag_match (tr_from tr) (msg_from request);
          if i \<noteq> 0 then Some OSIP_UNDEFINED_ERROR
          else if osip_cseq_match (tr_cseq tr) (msg_cseq request) \<noteq> 0 then Some OSIP_UNDEFINED_ERROR
          else do {
            i \<leftarrow> osip_via_match (topvia tr) (Some topvia_request);
            Some (if i \<noteq> 0 then OSIP_UNDEFINED_ERROR else OSIP_SUCCESS) } } })"

definition match_rfc3261 :: "transaction \<Rightarrow> string \<Rightarrow> via \<Rightarrow> via \<Rightarrow> string \<Rightarrow> string \<Rightarrow> int option" where
  "match_rfc3261 tr rmethod tvia topvia_request b_orig b_req =
     (if b_orig \<noteq> b_req then Some OSIP_UNDEFINED_ERROR
      else if \<not> same_sent_by tvia topvia_request then Some OSIP_UNDEFINED_ERROR
      else do {
        cs \<leftarrow> tr_cseq tr;
        m \<leftarrow> cseq_method cs;
        Some (if \<not> (m = ''INVITE'' \<and> rmethod = ''ACK'') \<and> m \<noteq> rmethod then OSIP_UNDEFINED_ERROR else OSIP_SUCCESS) })"

definition osip_transaction_matching_request_osip_to_xist_17_2_3 ::
  "transaction option \<Rightarrow> message option \<Rightarrow> int option" where
  "osip_transaction_matching_request_osip_to_xist_17_2_3 trp req =
     (case (trp, req) of
        (Some tr, Some request) \<Rightarrow>
          if ist_context tr = None \<and> nist_context tr = None then Some OSIP_BADPARAMETER
          else (case cseq_method_of request of
                  None \<Rightarrow> Some OSIP_BADPARAMETER
                | Some rmethod \<Rightarrow>
                    (case list_at (vias request) 0 of
                       None \<Rightarrow> Some OSIP_SYNTAXERROR
                     | Some topvia_request \<Rightarrow> do {
                         b_request \<leftarrow> via_branch topvia_request;
                         tvia \<leftarrow> topvia tr;
                         b_origrequest \<leftarrow> via_branch tvia;
                         (case (b_origrequest, b_request) of
                            (None, Some _) \<Rightarrow> Some OSIP_SYNTAXERROR
                          | (Some _, None) \<Rightarrow> Some OSIP_SYNTAXERROR
                          | (None, None) \<Rightarrow> match_rfc2543 tr request topvia_request
                          | (Some p, Some q) \<Rightarrow>
                              (case (gvalue p, gvalue q) of
                                 (Some b_orig, Some b_req) \<Rightarrow>
                                   if length b_orig \<noteq> length b_req then Some OSIP_UNDEFINED_ERROR
                                   else if take 7 b_orig = magic_cookie \<and> take 7 b_req = magic_cookie
                                   then match_rfc3261 tr rmethod tvia topvia_request b_orig b_req
                                   else match_rfc2543 tr request topvia_request
                               | _ \<Rightarrow> Some OSIP_UNDEFINED_ERROR)) }))
      | _ \<Rightarrow> Some OSIP_BADPARAMETER)"

end
