(* ===== verification/Osip_Client_Proofs.thy ===== *)
theory Osip_Client_Proofs
  imports Osip_Machine Osip_Fsm
begin

text \<open>
  The client transactions satisfy the contract of theory \<open>Osip_Machine\<close>: state diagrams after
  RFC 3261, figures 5 and 6, the invariants of the two machines, and the construction of the
  \<^verbatim>\<open>ACK\<close> for a final response.
\<close>

section \<open>The ACK\<close>

lemma clone_ok_some: "clone_ok r = Some x \<Longrightarrow> r = (0, Some x)"
  by (cases r) (simp add: clone_ok_def split: if_splits)

definition authorization_copy :: "authorization \<Rightarrow> authorization" where
  "authorization_copy a = a\<lparr>au_auth_param := None\<rparr>"

lemma osip_authorization_clone_copy:
  "osip_authorization_clone (Some a) = (OSIP_SUCCESS, Some (authorization_copy a))"
  by (cases a) (simp add: osip_authorization_clone_def osip_authorization_init_def authorization_copy_def)

lemma list_clone_authorization:
  "list_clone osip_authorization_clone as = (OSIP_SUCCESS, map authorization_copy as)"
  by (rule list_clone_map) (rule osip_authorization_clone_copy)

lemma ack_credentials_eq:
  "ack_credentials orig response am =
     Some (if status_code response \<noteq> 401 \<and> status_code response \<noteq> 407
           then am\<lparr>authorizations := map authorization_copy (authorizations orig),
                   proxy_authorizations := map authorization_copy (proxy_authorizations orig)\<rparr>
           else am)"
  by (simp add: ack_credentials_def list_clone_authorization)

lemma list_clone_from: "list_clone osip_from_clone rs = (0, ss) \<Longrightarrow> ss = rs"
  by (rule list_clone_copy) (use osip_from_clone_copy in blast)+

text \<open>The fields of the ACK of RFC 3261, 17.1.1.3.\<close>

definition rfc3261_ack :: "message \<Rightarrow> message \<Rightarrow> cseq \<Rightarrow> via \<Rightarrow> message" where
  "rfc3261_ack orig response cs v =
     (let am = osip_message_init\<lparr>msg_from := msg_from response, msg_to := msg_to response,
                 msg_call_id := msg_call_id response, msg_cseq := Some (cs\<lparr>cseq_method := Some ''ACK''\<rparr>),
                 sip_method := Some ''ACK'', sip_version := sip_version orig, req_uri := req_uri orig,
                 vias := [v], routes := routes orig\<rparr>
      in if status_code response \<noteq> 401 \<and> status_code response \<noteq> 407
         then am\<lparr>authorizations := map authorization_copy (authorizations orig),
                 proxy_authorizations := map authorization_copy (proxy_authorizations orig)\<rparr>
         else am)"

lemma ack_for_exact:
  assumes "ack_for orig response = Some am"
  obtains cs v vs where "msg_cseq response = Some cs" "vias orig = v # vs" "am = rfc3261_ack orig response cs v"
    "req_uri orig \<noteq> None"
proof -
  note d = assms [unfolded ack_for_def ack_credentials_eq]
  obtain frm where a1: "clone_ok (osip_from_clone (msg_from response)) = Some frm"
    using d by (cases "clone_ok (osip_from_clone (msg_from response))") simp_all
  obtain to where a2: "clone_ok (osip_to_clone (msg_to response)) = Some to"
    using d a1 by (cases "clone_ok (osip_to_clone (msg_to response))") simp_all
  obtain cid where a3: "clone_ok (osip_call_id_clone (msg_call_id response)) = Some cid"
    using d a1 a2 by (cases "clone_ok (osip_call_id_clone (msg_call_id response))") simp_all
  obtain cs where a4: "clone_ok (osip_cseq_clone (msg_cseq response)) = Some cs"
    using d a1 a2 a3 by (cases "clone_ok (osip_cseq_clone (msg_cseq response))") simp_all
  obtain version where a5: "osip_strdup (sip_version orig) = Some version"
    using d a1 a2 a3 a4 by (cases "osip_strdup (sip_version orig)") simp_all
  obtain ruri where a6: "clone_ok (osip_uri_clone (req_uri orig)) = Some ruri"
    using d a1 a2 a3 a4 a5 by (cases "clone_ok (osip_uri_clone (req_uri orig))") simp_all
  obtain ov where a7: "snd (osip_message_get_via (Some orig) 0) = Some ov"
    using d a1 a2 a3 a4 a5 a6 by (cases "snd (osip_message_get_via (Some orig) 0)") simp_all
  obtain v where a8: "clone_ok (osip_via_clone (Some ov)) = Some v"
    using d a1 a2 a3 a4 a5 a6 a7 by (cases "clone_ok (osip_via_clone (Some ov))") simp_all
  obtain i rts where r: "list_clone osip_from_clone (routes orig) = (i, rts)"
    by (cases "list_clone osip_from_clone (routes orig)")
  have a9: "list_clone osip_from_clone (routes orig) = (0, rts)"
    using d a1 a2 a3 a4 a5 a6 a7 a8 r by (simp split: if_split_asm)
  note am = d [simplified a1 a2 a3 a4 a5 a6 a7 a8 a9, simplified]
  have c: "msg_from response = Some frm" "msg_to response = Some to" "msg_call_id response = Some cid"
      "msg_cseq response = Some cs" "req_uri orig = Some ruri" "ov = v" "rts = routes orig"
    using osip_from_clone_copy [OF clone_ok_some [OF a1]]
      osip_from_clone_copy [OF clone_ok_some [OF a2 [unfolded osip_to_clone_def]]]
      osip_call_id_clone_copy [OF clone_ok_some [OF a3]] osip_cseq_clone_copy [OF clone_ok_some [OF a4]]
      osip_uri_clone_copy [OF clone_ok_some [OF a6]] osip_via_clone_copy [OF clone_ok_some [OF a8]]
      list_clone_from [OF a9] by simp_all
  obtain vs where vs: "vias orig = v # vs" using a7 c(6) by (cases "vias orig") (simp_all add: get_top_via)
  have sv: "sip_version orig = Some version" using a5 by (simp add: osip_strdup_def split: option.splits)
  have "am = rfc3261_ack orig response cs v"
    using am a8 c sv
    by (cases "status_code response \<noteq> 401 \<and> status_code response \<noteq> 407")
      (auto simp: rfc3261_ack_def osip_message_init_def)
  with c(4,5) vs show ?thesis using that by simp
qed

lemma ack_for_ok:
  assumes "ack_for orig response = Some am" and "msg_ok orig"
  shows "msg_ok am \<and> req_uri am \<noteq> None"
proof -
  obtain cs v vs where a: "vias orig = v # vs" "am = rfc3261_ack orig response cs v" "req_uri orig \<noteq> None"
    by (rule ack_for_exact [OF assms(1)]) blast
  show ?thesis using a assms(2) by (simp add: msg_ok_def rfc3261_ack_def Let_def osip_message_init_def)
qed

lemma next_hop_total:
  assumes "msg_ok m" and "req_uri m \<noteq> None"
  shows "\<exists>dest prt. next_hop m = Some (dest, prt)"
proof -
  have n: "\<exists>dest prt. uri_destination u = Some (dest, prt)" if named: "named (url_params u)" for u
  proof -
    obtain i1 r1 where 1: "osip_uri_param_get_byname (url_params u) (Some ''x-obr'') = Some (i1, r1)"
      using get_byname_total [OF named, of "''x-obr''"] by blast
    obtain i2 r2 where 2: "osip_uri_param_get_byname (url_params u) (Some ''x-obp'') = Some (i2, r2)"
      using get_byname_total [OF named, of "''x-obp''"] by blast
    obtain i3 r3 where 3: "osip_uri_param_get_byname (url_params u) (Some ''maddr'') = Some (i3, r3)"
      using get_byname_total [OF named, of "''maddr''"] by blast
    show ?thesis using 1 2 3 by (simp add: uri_destination_def split: option.split)
  qed
  have "\<exists>r. loose_route m = Some r"
  proof (cases "routes m")
    case (Cons r rs)
    then show ?thesis
      using assms(1) get_byname_total [of "url_params u" "''lr''" for u]
      by (cases "from_url r") (fastforce simp: loose_route_def get_top_route msg_ok_def)+
  qed (simp add: loose_route_def get_top_route)
  then obtain r where "loose_route m = Some r" by blast
  then show ?thesis using assms n by (cases r) (auto simp: next_hop_def msg_ok_def)
qed

section \<open>The INVITE client transaction\<close>

text \<open>RFC 3261, figure 5; a transport error ends the transaction from every state that sends.\<close>

inductive ict_diagram :: "state_t \<Rightarrow> type_t \<Rightarrow> state_t \<Rightarrow> bool" where
  ict_invite: "ict_diagram ICT_PRE_CALLING SND_REQINVITE ICT_CALLING"
| ict_invite_error: "ict_diagram ICT_PRE_CALLING SND_REQINVITE ICT_TERMINATED"
| ict_timer_a: "ict_diagram ICT_CALLING TIMEOUT_A ICT_CALLING"
| ict_timer_a_error: "ict_diagram ICT_CALLING TIMEOUT_A ICT_TERMINATED"
| ict_timer_b: "ict_diagram ICT_CALLING TIMEOUT_B ICT_TERMINATED"
| ict_1xx: "st \<in> {ICT_CALLING, ICT_PROCEEDING} \<Longrightarrow> ict_diagram st RCV_STATUS_1XX ICT_PROCEEDING"
| ict_2xx: "st \<in> {ICT_CALLING, ICT_PROCEEDING} \<Longrightarrow> ict_diagram st RCV_STATUS_2XX ICT_TERMINATED"
| ict_3456xx: "st \<in> {ICT_CALLING, ICT_PROCEEDING, ICT_COMPLETED} \<Longrightarrow> ict_diagram st RCV_STATUS_3456XX ICT_COMPLETED"
| ict_3456xx_error: "st \<in> {ICT_CALLING, ICT_PROCEEDING, ICT_COMPLETED} \<Longrightarrow> ict_diagram st RCV_STATUS_3456XX ICT_TERMINATED"
| ict_timer_d: "ict_diagram ICT_COMPLETED TIMEOUT_D ICT_TERMINATED"

inductive_cases ict_diagram_from_final: "ict_diagram ICT_TERMINATED ty st"

definition ict_timers_ok :: "state_t \<Rightarrow> ict_t \<Rightarrow> bool" where
  "ict_timers_ok st c \<longleftrightarrow> (st \<noteq> ICT_TERMINATED \<longrightarrow> 0 \<le> timer_d_length c)
     \<and> (st = ICT_PRE_CALLING \<or> st = ICT_CALLING \<longrightarrow> 0 \<le> tv_sec (timer_b_start c))
     \<and> (st = ICT_COMPLETED \<longrightarrow> 0 \<le> tv_sec (timer_d_start c))"

definition ict_messages_ok :: "transaction \<Rightarrow> bool" where
  "ict_messages_ok tr \<longleftrightarrow>
     (if state tr = ICT_PRE_CALLING then orig_request tr = None \<and> last_response tr = None \<and> ack tr = None
      else \<exists>m. orig_request tr = Some m \<and> msg_ok m)
     \<and> (state tr = ICT_CALLING \<or> state tr = ICT_PROCEEDING \<longrightarrow> ack tr = None)
     \<and> (state tr = ICT_COMPLETED \<longrightarrow> ack tr \<noteq> None)"

definition ict_inv :: "transaction \<Rightarrow> bool" where
  "ict_inv tr \<longleftrightarrow> ctx_type tr = ICT
     \<and> state tr \<in> {ICT_PRE_CALLING, ICT_CALLING, ICT_PROCEEDING, ICT_COMPLETED, ICT_TERMINATED}
     \<and> (\<exists>c. ict_context tr = Some c \<and> ict_timers_ok (state tr) c) \<and> ict_messages_ok tr"

lemmas ict_inv_defs = ict_inv_def ict_timers_ok_def ict_messages_ok_def
lemmas shared_steps = terminate_def osip_kill_transaction_callback_def osip_transaction_set_state_def
lemmas ict_steps = ict_handle_transport_error_def shared_steps

abbreviation ict_step_ok where
  "ict_step_ok \<equiv> step_ok ict_inv ICT_TERMINATED ict_diagram"

lemma timer_from_running: "wf_time (env_now env) \<Longrightarrow> 0 \<le> ms \<Longrightarrow> 0 \<le> tv_sec (timer_from env ms)"
  by (simp add: timer_from_def add_gettimeofday_running)

lemma ict_message_sent_cases:
  "(\<exists>err. ict_message_sent tr c sip i = Inl err) \<or>
   (\<exists>c'. ict_message_sent tr c sip i = Inr (tr\<lparr>ict_context := Some c'\<rparr>) \<and> timer_b_start c' = timer_b_start c
      \<and> timer_d_length c' = timer_d_length c \<and> timer_d_start c' = timer_d_start c)"
  if "ict_context tr = Some c"
proof -
  let ?off = "c\<lparr>timer_a_length := -1, timer_a_start := timer_off (timer_a_start c)\<rparr>"
  have same: "tr\<lparr>ict_context := Some c\<rparr> = tr" using that by (cases tr) simp
  have "(\<exists>err. ict_message_sent tr c sip i = Inl err) \<or> ict_message_sent tr c sip i = Inr tr
      \<or> ict_message_sent tr c sip i = Inr (tr\<lparr>ict_context := Some ?off\<rparr>)"
    by (cases "vias sip") (simp_all add: ict_message_sent_def get_top_via split: option.split)
  then show ?thesis
  proof (elim disjE)
    assume "ict_message_sent tr c sip i = Inr tr"
    then show ?thesis by (intro disjI2 exI [of _ c]) (simp add: same)
  next
    assume "ict_message_sent tr c sip i = Inr (tr\<lparr>ict_context := Some ?off\<rparr>)"
    then show ?thesis by (intro disjI2 exI [of _ ?off]) simp
  qed simp
qed

lemma ict_snd_invite_ok:
  assumes "ict_inv tr" "state tr = ICT_PRE_CALLING" "event_ok evt" "evt_type evt = SND_REQINVITE"
  shows "ict_step_ok tr evt (ict_snd_invite env tr evt)"
proof -
  obtain m where m: "evt_sip evt = Some m" "msg_ok m"
    using event_ok_msg [OF assms(3)] assms(4) by (auto simp: less_eq_type_t_def)
  obtain c where c: "ict_context tr = Some c" "ict_timers_ok ICT_PRE_CALLING c"
    using assms(1,2) by (auto simp: ict_inv_def)
  let ?tr = "tr\<lparr>orig_request := Some m\<rparr>"
  let ?i = "cb_send_message env ?tr m (ict_destination c) (ict_port c) (out_socket tr)"
  have "ict_context ?tr = Some c" using c by simp
  note cases = ict_message_sent_cases [OF this, of m ?i]
  show ?thesis
    using cases m c assms
    by (auto simp: ict_snd_invite_def ict_steps ict_inv_defs owned_def identity_def Let_def
        intro: ict_diagram.intros)
qed

lemma ict_timeout_a_ok:
  assumes "ict_inv tr" "state tr = ICT_CALLING" "event_ok evt" "evt_type evt = TIMEOUT_A"
  shows "ict_step_ok tr evt (osip_ict_timeout_a_event env tr evt)"
proof -
  have n: "evt_sip evt = None" using event_ok_timer [OF assms(3)] assms(4) by (simp add: less_eq_type_t_def)
  obtain c m where c: "ict_context tr = Some c" "ict_timers_ok ICT_CALLING c" "orig_request tr = Some m" "msg_ok m"
    using assms(1,2) by (auto simp: ict_inv_def ict_messages_ok_def)
  let ?c = "c\<lparr>timer_a_length := timer_a_length c * 2, timer_a_start := timer_from env (timer_a_length c * 2)\<rparr>"
  let ?tr = "tr\<lparr>ict_context := Some ?c\<rparr>"
  let ?i = "cb_send_message env ?tr m (ict_destination c) (ict_port c) (out_socket tr)"
  have "ict_context ?tr = Some ?c" by simp
  note cases = ict_message_sent_cases [OF this, of m ?i]
  show ?thesis
    using cases n c assms
    by (auto simp: osip_ict_timeout_a_event_def ict_steps ict_inv_defs owned_def identity_def Let_def
        intro: ict_diagram.intros)
qed

lemma ict_timeout_b_ok:
  assumes "ict_inv tr" "state tr = ICT_CALLING" "event_ok evt" "evt_type evt = TIMEOUT_B"
  shows "ict_step_ok tr evt (osip_ict_timeout_b_event env tr evt)"
proof -
  have "evt_sip evt = None" using event_ok_timer [OF assms(3)] assms(4) by (simp add: less_eq_type_t_def)
  with assms show ?thesis
    by (auto simp: osip_ict_timeout_b_event_def ict_steps ict_inv_defs owned_def identity_def Let_def
        intro: ict_diagram.intros)
qed

lemma ict_timeout_d_ok:
  assumes "ict_inv tr" "state tr = ICT_COMPLETED" "event_ok evt" "evt_type evt = TIMEOUT_D"
  shows "ict_step_ok tr evt (osip_ict_timeout_d_event env tr evt)"
proof -
  have "evt_sip evt = None" using event_ok_timer [OF assms(3)] assms(4) by (simp add: less_eq_type_t_def)
  with assms show ?thesis
    by (auto simp: osip_ict_timeout_d_event_def ict_steps ict_inv_defs owned_def identity_def Let_def
        intro: ict_diagram.intros)
qed

lemma ict_rcv_1xx_ok:
  assumes "ict_inv tr" "state tr \<in> {ICT_CALLING, ICT_PROCEEDING}" "event_ok evt" "evt_type evt = RCV_STATUS_1XX"
  shows "ict_step_ok tr evt (ict_rcv_1xx env tr evt)"
proof -
  have "ict_diagram (state tr) (evt_type evt) ICT_PROCEEDING" using assms(2,4) by (simp add: ict_1xx)
  with assms(1,2) show ?thesis
    by (auto simp: ict_rcv_1xx_def ict_steps ict_inv_defs owned_def identity_def Let_def)
qed

lemma ict_rcv_2xx_ok:
  assumes "ict_inv tr" "state tr \<in> {ICT_CALLING, ICT_PROCEEDING}" "event_ok evt" "evt_type evt = RCV_STATUS_2XX"
  shows "ict_step_ok tr evt (ict_rcv_2xx env tr evt)"
proof -
  have "ict_diagram (state tr) (evt_type evt) ICT_TERMINATED" using assms(2,4) by (simp add: ict_2xx)
  with assms(1,2) show ?thesis
    by (auto simp: ict_rcv_2xx_def ict_steps ict_inv_defs owned_def identity_def Let_def)
qed

lemma ict_retransmit_ack_ok:
  assumes "ict_inv tr" "state tr = ICT_COMPLETED" "event_ok evt" "evt_type evt = RCV_STATUS_3456XX"
  shows "ict_step_ok tr evt (ict_retransmit_ack env tr evt)"
proof -
  have d: "ict_diagram (state tr) (evt_type evt) ICT_COMPLETED" "ict_diagram (state tr) (evt_type evt) ICT_TERMINATED"
    using assms(2,4) by (simp_all add: ict_3456xx ict_3456xx_error)
  with assms(1,2) show ?thesis
    by (auto simp: ict_retransmit_ack_def ict_steps ict_inv_defs owned_def identity_def Let_def)
qed

lemma ict_rcv_3456xx_ok:
  assumes "ict_inv tr" "state tr \<in> {ICT_CALLING, ICT_PROCEEDING}" "event_ok evt" "evt_type evt = RCV_STATUS_3456XX"
    "wf_time (env_now env)"
  shows "ict_step_ok tr evt (ict_rcv_3456xx env tr evt)"
proof -
  have d: "ict_diagram (state tr) RCV_STATUS_3456XX ICT_COMPLETED" "ict_diagram (state tr) RCV_STATUS_3456XX ICT_TERMINATED"
    and st: "state tr \<noteq> ICT_COMPLETED" "state tr \<noteq> ICT_PRE_CALLING" "state tr \<noteq> ICT_TERMINATED"
    using assms(2) by (auto intro: ict_3456xx ict_3456xx_error)
  obtain m where m: "evt_sip evt = Some m"
    using event_ok_msg [OF assms(3)] assms(4) by (auto simp: less_eq_type_t_def)
  obtain c orig where c: "ict_context tr = Some c" "0 \<le> timer_d_length c" "orig_request tr = Some orig" "msg_ok orig"
      "ack tr = None" "ctx_type tr = ICT"
    using assms(1,2) by (auto simp: ict_inv_defs)
  note steps = ict_rcv_3456xx_def ict_create_ack_def ict_start_timer_d_def ict_steps Let_def
  show ?thesis
  proof (cases "ack_for orig m")
    case None
    then show ?thesis using m c st d assms(4) by (simp add: steps ict_inv_defs owned_def identity_def)
  next
    case (Some am)
    obtain dest prt where h: "next_hop am = Some (dest, prt)"
      using next_hop_total ack_for_ok [OF Some c(4)] by blast
    have run: "0 \<le> tv_sec (timer_from env (timer_d_length c))" by (rule timer_from_running [OF assms(5) c(2)])
    show ?thesis
      using m c st d h assms(4) Some run
      by (simp add: steps ict_inv_defs owned_def identity_def osip_ict_set_destination_def)
  qed
qed

lemma ict_handlers_ok:
  assumes "t \<in> set ict_fsm" "trans_state t = state tr" "trans_type t = evt_type evt" "ict_inv tr" "event_ok evt"
    "wf_time (env_now env)"
  shows "ict_step_ok tr evt (trans_method t env tr evt)"
  using assms(1-3) unfolding ict_fsm_def
  by (auto intro!: ict_snd_invite_ok ict_timeout_a_ok ict_timeout_b_ok ict_timeout_d_ok ict_rcv_1xx_ok ict_rcv_2xx_ok
      ict_rcv_3456xx_ok ict_retransmit_ack_ok assms(4-6))

interpretation ict: transaction_machine ict_fsm ict_inv ICT_TERMINATED ict_diagram
proof
  show "trans_state t \<noteq> ICT_TERMINATED" if "t \<in> set ict_fsm" for t
    using that by (auto simp: ict_fsm_def)
qed (rule ict_handlers_ok)

section \<open>The non-INVITE client transaction\<close>

text \<open>RFC 3261, figure 6.\<close>

inductive nict_diagram :: "state_t \<Rightarrow> type_t \<Rightarrow> state_t \<Rightarrow> bool" where
  nict_request: "nict_diagram NICT_PRE_TRYING SND_REQUEST NICT_TRYING"
| nict_request_error: "nict_diagram NICT_PRE_TRYING SND_REQUEST NICT_TERMINATED"
| nict_timer_e: "st \<in> {NICT_TRYING, NICT_PROCEEDING} \<Longrightarrow> nict_diagram st TIMEOUT_E st"
| nict_timer_e_error: "st \<in> {NICT_TRYING, NICT_PROCEEDING} \<Longrightarrow> nict_diagram st TIMEOUT_E NICT_TERMINATED"
| nict_timer_f: "st \<in> {NICT_TRYING, NICT_PROCEEDING} \<Longrightarrow> nict_diagram st TIMEOUT_F NICT_TERMINATED"
| nict_1xx: "st \<in> {NICT_TRYING, NICT_PROCEEDING} \<Longrightarrow> nict_diagram st RCV_STATUS_1XX NICT_PROCEEDING"
| nict_2xx: "st \<in> {NICT_TRYING, NICT_PROCEEDING} \<Longrightarrow> nict_diagram st RCV_STATUS_2XX NICT_COMPLETED"
| nict_3456xx: "st \<in> {NICT_TRYING, NICT_PROCEEDING} \<Longrightarrow> nict_diagram st RCV_STATUS_3456XX NICT_COMPLETED"
| nict_timer_k: "nict_diagram NICT_COMPLETED TIMEOUT_K NICT_TERMINATED"

inductive_cases nict_diagram_from_final: "nict_diagram NICT_TERMINATED ty st"

text \<open>Timer E is off or positive and at most T2; timer F runs until the final response.\<close>

definition nict_timers_ok :: "state_t \<Rightarrow> nict_t \<Rightarrow> bool" where
  "nict_timers_ok st c \<longleftrightarrow>
     (timer_e_length c = -1 \<or> 0 < timer_e_length c \<and> timer_e_length c \<le> DEFAULT_T2)
     \<and> (st = NICT_PRE_TRYING \<longrightarrow> timer_e_length c = DEFAULT_T1)
     \<and> (st \<noteq> NICT_TERMINATED \<longrightarrow> 0 \<le> timer_k_length c)
     \<and> (st = NICT_PRE_TRYING \<or> st = NICT_TRYING \<or> st = NICT_PROCEEDING \<longrightarrow> 0 \<le> tv_sec (timer_f_start c))
     \<and> (st = NICT_COMPLETED \<longrightarrow> 0 \<le> tv_sec (timer_k_start c))"

definition nict_inv :: "transaction \<Rightarrow> bool" where
  "nict_inv tr \<longleftrightarrow> ctx_type tr = NICT
     \<and> state tr \<in> {NICT_PRE_TRYING, NICT_TRYING, NICT_PROCEEDING, NICT_COMPLETED, NICT_TERMINATED}
     \<and> (\<exists>c. nict_context tr = Some c \<and> nict_timers_ok (state tr) c)
     \<and> (if state tr = NICT_PRE_TRYING then orig_request tr = None \<and> last_response tr = None
        else \<exists>m. orig_request tr = Some m \<and> msg_ok m)"

lemmas nict_inv_defs = nict_inv_def nict_timers_ok_def timer_consts
lemmas nict_steps = nict_handle_transport_error_def shared_steps

abbreviation nict_step_ok where
  "nict_step_ok \<equiv> step_ok nict_inv NICT_TERMINATED nict_diagram"

lemma msg_is_method_total: "msg_ok m \<Longrightarrow> msg_is_method n m \<noteq> None"
  by (auto simp: msg_is_method_def msg_ok_def split: option.split)

lemma nict_sent_callback_total: "msg_ok m \<Longrightarrow> \<exists>cb. nict_sent_callback m = Some cb"
  unfolding nict_sent_callback_def
  by (rule first_case_total)
    (auto simp: MSG_IS_REGISTER_def MSG_IS_BYE_def MSG_IS_OPTIONS_def MSG_IS_INFO_def MSG_IS_CANCEL_def
      MSG_IS_NOTIFY_def MSG_IS_SUBSCRIBE_def dest: msg_is_method_total)

lemma nict_first_timer_e_ok:
  "nict_timers_ok NICT_PRE_TRYING c \<Longrightarrow> nict_timers_ok NICT_TRYING (nict_first_timer_e env c proto i)"
  by (auto simp: nict_timers_ok_def nict_first_timer_e_def timer_consts Let_def)

lemma nict_snd_request_ok:
  assumes "nict_inv tr" "state tr = NICT_PRE_TRYING" "event_ok evt" "evt_type evt = SND_REQUEST"
  shows "nict_step_ok tr evt (nict_snd_request env tr evt)"
proof -
  obtain m where m: "evt_sip evt = Some m" "msg_ok m"
    using event_ok_msg [OF assms(3)] assms(4) by (auto simp: less_eq_type_t_def)
  obtain cb where cb: "nict_sent_callback m = Some cb" using nict_sent_callback_total [OF m(2)] by blast
  obtain c where c: "nict_context tr = Some c" "nict_timers_ok NICT_PRE_TRYING c" "ctx_type tr = NICT"
      "orig_request tr = None" "last_response tr = None"
    using assms(1,2) by (auto simp: nict_inv_def)
  have off: "nict_timers_ok NICT_TERMINATED c" using c(2) by (auto simp: nict_timers_ok_def)
  show ?thesis
    using m cb c off assms(2,4) nict_first_timer_e_ok [OF c(2)]
    by (auto simp: nict_snd_request_def nict_steps nict_inv_def owned_def identity_def Let_def
        split: prod.split option.split intro: nict_diagram.intros)
qed

lemma nict_message_sent_cases:
  "(\<exists>err. nict_message_sent tr c sip i = Inl err) \<or>
   (\<exists>c'. nict_message_sent tr c sip i = Inr (tr\<lparr>nict_context := Some c'\<rparr>) \<and> nict_timers_ok st c')"
  if "nict_context tr = Some c" "nict_timers_ok st c" "st \<noteq> NICT_PRE_TRYING"
proof -
  let ?off = "c\<lparr>timer_e_length := -1, timer_e_start := timer_off (timer_e_start c)\<rparr>"
  have same: "tr\<lparr>nict_context := Some c\<rparr> = tr" using that by (cases tr) simp
  have ok: "nict_timers_ok st ?off" using that by (simp add: nict_timers_ok_def)
  have "(\<exists>err. nict_message_sent tr c sip i = Inl err) \<or> nict_message_sent tr c sip i = Inr tr
      \<or> nict_message_sent tr c sip i = Inr (tr\<lparr>nict_context := Some ?off\<rparr>)"
    by (cases "vias sip") (simp_all add: nict_message_sent_def get_top_via split: option.split)
  then show ?thesis
  proof (elim disjE)
    assume "nict_message_sent tr c sip i = Inr tr"
    then show ?thesis using that(2) by (intro disjI2 exI [of _ c]) (simp add: same)
  next
    assume "nict_message_sent tr c sip i = Inr (tr\<lparr>nict_context := Some ?off\<rparr>)"
    then show ?thesis using ok by (intro disjI2 exI [of _ ?off]) simp
  qed simp
qed

lemma nict_next_timer_e_bounds:
  "len = -1 \<or> 0 < len \<Longrightarrow> 0 < nict_next_timer_e st len \<and> nict_next_timer_e st len \<le> DEFAULT_T2"
  by (auto simp: nict_next_timer_e_def timer_consts Let_def)

lemma nict_timeout_e_ok:
  assumes "nict_inv tr" "state tr \<in> {NICT_TRYING, NICT_PROCEEDING}" "event_ok evt" "evt_type evt = TIMEOUT_E"
  shows "nict_step_ok tr evt (osip_nict_timeout_e_event env tr evt)"
proof -
  have n: "evt_sip evt = None" using event_ok_timer [OF assms(3)] assms(4) by (simp add: less_eq_type_t_def)
  have d: "nict_diagram (state tr) TIMEOUT_E (state tr)" "nict_diagram (state tr) TIMEOUT_E NICT_TERMINATED"
    and st: "state tr \<noteq> NICT_PRE_TRYING" "state tr \<noteq> NICT_TERMINATED"
    using assms(2) by (auto intro: nict_timer_e nict_timer_e_error)
  obtain c m where c: "nict_context tr = Some c" "nict_timers_ok (state tr) c" "orig_request tr = Some m" "msg_ok m"
      "ctx_type tr = NICT"
    using assms(1) st by (auto simp: nict_inv_def)
  let ?l = "nict_next_timer_e (state tr) (timer_e_length c)"
  let ?c = "c\<lparr>timer_e_length := ?l, timer_e_start := timer_from env ?l\<rparr>"
  let ?tr = "tr\<lparr>nict_context := Some ?c\<rparr>"
  let ?i = "cb_send_message env ?tr m (nict_destination c) (nict_port c) (out_socket tr)"
  have l: "0 < ?l" "?l \<le> DEFAULT_T2"
    using c(2) nict_next_timer_e_bounds [of "timer_e_length c" "state tr"] by (auto simp: nict_timers_ok_def)
  have ok: "nict_timers_ok (state tr) ?c" "nict_timers_ok NICT_TERMINATED ?c"
    using c(2) l st by (auto simp: nict_timers_ok_def)
  have "nict_context ?tr = Some ?c" by simp
  note cases = nict_message_sent_cases [OF this ok(1) st(1), of m ?i]
  show ?thesis
    using cases n c d st ok assms(2,4)
    by (auto simp: osip_nict_timeout_e_event_def nict_steps nict_inv_def owned_def identity_def Let_def)
qed

lemma nict_timeout_f_ok:
  assumes "nict_inv tr" "state tr \<in> {NICT_TRYING, NICT_PROCEEDING}" "event_ok evt" "evt_type evt = TIMEOUT_F"
  shows "nict_step_ok tr evt (osip_nict_timeout_f_event env tr evt)"
proof -
  have "evt_sip evt = None" using event_ok_timer [OF assms(3)] assms(4) by (simp add: less_eq_type_t_def)
  moreover have "nict_diagram (state tr) TIMEOUT_F NICT_TERMINATED" using assms(2) by (rule nict_timer_f)
  ultimately show ?thesis using assms(1,2,4)
    by (auto simp: osip_nict_timeout_f_event_def nict_steps nict_inv_defs owned_def identity_def Let_def)
qed

lemma nict_timeout_k_ok:
  assumes "nict_inv tr" "state tr = NICT_COMPLETED" "event_ok evt" "evt_type evt = TIMEOUT_K"
  shows "nict_step_ok tr evt (osip_nict_timeout_k_event env tr evt)"
proof -
  have "evt_sip evt = None" using event_ok_timer [OF assms(3)] assms(4) by (simp add: less_eq_type_t_def)
  with assms show ?thesis
    by (auto simp: osip_nict_timeout_k_event_def nict_steps nict_inv_defs owned_def identity_def Let_def
        intro: nict_timer_k)
qed

lemma nict_rcv_1xx_ok:
  assumes "nict_inv tr" "state tr \<in> {NICT_TRYING, NICT_PROCEEDING}" "event_ok evt" "evt_type evt = RCV_STATUS_1XX"
  shows "nict_step_ok tr evt (nict_rcv_1xx env tr evt)"
proof -
  have "nict_diagram (state tr) RCV_STATUS_1XX NICT_PROCEEDING" using assms(2) by (rule nict_1xx)
  with assms(1,2,4) show ?thesis
    by (auto simp: nict_rcv_1xx_def nict_steps nict_inv_defs owned_def identity_def Let_def)
qed

lemma nict_rcv_23456xx_ok:
  assumes "nict_inv tr" "state tr \<in> {NICT_TRYING, NICT_PROCEEDING}" "event_ok evt"
    "evt_type evt \<in> {RCV_STATUS_2XX, RCV_STATUS_3456XX}" "wf_time (env_now env)"
  shows "nict_step_ok tr evt (nict_rcv_23456xx env tr evt)"
proof -
  have d: "nict_diagram (state tr) (evt_type evt) NICT_COMPLETED" using assms(2,4) by (auto intro: nict_2xx nict_3456xx)
  obtain m where m: "evt_sip evt = Some m"
    using event_ok_msg [OF assms(3)] assms(4) by (auto simp: less_eq_type_t_def)
  then obtain cb where cb: "nict_status_callback evt = Some cb"
    by (cases "evt_type evt = RCV_STATUS_2XX") (simp_all add: nict_status_callback_def)
  obtain c where c: "nict_context tr = Some c" "nict_timers_ok (state tr) c" using assms(1) by (auto simp: nict_inv_def)
  have st: "state tr \<noteq> NICT_PRE_TRYING" "state tr \<noteq> NICT_COMPLETED" "state tr \<noteq> NICT_TERMINATED" using assms(2) by auto
  have "nict_timers_ok NICT_COMPLETED (c\<lparr>timer_k_start := timer_from env (timer_k_length c)\<rparr>)"
    using c(2) st timer_from_running [OF assms(5)] by (auto simp: nict_timers_ok_def)
  with d m cb c st assms(1) show ?thesis
    by (simp add: nict_rcv_23456xx_def nict_steps nict_inv_def owned_def identity_def)
qed

lemma nict_handlers_ok:
  assumes "t \<in> set nict_fsm" "trans_state t = state tr" "trans_type t = evt_type evt" "nict_inv tr" "event_ok evt"
    "wf_time (env_now env)"
  shows "nict_step_ok tr evt (trans_method t env tr evt)"
  using assms(1-3) unfolding nict_fsm_def
  by (auto intro!: nict_snd_request_ok nict_timeout_e_ok nict_timeout_f_ok nict_timeout_k_ok nict_rcv_1xx_ok
      nict_rcv_23456xx_ok assms(4-6))

interpretation nict: transaction_machine nict_fsm nict_inv NICT_TERMINATED nict_diagram
proof
  show "trans_state t \<noteq> NICT_TERMINATED" if "t \<in> set nict_fsm" for t
    using that by (auto simp: nict_fsm_def)
qed (rule nict_handlers_ok)

end
