(* ===== verification/Osip_Server_Proofs.thy ===== *)
theory Osip_Server_Proofs
  imports Osip_Machine Osip_Fsm
begin

text \<open>
  The server transactions satisfy the contract of theory \<open>Osip_Machine\<close>: state diagrams after
  RFC 3261, figures 7 and 8, and the invariants of the two machines.
\<close>

lemmas server_steps = terminate_def osip_kill_transaction_callback_def osip_transaction_set_state_def
  ist_handle_transport_error_def nist_handle_transport_error_def

definition opt_msg_ok :: "message option \<Rightarrow> bool" where
  "opt_msg_ok m \<longleftrightarrow> (\<forall>sip. m = Some sip \<longrightarrow> msg_ok sip)"

lemma opt_msg_ok_simps [simp]: "opt_msg_ok None" "opt_msg_ok (Some m) \<longleftrightarrow> msg_ok m"
  by (simp_all add: opt_msg_ok_def)

section \<open>The INVITE server transaction\<close>

text \<open>
  RFC 3261, figure 7; a retransmitted INVITE is answered without a change of state, a transport
  error ends the transaction.
\<close>

inductive ist_diagram :: "state_t \<Rightarrow> type_t \<Rightarrow> state_t \<Rightarrow> bool" where
  ist_invite: "ist_diagram IST_PRE_PROCEEDING RCV_REQINVITE IST_PROCEEDING"
| ist_invite_again: "st \<in> {IST_PROCEEDING, IST_COMPLETED} \<Longrightarrow> ist_diagram st RCV_REQINVITE st"
| ist_invite_error: "st \<in> {IST_PROCEEDING, IST_COMPLETED} \<Longrightarrow> ist_diagram st RCV_REQINVITE IST_TERMINATED"
| ist_timer_g: "ist_diagram IST_COMPLETED TIMEOUT_G IST_COMPLETED"
| ist_timer_g_error: "ist_diagram IST_COMPLETED TIMEOUT_G IST_TERMINATED"
| ist_timer_h: "ist_diagram IST_COMPLETED TIMEOUT_H IST_TERMINATED"
| ist_1xx: "ist_diagram IST_PROCEEDING SND_STATUS_1XX IST_PROCEEDING"
| ist_1xx_error: "ist_diagram IST_PROCEEDING SND_STATUS_1XX IST_TERMINATED"
| ist_2xx: "ist_diagram IST_PROCEEDING SND_STATUS_2XX IST_TERMINATED"
| ist_3456xx: "ist_diagram IST_PROCEEDING SND_STATUS_3456XX IST_COMPLETED"
| ist_3456xx_error: "ist_diagram IST_PROCEEDING SND_STATUS_3456XX IST_TERMINATED"
| ist_ack: "st \<in> {IST_COMPLETED, IST_CONFIRMED} \<Longrightarrow> ist_diagram st RCV_REQACK IST_CONFIRMED"
| ist_timer_i: "ist_diagram IST_CONFIRMED TIMEOUT_I IST_TERMINATED"

inductive_cases ist_diagram_from_final: "ist_diagram IST_TERMINATED ty st"

text \<open>Timer G is off (-1, or doubled from it) or positive and at most T2; H and I run where they are needed.\<close>

definition ist_timers_ok :: "state_t \<Rightarrow> ist_t \<Rightarrow> bool" where
  "ist_timers_ok st c \<longleftrightarrow> (timer_g_length c < 0 \<or> 0 < timer_g_length c \<and> timer_g_length c \<le> DEFAULT_T2)
     \<and> (st \<noteq> IST_TERMINATED \<longrightarrow> 0 \<le> timer_h_length c \<and> 0 \<le> timer_i_length c)
     \<and> (st = IST_COMPLETED \<longrightarrow> 0 \<le> tv_sec (timer_h_start c))
     \<and> (st = IST_CONFIRMED \<longrightarrow> 0 \<le> tv_sec (timer_i_start c))"

definition ist_messages_ok :: "transaction \<Rightarrow> bool" where
  "ist_messages_ok tr \<longleftrightarrow>
     (if state tr = IST_PRE_PROCEEDING then orig_request tr = None \<and> last_response tr = None \<and> ack tr = None
      else orig_request tr \<noteq> None)
     \<and> opt_msg_ok (last_response tr)
     \<and> (state tr = IST_COMPLETED \<longrightarrow> last_response tr \<noteq> None)"

definition ist_inv :: "transaction \<Rightarrow> bool" where
  "ist_inv tr \<longleftrightarrow> ctx_type tr = IST
     \<and> state tr \<in> {IST_PRE_PROCEEDING, IST_PROCEEDING, IST_COMPLETED, IST_CONFIRMED, IST_TERMINATED}
     \<and> (\<exists>c. ist_context tr = Some c \<and> ist_timers_ok (state tr) c) \<and> ist_messages_ok tr"

lemmas ist_inv_defs = ist_inv_def ist_timers_ok_def ist_messages_ok_def

abbreviation ist_step_ok where
  "ist_step_ok \<equiv> step_ok ist_inv IST_TERMINATED ist_diagram"

lemma ist_rcv_invite_ok:
  assumes "ist_inv tr" "state tr \<in> {IST_PRE_PROCEEDING, IST_PROCEEDING, IST_COMPLETED}" "event_ok evt"
    "evt_type evt = RCV_REQINVITE"
  shows "ist_step_ok tr evt (ist_rcv_invite env tr evt)"
proof -
  obtain m where m: "evt_sip evt = Some m" "msg_ok m"
    using event_ok_msg [OF assms(3)] assms(4) by (auto simp: less_eq_type_t_def)
  show ?thesis
  proof (cases "state tr = IST_PRE_PROCEEDING")
    case True
    with m assms(1,4) show ?thesis
      by (auto simp: ist_rcv_invite_def server_steps ist_inv_defs owned_def identity_def intro: ist_invite)
  next
    case False
    then have st: "state tr \<in> {IST_PROCEEDING, IST_COMPLETED}" using assms(2) by simp
    note d = ist_invite_again [OF st] ist_invite_error [OF st]
    show ?thesis
    proof (cases "last_response tr")
      case None
      with False m d assms(1,4) show ?thesis by (simp add: ist_rcv_invite_def owned_def st) (use st in auto)
    next
      case (Some resp)
      then have "msg_ok resp" using assms(1) by (simp add: ist_inv_def ist_messages_ok_def)
      from snd_xxx_total [OF this, of env tr] obtain i acts where
        s: "osip_transaction_snd_xxx env tr resp = Some (i, acts)" "kills acts = 0" "freed acts = {#}" "created acts = {#}"
        by blast
      show ?thesis
      proof (cases "i = 0")
        case True
        with False m d s Some assms(1,4) st show ?thesis by (auto simp: ist_rcv_invite_def owned_def)
      next
        case ne: False
        with False m d s Some assms(1,4) show ?thesis
          by (auto simp: ist_rcv_invite_def server_steps ist_inv_defs owned_def identity_def)
      qed
    qed
  qed
qed

lemma ist_timeout_g_ok:
  assumes "ist_inv tr" "state tr = IST_COMPLETED" "event_ok evt" "evt_type evt = TIMEOUT_G"
  shows "ist_step_ok tr evt (osip_ist_timeout_g_event env tr evt)"
proof -
  have n: "evt_sip evt = None" using event_ok_timer [OF assms(3)] assms(4) by (simp add: less_eq_type_t_def)
  obtain c resp where c: "ist_context tr = Some c" "ist_timers_ok IST_COMPLETED c" "last_response tr = Some resp" "msg_ok resp"
      "orig_request tr \<noteq> None" "ctx_type tr = IST"
    using assms(1,2) by (auto simp: ist_inv_def ist_messages_ok_def)
  define l where "l = (if timer_g_length c * 2 > DEFAULT_T2 then DEFAULT_T2 else timer_g_length c * 2)"
  define tr1 where "tr1 = tr\<lparr>ist_context := Some (c\<lparr>timer_g_length := l, timer_g_start := timer_from env l\<rparr>)\<rparr>"
  have l: "l < 0 \<or> 0 < l \<and> l \<le> DEFAULT_T2" using c(2) by (auto simp: ist_timers_ok_def l_def timer_consts)
  from snd_xxx_total [OF c(4), of env tr1] obtain i acts where
    s: "osip_transaction_snd_xxx env tr1 resp = Some (i, acts)" "kills acts = 0" "freed acts = {#}" "created acts = {#}"
    by blast
  have e: "osip_ist_timeout_g_event env tr evt =
      Some (if i \<noteq> 0 then (let (ist, a) = ist_handle_transport_error env tr1 i in (ist, acts @ a))
            else (tr1, acts @ [MessageCb OSIP_IST_STATUS_3456XX_SENT_AGAIN (Some resp)]))"
    using c s(1) by (simp add: osip_ist_timeout_g_event_def l_def tr1_def Let_def)
  show ?thesis
    unfolding e using n c l s assms(2,4)
    by (auto simp: server_steps ist_inv_defs owned_def identity_def tr1_def intro: ist_timer_g ist_timer_g_error)
qed

lemma ist_timeout_h_ok:
  assumes "ist_inv tr" "state tr = IST_COMPLETED" "event_ok evt" "evt_type evt = TIMEOUT_H"
  shows "ist_step_ok tr evt (osip_ist_timeout_h_event env tr evt)"
proof -
  have "evt_sip evt = None" using event_ok_timer [OF assms(3)] assms(4) by (simp add: less_eq_type_t_def)
  with assms show ?thesis
    by (auto simp: osip_ist_timeout_h_event_def server_steps ist_inv_defs owned_def identity_def Let_def intro: ist_timer_h)
qed

lemma ist_timeout_i_ok:
  assumes "ist_inv tr" "state tr = IST_CONFIRMED" "event_ok evt" "evt_type evt = TIMEOUT_I"
  shows "ist_step_ok tr evt (osip_ist_timeout_i_event env tr evt)"
proof -
  have "evt_sip evt = None" using event_ok_timer [OF assms(3)] assms(4) by (simp add: less_eq_type_t_def)
  with assms show ?thesis
    by (auto simp: osip_ist_timeout_i_event_def server_steps ist_inv_defs owned_def identity_def Let_def intro: ist_timer_i)
qed

text \<open>What the three handlers that send a new response start from.\<close>

lemma snd_response_cases:
  assumes "event_ok evt" "evt_type evt \<in> {SND_STATUS_1XX, SND_STATUS_2XX, SND_STATUS_3456XX}"
  obtains m i acts where "evt_sip evt = Some m" "msg_ok m"
    "osip_transaction_snd_xxx env (tr\<lparr>last_response := Some m\<rparr>) m = Some (i, acts)"
    "kills acts = 0" "freed acts = {#}" "created acts = {#}"
proof -
  obtain m where m: "evt_sip evt = Some m" "msg_ok m"
    using event_ok_msg [OF assms(1)] assms(2) by (auto simp: less_eq_type_t_def)
  from snd_xxx_total [OF m(2), of env "tr\<lparr>last_response := Some m\<rparr>"] m that show ?thesis by blast
qed

lemma ist_snd_1xx_ok:
  assumes "ist_inv tr" "state tr = IST_PROCEEDING" "event_ok evt" "evt_type evt = SND_STATUS_1XX"
  shows "ist_step_ok tr evt (ist_snd_1xx env tr evt)"
proof (rule snd_response_cases [OF assms(3), of env tr])
  show "evt_type evt \<in> {SND_STATUS_1XX, SND_STATUS_2XX, SND_STATUS_3456XX}" using assms(4) by simp
  fix m i acts
  assume "evt_sip evt = Some m" "msg_ok m" "osip_transaction_snd_xxx env (tr\<lparr>last_response := Some m\<rparr>) m = Some (i, acts)"
    "kills acts = 0" "freed acts = {#}" "created acts = {#}"
  with assms show "ist_step_ok tr evt (ist_snd_1xx env tr evt)"
    by (auto simp: ist_snd_1xx_def server_steps ist_inv_defs owned_def identity_def Let_def
        intro: ist_diagram.intros)
qed

lemma ist_snd_2xx_ok:
  assumes "ist_inv tr" "state tr = IST_PROCEEDING" "event_ok evt" "evt_type evt = SND_STATUS_2XX"
  shows "ist_step_ok tr evt (ist_snd_2xx env tr evt)"
proof (rule snd_response_cases [OF assms(3), of env tr])
  show "evt_type evt \<in> {SND_STATUS_1XX, SND_STATUS_2XX, SND_STATUS_3456XX}" using assms(4) by simp
  fix m i acts
  assume "evt_sip evt = Some m" "msg_ok m" "osip_transaction_snd_xxx env (tr\<lparr>last_response := Some m\<rparr>) m = Some (i, acts)"
    "kills acts = 0" "freed acts = {#}" "created acts = {#}"
  with assms show "ist_step_ok tr evt (ist_snd_2xx env tr evt)"
    by (auto simp: ist_snd_2xx_def server_steps ist_inv_defs owned_def identity_def Let_def intro: ist_2xx)
qed

lemma ist_snd_3456xx_ok:
  assumes "ist_inv tr" "state tr = IST_PROCEEDING" "event_ok evt" "evt_type evt = SND_STATUS_3456XX"
    "wf_time (env_now env)"
  shows "ist_step_ok tr evt (ist_snd_3456xx env tr evt)"
proof (rule snd_response_cases [OF assms(3), of env tr])
  show "evt_type evt \<in> {SND_STATUS_1XX, SND_STATUS_2XX, SND_STATUS_3456XX}" using assms(4) by simp
  fix m i acts
  assume s: "evt_sip evt = Some m" "msg_ok m" "osip_transaction_snd_xxx env (tr\<lparr>last_response := Some m\<rparr>) m = Some (i, acts)"
    "kills acts = 0" "freed acts = {#}" "created acts = {#}"
  obtain c where c: "ist_context tr = Some c" "ist_timers_ok IST_PROCEEDING c" "orig_request tr \<noteq> None" "ctx_type tr = IST"
    using assms(1,2) by (auto simp: ist_inv_def ist_messages_ok_def)
  have "0 \<le> tv_sec (timer_from env (timer_h_length c))"
    using c(2) add_gettimeofday_running [OF assms(5)] by (simp add: ist_timers_ok_def timer_from_def)
  with s c assms show "ist_step_ok tr evt (ist_snd_3456xx env tr evt)"
    by (auto simp: ist_snd_3456xx_def server_steps ist_inv_defs owned_def identity_def Let_def
        intro: ist_3456xx ist_3456xx_error)
qed

lemma ist_rcv_ack_ok:
  assumes "ist_inv tr" "state tr \<in> {IST_COMPLETED, IST_CONFIRMED}" "event_ok evt" "evt_type evt = RCV_REQACK"
    "wf_time (env_now env)"
  shows "ist_step_ok tr evt (ist_rcv_ack env tr evt)"
proof -
  have "ist_diagram (state tr) RCV_REQACK IST_CONFIRMED" using assms(2) by (rule ist_ack)
  moreover obtain c where c: "ist_context tr = Some c" "ist_timers_ok (state tr) c" "ctx_type tr = IST"
      "orig_request tr \<noteq> None" "opt_msg_ok (last_response tr)"
    using assms(1,2) by (auto simp: ist_inv_def ist_messages_ok_def)
  moreover have "ist_timers_ok IST_CONFIRMED (c\<lparr>timer_i_start := timer_from env (timer_i_length c)\<rparr>)"
    using c(2) assms(2) add_gettimeofday_running [OF assms(5), of "timer_i_length c"]
    by (auto simp: ist_timers_ok_def timer_from_def)
  ultimately show ?thesis using assms(2,4)
    by (simp add: ist_rcv_ack_def server_steps ist_inv_def ist_messages_ok_def owned_def identity_def)
qed

lemma ist_handlers_ok:
  assumes "t \<in> set ist_fsm" "trans_state t = state tr" "trans_type t = evt_type evt" "ist_inv tr" "event_ok evt"
    "wf_time (env_now env)"
  shows "ist_step_ok tr evt (trans_method t env tr evt)"
  using assms(1) unfolding ist_fsm_def list.set insert_iff empty_iff
  by (elim disjE FalseE)
    (use assms(4-6) assms(2,3) [symmetric] in \<open>simp_all add: ist_rcv_invite_ok ist_timeout_g_ok ist_timeout_h_ok ist_timeout_i_ok ist_snd_1xx_ok ist_snd_2xx_ok
      ist_snd_3456xx_ok ist_rcv_ack_ok\<close>)

interpretation ist: transaction_machine ist_fsm ist_inv IST_TERMINATED ist_diagram
proof
  show "trans_state t \<noteq> IST_TERMINATED" if "t \<in> set ist_fsm" for t
    using that by (auto simp: ist_fsm_def)
qed (rule ist_handlers_ok)

section \<open>The non-INVITE server transaction\<close>

text \<open>RFC 3261, figure 8.\<close>

inductive nist_diagram :: "state_t \<Rightarrow> type_t \<Rightarrow> state_t \<Rightarrow> bool" where
  nist_request: "nist_diagram NIST_PRE_TRYING RCV_REQUEST NIST_TRYING"
| nist_request_again: "st \<in> {NIST_PROCEEDING, NIST_COMPLETED} \<Longrightarrow> nist_diagram st RCV_REQUEST st"
| nist_request_error: "st \<in> {NIST_PROCEEDING, NIST_COMPLETED} \<Longrightarrow> nist_diagram st RCV_REQUEST NIST_TERMINATED"
| nist_1xx: "st \<in> {NIST_TRYING, NIST_PROCEEDING} \<Longrightarrow> nist_diagram st SND_STATUS_1XX NIST_PROCEEDING"
| nist_2xx: "st \<in> {NIST_TRYING, NIST_PROCEEDING} \<Longrightarrow> nist_diagram st SND_STATUS_2XX NIST_COMPLETED"
| nist_3456xx: "st \<in> {NIST_TRYING, NIST_PROCEEDING} \<Longrightarrow> nist_diagram st SND_STATUS_3456XX NIST_COMPLETED"
| nist_send_error: "st \<in> {NIST_TRYING, NIST_PROCEEDING} \<Longrightarrow> ty \<in> {SND_STATUS_1XX, SND_STATUS_2XX, SND_STATUS_3456XX}
    \<Longrightarrow> nist_diagram st ty NIST_TERMINATED"
| nist_timer_j: "nist_diagram NIST_COMPLETED TIMEOUT_J NIST_TERMINATED"

inductive_cases nist_diagram_from_final: "nist_diagram NIST_TERMINATED ty st"

definition nist_timers_ok :: "state_t \<Rightarrow> nist_t \<Rightarrow> bool" where
  "nist_timers_ok st c \<longleftrightarrow> (st \<noteq> NIST_TERMINATED \<longrightarrow> 0 \<le> timer_j_length c)
     \<and> (st = NIST_COMPLETED \<longrightarrow> 0 \<le> tv_sec (timer_j_start c))"

definition nist_messages_ok :: "transaction \<Rightarrow> bool" where
  "nist_messages_ok tr \<longleftrightarrow>
     (if state tr = NIST_PRE_TRYING then orig_request tr = None \<and> last_response tr = None else orig_request tr \<noteq> None)
     \<and> opt_msg_ok (last_response tr)
     \<and> (state tr = NIST_PROCEEDING \<or> state tr = NIST_COMPLETED \<longrightarrow> last_response tr \<noteq> None)"

definition nist_inv :: "transaction \<Rightarrow> bool" where
  "nist_inv tr \<longleftrightarrow> ctx_type tr = NIST
     \<and> state tr \<in> {NIST_PRE_TRYING, NIST_TRYING, NIST_PROCEEDING, NIST_COMPLETED, NIST_TERMINATED}
     \<and> (\<exists>c. nist_context tr = Some c \<and> nist_timers_ok (state tr) c) \<and> nist_messages_ok tr"

lemmas nist_inv_defs = nist_inv_def nist_timers_ok_def nist_messages_ok_def

abbreviation nist_step_ok where
  "nist_step_ok \<equiv> step_ok nist_inv NIST_TERMINATED nist_diagram"

lemma nist_received_callback_total: "msg_ok m \<Longrightarrow> \<exists>cb. nist_received_callback m = Some cb"
  unfolding nist_received_callback_def
  by (rule first_case_total)
    (auto simp: MSG_IS_REGISTER_def MSG_IS_BYE_def MSG_IS_OPTIONS_def MSG_IS_INFO_def MSG_IS_CANCEL_def
      MSG_IS_NOTIFY_def MSG_IS_SUBSCRIBE_def msg_is_method_def msg_ok_def split: if_splits option.splits)

lemma nist_rcv_request_ok:
  assumes "nist_inv tr" "state tr \<in> {NIST_PRE_TRYING, NIST_PROCEEDING, NIST_COMPLETED}" "event_ok evt"
    "evt_type evt = RCV_REQUEST"
  shows "nist_step_ok tr evt (nist_rcv_request env tr evt)"
proof -
  obtain m where m: "evt_sip evt = Some m" "msg_ok m"
    using event_ok_msg [OF assms(3)] assms(4) by (auto simp: less_eq_type_t_def)
  show ?thesis
  proof (cases "state tr = NIST_PRE_TRYING")
    case True
    obtain cb where "nist_received_callback m = Some cb" using nist_received_callback_total [OF m(2)] by blast
    with True m assms(1,4) show ?thesis
      by (auto simp: nist_rcv_request_def server_steps nist_inv_defs owned_def identity_def intro: nist_request)
  next
    case False
    then have st: "state tr \<in> {NIST_PROCEEDING, NIST_COMPLETED}" using assms(2) by simp
    note d = nist_request_again [OF st] nist_request_error [OF st]
    obtain resp where r: "last_response tr = Some resp" "msg_ok resp"
      using assms(1) st by (auto simp: nist_inv_def nist_messages_ok_def)
    from snd_xxx_total [OF r(2), of env tr] obtain i acts where
      s: "osip_transaction_snd_xxx env tr resp = Some (i, acts)" "kills acts = 0" "freed acts = {#}" "created acts = {#}"
      by blast
    show ?thesis
    proof (cases "i = 0")
      case True
      with False m d s r assms(1,4) st show ?thesis by (auto simp: nist_rcv_request_def owned_def)
    next
      case ne: False
      with False m d s r assms(1,4) show ?thesis
        by (auto simp: nist_rcv_request_def server_steps nist_inv_defs owned_def identity_def)
    qed
  qed
qed

lemma nist_snd_1xx_ok:
  assumes "nist_inv tr" "state tr \<in> {NIST_TRYING, NIST_PROCEEDING}" "event_ok evt" "evt_type evt = SND_STATUS_1XX"
  shows "nist_step_ok tr evt (nist_snd_1xx env tr evt)"
proof (rule snd_response_cases [OF assms(3), of env tr])
  show "evt_type evt \<in> {SND_STATUS_1XX, SND_STATUS_2XX, SND_STATUS_3456XX}" using assms(4) by simp
  fix m i acts
  assume "evt_sip evt = Some m" "msg_ok m" "osip_transaction_snd_xxx env (tr\<lparr>last_response := Some m\<rparr>) m = Some (i, acts)"
    "kills acts = 0" "freed acts = {#}" "created acts = {#}"
  moreover have "nist_diagram (state tr) SND_STATUS_1XX NIST_PROCEEDING" "nist_diagram (state tr) SND_STATUS_1XX NIST_TERMINATED"
    using assms(2) by (auto intro: nist_1xx nist_send_error)
  ultimately show "nist_step_ok tr evt (nist_snd_1xx env tr evt)" using assms(1,2,4)
    by (auto simp: nist_snd_1xx_def server_steps nist_inv_defs owned_def identity_def Let_def)
qed

lemma nist_snd_23456xx_ok:
  assumes "nist_inv tr" "state tr \<in> {NIST_TRYING, NIST_PROCEEDING}" "event_ok evt"
    "evt_type evt \<in> {SND_STATUS_2XX, SND_STATUS_3456XX}" "wf_time (env_now env)"
  shows "nist_step_ok tr evt (nist_snd_23456xx env tr evt)"
proof (rule snd_response_cases [OF assms(3), of env tr])
  show "evt_type evt \<in> {SND_STATUS_1XX, SND_STATUS_2XX, SND_STATUS_3456XX}" using assms(4) by auto
  fix m i acts
  assume "evt_sip evt = Some m" "msg_ok m" "osip_transaction_snd_xxx env (tr\<lparr>last_response := Some m\<rparr>) m = Some (i, acts)"
    "kills acts = 0" "freed acts = {#}" "created acts = {#}"
  moreover have "nist_diagram (state tr) (evt_type evt) NIST_COMPLETED" "nist_diagram (state tr) (evt_type evt) NIST_TERMINATED"
    using assms(2,4) by (auto intro: nist_2xx nist_3456xx nist_send_error)
  moreover obtain c where c: "nist_context tr = Some c" "nist_timers_ok (state tr) c" "orig_request tr \<noteq> None" "ctx_type tr = NIST"
    using assms(1,2) by (auto simp: nist_inv_def nist_messages_ok_def)
  moreover have "0 \<le> tv_sec (timer_from env (timer_j_length c))"
    using c(2) assms(2) add_gettimeofday_running [OF assms(5), of "timer_j_length c"]
    by (auto simp: nist_timers_ok_def timer_from_def)
  moreover have "state tr \<noteq> NIST_COMPLETED" "state tr \<noteq> NIST_PRE_TRYING" "state tr \<noteq> NIST_TERMINATED" using assms(2) by auto
  ultimately show "nist_step_ok tr evt (nist_snd_23456xx env tr evt)"
    by (simp add: nist_snd_23456xx_def server_steps nist_inv_defs owned_def identity_def Let_def)
qed

lemma nist_timeout_j_ok:
  assumes "nist_inv tr" "state tr = NIST_COMPLETED" "event_ok evt" "evt_type evt = TIMEOUT_J"
  shows "nist_step_ok tr evt (osip_nist_timeout_j_event env tr evt)"
proof -
  have "evt_sip evt = None" using event_ok_timer [OF assms(3)] assms(4) by (simp add: less_eq_type_t_def)
  with assms show ?thesis
    by (auto simp: osip_nist_timeout_j_event_def server_steps nist_inv_defs owned_def identity_def Let_def intro: nist_timer_j)
qed

lemma nist_handlers_ok:
  assumes "t \<in> set nist_fsm" "trans_state t = state tr" "trans_type t = evt_type evt" "nist_inv tr" "event_ok evt"
    "wf_time (env_now env)"
  shows "nist_step_ok tr evt (trans_method t env tr evt)"
  using assms(1) unfolding nist_fsm_def list.set insert_iff empty_iff
  by (elim disjE FalseE)
    (use assms(4-6) assms(2,3) [symmetric] in \<open>simp_all add: nist_rcv_request_ok nist_snd_1xx_ok nist_snd_23456xx_ok nist_timeout_j_ok\<close>)

interpretation nist: transaction_machine nist_fsm nist_inv NIST_TERMINATED nist_diagram
proof
  show "trans_state t \<noteq> NIST_TERMINATED" if "t \<in> set nist_fsm" for t
    using that by (auto simp: nist_fsm_def)
qed (rule nist_handlers_ok)

end
