(* ===== verification/Osip_Fsm_Proofs.thy ===== *)
theory Osip_Fsm_Proofs
  imports Osip_Client_Proofs Osip_Server_Proofs
begin

text \<open>
  Properties of whole transactions, over the four machines at once: a transaction created from a
  request satisfies the invariant of its machine, its whole life is free of faults, leaks and double
  frees, every step is an edge of the diagram of RFC 3261, and the timers end it.
\<close>

section \<open>The invariant of a transaction\<close>

definition machine_inv :: "fsm_type \<Rightarrow> transaction \<Rightarrow> bool" where
  "machine_inv ty = (case ty of ICT \<Rightarrow> ict_inv | IST \<Rightarrow> ist_inv | NICT \<Rightarrow> nict_inv | NIST \<Rightarrow> nist_inv)"

definition transaction_inv :: "transaction \<Rightarrow> bool" where
  "transaction_inv tr = machine_inv (ctx_type tr) tr"

definition final_state :: "fsm_type \<Rightarrow> state_t" where
  "final_state ty = (case ty of ICT \<Rightarrow> ICT_TERMINATED | IST \<Rightarrow> IST_TERMINATED | NICT \<Rightarrow> NICT_TERMINATED | NIST \<Rightarrow> NIST_TERMINATED)"

definition rfc3261_diagram :: "fsm_type \<Rightarrow> state_t \<Rightarrow> type_t \<Rightarrow> state_t \<Rightarrow> bool" where
  "rfc3261_diagram ty = (case ty of ICT \<Rightarrow> ict_diagram | IST \<Rightarrow> ist_diagram | NICT \<Rightarrow> nict_diagram | NIST \<Rightarrow> nist_diagram)"

text \<open>The four interpretations, as one instance of the contract per type of transaction.\<close>

lemma machine: "transaction_machine (statemachine_of ty) (machine_inv ty) (final_state ty) (rfc3261_diagram ty)"
  by (cases ty)
    (simp_all add: statemachine_of_def machine_inv_def final_state_def rfc3261_diagram_def
      ict.transaction_machine_axioms ist.transaction_machine_axioms nict.transaction_machine_axioms
      nist.transaction_machine_axioms)

lemmas machine_execute_ok = transaction_machine.execute_ok [OF machine]
lemmas machine_final_absorbs = transaction_machine.final_absorbs [OF machine]
lemmas machine_run_ok = transaction_machine.run_ok [OF machine]
lemmas machine_edge_def = transaction_machine.edge_def [OF machine]

lemma same_identity_inv: "identity tr' = identity tr \<Longrightarrow> machine_inv (ctx_type tr) tr' \<Longrightarrow> transaction_inv tr'"
  by (simp add: transaction_inv_def identity_def)

text \<open>A sequence of events given to \<^verbatim>\<open>osip_transaction_execute\<close>.\<close>

fun execute_all :: "transaction \<Rightarrow> (osip_env \<times> osip_event) list \<Rightarrow> (transaction \<times> action list) option" where
  "execute_all tr [] = Some (tr, [])"
| "execute_all tr ((env, evt) # steps) = do {
     (_, tr', acts) \<leftarrow> osip_transaction_execute env tr evt;
     (tr'', acts') \<leftarrow> execute_all tr' steps;
     Some (tr'', acts @ acts') }"

text \<open>One step and a whole run, from the contract of the machine of the transaction.\<close>

lemma execute_step:
  assumes "transaction_inv tr" and "event_ok evt" and "wf_time (env_now env)"
  shows "\<exists>i tr' acts. osip_transaction_execute env tr evt = Some (i, tr', acts) \<and> transaction_inv tr'
    \<and> identity tr' = identity tr
    \<and> (tr' = tr \<or> rfc3261_diagram (ctx_type tr) (state tr) (evt_type evt) (state tr'))
    \<and> kills acts = of_bool (state tr \<noteq> final_state (ctx_type tr) \<and> state tr' = final_state (ctx_type tr))
    \<and> owned tr + mset_opt (evt_sip evt) + created acts = owned tr' + freed acts"
proof -
  obtain i tr' acts where x: "execute_with (statemachine_of (ctx_type tr)) env tr evt = Some (i, tr', acts)"
      "machine_inv (ctx_type tr) tr'" "identity tr' = identity tr"
      "tr' = tr \<or> rfc3261_diagram (ctx_type tr) (state tr) (evt_type evt) (state tr')"
      "kills acts = of_bool (state tr \<noteq> final_state (ctx_type tr) \<and> state tr' = final_state (ctx_type tr))"
      "owned tr + mset_opt (evt_sip evt) + created acts = owned tr' + freed acts"
    using machine_execute_ok [of "ctx_type tr" tr evt env] assms
    unfolding machine_edge_def transaction_inv_def by blast
  show ?thesis
    by (rule exI [of _ i], rule exI [of _ tr'], rule exI [of _ acts])
      (use x same_identity_inv [OF x(3,2)] in \<open>simp add: osip_transaction_execute_def\<close>)
qed

lemma execute_all_run:
  assumes "transaction_inv tr" and "steps_ok steps"
  shows "execute_all tr steps = run (statemachine_of (ctx_type tr)) tr steps"
  using assms
proof (induction steps arbitrary: tr)
  case (Cons s steps)
  obtain env evt where s: "s = (env, evt)" by (cases s)
  with Cons.prems have e: "event_ok evt" "wf_time (env_now env)" "steps_ok steps" by simp_all
  obtain i tr' acts where x: "osip_transaction_execute env tr evt = Some (i, tr', acts)" "transaction_inv tr'"
      "identity tr' = identity tr"
    using execute_step [OF Cons.prems(1) e(1,2)] by blast
  then have "ctx_type tr' = ctx_type tr" by (simp add: identity_def)
  with Cons.IH [OF x(2) e(3)] x(1) s show ?case by (simp add: osip_transaction_execute_def)
qed simp

lemma execute_all_ok:
  assumes "transaction_inv tr" and "steps_ok steps"
  shows "\<exists>tr' acts. execute_all tr steps = Some (tr', acts) \<and> transaction_inv tr' \<and> identity tr' = identity tr
    \<and> kills acts = of_bool (state tr \<noteq> final_state (ctx_type tr) \<and> state tr' = final_state (ctx_type tr))
    \<and> owned tr + event_sips (map snd steps) + created acts = owned tr' + freed acts"
proof -
  obtain tr' acts where x: "run (statemachine_of (ctx_type tr)) tr steps = Some (tr', acts)"
      "machine_inv (ctx_type tr) tr'" "identity tr' = identity tr"
      "kills acts = of_bool (state tr \<noteq> final_state (ctx_type tr) \<and> state tr' = final_state (ctx_type tr))"
      "owned tr + event_sips (map snd steps) + created acts = owned tr' + freed acts"
    using machine_run_ok [of "ctx_type tr" tr steps] assms unfolding transaction_inv_def by blast
  show ?thesis
    by (rule exI [of _ tr'], rule exI [of _ acts])
      (use x same_identity_inv [OF x(3,2)] in \<open>simp add: execute_all_run [OF assms]\<close>)
qed

lemma freed_free2:
  "freed (osip_transaction_free2 tr) = event_sips (transactionff tr) + owned tr"
proof -
  have "freed (concat (map (\<lambda>evt. osip_message_free (evt_sip evt)) evts)) = event_sips evts" for evts
    by (induction evts) simp_all
  then show ?thesis by (simp add: osip_transaction_free2_def owned_def ac_simps)
qed

section \<open>Creation\<close>

lemma copy_or_null_copies:
  "copy_or_null (osip_via_clone v) = (0, x) \<Longrightarrow> x = v"
  "copy_or_null (osip_from_clone f) = (0, y) \<Longrightarrow> y = f"
  "copy_or_null (osip_call_id_clone c) = (0, z) \<Longrightarrow> z = c"
  "copy_or_null (osip_cseq_clone q) = (0, w) \<Longrightarrow> w = q"
  using osip_via_clone_copy [of v x] osip_from_clone_copy [of f y] osip_call_id_clone_copy [of c z]
    osip_cseq_clone_copy [of q w]
  by (auto simp: copy_or_null_def split: prod.splits if_splits)

definition keyed :: "osip_env \<Rightarrow> int \<Rightarrow> fsm_type \<Rightarrow> message \<Rightarrow> transaction" where
  "keyed env tid ty req = (transaction_zero env tid ty)\<lparr>topvia := list_at (vias req) 0, tr_from := msg_from req,
     tr_to := msg_to req, callid := msg_call_id req, tr_cseq := msg_cseq req\<rparr>"

text \<open>
  Either an error is reported, or every header that identifies the transaction was copied and the
  context of the machine decides.
\<close>

lemma transaction_new_cases:
  "(\<exists>i. i \<noteq> 0 \<and> transaction_new env tid ty (Some req) = Some (i, None)) \<or>
   (transaction_new env tid ty (Some req) = init_context env (keyed env tid ty req) req
    \<and> (\<exists>v vs cid cs. vias req = v # vs \<and> via_protocol v \<noteq> None \<and> msg_call_id req = Some cid
         \<and> msg_cseq req = Some cs \<and> cseq_method cs \<noteq> None))"
proof (cases "(\<exists>cid. msg_call_id req = Some cid \<and> call_id_number cid \<noteq> None) \<and> vias req \<noteq> []")
  case False
  then show ?thesis
    by (intro disjI1) (cases "msg_call_id req"; cases "vias req"; auto simp: transaction_new_def)
next
  case True
  then obtain cid v vs where k: "msg_call_id req = Some cid" "call_id_number cid \<noteq> None" "vias req = v # vs"
    by (cases "vias req") auto
  obtain i1 x1 i2 x2 i3 x3 i4 x4 i5 x5 where c:
      "copy_or_null (osip_via_clone (Some v)) = (i1, x1)" "copy_or_null (osip_from_clone (msg_from req)) = (i2, x2)"
      "copy_or_null (osip_from_clone (msg_to req)) = (i3, x3)" "copy_or_null (osip_call_id_clone (Some cid)) = (i4, x4)"
      "copy_or_null (osip_cseq_clone (msg_cseq req)) = (i5, x5)"
    by (cases "copy_or_null (osip_via_clone (Some v))"; cases "copy_or_null (osip_from_clone (msg_from req))";
        cases "copy_or_null (osip_from_clone (msg_to req))"; cases "copy_or_null (osip_call_id_clone (Some cid))";
        cases "copy_or_null (osip_cseq_clone (msg_cseq req))")
  note unfold = transaction_new_def osip_transaction_set_topvia_def osip_transaction_set_from_def
    osip_transaction_set_to_def osip_transaction_set_call_id_def osip_transaction_set_cseq_def osip_to_clone_def Let_def
  show ?thesis
  proof (cases "i1 = 0 \<and> i2 = 0 \<and> i3 = 0 \<and> i4 = 0 \<and> i5 = 0")
    case False
    then show ?thesis using k c by (intro disjI1) (auto simp: unfold)
  next
    case True
    then have eq: "x1 = Some v" "x2 = msg_from req" "x3 = msg_to req" "x4 = Some cid" "x5 = msg_cseq req"
      using c copy_or_null_copies by blast+
    have cl: "osip_via_clone (Some v) = (0, x1)" "osip_cseq_clone (msg_cseq req) = (0, x5)"
      using c True by (auto simp: copy_or_null_def split: prod.splits if_splits)
    have "via_protocol v \<noteq> None" "\<exists>cs. msg_cseq req = Some cs \<and> cseq_method cs \<noteq> None"
      using osip_via_clone_copy [OF cl(1)] osip_cseq_clone_copy [OF cl(2)] by auto
    then show ?thesis using k c True by (intro disjI2) (auto simp: unfold eq keyed_def)
  qed
qed

lemma keyed_simps [simp]:
  "ctx_type (keyed env tid ty req) = ty" "orig_request (keyed env tid ty req) = None"
  "last_response (keyed env tid ty req) = None" "ack (keyed env tid ty req) = None"
  "transactionff (keyed env tid ty req) = []" "transactionid (keyed env tid ty req) = tid"
  by (simp_all add: keyed_def transaction_zero_def)

text \<open>The context of each machine: the initial state satisfies the invariant.\<close>

lemma init_context_ok:
  assumes v: "vias req = v # vs" "via_protocol v \<noteq> None" and ok: "msg_ok req" "req_uri req \<noteq> None"
    and now: "wf_time (env_now env)"
  shows "\<exists>tr. init_context env (keyed env tid ty req) req = Some (OSIP_SUCCESS, Some tr) \<and> transaction_inv tr
    \<and> owned tr = {#} \<and> state tr \<noteq> final_state ty \<and> identity tr = identity (keyed env tid ty req)"
proof -
  obtain proto where p: "via_get_protocol (Some v) = Some proto" using v(2) by (auto simp: via_get_protocol_def)
  obtain dest prt where h: "next_hop req = Some (dest, prt)" using next_hop_total [OF ok] by blast
  have t: "0 \<le> tv_sec (timer_from env 500)" "0 \<le> tv_sec (timer_from env 32000)"
    by (simp_all add: timer_from_running [OF now])
  note simps = init_context_def context_done_def get_top_via v(1) p h transaction_inv_def machine_inv_def owned_def
    final_state_def identity_def timer_consts Let_def
  show ?thesis
  proof (cases ty)
    case ICT
    then show ?thesis using t
      by (simp add: simps osip_ict_init_def osip_ict_set_destination_def ict_zero_def ict_inv_def ict_timers_ok_def
          ict_messages_ok_def)
  next
    case IST
    then show ?thesis
      by (simp add: simps osip_ist_init_def ist_zero_def ist_inv_def ist_timers_ok_def ist_messages_ok_def)
  next
    case NICT
    then show ?thesis using t
      by (simp add: simps osip_nict_init_def osip_nict_set_destination_def nict_zero_def nict_inv_def nict_timers_ok_def)
  next
    case NIST
    then show ?thesis
      by (simp add: simps osip_nist_init_def nist_zero_def nist_inv_def nist_timers_ok_def nist_messages_ok_def)
  qed
qed

lemma transaction_new_result:
  assumes "msg_ok req" and "req_uri req \<noteq> None" and "wf_time (env_now env)"
  shows "(\<exists>i. i \<noteq> 0 \<and> transaction_new env tid ty (Some req) = Some (i, None)) \<or>
    (\<exists>tr. transaction_new env tid ty (Some req) = Some (OSIP_SUCCESS, Some tr) \<and> transaction_inv tr
      \<and> owned tr = {#} \<and> state tr \<noteq> final_state ty \<and> identity tr = identity (keyed env tid ty req))"
  using transaction_new_cases [of env tid ty req]
proof (elim disjE conjE exE)
  fix v vs
  assume "transaction_new env tid ty (Some req) = init_context env (keyed env tid ty req) req"
    and "vias req = v # vs" and "via_protocol v \<noteq> None"
  then show ?thesis using init_context_ok [of req v vs env tid ty] assms by simp
qed blast

section \<open>Reachable transactions\<close>

inductive reachable :: "transaction \<Rightarrow> bool" where
  reachable_new: "transaction_new env tid ty (Some req) = Some (OSIP_SUCCESS, Some tr) \<Longrightarrow> msg_ok req
    \<Longrightarrow> req_uri req \<noteq> None \<Longrightarrow> wf_time (env_now env) \<Longrightarrow> reachable tr"
| reachable_event: "reachable tr \<Longrightarrow> osip_transaction_add_event (Some tr) (Some evt) = (OSIP_SUCCESS, Some tr')
    \<Longrightarrow> reachable tr'"
| reachable_step: "reachable tr \<Longrightarrow> event_ok evt \<Longrightarrow> wf_time (env_now env)
    \<Longrightarrow> osip_transaction_execute env tr evt = Some (i, tr', acts) \<Longrightarrow> reachable tr'"

lemma transaction_inv_queue: "transaction_inv (tr\<lparr>transactionff := q\<rparr>) = transaction_inv tr"
  by (cases "ctx_type tr")
    (simp_all add: transaction_inv_def machine_inv_def ict_inv_def ict_messages_ok_def ist_inv_def ist_messages_ok_def
      nict_inv_def nist_inv_def nist_messages_ok_def)

lemma reachable_inv: "reachable tr \<Longrightarrow> transaction_inv tr"
proof (induction rule: reachable.induct)
  case (reachable_new env tid ty req tr)
  then show ?case using transaction_new_result [of req env tid ty] by auto
next
  case (reachable_event tr evt tr')
  then show ?case using transaction_inv_queue by (auto simp: osip_transaction_add_event_def)
next
  case (reachable_step tr evt env i tr' acts)
  then show ?case using execute_step [of tr evt env] by auto
qed

lemma reachable_machine: "reachable tr \<Longrightarrow> ctx_type tr = ty \<Longrightarrow> machine_inv ty tr"
  using reachable_inv by (auto simp: transaction_inv_def)

section \<open>Timers\<close>

lemma need_timer_due:
  "0 \<le> tv_sec timer \<Longrightarrow> osip_timer_gt now timer \<Longrightarrow>
   osip_transaction_need_timer_x_event now True timer True tid ty = Some (osip_event_new ty tid)"
  by (simp add: osip_transaction_need_timer_x_event_def)

text \<open>The timer whose expiry ends the transaction in its present state.\<close>

definition deadline :: "transaction \<Rightarrow> timeval option" where
  "deadline tr =
     (if state tr = ICT_CALLING then map_option timer_b_start (ict_context tr)
      else if state tr = ICT_COMPLETED then map_option timer_d_start (ict_context tr)
      else if state tr = NICT_TRYING \<or> state tr = NICT_PROCEEDING then map_option timer_f_start (nict_context tr)
      else if state tr = NICT_COMPLETED then map_option timer_k_start (nict_context tr)
      else if state tr = IST_COMPLETED then map_option timer_h_start (ist_context tr)
      else if state tr = IST_CONFIRMED then map_option timer_i_start (ist_context tr)
      else if state tr = NIST_COMPLETED then map_option timer_j_start (nist_context tr)
      else None)"

definition deadline_event :: "timeval \<Rightarrow> transaction \<Rightarrow> osip_event option" where
  "deadline_event now tr =
     (if state tr = ICT_CALLING then Option.bind (ict_context tr) (\<lambda>c. osip_ict_need_timer_b_event now c (state tr) (transactionid tr))
      else if state tr = ICT_COMPLETED then Option.bind (ict_context tr) (\<lambda>c. osip_ict_need_timer_d_event now c (state tr) (transactionid tr))
      else if state tr = NICT_TRYING \<or> state tr = NICT_PROCEEDING
        then Option.bind (nict_context tr) (\<lambda>c. osip_nict_need_timer_f_event now c (state tr) (transactionid tr))
      else if state tr = NICT_COMPLETED then Option.bind (nict_context tr) (\<lambda>c. osip_nict_need_timer_k_event now c (state tr) (transactionid tr))
      else if state tr = IST_COMPLETED then Option.bind (ist_context tr) (\<lambda>c. osip_ist_need_timer_h_event now c (state tr) (transactionid tr))
      else if state tr = IST_CONFIRMED then Option.bind (ist_context tr) (\<lambda>c. osip_ist_need_timer_i_event now c (state tr) (transactionid tr))
      else if state tr = NIST_COMPLETED then Option.bind (nist_context tr) (\<lambda>c. osip_nist_need_timer_j_event now c (state tr) (transactionid tr))
      else None)"

lemmas deadline_defs = deadline_def deadline_event_def osip_ict_need_timer_b_event_def osip_ict_need_timer_d_event_def
  osip_nict_need_timer_f_event_def osip_nict_need_timer_k_event_def osip_ist_need_timer_h_event_def
  osip_ist_need_timer_i_event_def osip_nist_need_timer_j_event_def

text \<open>Only timer states have a deadline, and there the timer always runs.\<close>

lemma deadline_states:
  assumes "transaction_inv tr" and "deadline tr = Some t"
  shows "0 \<le> tv_sec t \<and> (ctx_type tr, state tr) \<in>
    {(ICT, ICT_CALLING), (ICT, ICT_COMPLETED), (NICT, NICT_TRYING), (NICT, NICT_PROCEEDING), (NICT, NICT_COMPLETED),
     (IST, IST_COMPLETED), (IST, IST_CONFIRMED), (NIST, NIST_COMPLETED)}"
proof (cases "ctx_type tr")
  case ICT
  with assms show ?thesis
    by (auto simp: transaction_inv_def machine_inv_def ict_inv_def ict_timers_ok_def deadline_def split: if_splits)
next
  case IST
  with assms show ?thesis
    by (auto simp: transaction_inv_def machine_inv_def ist_inv_def ist_timers_ok_def deadline_def split: if_splits)
next
  case NICT
  with assms show ?thesis
    by (auto simp: transaction_inv_def machine_inv_def nict_inv_def nict_timers_ok_def deadline_def split: if_splits)
next
  case NIST
  with assms show ?thesis
    by (auto simp: transaction_inv_def machine_inv_def nist_inv_def nist_timers_ok_def deadline_def split: if_splits)
qed

lemma deadline_event_due:
  assumes "transaction_inv tr" and "deadline tr = Some t" and "osip_timer_gt now t"
  shows "\<exists>ty. deadline_event now tr = Some (osip_event_new ty (transactionid tr))
    \<and> (state tr, ty) \<in> {(ICT_CALLING, TIMEOUT_B), (ICT_COMPLETED, TIMEOUT_D), (NICT_TRYING, TIMEOUT_F),
        (NICT_PROCEEDING, TIMEOUT_F), (NICT_COMPLETED, TIMEOUT_K), (IST_COMPLETED, TIMEOUT_H), (IST_CONFIRMED, TIMEOUT_I),
        (NIST_COMPLETED, TIMEOUT_J)}"
proof -
  have t: "0 \<le> tv_sec t" and st: "(ctx_type tr, state tr) \<in>
    {(ICT, ICT_CALLING), (ICT, ICT_COMPLETED), (NICT, NICT_TRYING), (NICT, NICT_PROCEEDING), (NICT, NICT_COMPLETED),
     (IST, IST_COMPLETED), (IST, IST_CONFIRMED), (NIST, NIST_COMPLETED)}"
    using deadline_states [OF assms(1,2)] by blast+
  note due = need_timer_due [OF t assms(3)]
  show ?thesis using st assms(2) due by (auto simp: deadline_defs)
qed

lemma execute_found:
  assumes "fsm_findmethod (evt_type evt) (state tr) (statemachine_of (ctx_type tr)) = Some t"
    and "trans_method t env tr evt = Some (tr', acts)" and "evt_type evt \<noteq> KILL_TRANSACTION"
  shows "osip_transaction_execute env tr evt = Some (1, tr', acts)"
  using assms by (simp add: osip_transaction_execute_def execute_with_def fsm_callmethod_def)

definition method_for :: "type_t \<Rightarrow> state_t \<Rightarrow> transition list \<Rightarrow> handler option" where
  "method_for ty st table = map_option trans_method (fsm_findmethod ty st table)"

lemma find_deadline_method:
  "method_for TIMEOUT_B ICT_CALLING ict_fsm = Some osip_ict_timeout_b_event"
  "method_for TIMEOUT_D ICT_COMPLETED ict_fsm = Some osip_ict_timeout_d_event"
  "method_for TIMEOUT_F NICT_TRYING nict_fsm = Some osip_nict_timeout_f_event"
  "method_for TIMEOUT_F NICT_PROCEEDING nict_fsm = Some osip_nict_timeout_f_event"
  "method_for TIMEOUT_K NICT_COMPLETED nict_fsm = Some osip_nict_timeout_k_event"
  "method_for TIMEOUT_H IST_COMPLETED ist_fsm = Some osip_ist_timeout_h_event"
  "method_for TIMEOUT_I IST_CONFIRMED ist_fsm = Some osip_ist_timeout_i_event"
  "method_for TIMEOUT_J NIST_COMPLETED nist_fsm = Some osip_nist_timeout_j_event"
  by (simp_all add: method_for_def ict_fsm_def ist_fsm_def nict_fsm_def nist_fsm_def)

text \<open>The handlers of the eight deadlines end in the final state.\<close>

definition ends_in :: "state_t \<Rightarrow> step_result \<Rightarrow> bool" where
  "ends_in st res \<longleftrightarrow> (\<exists>tr' acts. res = Some (tr', acts) \<and> state tr' = st)"

lemma deadline_handlers_end:
  "ict_context tr = Some c \<Longrightarrow> ends_in ICT_TERMINATED (osip_ict_timeout_b_event env tr evt)"
  "ict_context tr = Some c \<Longrightarrow> ends_in ICT_TERMINATED (osip_ict_timeout_d_event env tr evt)"
  "nict_context tr = Some d \<Longrightarrow> ends_in NICT_TERMINATED (osip_nict_timeout_f_event env tr evt)"
  "nict_context tr = Some d \<Longrightarrow> ends_in NICT_TERMINATED (osip_nict_timeout_k_event env tr evt)"
  "ist_context tr = Some e \<Longrightarrow> ends_in IST_TERMINATED (osip_ist_timeout_h_event env tr evt)"
  "ist_context tr = Some e \<Longrightarrow> ends_in IST_TERMINATED (osip_ist_timeout_i_event env tr evt)"
  "nist_context tr = Some f \<Longrightarrow> ends_in NIST_TERMINATED (osip_nist_timeout_j_event env tr evt)"
  by (simp_all add: ends_in_def shared_steps osip_ict_timeout_b_event_def osip_ict_timeout_d_event_def
      osip_nict_timeout_f_event_def osip_nict_timeout_k_event_def osip_ist_timeout_h_event_def
      osip_ist_timeout_i_event_def osip_nist_timeout_j_event_def)

lemma execute_ends:
  assumes "method_for ty st (statemachine_of (ctx_type tr)) = Some h" and "state tr = st"
    and "ends_in st' (h env tr (osip_event_new ty tid))" and "ty \<noteq> KILL_TRANSACTION"
  shows "\<exists>tr' acts. osip_transaction_execute env tr (osip_event_new ty tid) = Some (1, tr', acts) \<and> state tr' = st'"
proof -
  obtain t where t: "fsm_findmethod ty (state tr) (statemachine_of (ctx_type tr)) = Some t" "trans_method t = h"
    using assms(1,2) by (auto simp: method_for_def)
  obtain tr' acts where "h env tr (osip_event_new ty tid) = Some (tr', acts)" "state tr' = st'"
    using assms(3) by (auto simp: ends_in_def)
  with t show ?thesis
    using execute_found [of "osip_event_new ty tid" tr t env tr' acts] assms(4) by (simp add: osip_event_new_def)
qed

lemma inv_context:
  "transaction_inv tr \<Longrightarrow> ctx_type tr = ICT \<Longrightarrow> \<exists>c. ict_context tr = Some c"
  "transaction_inv tr \<Longrightarrow> ctx_type tr = IST \<Longrightarrow> \<exists>c. ist_context tr = Some c"
  "transaction_inv tr \<Longrightarrow> ctx_type tr = NICT \<Longrightarrow> \<exists>c. nict_context tr = Some c"
  "transaction_inv tr \<Longrightarrow> ctx_type tr = NIST \<Longrightarrow> \<exists>c. nist_context tr = Some c"
  by (auto simp: transaction_inv_def machine_inv_def ict_inv_def ist_inv_def nict_inv_def nist_inv_def)

lemma deadline_terminates:
  assumes "transaction_inv tr"
    and "(ctx_type tr, state tr, ty) \<in> {(ICT, ICT_CALLING, TIMEOUT_B), (ICT, ICT_COMPLETED, TIMEOUT_D),
        (NICT, NICT_TRYING, TIMEOUT_F), (NICT, NICT_PROCEEDING, TIMEOUT_F), (NICT, NICT_COMPLETED, TIMEOUT_K),
        (IST, IST_COMPLETED, TIMEOUT_H), (IST, IST_CONFIRMED, TIMEOUT_I), (NIST, NIST_COMPLETED, TIMEOUT_J)}"
  shows "\<exists>tr' acts. osip_transaction_execute env tr (osip_event_new ty tid) = Some (1, tr', acts)
    \<and> state tr' = final_state (ctx_type tr)"
proof -
  let ?m = "ctx_type tr"
  have "\<exists>h. method_for ty (state tr) (statemachine_of ?m) = Some h
      \<and> ends_in (final_state ?m) (h env tr (osip_event_new ty tid)) \<and> ty \<noteq> KILL_TRANSACTION"
    by (cases ?m)
      (use inv_context [OF assms(1)] assms(2) in
        \<open>auto simp: statemachine_of_def find_deadline_method deadline_handlers_end final_state_def\<close>)
  then show ?thesis using execute_ends [of ty "state tr" tr] by blast
qed

section \<open>Sample transactions\<close>

definition sample_request :: message where
  "sample_request = osip_message_init\<lparr>sip_method := Some ''REGISTER'', sip_version := Some ''SIP/2.0'',
     req_uri := Some (osip_uri_init\<lparr>scheme := Some ''sip'', host := Some ''a.com''\<rparr>),
     vias := [osip_via_init\<lparr>via_version := Some ''2.0'', via_protocol := Some ''UDP'', via_host := Some ''b.com'',
                via_params := [\<lparr>gname = Some ''branch'', gvalue = Some ''z9hG4bK7''\<rparr>]\<rparr>],
     msg_from := Some (osip_from_init\<lparr>from_url := Some (osip_uri_init\<lparr>scheme := Some ''sip'', host := Some ''b.com''\<rparr>),
                         gen_params := [\<lparr>gname = Some ''tag'', gvalue = Some ''1''\<rparr>]\<rparr>),
     msg_to := Some (osip_from_init\<lparr>from_url := Some (osip_uri_init\<lparr>scheme := Some ''sip'', host := Some ''a.com''\<rparr>)\<rparr>),
     msg_call_id := Some \<lparr>call_id_number = Some ''9'', call_id_host = None\<rparr>,
     msg_cseq := Some \<lparr>cseq_method = Some ''REGISTER'', cseq_number = Some ''1''\<rparr>\<rparr>"

definition sample_response :: "int \<Rightarrow> message \<Rightarrow> message" where
  "sample_response code req = req\<lparr>status_code := code, req_uri := None, sip_method := None\<rparr>"

definition sample_env :: osip_env where
  "sample_env = \<lparr>env_now = \<lparr>tv_sec = 100, tv_usec = 0\<rparr>, env_systemtime = 100, cb_send_message = (\<lambda>_ _ _ _ _. 0)\<rparr>"

definition sample_steps :: "(osip_env \<times> osip_event) list" where
  "sample_steps =
    [(sample_env, \<lparr>evt_type = SND_REQUEST, evt_transactionid = 1, evt_sip = Some sample_request\<rparr>),
     (sample_env, osip_event_new TIMEOUT_E 1),
     (sample_env, \<lparr>evt_type = RCV_STATUS_1XX, evt_transactionid = 1, evt_sip = Some (sample_response 100 sample_request)\<rparr>),
     (sample_env, \<lparr>evt_type = RCV_STATUS_2XX, evt_transactionid = 1, evt_sip = Some (sample_response 200 sample_request)\<rparr>),
     (sample_env, osip_event_new TIMEOUT_K 1)]"

definition sample_transaction :: transaction where
  "sample_transaction = (case transaction_new sample_env 1 NICT (Some sample_request) of Some (_, Some tr) \<Rightarrow> tr)"

lemma sample_ok:
  "msg_ok sample_request" "c \<noteq> 0 \<Longrightarrow> msg_ok (sample_response c sample_request)" "req_uri sample_request \<noteq> None"
  "wf_time (env_now sample_env)" "steps_ok sample_steps"
  by (auto simp: sample_request_def sample_response_def sample_env_def sample_steps_def msg_ok_def wf_time_def
      osip_uri_init_def osip_via_init_def osip_from_init_def osip_message_init_def MSG_IS_REQUEST_def event_ok_def
      EVT_IS_MSG_def less_eq_type_t_def osip_event_new_def)

lemma sample_transaction_new:
  "transaction_new sample_env 1 NICT (Some sample_request) = Some (OSIP_SUCCESS, Some sample_transaction)"
  by code_simp

lemma sample_reachable: "reachable sample_transaction"
  by (rule reachable_new [OF sample_transaction_new sample_ok(1) sample_ok(3,4)])

text \<open>What the four invariants say about the stored messages and the retransmission timers.\<close>

lemma inv_facts:
  "ict_inv tr \<Longrightarrow> (orig_request tr = None \<longleftrightarrow> state tr = ICT_PRE_CALLING) \<and> (state tr = ICT_COMPLETED \<longrightarrow> ack tr \<noteq> None)
     \<and> state tr \<in> {ICT_PRE_CALLING, ICT_CALLING, ICT_PROCEEDING, ICT_COMPLETED, ICT_TERMINATED}"
  "ist_inv tr \<Longrightarrow> (orig_request tr = None \<longleftrightarrow> state tr = IST_PRE_PROCEEDING)
     \<and> (state tr = IST_COMPLETED \<longrightarrow> last_response tr \<noteq> None)
     \<and> (\<forall>c. ist_context tr = Some c \<longrightarrow> timer_g_length c < 0 \<or> 0 < timer_g_length c \<and> timer_g_length c \<le> DEFAULT_T2)
     \<and> state tr \<in> {IST_PRE_PROCEEDING, IST_PROCEEDING, IST_COMPLETED, IST_CONFIRMED, IST_TERMINATED}"
  "nict_inv tr \<Longrightarrow> (orig_request tr = None \<longleftrightarrow> state tr = NICT_PRE_TRYING)
     \<and> (\<forall>c. nict_context tr = Some c \<longrightarrow> timer_e_length c = -1 \<or> 0 < timer_e_length c \<and> timer_e_length c \<le> DEFAULT_T2)
     \<and> state tr \<in> {NICT_PRE_TRYING, NICT_TRYING, NICT_PROCEEDING, NICT_COMPLETED, NICT_TERMINATED}"
  "nist_inv tr \<Longrightarrow> (orig_request tr = None \<longleftrightarrow> state tr = NIST_PRE_TRYING)
     \<and> (state tr = NIST_COMPLETED \<longrightarrow> last_response tr \<noteq> None)
     \<and> state tr \<in> {NIST_PRE_TRYING, NIST_TRYING, NIST_PROCEEDING, NIST_COMPLETED, NIST_TERMINATED}"
  subgoal by (cases "state tr = ICT_PRE_CALLING") (auto simp: ict_inv_def ict_messages_ok_def)
  subgoal by (cases "state tr = IST_PRE_PROCEEDING") (auto simp: ist_inv_def ist_messages_ok_def ist_timers_ok_def)
  subgoal by (cases "state tr = NICT_PRE_TRYING") (auto simp: nict_inv_def nict_timers_ok_def)
  subgoal by (cases "state tr = NIST_PRE_TRYING") (auto simp: nist_inv_def nist_messages_ok_def)
  done

section \<open>Properties of transactions\<close>

text \<open>
  C12. The life of a transaction.  Creating a transaction from a request never faults: it reports an
  error, or the transaction exists.  Then any sequence of well-formed events executes without a
  fault, the kill callback is called exactly once if the transaction ends in its final state and never
  otherwise, and when the transaction is released every message that came with an event or was
  created (the ACK) has been freed exactly once.
\<close>

theorem transaction_life:
  assumes "msg_ok req" and "req_uri req \<noteq> None" and "wf_time (env_now env)" and "steps_ok steps"
  shows "case transaction_new env tid ty (Some req) of
      None \<Rightarrow> False
    | Some (i, None) \<Rightarrow> i \<noteq> 0
    | Some (i, Some tr) \<Rightarrow> i = 0 \<and>
        (\<exists>tr' acts. execute_all tr steps = Some (tr', acts)
           \<and> kills acts = of_bool (state tr' = final_state ty)
           \<and> event_sips (map snd steps) + created acts = freed (acts @ osip_transaction_free2 tr'))"
  using transaction_new_result [OF assms(1-3), of tid ty]
proof (elim disjE exE conjE)
  fix tr
  assume n: "transaction_new env tid ty (Some req) = Some (OSIP_SUCCESS, Some tr)" and tr: "transaction_inv tr"
    "owned tr = {#}" "state tr \<noteq> final_state ty" "identity tr = identity (keyed env tid ty req)"
  have id: "ctx_type tr = ty" "transactionff tr = []" using tr(4) by (simp_all add: identity_def)
  obtain tr' acts where r: "execute_all tr steps = Some (tr', acts)" "identity tr' = identity tr"
      "kills acts = of_bool (state tr \<noteq> final_state ty \<and> state tr' = final_state ty)"
      "owned tr + event_sips (map snd steps) + created acts = owned tr' + freed acts"
    using execute_all_ok [OF tr(1) assms(4)] id(1) by auto
  have "transactionff tr' = []" using r(2) id(2) by (simp add: identity_def)
  with n r tr(2,3) show ?thesis by (auto simp: freed_free2 ac_simps)
qed simp

theorem transaction_life_witness:
  "(\<exists>tr' acts. execute_all sample_transaction sample_steps = Some (tr', acts)
     \<and> kills acts = of_bool (state tr' = final_state NICT)
     \<and> event_sips (map snd sample_steps) + created acts = freed (acts @ osip_transaction_free2 tr'))"
  using transaction_life [OF sample_ok(1,3,4,5), where tid = 1 and ty = NICT] by (simp add: sample_transaction_new)

text \<open>
  C13. Refinement of RFC 3261: in every reachable transaction, every well-formed event either is
  discarded and leaves the transaction as it is, or moves it along an edge of the state diagram of
  RFC 3261 for its type; the headers that identify the transaction and its event queue do not
  change.
\<close>

theorem transaction_follows_rfc3261:
  assumes "reachable tr" and "event_ok evt" and "wf_time (env_now env)"
  shows "\<exists>i tr' acts. osip_transaction_execute env tr evt = Some (i, tr', acts)
    \<and> (tr' = tr \<or> rfc3261_diagram (ctx_type tr) (state tr) (evt_type evt) (state tr'))
    \<and> identity tr' = identity tr"
  using execute_step [OF reachable_inv [OF assms(1)] assms(2,3)] by blast

theorem transaction_follows_rfc3261_witness:
  "\<exists>i tr' acts. osip_transaction_execute sample_env sample_transaction (osip_event_new TIMEOUT_E 1) = Some (i, tr', acts)
    \<and> (tr' = sample_transaction \<or>
       rfc3261_diagram (ctx_type sample_transaction) (state sample_transaction) (evt_type (osip_event_new TIMEOUT_E 1)) (state tr'))
    \<and> identity tr' = identity sample_transaction"
  by (rule transaction_follows_rfc3261 [OF sample_reachable _ sample_ok(4)])
    (simp add: event_ok_def EVT_IS_MSG_def osip_event_new_def less_eq_type_t_def)



text \<open>
  C15. The timers end a transaction: in every state that waits for a deadline (timer B, D, F, K, H, I or
  J) the timer runs, as soon as the clock is past it the timer event is due, and executing that event
  puts the transaction into its final state and calls the kill callback once.
\<close>

theorem transaction_deadline:
  assumes "reachable tr" and "deadline tr = Some t" and "osip_timer_gt now t" and "wf_time (env_now env)"
  shows "\<exists>evt tr' acts. deadline_event now tr = Some evt \<and> osip_transaction_execute env tr evt = Some (1, tr', acts)
    \<and> state tr' = final_state (ctx_type tr) \<and> kills acts = 1"
proof -
  note inv = reachable_inv [OF assms(1)]
  obtain ty where ty: "deadline_event now tr = Some (osip_event_new ty (transactionid tr))"
      "(state tr, ty) \<in> {(ICT_CALLING, TIMEOUT_B), (ICT_COMPLETED, TIMEOUT_D), (NICT_TRYING, TIMEOUT_F),
        (NICT_PROCEEDING, TIMEOUT_F), (NICT_COMPLETED, TIMEOUT_K), (IST_COMPLETED, TIMEOUT_H), (IST_CONFIRMED, TIMEOUT_I),
        (NIST_COMPLETED, TIMEOUT_J)}"
    using deadline_event_due [OF inv assms(2,3)] by blast
  let ?e = "osip_event_new ty (transactionid tr)"
  obtain tr' acts where x: "osip_transaction_execute env tr ?e = Some (1, tr', acts)" "state tr' = final_state (ctx_type tr)"
    using deadline_terminates [OF inv, of ty env "transactionid tr"] ty(2) deadline_states [OF inv assms(2)] by auto
  have "event_ok ?e" using ty(2) by (auto simp: event_ok_def EVT_IS_MSG_def osip_event_new_def less_eq_type_t_def)
  then have "kills acts = of_bool (state tr \<noteq> final_state (ctx_type tr) \<and> state tr' = final_state (ctx_type tr))"
    using execute_step [OF inv _ assms(4), of ?e] x(1) by auto
  moreover have "state tr \<noteq> final_state (ctx_type tr)"
    using ty(2) by (cases "ctx_type tr") (auto simp: final_state_def)
  ultimately show ?thesis using ty(1) x by auto
qed

definition sample_sent :: transaction where
  "sample_sent = (case osip_transaction_execute sample_env sample_transaction
      \<lparr>evt_type = SND_REQUEST, evt_transactionid = 1, evt_sip = Some sample_request\<rparr> of Some (_, tr, _) \<Rightarrow> tr)"

lemma sample_sent_execute:
  "\<exists>i acts. osip_transaction_execute sample_env sample_transaction
      \<lparr>evt_type = SND_REQUEST, evt_transactionid = 1, evt_sip = Some sample_request\<rparr> = Some (i, sample_sent, acts)"
proof -
  have "(case osip_transaction_execute sample_env sample_transaction
      \<lparr>evt_type = SND_REQUEST, evt_transactionid = 1, evt_sip = Some sample_request\<rparr> of Some _ \<Rightarrow> True | None \<Rightarrow> False)"
    by code_simp
  then show ?thesis by (auto simp: sample_sent_def split: option.splits)
qed

lemma sample_sent_reachable: "reachable sample_sent"
proof -
  have "event_ok \<lparr>evt_type = SND_REQUEST, evt_transactionid = 1, evt_sip = Some sample_request\<rparr>"
    using sample_ok(1) by (simp add: event_ok_def EVT_IS_MSG_def less_eq_type_t_def)
  then show ?thesis using sample_sent_execute reachable_step [OF sample_reachable _ sample_ok(4)] by blast
qed

lemma sample_sent_deadline: "deadline sample_sent = Some \<lparr>tv_sec = 132, tv_usec = 0\<rparr>"
  by code_simp

theorem transaction_deadline_witness:
  "\<exists>evt tr' acts. deadline_event \<lparr>tv_sec = 133, tv_usec = 0\<rparr> sample_sent = Some evt
    \<and> osip_transaction_execute sample_env sample_sent evt = Some (1, tr', acts)
    \<and> state tr' = final_state (ctx_type sample_sent) \<and> kills acts = 1"
  by (rule transaction_deadline [OF sample_sent_reachable sample_sent_deadline _ sample_ok(4)])
    (simp add: osip_timer_gt_def)

section \<open>Retransmissions\<close>

text \<open>An INVITE and a response to it that are complete enough to build the ACK.\<close>

definition ackable :: "message \<Rightarrow> message \<Rightarrow> cseq \<Rightarrow> via \<Rightarrow> bool" where
  "ackable orig resp cs v \<longleftrightarrow>
     (\<exists>f t cid u vs ver. msg_from resp = Some f \<and> from_ok f \<and> msg_to resp = Some t \<and> from_ok t
        \<and> msg_call_id resp = Some cid \<and> call_id_number cid \<noteq> None
        \<and> msg_cseq resp = Some cs \<and> cseq_method cs \<noteq> None \<and> cseq_number cs \<noteq> None
        \<and> sip_version orig = Some ver \<and> req_uri orig = Some u \<and> uri_ok u \<and> vias orig = v # vs \<and> via_ok v
        \<and> (\<forall>r\<in>set (routes orig). from_ok r))"

lemma ack_for_complete:
  assumes "ackable orig resp cs v"
  shows "ack_for orig resp = Some (rfc3261_ack orig resp cs v)"
proof -
  obtain f t cid u vs ver where a: "msg_from resp = Some f" "from_ok f" "msg_to resp = Some t" "from_ok t"
      "msg_call_id resp = Some cid" "call_id_number cid \<noteq> None" "msg_cseq resp = Some cs" "cseq_method cs \<noteq> None"
      "cseq_number cs \<noteq> None" "sip_version orig = Some ver" "req_uri orig = Some u" "uri_ok u" "vias orig = v # vs" "via_ok v"
      "\<forall>r\<in>set (routes orig). from_ok r"
    using assms unfolding ackable_def by blast
  have r: "list_clone osip_from_clone (routes orig) = (0, routes orig)"
    using list_clone_map [of "routes orig" osip_from_clone "\<lambda>x. x"] a(15) clones_of_ok(2) by simp
  have c: "osip_call_id_clone (Some cid) = (0, Some cid)"
    using a(6) by (cases cid) (auto simp: osip_call_id_clone_def osip_call_id_init_def)
  have q: "osip_cseq_clone (Some cs) = (0, Some cs)"
    using a(8,9) by (cases cs) (auto simp: osip_cseq_clone_def osip_cseq_init_def)
  have "ack_for orig resp \<noteq> None"
    using a(1-5,7,10-14) r c q clones_of_ok(1) [OF a(12)] clones_of_ok(2) [OF a(2)] clones_of_ok(2) [OF a(4)]
      clones_of_ok(3) [OF a(14)]
    by (simp add: ack_for_def clone_ok_def osip_to_clone_def get_top_via ack_credentials_eq osip_strdup_def Let_def)
  then obtain am where am: "ack_for orig resp = Some am" by blast
  from ack_for_exact [OF am] obtain cs' v' where "msg_cseq resp = Some cs'" "\<exists>ws. vias orig = v' # ws"
      "am = rfc3261_ack orig resp cs' v'" by blast
  with am a(7,13) show ?thesis by auto
qed


definition sample_invite :: message where
  "sample_invite = sample_request\<lparr>sip_method := Some ''INVITE'',
     msg_cseq := Some \<lparr>cseq_method = Some ''INVITE'', cseq_number = Some ''1''\<rparr>\<rparr>"

definition sample_ict :: transaction where
  "sample_ict = (case transaction_new sample_env 1 ICT (Some sample_invite) of Some (_, Some tr) \<Rightarrow> tr)"

definition sample_invite_event :: osip_event where
  "sample_invite_event = \<lparr>evt_type = SND_REQINVITE, evt_transactionid = 1, evt_sip = Some sample_invite\<rparr>"

definition sample_calling :: transaction where
  "sample_calling = (case osip_transaction_execute sample_env sample_ict sample_invite_event of Some (_, tr, _) \<Rightarrow> tr)"

lemma sample_invite_ok:
  "msg_ok sample_invite" "req_uri sample_invite \<noteq> None" "msg_ok (sample_response 486 sample_invite)"
  "event_ok sample_invite_event"
  by (simp_all add: sample_invite_def sample_response_def sample_request_def sample_invite_event_def msg_ok_def osip_uri_init_def
      osip_via_init_def osip_from_init_def osip_message_init_def MSG_IS_REQUEST_def event_ok_def EVT_IS_MSG_def less_eq_type_t_def)

lemma sample_calling_reachable: "reachable sample_calling"
proof -
  have n: "transaction_new sample_env 1 ICT (Some sample_invite) = Some (OSIP_SUCCESS, Some sample_ict)" by code_simp
  have "(case osip_transaction_execute sample_env sample_ict sample_invite_event of Some _ \<Rightarrow> True | None \<Rightarrow> False)" by code_simp
  then have "\<exists>i acts. osip_transaction_execute sample_env sample_ict sample_invite_event = Some (i, sample_calling, acts)"
    by (auto simp: sample_calling_def split: option.splits)
  then show ?thesis
    using reachable_step [OF reachable_new [OF n sample_invite_ok(1,2) sample_ok(4)] sample_invite_ok(4) sample_ok(4)] by blast
qed

lemma sample_calling_state:
  "ctx_type sample_calling = ICT" "state sample_calling = ICT_CALLING" "orig_request sample_calling = Some sample_invite"
  by code_simp+

definition sample_final :: osip_event where
  "sample_final = \<lparr>evt_type = RCV_STATUS_3456XX, evt_transactionid = 1, evt_sip = Some (sample_response 486 sample_invite)\<rparr>"

lemma sample_ackable:
  "ackable sample_invite (sample_response 486 sample_invite) \<lparr>cseq_method = Some ''INVITE'', cseq_number = Some ''1''\<rparr>
     (hd (vias sample_invite))"
  by (simp add: ackable_def sample_invite_def sample_response_def sample_request_def from_ok_def uri_ok_def via_ok_def
      osip_uri_init_def osip_via_init_def osip_from_init_def osip_message_init_def)


text \<open>
  C17. Retransmitted requests: in a server transaction that has sent a response (an INVITE server that is
  proceeding or completed, a non-INVITE server likewise), a retransmission of the request is freed and
  answered by sending the last response again, and the transaction does not change.
\<close>

theorem server_answers_retransmission:
  assumes "reachable tr" and "last_response tr = Some resp" and "vias resp \<noteq> []" and "msg_ok req"
    and "wf_time (env_now env)" and "\<forall>t m h p s. cb_send_message env t m h p s = 0"
    and "(ctx_type tr, state tr, ty) \<in> {(IST, IST_PROCEEDING, RCV_REQINVITE), (IST, IST_COMPLETED, RCV_REQINVITE),
           (NIST, NIST_PROCEEDING, RCV_REQUEST), (NIST, NIST_COMPLETED, RCV_REQUEST)}"
  shows "\<exists>acts. osip_transaction_execute env tr \<lparr>evt_type = ty, evt_transactionid = tid, evt_sip = Some req\<rparr> = Some (1, tr, acts)
    \<and> sends acts = [resp] \<and> freed acts = {#req#} \<and> kills acts = 0"
proof -
  let ?e = "\<lparr>evt_type = ty, evt_transactionid = tid, evt_sip = Some req\<rparr>"
  have ok: "msg_ok resp"
    using reachable_inv [OF assms(1)] assms(2,7)
    by (auto simp: transaction_inv_def machine_inv_def ist_inv_def ist_messages_ok_def nist_inv_def nist_messages_ok_def)
  obtain v vs where v: "vias resp = v # vs" using assms(3) by (cases "vias resp") auto
  have n: "named (via_params v)" using ok v by (simp add: msg_ok_def)
  obtain i1 r1 i2 r2 i3 r3 where b: "osip_uri_param_get_byname (via_params v) (Some ''maddr'') = Some (i1, r1)"
      "osip_uri_param_get_byname (via_params v) (Some ''received'') = Some (i2, r2)"
      "osip_uri_param_get_byname (via_params v) (Some ''rport'') = Some (i3, r3)"
    using get_byname_total [OF n] by meson
  obtain h p where s: "osip_transaction_snd_xxx env tr resp = Some (0, [Send resp h p (out_socket tr)])"
    using v b assms(6) by (simp add: osip_transaction_snd_xxx_def Let_def)
  have "\<exists>m acts. method_for ty (state tr) (statemachine_of (ctx_type tr)) = Some m \<and> m env tr ?e = Some (tr, acts)
      \<and> sends acts = [resp] \<and> freed acts = {#req#} \<and> kills acts = 0"
    using assms(2,7) s
    by (auto simp: method_for_def statemachine_of_def ist_fsm_def nist_fsm_def ist_rcv_invite_def nist_rcv_request_def)
  then obtain m acts where m: "method_for ty (state tr) (statemachine_of (ctx_type tr)) = Some m" "m env tr ?e = Some (tr, acts)"
      "sends acts = [resp]" "freed acts = {#req#}" "kills acts = 0" by blast
  then obtain t where "fsm_findmethod ty (state tr) (statemachine_of (ctx_type tr)) = Some t" "trans_method t = m"
    by (auto simp: method_for_def)
  with m show ?thesis using execute_found [of ?e tr t env tr acts] assms(7) by auto
qed

definition sample_nist :: transaction where
  "sample_nist = (case transaction_new sample_env 2 NIST (Some sample_request) of Some (_, Some tr) \<Rightarrow> tr)"

definition sample_answered :: transaction where
  "sample_answered = (case execute_all sample_nist
     [(sample_env, \<lparr>evt_type = RCV_REQUEST, evt_transactionid = 2, evt_sip = Some sample_request\<rparr>),
      (sample_env, \<lparr>evt_type = SND_STATUS_2XX, evt_transactionid = 2, evt_sip = Some (sample_response 200 sample_request)\<rparr>)]
     of Some (tr, _) \<Rightarrow> tr)"

lemma execute_all_reachable:
  "reachable tr \<Longrightarrow> steps_ok steps \<Longrightarrow> execute_all tr steps = Some (tr', acts) \<Longrightarrow> reachable tr'"
proof (induction steps arbitrary: tr acts)
  case (Cons s steps)
  obtain env evt where s: "s = (env, evt)" by (cases s)
  with Cons.prems obtain i tr1 acts1 acts2 where x: "osip_transaction_execute env tr evt = Some (i, tr1, acts1)"
      "execute_all tr1 steps = Some (tr', acts2)"
    by (auto simp: Option.bind_eq_Some_conv)
  have "reachable tr1" using reachable_step [OF Cons.prems(1) _ _ x(1)] Cons.prems(2) s by simp
  with Cons.IH [OF _ _ x(2)] Cons.prems(2) s show ?case by simp
qed simp

lemma sample_answered_reachable: "reachable sample_answered"
proof -
  let ?steps = "[(sample_env, \<lparr>evt_type = RCV_REQUEST, evt_transactionid = 2, evt_sip = Some sample_request\<rparr>),
      (sample_env, \<lparr>evt_type = SND_STATUS_2XX, evt_transactionid = 2, evt_sip = Some (sample_response 200 sample_request)\<rparr>)]"
  have n: "transaction_new sample_env 2 NIST (Some sample_request) = Some (OSIP_SUCCESS, Some sample_nist)" by code_simp
  have "(case execute_all sample_nist ?steps of Some _ \<Rightarrow> True | None \<Rightarrow> False)" by code_simp
  then have "\<exists>acts. execute_all sample_nist ?steps = Some (sample_answered, acts)"
    by (auto simp: sample_answered_def split: option.splits)
  moreover have "steps_ok ?steps"
    using sample_ok(1,4) sample_ok(2) [of 200] by (simp add: event_ok_def EVT_IS_MSG_def less_eq_type_t_def)
  ultimately show ?thesis
    using execute_all_reachable reachable_new [OF n sample_ok(1,3,4)] by blast
qed

theorem server_answers_retransmission_witness:
  "\<exists>acts. osip_transaction_execute sample_env sample_answered
      \<lparr>evt_type = RCV_REQUEST, evt_transactionid = 2, evt_sip = Some sample_request\<rparr> = Some (1, sample_answered, acts)
    \<and> sends acts = [sample_response 200 sample_request] \<and> freed acts = {#sample_request#} \<and> kills acts = 0"
proof (rule server_answers_retransmission [OF sample_answered_reachable _ _ sample_ok(1,4)])
  show "last_response sample_answered = Some (sample_response 200 sample_request)" by code_simp
  show "vias (sample_response 200 sample_request) \<noteq> []" by code_simp
  show "\<forall>t m h p s. cb_send_message sample_env t m h p s = 0" by (simp add: sample_env_def)
  have "ctx_type sample_answered = NIST" "state sample_answered = NIST_COMPLETED" by code_simp+
  then show "(ctx_type sample_answered, state sample_answered, RCV_REQUEST) \<in>
     {(IST, IST_PROCEEDING, RCV_REQINVITE), (IST, IST_COMPLETED, RCV_REQINVITE),
      (NIST, NIST_PROCEEDING, RCV_REQUEST), (NIST, NIST_COMPLETED, RCV_REQUEST)}" by simp
qed

end
