(* ===== verification/Osip_Matching.thy ===== *)
theory Osip_Matching
  imports Osip_Fsm_Proofs
begin

text \<open>
  Matching of incoming messages with transactions (RFC 3261, 17.1.3 and 17.2.3), stated over the
  messages: the branch of the top \<^verbatim>\<open>Via\<close>, the sent-by value with the default port and the method of
  \<^verbatim>\<open>CSeq\<close>.
\<close>

section \<open>Parameters by name\<close>

definition has_name :: "string \<Rightarrow> uri_param \<Rightarrow> bool" where
  "has_name name p \<longleftrightarrow> (case gname p of None \<Rightarrow> False | Some n \<Rightarrow> map tolower n = map tolower name)"

definition cnamed :: "uri_param list \<Rightarrow> bool" where
  "cnamed ps \<longleftrightarrow> (\<forall>p\<in>set ps. \<exists>n. gname p = Some n \<and> cstring n)"

lemma get_byname_find:
  assumes "cnamed ps" and "cstring name" and "name \<noteq> []"
  shows "osip_uri_param_get_byname ps (Some name) =
     Some (case find (has_name name) ps of None \<Rightarrow> (OSIP_UNDEFINED_ERROR, None) | Some p \<Rightarrow> (OSIP_SUCCESS, Some p))"
proof -
  have "get_byname_loop ps name =
     Some (case find (has_name name) ps of None \<Rightarrow> (OSIP_UNDEFINED_ERROR, None) | Some p \<Rightarrow> (OSIP_SUCCESS, Some p))"
    using assms(1)
  proof (induction ps)
    case (Cons p ps)
    then obtain n where n: "gname p = Some n" "cstring n" by (auto simp: cnamed_def)
    have "length name = length n \<and> osip_strncasecmp n name (length name) = 0 \<longleftrightarrow> map tolower n = map tolower name"
      using n(2) assms(2) map_eq_imp_length_eq [of tolower n tolower name]
      by (cases "length name = length n") (auto simp: osip_strncasecmp_def stricmp_zero_iff)
    with n(1) Cons show ?case by (simp add: cnamed_def has_name_def)
  qed simp
  with assms(3) show ?thesis by (simp add: osip_uri_param_get_byname_def)
qed

definition branch_value :: "via \<Rightarrow> string option" where
  "branch_value v = param_value (find (has_name ''branch'') (via_params v))"

lemma branch_cstring: "cstring ''branch''" by (simp add: NUL_def)

lemma via_branch_find: "cnamed (via_params v) \<Longrightarrow> via_branch v = Some (find (has_name ''branch'') (via_params v))"
  by (simp add: via_branch_def get_byname_find [OF _ branch_cstring] split: option.split)

section \<open>The keys of a new transaction\<close>

lemma transaction_new_keys:
  assumes "transaction_new env tid ty (Some req) = Some (OSIP_SUCCESS, Some tr)"
  shows "topvia tr = list_at (vias req) 0 \<and> tr_cseq tr = msg_cseq req
    \<and> (ty = ICT \<longrightarrow> ict_context tr \<noteq> None) \<and> (ty = NICT \<longrightarrow> nict_context tr \<noteq> None)
    \<and> (ty = IST \<longrightarrow> ist_context tr \<noteq> None) \<and> (ty = NIST \<longrightarrow> nist_context tr \<noteq> None)
    \<and> (\<exists>cs. msg_cseq req = Some cs \<and> cseq_method cs \<noteq> None)"
proof -
  have i: "init_context env (keyed env tid ty req) req = Some (OSIP_SUCCESS, Some tr)"
    and c: "\<exists>cs. msg_cseq req = Some cs \<and> cseq_method cs \<noteq> None"
    using transaction_new_cases [of env tid ty req] assms by auto
  have k: "topvia (keyed env tid ty req) = list_at (vias req) 0" "tr_cseq (keyed env tid ty req) = msg_cseq req"
    by (simp_all add: keyed_def)
  show ?thesis
    using i c k
    by (cases ty) (auto simp: init_context_def context_done_def Option.bind_eq_Some_conv split: prod.splits ptr.splits if_splits)
qed

section \<open>Properties\<close>

text \<open>
  C18. A response matches a client transaction exactly when its top \<^verbatim>\<open>Via\<close> has the branch of the request
  that created the transaction and its \<^verbatim>\<open>CSeq\<close> has the same method (RFC 3261, 17.1.3).
\<close>

theorem response_matching_iff:
  assumes "transaction_new env tid ty (Some req) = Some (OSIP_SUCCESS, Some tr)" and "ty = ICT \<or> ty = NICT"
    and "vias req = v # vs" and "cnamed (via_params v)" and "vias resp = w # ws" and "cnamed (via_params w)"
    and "cseq_method_of resp = Some m"
  shows "osip_transaction_matching_response_osip_to_xict_17_1_3 (Some tr) (Some resp) = Some OSIP_SUCCESS \<longleftrightarrow>
    branch_value v \<noteq> None \<and> branch_value w = branch_value v \<and> cseq_method_of req = Some m"
proof -
  obtain cs where cs: "msg_cseq req = Some cs" "cseq_method cs \<noteq> None" and k: "topvia tr = Some v" "tr_cseq tr = Some cs"
      "ict_context tr \<noteq> None \<or> nict_context tr \<noteq> None"
    using transaction_new_keys [OF assms(1)] assms(2,3) by auto
  have b: "via_branch v = Some (find (has_name ''branch'') (via_params v))"
      "via_branch w = Some (find (has_name ''branch'') (via_params w))"
    using via_branch_find assms(4,6) by blast+
  show ?thesis
    using assms(5,7) cs k b
    by (auto simp: osip_transaction_matching_response_osip_to_xict_17_1_3_def branch_value_def param_value_def
        cseq_method_of_def split: option.splits)
qed

definition sent_port :: "via \<Rightarrow> string" where
  "sent_port v = (case via_port v of None \<Rightarrow> ''5060'' | Some p \<Rightarrow> p)"

lemma same_sent_by_iff:
  "same_sent_by v w \<longleftrightarrow> via_host v \<noteq> None \<and> via_host v = via_host w \<and> sent_port v = sent_port w"
  by (auto simp: same_sent_by_def sent_port_def split: option.splits)

text \<open>
  C19. A request whose branch has the magic cookie matches a server transaction whose request had one
  exactly when the branches are equal, the sent-by values are equal (5060 being the default port) and
  the methods are equal, an ACK also matching the INVITE it acknowledges (RFC 3261, 17.2.3).
\<close>

theorem request_matching_iff:
  assumes "transaction_new env tid ty (Some orig) = Some (OSIP_SUCCESS, Some tr)" and "ty = IST \<or> ty = NIST"
    and "vias orig = v # vs" and "cnamed (via_params v)" and "vias req = w # ws" and "cnamed (via_params w)"
    and "cseq_method_of req = Some m" and "branch_value v = Some b" and "branch_value w = Some b'"
    and "take 7 b = magic_cookie" and "take 7 b' = magic_cookie"
  shows "osip_transaction_matching_request_osip_to_xist_17_2_3 (Some tr) (Some req) = Some OSIP_SUCCESS \<longleftrightarrow>
    b = b' \<and> via_host v \<noteq> None \<and> via_host v = via_host w \<and> sent_port v = sent_port w
    \<and> (cseq_method_of orig = Some m \<or> cseq_method_of orig = Some ''INVITE'' \<and> m = ''ACK'')"
proof -
  obtain cs m0 where cs: "msg_cseq orig = Some cs" "cseq_method cs = Some m0" and k: "topvia tr = Some v" "tr_cseq tr = Some cs"
      "ist_context tr \<noteq> None \<or> nist_context tr \<noteq> None"
    using transaction_new_keys [OF assms(1)] assms(2,3) by auto
  obtain p where p: "via_branch v = Some (Some p)" "gvalue p = Some b"
    using via_branch_find [OF assms(4)] assms(8) by (auto simp: branch_value_def param_value_def split: option.splits)
  obtain q where q: "via_branch w = Some (Some q)" "gvalue q = Some b'"
    using via_branch_find [OF assms(6)] assms(9) by (auto simp: branch_value_def param_value_def split: option.splits)
  have "osip_transaction_matching_request_osip_to_xist_17_2_3 (Some tr) (Some req) =
      (if length b \<noteq> length b' then Some OSIP_UNDEFINED_ERROR else match_rfc3261 tr m v w b b')"
    using assms(5,7,10,11) k p q by (auto simp: osip_transaction_matching_request_osip_to_xist_17_2_3_def)
  then show ?thesis
    using cs k by (auto simp: match_rfc3261_def same_sent_by_iff cseq_method_of_def)
qed

lemma sample_via_params: "vias sample_request = hd (vias sample_request) # []" "cnamed (via_params (hd (vias sample_request)))"
  "branch_value (hd (vias sample_request)) = Some ''z9hG4bK7''" "cseq_method_of sample_request = Some ''REGISTER''"
  by (simp_all add: sample_request_def osip_message_init_def osip_via_init_def cnamed_def NUL_def branch_value_def has_name_def
      param_value_def cseq_method_of_def)

theorem response_matching_iff_witness:
  "osip_transaction_matching_response_osip_to_xict_17_1_3 (Some sample_transaction) (Some (sample_response 200 sample_request))
     = Some OSIP_SUCCESS"
proof -
  have "vias (sample_response 200 sample_request) = hd (vias sample_request) # []"
    "cseq_method_of (sample_response 200 sample_request) = Some ''REGISTER''"
    using sample_via_params by (simp_all add: sample_response_def cseq_method_of_def)
  then show ?thesis
    using response_matching_iff [OF sample_transaction_new disjI2 [OF refl] sample_via_params(1,2) _ sample_via_params(2)]
      sample_via_params by simp
qed

theorem request_matching_iff_witness:
  "osip_transaction_matching_request_osip_to_xist_17_2_3 (Some sample_nist) (Some sample_request) = Some OSIP_SUCCESS"
proof -
  have n: "transaction_new sample_env 2 NIST (Some sample_request) = Some (OSIP_SUCCESS, Some sample_nist)" by code_simp
  have "via_host (hd (vias sample_request)) \<noteq> None" by code_simp
  then show ?thesis
    using request_matching_iff [OF n disjI2 [OF refl] sample_via_params(1,2) sample_via_params(1,2) sample_via_params(4,3,3)]
      sample_via_params(4) by (simp add: magic_cookie_def)
qed

end
