(* ===== verification/Osip_Dialog_Proofs.thy ===== *)
theory Osip_Dialog_Proofs
  imports Osip_Dialog Osip_Matching
begin

text \<open>
  Correctness of the dialogs (RFC 3261, section 12): the two ends of a call build mirror images of the
  same dialog, a message is recognised by its \<^verbatim>\<open>Call-ID\<close> and tags, and the route set is fixed once
  the dialog is confirmed.
\<close>

section \<open>What a dialog reads from a message\<close>

definition tag_value :: "from_hdr \<Rightarrow> string option" where
  "tag_value f = param_value (find (has_name ''tag'') (gen_params f))"

definition call_id_text :: "call_id \<Rightarrow> string option" where
  "call_id_text ci = map_option (\<lambda>n. n @ (case call_id_host ci of None \<Rightarrow> [] | Some h \<Rightarrow> ''@'' @ h)) (call_id_number ci)"

text \<open>A complete address with a tag, and the complete messages.\<close>

definition tagged :: "from_hdr \<Rightarrow> bool" where
  "tagged f \<longleftrightarrow> from_ok f \<and> cnamed (gen_params f) \<and> tag_value f \<noteq> None"

definition updatable :: "message \<Rightarrow> bool" where
  "updatable m \<longleftrightarrow> (\<forall>r\<in>set (record_routes m). from_ok r) \<and> (\<forall>c\<in>set (contacts m). from_ok c)"

definition dialog_msg :: "message \<Rightarrow> bool" where
  "dialog_msg m \<longleftrightarrow>
     (case msg_from m of None \<Rightarrow> False | Some f \<Rightarrow> tagged f) \<and> (case msg_to m of None \<Rightarrow> False | Some t \<Rightarrow> tagged t)
     \<and> (case msg_call_id m of None \<Rightarrow> False | Some ci \<Rightarrow> call_id_number ci \<noteq> None)
     \<and> (case msg_cseq m of None \<Rightarrow> False | Some cs \<Rightarrow> cseq_number cs \<noteq> None) \<and> updatable m"

lemma tag_cstring: "cstring ''tag''" by (simp add: NUL_def)

lemma get_tag_find:
  "cnamed (gen_params f) \<Longrightarrow> osip_from_get_tag f =
     Some (case find (has_name ''tag'') (gen_params f) of None \<Rightarrow> (OSIP_UNDEFINED_ERROR, None) | Some p \<Rightarrow> (OSIP_SUCCESS, Some p))"
  by (simp add: osip_from_get_tag_def get_byname_find [OF _ tag_cstring])

lemma get_tag_tagged:
  assumes "tagged f"
  obtains p where "osip_from_get_tag f = Some (OSIP_SUCCESS, Some p)" "gvalue p = tag_value f"
  using assms get_tag_find [of f]
  by (auto simp: tagged_def tag_value_def param_value_def split: option.splits)

lemma call_id_to_str_text:
  "call_id_text ci = Some s \<Longrightarrow> osip_call_id_to_str (Some ci) = Some (OSIP_SUCCESS, Some s)"
  by (cases "call_id_host ci")
    (auto simp: call_id_text_def osip_call_id_to_str_def sprintf_end_def)

lemma copy_routes_ok:
  "\<forall>r\<in>set rs. from_ok r \<Longrightarrow> copy_routes front rs acc = (OSIP_SUCCESS, if front then rev rs @ acc else acc @ rs)"
  by (induction rs arbitrary: acc) (auto simp: clones_of_ok)

section \<open>Creation\<close>

lemma dialog_init_ok:
  assumes "dialog_msg resp" and "msg_call_id resp = Some ci" and "msg_cseq resp = Some cs"
    and "cseq_number cs = Some n" and "tagged lc" and "tagged rm" and "updatable rmsg"
    and "invite_line invite = Some line"
  shows "osip_dialog_init invite (Some resp) (Some lc) (Some rm) (Some rmsg) =
    Some (OSIP_SUCCESS, Some \<lparr>dlg_call_id = call_id_text ci, local_tag = tag_value lc, remote_tag = tag_value rm,
      line_param = line, route_set = (if invite = None then rev (record_routes resp) else record_routes resp),
      local_cseq = osip_atoi n, remote_cseq = 0, remote_uri = Some rm, local_uri = Some lc,
      remote_contact_uri = list_at (contacts rmsg) 0, secure = -1, dlg_type = CALLER,
      dlg_state = (if MSG_IS_STATUS_2XX resp then DIALOG_CONFIRMED else DIALOG_EARLY)\<rparr>)"
proof -
  obtain p q where t: "osip_from_get_tag lc = Some (OSIP_SUCCESS, Some p)" "gvalue p = tag_value lc"
      "osip_from_get_tag rm = Some (OSIP_SUCCESS, Some q)" "gvalue q = tag_value rm"
    using get_tag_tagged assms(5,6) by metis
  obtain s where s: "call_id_text ci = Some s"
    using assms(1,2) by (auto simp: dialog_msg_def call_id_text_def)
  have rr: "copy_routes (invite = None) (record_routes resp) [] =
      (OSIP_SUCCESS, if invite = None then rev (record_routes resp) else record_routes resp)"
    using assms(1) copy_routes_ok [of "record_routes resp" "invite = None" "[]"]
    by (simp add: dialog_msg_def updatable_def)
  have addr: "dialog_addresses d resp lc rm (Some rmsg) = Some (OSIP_SUCCESS, Some (d\<lparr>local_cseq := osip_atoi n,
      remote_uri := Some rm, local_uri := Some lc, remote_contact_uri := list_at (contacts rmsg) 0, secure := -1\<rparr>))" for d
    using assms(3-7) by (cases "contacts rmsg")
      (auto simp: dialog_addresses_def osip_to_clone_def clones_of_ok tagged_def updatable_def)
  show ?thesis
    using t call_id_to_str_text [OF s] s rr addr assms(2,3,8)
    by (simp add: osip_dialog_init_def dialog_zero_def)
qed

lemma invite_line_ok:
  "req_uri m = Some u \<Longrightarrow> named (url_params u) \<Longrightarrow> \<exists>line. invite_line (Some m) = Some line"
  using get_byname_total [of "url_params u" "''line''"] by (auto simp: invite_line_def)

text \<open>
  C20. From a complete response both ends of a call build the same dialog, seen from opposite sides: the
  same \<^verbatim>\<open>Call-ID\<close>, the tags exchanged, the route set in reverse order at the caller, the remote target
  taken from the \<^verbatim>\<open>Contact\<close> of the other side, confirmed by a 2xx and early otherwise (RFC 3261,
  12.1.1 and 12.1.2).
\<close>

theorem dialog_ends_mirror:
  assumes "dialog_msg resp" and "updatable invite" and "req_uri invite = Some u" and "named (url_params u)"
  shows "\<exists>uac uas ci f t. osip_dialog_init_as_uac resp = Some (OSIP_SUCCESS, Some uac)
    \<and> osip_dialog_init_as_uas (Some invite) resp = Some (OSIP_SUCCESS, Some uas)
    \<and> msg_call_id resp = Some ci \<and> msg_from resp = Some f \<and> msg_to resp = Some t
    \<and> dlg_call_id uac = call_id_text ci \<and> dlg_call_id uas = call_id_text ci
    \<and> local_tag uac = tag_value f \<and> remote_tag uas = tag_value f
    \<and> remote_tag uac = tag_value t \<and> local_tag uas = tag_value t
    \<and> route_set uas = record_routes resp \<and> route_set uac = rev (record_routes resp)
    \<and> remote_contact_uri uac = list_at (contacts resp) 0 \<and> remote_contact_uri uas = list_at (contacts invite) 0
    \<and> local_uri uac = remote_uri uas \<and> remote_uri uac = local_uri uas
    \<and> local_cseq uac = remote_cseq uas \<and> dlg_type uac = CALLER \<and> dlg_type uas = CALLEE
    \<and> dlg_state uac = dlg_state uas \<and> (dlg_state uac = DIALOG_CONFIRMED) = MSG_IS_STATUS_2XX resp"
proof -
  obtain f t ci cs n where m: "msg_from resp = Some f" "tagged f" "msg_to resp = Some t" "tagged t"
      "msg_call_id resp = Some ci" "msg_cseq resp = Some cs" "cseq_number cs = Some n" "updatable resp"
    using assms(1) by (auto simp: dialog_msg_def split: option.splits)
  obtain line where line: "invite_line (Some invite) = Some line"
    using invite_line_ok [OF assms(3,4)] by blast
  have none: "invite_line None = Some None" by (simp add: invite_line_def)
  show ?thesis
    using dialog_init_ok [OF assms(1) m(5-7) m(2,4,8) none] dialog_init_ok [OF assms(1) m(5-7) m(4,2) assms(2) line] m
    by (simp add: osip_dialog_init_as_uac_def osip_dialog_init_as_uas_def)
qed

definition sample_answer :: message where
  "sample_answer = (sample_response 200 sample_invite)
     \<lparr>msg_to := map_option (\<lambda>t. t\<lparr>gen_params := [\<lparr>gname = Some ''tag'', gvalue = Some ''2''\<rparr>]\<rparr>) (msg_to sample_invite),
      record_routes := [osip_from_init\<lparr>from_url := Some (osip_uri_init\<lparr>scheme := Some ''sip'', host := Some ''p1''\<rparr>)\<rparr>,
                        osip_from_init\<lparr>from_url := Some (osip_uri_init\<lparr>scheme := Some ''sip'', host := Some ''p2''\<rparr>)\<rparr>]\<rparr>"

lemmas sample_msgs = sample_answer_def sample_response_def sample_invite_def sample_request_def osip_message_init_def
  osip_from_init_def osip_uri_init_def

lemma sample_answer_ok: "dialog_msg sample_answer" "updatable sample_invite"
    "req_uri sample_invite = Some (osip_uri_init\<lparr>scheme := Some ''sip'', host := Some ''a.com''\<rparr>)"
  by (simp_all add: sample_msgs dialog_msg_def updatable_def tagged_def from_ok_def uri_ok_def
      cnamed_def tag_value_def has_name_def param_value_def NUL_def osip_call_id_init_def)

theorem dialog_ends_mirror_witness:
  "\<exists>uac uas. osip_dialog_init_as_uac sample_answer = Some (OSIP_SUCCESS, Some uac)
    \<and> osip_dialog_init_as_uas (Some sample_invite) sample_answer = Some (OSIP_SUCCESS, Some uas)
    \<and> route_set uac = rev (route_set uas) \<and> local_tag uac = remote_tag uas"
  using dialog_ends_mirror [OF sample_answer_ok, unfolded osip_uri_init_def] by fastforce

section \<open>Recognition of a message\<close>

lemma match_call_id_text:
  "call_id_text ci = Some s \<Longrightarrow> match_call_id cid ci = Some (if cid = s then Inr () else Inl OSIP_UNDEFINED_ERROR)"
  by (simp add: match_call_id_def call_id_to_str_text)

lemma param_is_tag:
  "tagged f \<Longrightarrow> \<exists>p. osip_from_get_tag f = Some (OSIP_SUCCESS, p) \<and> param_is p s = Some (tag_value f = Some s)"
  by (rule get_tag_tagged [of f]) (auto simp: param_is_def tagged_def)


definition sample_dialog :: dialog where
  "sample_dialog = dialog_zero\<lparr>dlg_call_id := Some ''9'', local_tag := Some ''1'', remote_tag := Some ''2''\<rparr>"


text \<open>
  C22. A \<^verbatim>\<open>From\<close> header with a \<^verbatim>\<open>tag\<close> parameter without a value is compared with \<^verbatim>\<open>strcmp (NULL, ...)\<close>
  by both recognition functions: a request with such a header crashes an agent that has a dialog with
  the same \<^verbatim>\<open>Call-ID\<close>.
\<close>

theorem dialog_match_faults_on_empty_tag:
  assumes "msg_call_id m = Some ci" and "call_id_text ci = Some cid" and "msg_from m = Some f" and "msg_to m = Some t"
    and "cnamed (gen_params f)" and "find (has_name ''tag'') (gen_params f) = Some p" and "gvalue p = None"
    and "dlg_call_id d = Some cid" and "local_tag d = Some lt" and "remote_tag d = Some rt"
  shows "osip_dialog_match_as_uas (Some d) (Some m) = None \<and> osip_dialog_match_as_uac (Some d) (Some m) = None"
  using assms match_call_id_text [OF assms(2), of cid] get_tag_find [OF assms(5)]
  by (simp add: osip_dialog_match_as_uas_def osip_dialog_match_as_uac_def param_is_def)

definition sample_bad_answer :: message where
  "sample_bad_answer = sample_answer\<lparr>msg_from := Some (osip_from_init\<lparr>gen_params := [\<lparr>gname = Some ''tag'', gvalue = None\<rparr>]\<rparr>)\<rparr>"

theorem dialog_match_faults_on_empty_tag_witness:
  "osip_dialog_match_as_uas (Some sample_dialog) (Some sample_bad_answer) = None"
  using dialog_match_faults_on_empty_tag [of sample_bad_answer "\<lparr>call_id_number = Some ''9'', call_id_host = None\<rparr>" "''9''"
      "osip_from_init\<lparr>gen_params := [\<lparr>gname = Some ''tag'', gvalue = None\<rparr>]\<rparr>"
      "the (msg_to sample_answer)" "\<lparr>gname = Some ''tag'', gvalue = None\<rparr>" sample_dialog "''1''" "''2''"]
  by (simp add: sample_bad_answer_def sample_dialog_def sample_msgs call_id_text_def has_name_def cnamed_def NUL_def)

section \<open>The route set\<close>

definition uac_update :: "dialog \<Rightarrow> message \<Rightarrow> dialog" where
  "uac_update d m = (case osip_dialog_update_route_set_as_uac (Some d) (Some m) of (_, Some d') \<Rightarrow> d' | _ \<Rightarrow> d)"

lemma update_contact_keeps:
  "update_contact d cs = (i, d') \<Longrightarrow> \<exists>c. d' = d\<lparr>remote_contact_uri := c\<rparr>"
  by (cases d) (auto simp: update_contact_def split: list.splits prod.splits if_splits)

lemma uac_update_keys:
  "dlg_call_id (uac_update d m) = dlg_call_id d \<and> local_tag (uac_update d m) = local_tag d
   \<and> remote_tag (uac_update d m) = remote_tag d"
proof -
  obtain i d' where c: "update_contact d (contacts m) = (i, d')" by (cases "update_contact d (contacts m)")
  from update_contact_keeps [OF c] c show ?thesis
    by (auto simp: uac_update_def osip_dialog_update_route_set_as_uac_def Let_def split: prod.splits)
qed

lemma uac_update_confirmed:
  assumes "dlg_state d = DIALOG_CONFIRMED"
  shows "dlg_state (uac_update d m) = DIALOG_CONFIRMED \<and> route_set (uac_update d m) = route_set d"
proof -
  obtain i d' where c: "update_contact d (contacts m) = (i, d')" by (cases "update_contact d (contacts m)")
  from update_contact_keeps [OF c] c assms show ?thesis
    by (auto simp: uac_update_def osip_dialog_update_route_set_as_uac_def Let_def)
qed

lemma uac_update_early:
  assumes "dlg_state d = DIALOG_EARLY" and "updatable m"
  shows "dlg_state (uac_update d m) = (if MSG_IS_STATUS_2XX m then DIALOG_CONFIRMED else DIALOG_EARLY)
    \<and> route_set (uac_update d m) = rev (record_routes m)"
proof -
  obtain c where c: "update_contact d (contacts m) = (OSIP_SUCCESS, d\<lparr>remote_contact_uri := c\<rparr>)"
    using assms(2) by (cases "contacts m") (auto simp: update_contact_def updatable_def clones_of_ok intro: that [of "remote_contact_uri d"])
  show ?thesis
    using c assms copy_routes_ok [of "record_routes m" True "[]"]
    by (simp add: uac_update_def osip_dialog_update_route_set_as_uac_def updatable_def)
qed



end
