(* ===== verification/Osip_Small_Headers.thy ===== *)
theory Osip_Small_Headers
  imports Osip_Message
begin

text \<open>
  The small headers of a message and the functions that store a parsed header in it:
  \<^verbatim>\<open>Content-Type\<close>, \<^verbatim>\<open>Accept\<close>, \<^verbatim>\<open>Accept-Encoding\<close>, \<^verbatim>\<open>Accept-Language\<close>, \<^verbatim>\<open>Call-Info\<close>,
  \<^verbatim>\<open>Alert-Info\<close>, \<^verbatim>\<open>Error-Info\<close>, \<^verbatim>\<open>Allow\<close>, \<^verbatim>\<open>Content-Encoding\<close>, \<^verbatim>\<open>MIME-Version\<close> and the
  structured headers of theory \<open>Osip_Headers\<close> (\<^verbatim>\<open>osip_content_type.c\<close>, \<^verbatim>\<open>osip_accept.c\<close>,
  \<^verbatim>\<open>osip_accept_encoding.c\<close>, \<^verbatim>\<open>osip_call_info.c\<close> and the others named like their header).
\<close>

section \<open>Content-Type and Accept\<close>

definition osip_content_type_init :: content_type where
  "osip_content_type_init = \<lparr>ct_type = None, ct_subtype = None, ct_gen_params = []\<rparr>"

definition osip_content_type_parse :: "content_type \<Rightarrow> string option \<Rightarrow> int \<times> content_type" where
  "osip_content_type_parse ct hv =
     (case hv of
        None \<Rightarrow> (OSIP_SUCCESS, ct)
      | Some value \<Rightarrow>
          if chr_at value 0 = NUL then (OSIP_SUCCESS, ct)
          else
            (case strchr value 0 (CHR ''/'') of
               None \<Rightarrow> (OSIP_SYNTAXERROR, ct)
             | Some subtype \<Rightarrow>
                 (let params = strchr value 0 (CHR '';'');
                      (i, ps) = (case params of
                                   Some p \<Rightarrow> osip_generic_param_parseall (ct_gen_params ct) (drop p value)
                                 | None \<Rightarrow> (OSIP_SUCCESS, ct_gen_params ct));
                      ct = ct\<lparr>ct_gen_params := ps\<rparr>;
                      pend = (case params of Some p \<Rightarrow> p | None \<Rightarrow> length value)
                  in if i \<noteq> 0 then (i, ct)
                     else if subtype + 1 < 2 then (OSIP_SYNTAXERROR, ct)
                     else let ct = ct\<lparr>ct_type := Some (osip_clrncpy value 0 subtype)\<rparr>
                          in if int pend - int subtype < 2 then (OSIP_SYNTAXERROR, ct)
                             else (OSIP_SUCCESS,
                                   ct\<lparr>ct_subtype := Some (osip_clrncpy value (subtype + 1) (pend - subtype - 1))\<rparr>))))"

text \<open>
  The parameter loop of \<^verbatim>\<open>osip_content_type_to_str\<close> and \<^verbatim>\<open>osip_accept_to_str\<close>: the buffer is only
  enlarged when it is too small, and a parameter without a value ends the printing with an error.
\<close>

fun print_ct_params :: "nat \<Rightarrow> string \<Rightarrow> uri_param list \<Rightarrow> (int \<times> string option) option" where
  "print_ct_params len buf [] = Some (OSIP_SUCCESS, Some buf)"
| "print_ct_params len buf (u_param # ps) =
     (case gvalue u_param of
        None \<Rightarrow> Some (OSIP_SYNTAXERROR, None)
      | Some v \<Rightarrow> do {
          n \<leftarrow> gname u_param;
          let tmp_len = length buf + 4 + length n + length v + 1;
          let len = (if len < tmp_len then tmp_len else len);
          print_ct_params len (snprintf_end len buf (''; '' @ n @ ''='' @ v)) ps })"

definition osip_content_type_to_str :: "content_type option \<Rightarrow> (int \<times> string option) option" where
  "osip_content_type_to_str ctp =
     (case ctp of
        None \<Rightarrow> Some (OSIP_BADPARAMETER, None)
      | Some ct \<Rightarrow>
          (case (ct_type ct, ct_subtype ct) of
             (Some t, Some s) \<Rightarrow> do {
               let len = length t + length s + 4 + 10 * length (ct_gen_params ct);
               buf \<leftarrow> sprintf_end len [] (t @ ''/'' @ s);
               print_ct_params len buf (ct_gen_params ct) }
           | _ \<Rightarrow> Some (OSIP_BADPARAMETER, None)))"

definition osip_content_type_clone :: "content_type option \<Rightarrow> int \<times> content_type option" where
  "osip_content_type_clone ctp =
     (case ctp of
        None \<Rightarrow> (OSIP_BADPARAMETER, None)
      | Some ct \<Rightarrow>
          (case param_list_clone (ct_gen_params ct) of
             (i, ps) \<Rightarrow>
               if i \<noteq> 0 then (i, None)
               else (OSIP_SUCCESS, Some (osip_content_type_init\<lparr>ct_type := dup (ct_type ct),
                       ct_subtype := dup (ct_subtype ct), ct_gen_params := ps\<rparr>))))"

text \<open>
  \<^verbatim>\<open>osip_accept_to_str\<close> prints an empty header for a header without text; when only one of the two
  parts is \<^verbatim>\<open>NULL\<close> it hands \<^verbatim>\<open>NULL\<close> to \<^verbatim>\<open>sprintf\<close>.
\<close>

definition osip_accept_to_str :: "content_type option \<Rightarrow> (int \<times> string option) option" where
  "osip_accept_to_str ap =
     (case ap of
        None \<Rightarrow> Some (OSIP_BADPARAMETER, None)
      | Some a \<Rightarrow>
          (let len = (case ct_type a of None \<Rightarrow> 0 | Some t \<Rightarrow> length t) + (case ct_subtype a of None \<Rightarrow> 0 | Some s \<Rightarrow> length s)
           in if len = 0 then Some (OSIP_SUCCESS, Some '' '')
              else do {
                let len = len + 4 + 10 * length (ct_gen_params a);
                t \<leftarrow> ct_type a;
                s \<leftarrow> ct_subtype a;
                buf \<leftarrow> sprintf_end len [] (t @ ''/'' @ s);
                print_ct_params len buf (ct_gen_params a) }))"

section \<open>Accept-Encoding and Call-Info\<close>

definition osip_accept_encoding_init :: accept_encoding where
  "osip_accept_encoding_init = \<lparr>ae_element = None, ae_gen_params = []\<rparr>"

text \<open>The element in front of the first semicolon at or behind offset \<open>at\<close>, and the parameters behind it.\<close>

definition parse_element :: "uri_param list \<Rightarrow> string \<Rightarrow> nat \<Rightarrow> int \<times> string option \<times> uri_param list" where
  "parse_element gps value at =
     (let params = strchr value at (CHR '';'');
          (i, ps) = (case params of
                       Some p \<Rightarrow> osip_generic_param_parseall gps (drop p value)
                     | None \<Rightarrow> (OSIP_SUCCESS, gps));
          pend = (case params of Some p \<Rightarrow> p | None \<Rightarrow> length value)
      in if i \<noteq> 0 then (i, None, ps)
         else if pend + 1 < 2 then (OSIP_SYNTAXERROR, None, ps)
         else (OSIP_SUCCESS, Some (osip_clrncpy value 0 pend), ps))"

definition osip_accept_encoding_parse :: "accept_encoding \<Rightarrow> string \<Rightarrow> int \<times> accept_encoding" where
  "osip_accept_encoding_parse ae value =
     (case parse_element (ae_gen_params ae) value 0 of
        (i, e, ps) \<Rightarrow> (i, ae\<lparr>ae_gen_params := ps, ae_element := (if i = 0 then e else ae_element ae)\<rparr>))"

definition osip_accept_encoding_to_str :: "accept_encoding option \<Rightarrow> (int \<times> string option) option" where
  "osip_accept_encoding_to_str aep =
     (case aep of
        None \<Rightarrow> Some (OSIP_BADPARAMETER, None)
      | Some ae \<Rightarrow>
          (case ae_element ae of
             None \<Rightarrow> Some (OSIP_BADPARAMETER, None)
           | Some e \<Rightarrow> do {
               let len = length e + 2;
               buf \<leftarrow> sprintf_end len [] e;
               (len, buf) \<leftarrow> snprint_generic_params len buf (ae_gen_params ae);
               Some (OSIP_SUCCESS, Some buf) }))"

definition osip_accept_encoding_clone :: "accept_encoding option \<Rightarrow> int \<times> accept_encoding option" where
  "osip_accept_encoding_clone aep =
     (case aep of
        None \<Rightarrow> (OSIP_BADPARAMETER, None)
      | Some ae \<Rightarrow>
          if ae_element ae = None then (OSIP_BADPARAMETER, None)
          else (case param_list_clone (ae_gen_params ae) of
                  (i, ps) \<Rightarrow>
                    if i \<noteq> 0 then (i, None)
                    else (OSIP_SUCCESS, Some (osip_accept_encoding_init\<lparr>ae_element := osip_strdup (ae_element ae),
                            ae_gen_params := ps\<rparr>))))"

definition osip_call_info_init :: call_info where
  "osip_call_info_init = \<lparr>ci_element = None, ci_gen_params = []\<rparr>"

definition osip_call_info_parse :: "call_info \<Rightarrow> string \<Rightarrow> int \<times> call_info" where
  "osip_call_info_parse ci value =
     (case strchr value 0 (CHR ''<'') of
        None \<Rightarrow> (OSIP_SYNTAXERROR, ci)
      | Some lt \<Rightarrow>
          (case strchr value (lt + 1) (CHR ''>'') of
             None \<Rightarrow> (OSIP_SYNTAXERROR, ci)
           | Some gt \<Rightarrow>
               (case parse_element (ci_gen_params ci) value (gt + 1) of
                  (i, e, ps) \<Rightarrow> (i, ci\<lparr>ci_gen_params := ps, ci_element := (if i = 0 then e else ci_element ci)\<rparr>))))"

definition osip_call_info_to_str :: "call_info option \<Rightarrow> (int \<times> string option) option" where
  "osip_call_info_to_str cip =
     (case cip of
        None \<Rightarrow> Some (OSIP_BADPARAMETER, None)
      | Some ci \<Rightarrow>
          (case ci_element ci of
             None \<Rightarrow> Some (OSIP_BADPARAMETER, None)
           | Some e \<Rightarrow> do {
               let len = length e + 2;
               buf \<leftarrow> sprintf_end len [] e;
               (len, buf) \<leftarrow> sprint_generic_params len buf (ci_gen_params ci);
               Some (OSIP_SUCCESS, Some buf) }))"

definition osip_call_info_clone :: "call_info option \<Rightarrow> int \<times> call_info option" where
  "osip_call_info_clone cip =
     (case cip of
        None \<Rightarrow> (OSIP_BADPARAMETER, None)
      | Some ci \<Rightarrow>
          if ci_element ci = None then (OSIP_BADPARAMETER, None)
          else (case list_clone osip_uri_param_clone (ci_gen_params ci) of
                  (i, ps) \<Rightarrow>
                    if i \<noteq> 0 then (i, None)
                    else (OSIP_SUCCESS, Some (osip_call_info_init\<lparr>ci_element := osip_strdup (ci_element ci),
                            ci_gen_params := ps\<rparr>))))"

definition osip_content_disposition_parse :: "call_info \<Rightarrow> string \<Rightarrow> int \<times> call_info" where
  "osip_content_disposition_parse cd value =
     (case parse_element (ci_gen_params cd) value 0 of
        (i, e, ps) \<Rightarrow> (i, cd\<lparr>ci_gen_params := ps, ci_element := (if i = 0 then e else ci_element cd)\<rparr>))"

section \<open>Storing a header in a message\<close>

text \<open>
  A setter parses the value into a fresh header; on success it adds the header to its list and marks
  the message as changed.  An empty value is accepted and ignored.
\<close>

definition add_parsed :: "('h \<Rightarrow> message \<Rightarrow> message) \<Rightarrow> message \<Rightarrow> int \<times> 'h \<Rightarrow> int \<times> message" where
  "add_parsed store sip r =
     (case r of (i, h) \<Rightarrow> if i \<noteq> 0 then (i, sip) else (OSIP_SUCCESS, store h (sip\<lparr>message_property := 2\<rparr>)))"

definition list_setter ::
  "(string \<Rightarrow> int \<times> 'h) \<Rightarrow> ('h \<Rightarrow> message \<Rightarrow> message) \<Rightarrow> message \<Rightarrow> string option \<Rightarrow> int \<times> message" where
  "list_setter parse store sip hv =
     (case hv of
        None \<Rightarrow> (OSIP_SUCCESS, sip)
      | Some v \<Rightarrow> if chr_at v 0 = NUL then (OSIP_SUCCESS, sip) else add_parsed store sip (parse v))"

text \<open>
  A header that may occur once: a second one is refused with \<open>err\<close>; a value that does not parse leaves
  the field \<^verbatim>\<open>NULL\<close> but the message marked.
\<close>

definition single_setter ::
  "int \<Rightarrow> (message \<Rightarrow> 'h option) \<Rightarrow> (string \<Rightarrow> int \<times> 'h) \<Rightarrow> ('h \<Rightarrow> message \<Rightarrow> message)
   \<Rightarrow> message \<Rightarrow> string option \<Rightarrow> int \<times> message" where
  "single_setter err get parse store sip hv =
     (case hv of
        None \<Rightarrow> (OSIP_SUCCESS, sip)
      | Some v \<Rightarrow>
          if chr_at v 0 = NUL then (OSIP_SUCCESS, sip)
          else (case get sip of
                  Some _ \<Rightarrow> (err, sip)
                | None \<Rightarrow>
                    (case parse v of
                       (i, h) \<Rightarrow> if i \<noteq> 0 then (i, sip\<lparr>message_property := 2\<rparr>)
                                 else (OSIP_SUCCESS, store h (sip\<lparr>message_property := 2\<rparr>)))))"

text \<open>The parsers of the address headers work on a pointer; here it is never \<^verbatim>\<open>NULL\<close>.\<close>

definition parse_into :: "'h \<Rightarrow> int \<times> 'h option \<Rightarrow> int \<times> 'h" where
  "parse_into d r = (case r of (i, h) \<Rightarrow> (i, case h of None \<Rightarrow> d | Some x \<Rightarrow> x))"

definition osip_message_set_content_type :: "message \<Rightarrow> string option \<Rightarrow> int \<times> message" where
  "osip_message_set_content_type sip hv =
     (if msg_content_type sip \<noteq> None then (OSIP_BADPARAMETER, sip)
      else single_setter OSIP_BADPARAMETER msg_content_type (\<lambda>v. osip_content_type_parse osip_content_type_init (Some v))
             (\<lambda>h m. m\<lparr>msg_content_type := Some h\<rparr>) sip hv)"

definition osip_message_set_accept :: "message \<Rightarrow> string option \<Rightarrow> int \<times> message" where
  "osip_message_set_accept sip hv =
     add_parsed (\<lambda>h m. m\<lparr>accepts := accepts m @ [h]\<rparr>) sip (osip_content_type_parse osip_content_type_init hv)"

definition osip_message_set_accept_encoding :: "message \<Rightarrow> string option \<Rightarrow> int \<times> message" where
  "osip_message_set_accept_encoding =
     list_setter (osip_accept_encoding_parse osip_accept_encoding_init) (\<lambda>h m. m\<lparr>accept_encodings := accept_encodings m @ [h]\<rparr>)"

definition osip_message_set_accept_language :: "message \<Rightarrow> string option \<Rightarrow> int \<times> message" where
  "osip_message_set_accept_language =
     list_setter (osip_accept_encoding_parse osip_accept_encoding_init) (\<lambda>h m. m\<lparr>accept_languages := accept_languages m @ [h]\<rparr>)"

definition osip_message_set_call_info :: "message \<Rightarrow> string option \<Rightarrow> int \<times> message" where
  "osip_message_set_call_info =
     list_setter (osip_call_info_parse osip_call_info_init) (\<lambda>h m. m\<lparr>call_infos := call_infos m @ [h]\<rparr>)"

definition osip_message_set_alert_info :: "message \<Rightarrow> string option \<Rightarrow> int \<times> message" where
  "osip_message_set_alert_info =
     list_setter (osip_call_info_parse osip_call_info_init) (\<lambda>h m. m\<lparr>alert_infos := alert_infos m @ [h]\<rparr>)"

definition osip_message_set_error_info :: "message \<Rightarrow> string option \<Rightarrow> int \<times> message" where
  "osip_message_set_error_info =
     list_setter (osip_call_info_parse osip_call_info_init) (\<lambda>h m. m\<lparr>error_infos := error_infos m @ [h]\<rparr>)"

abbreviation parse_plain :: "string \<Rightarrow> int \<times> content_length" where
  "parse_plain v \<equiv> osip_content_length_parse osip_content_length_init (Some v)"

definition osip_message_set_allow :: "message \<Rightarrow> string option \<Rightarrow> int \<times> message" where
  "osip_message_set_allow = list_setter parse_plain (\<lambda>h m. m\<lparr>allows := allows m @ [h]\<rparr>)"

definition osip_message_set_content_encoding :: "message \<Rightarrow> string option \<Rightarrow> int \<times> message" where
  "osip_message_set_content_encoding = list_setter parse_plain (\<lambda>h m. m\<lparr>content_encodings := content_encodings m @ [h]\<rparr>)"

definition osip_message_set_content_length :: "message \<Rightarrow> string option \<Rightarrow> int \<times> message" where
  "osip_message_set_content_length =
     single_setter OSIP_SYNTAXERROR msg_content_length parse_plain (\<lambda>h m. m\<lparr>msg_content_length := Some h\<rparr>)"

definition osip_message_set_mime_version :: "message \<Rightarrow> string option \<Rightarrow> int \<times> message" where
  "osip_message_set_mime_version =
     single_setter OSIP_SYNTAXERROR mime_version parse_plain (\<lambda>h m. m\<lparr>mime_version := Some h\<rparr>)"

definition osip_message_set_call_id :: "message \<Rightarrow> string option \<Rightarrow> int \<times> message" where
  "osip_message_set_call_id =
     single_setter OSIP_SYNTAXERROR msg_call_id (osip_call_id_parse osip_call_id_init) (\<lambda>h m. m\<lparr>msg_call_id := Some h\<rparr>)"

definition osip_message_set_cseq :: "message \<Rightarrow> string option \<Rightarrow> int \<times> message" where
  "osip_message_set_cseq =
     single_setter OSIP_BADPARAMETER msg_cseq (\<lambda>v. parse_into osip_cseq_init (osip_cseq_parse (Some osip_cseq_init) (Some v)))
       (\<lambda>h m. m\<lparr>msg_cseq := Some h\<rparr>)"

abbreviation parse_address :: "string \<Rightarrow> int \<times> from_hdr" where
  "parse_address v \<equiv> parse_into osip_from_init (osip_from_parse (Some osip_from_init) (Some v))"

definition osip_message_set_from :: "message \<Rightarrow> string option \<Rightarrow> int \<times> message" where
  "osip_message_set_from = single_setter OSIP_SYNTAXERROR msg_from parse_address (\<lambda>h m. m\<lparr>msg_from := Some h\<rparr>)"

definition osip_message_set_to :: "message \<Rightarrow> string option \<Rightarrow> int \<times> message" where
  "osip_message_set_to = single_setter OSIP_SYNTAXERROR msg_to parse_address (\<lambda>h m. m\<lparr>msg_to := Some h\<rparr>)"

definition osip_message_set_contact :: "message \<Rightarrow> string option \<Rightarrow> int \<times> message" where
  "osip_message_set_contact =
     list_setter (\<lambda>v. parse_into osip_from_init (osip_contact_parse (Some osip_from_init) v)) (\<lambda>h m. m\<lparr>contacts := contacts m @ [h]\<rparr>)"

definition osip_message_set_route :: "message \<Rightarrow> string option \<Rightarrow> int \<times> message" where
  "osip_message_set_route = list_setter parse_address (\<lambda>h m. m\<lparr>routes := routes m @ [h]\<rparr>)"

definition osip_message_set_record_route :: "message \<Rightarrow> string option \<Rightarrow> int \<times> message" where
  "osip_message_set_record_route = list_setter parse_address (\<lambda>h m. m\<lparr>record_routes := record_routes m @ [h]\<rparr>)"

text \<open>\<^verbatim>\<open>osip_via_parse\<close> may read behind its argument; then the setter faults too.\<close>

definition osip_message_set_via :: "message \<Rightarrow> string option \<Rightarrow> (int \<times> message) option" where
  "osip_message_set_via sip hv =
     (case hv of
        None \<Rightarrow> Some (OSIP_SUCCESS, sip)
      | Some v \<Rightarrow>
          if chr_at v 0 = NUL then Some (OSIP_SUCCESS, sip)
          else map_option (add_parsed (\<lambda>h m. m\<lparr>vias := vias m @ [h]\<rparr>) sip) (osip_via_parse osip_via_init (Some v)))"

definition osip_message_append_via :: "message \<Rightarrow> string option \<Rightarrow> (int \<times> message) option" where
  "osip_message_append_via sip hv =
     map_option (add_parsed (\<lambda>h m. m\<lparr>vias := h # vias m\<rparr>) sip) (osip_via_parse osip_via_init hv)"

text \<open>\<^verbatim>\<open>osip_message_get_knownheaderlist\<close> and the getters of the same shape.\<close>

definition osip_message_get_knownheaderlist :: "'h list \<Rightarrow> int \<Rightarrow> int \<times> 'h option" where
  "osip_message_get_knownheaderlist hs pos =
     (if int (length hs) \<le> pos then (OSIP_UNDEFINED_ERROR, None) else (pos, list_at hs pos))"

end
