(* ===== verification/Osip_Auth.thy ===== *)
theory Osip_Auth
  imports Osip_Small_Headers
begin

text \<open>
  The authentication headers (\<^verbatim>\<open>osip_www_authenticate.c\<close>, \<^verbatim>\<open>osip_authorization.c\<close>,
  \<^verbatim>\<open>osip_authentication_info.c\<close> and the proxy variants, which share the structures and the code).
  The three parsers are the same loop over different tables of parameters: each entry says how the
  parameter is called, whether its value is quoted and which field holds it.
\<close>

section \<open>One parameter\<close>

definition is_sep :: "char \<Rightarrow> bool" where
  "is_sep c \<longleftrightarrow> c = CHR '' '' \<or> c = HT \<or> c = CHR '',''"

definition is_blank :: "char \<Rightarrow> bool" where
  "is_blank c \<longleftrightarrow> c = CHR '' '' \<or> c = HT"

text \<open>Where the next parameter starts behind offset \<open>tmp\<close>; \<open>None\<close> at the end of the header.\<close>

definition next_element :: "string \<Rightarrow> nat \<Rightarrow> nat option" where
  "next_element s tmp =
     (let tmp = skip_chars is_blank s tmp;
          tmp = skip_chars (\<lambda>c. c = LF \<or> c = CR) s tmp
      in if chr_at s tmp = NUL then None
         else if \<not> is_blank (chr_at s tmp) then Some tmp
         else let tmp = skip_chars is_blank s tmp in if chr_at s tmp = NUL then None else Some tmp)"

text \<open>The end of a parameter name in front of the equals sign at offset \<open>hack\<close>.\<close>

fun back_blanks :: "string \<Rightarrow> nat \<Rightarrow> nat" where
  "back_blanks s hack = (if 0 < hack \<and> chr_at s (hack - 1) = CHR '' '' then back_blanks s (hack - 1) else hack)"

declare back_blanks.simps [simp del]

text \<open>\<^verbatim>\<open>__osip_quoted_string_set\<close> on the header \<open>s\<close> from offset \<open>str\<close>: return code, result and next offset.\<close>

definition osip_quoted_string_set ::
  "string \<Rightarrow> string \<Rightarrow> nat \<Rightarrow> string option \<Rightarrow> int \<times> string option \<times> nat option" where
  "osip_quoted_string_set name s str result =
     (if result \<noteq> None then (OSIP_SUCCESS, result, Some str)
      else
        (let str = skip_chars is_sep s str
         in if osip_strncasecmp name (drop str s) (length name) \<noteq> 0 then (OSIP_SUCCESS, result, Some str)
            else
              (case strchr s str (CHR ''='') of
                 None \<Rightarrow> (OSIP_SYNTAXERROR, result, None)
               | Some e \<Rightarrow>
                   (let hack = back_blanks s e
                    in if hack \<noteq> str + length name then (OSIP_SUCCESS, result, Some str)
                       else
                         (case osip_quote_find s str of
                            None \<Rightarrow> (OSIP_SYNTAXERROR, result, None)
                          | Some quote1 \<Rightarrow>
                              (case osip_quote_find s (quote1 + 1) of
                                 None \<Rightarrow> (OSIP_SYNTAXERROR, result, None)
                               | Some quote2 \<Rightarrow>
                                   (OSIP_SUCCESS,
                                    (if quote2 - quote1 = 1 then result
                                     else Some (osip_strncpy s quote1 (quote2 - quote1 + 1))),
                                    next_element s (quote2 + 1))))))))"

definition osip_token_set ::
  "string \<Rightarrow> string \<Rightarrow> nat \<Rightarrow> string option \<Rightarrow> int \<times> string option \<times> nat option" where
  "osip_token_set name s str result =
     (if result \<noteq> None then (OSIP_SUCCESS, result, Some str)
      else
        (case strchr s str (CHR ''='') of
           None \<Rightarrow> (OSIP_SYNTAXERROR, result, None)
         | Some beg \<Rightarrow>
             if length s - str < 6 then (OSIP_SUCCESS, result, None)
             else
               (let str = skip_chars is_sep s str
                in if osip_strncasecmp name (drop str s) (length name) \<noteq> 0 then (OSIP_SUCCESS, result, Some str)
                   else
                     (let tend = (case strchr s str (CHR '','') of Some e \<Rightarrow> e | None \<Rightarrow> length s)
                      in if int tend - int beg < 2 then (OSIP_SYNTAXERROR, result, None)
                         else (OSIP_SUCCESS, Some (osip_clrncpy s (beg + 1) (tend - beg - 1)),
                               next_element s (if tend < length s then tend + 1 else tend))))))"

section \<open>The loop over the parameters\<close>

record 'a field =
  fquoted :: bool
  fname :: string
  fget :: "'a \<Rightarrow> string option"
  fset :: "string option \<Rightarrow> 'a \<Rightarrow> 'a"

definition field_set :: "'a field \<Rightarrow> string \<Rightarrow> nat \<Rightarrow> 'a \<Rightarrow> int \<times> string option \<times> nat option" where
  "field_set f s space a =
     (if fquoted f then osip_quoted_string_set (fname f) s space (fget f a)
      else osip_token_set (fname f) s space (fget f a))"

text \<open>
  One round through the table: \<open>Inl\<close> is a return from the parser, \<open>Inr\<close> the offset reached, the
  header and whether the offset moved (\<^verbatim>\<open>parse_ok\<close>).
\<close>

fun try_fields :: "'a field list \<Rightarrow> string \<Rightarrow> nat \<Rightarrow> 'a \<Rightarrow> bool \<Rightarrow> (int \<times> 'a) + (nat \<times> 'a \<times> bool)" where
  "try_fields [] s space a parse_ok = Inr (space, a, parse_ok)"
| "try_fields (f # fs) s space a parse_ok =
     (case field_set f s space a of
        (i, result, nxt) \<Rightarrow>
          (let a = fset f result a
           in if i \<noteq> 0 then Inl (i, a)
              else case nxt of
                     None \<Rightarrow> Inl (OSIP_SUCCESS, a)
                   | Some n \<Rightarrow> try_fields fs s n a (parse_ok \<or> n \<noteq> space)))"

text \<open>The jump over a parameter that no entry of the table understands; \<open>Inl\<close> is a return.\<close>

definition skip_unknown :: "string \<Rightarrow> nat \<Rightarrow> int + nat" where
  "skip_unknown s space =
     (if length s - space < 1 then Inl OSIP_SUCCESS
      else
        (case strchr s (space + 1) (CHR '','') of
           None \<Rightarrow> Inl OSIP_SUCCESS
         | Some tmp \<Rightarrow>
             (case osip_quote_find s space of
                None \<Rightarrow> Inr tmp
              | Some quote1 \<Rightarrow>
                  if quote1 < tmp then
                    (case osip_quote_find s (quote1 + 1) of
                       None \<Rightarrow> Inl OSIP_SYNTAXERROR
                     | Some quote2 \<Rightarrow>
                         if tmp < quote2 then
                           (case strchr s quote2 (CHR '','') of None \<Rightarrow> Inl OSIP_SUCCESS | Some c \<Rightarrow> Inr c)
                         else Inr tmp)
                  else Inr tmp)))"

lemma skip_chars_ge: "i \<le> skip_chars P s i"
  by (simp add: skip_chars_def)

lemma skip_chars_le: "i \<le> length s \<Longrightarrow> skip_chars P s i \<le> length s"
  using length_takeWhile_le [of P "drop i s"] by (simp add: skip_chars_def)

lemma next_element_bounds:
  assumes "next_element s tmp = Some n"
  shows "tmp \<le> n \<and> n < length s"
proof -
  let ?a = "skip_chars is_blank s tmp"
  let ?b = "skip_chars (\<lambda>c. c = LF \<or> c = CR) s ?a"
  let ?c = "skip_chars is_blank s ?b"
  have "tmp \<le> ?a" "?a \<le> ?b" "?b \<le> ?c" by (rule skip_chars_ge)+
  moreover have "chr_at s i \<noteq> NUL \<Longrightarrow> i < length s" for i by (auto simp: chr_at_def split: if_splits)
  ultimately show ?thesis
    using assms unfolding next_element_def Let_def by (fastforce split: if_splits)
qed

lemma quote_find_bounds: "osip_quote_find s i = Some j \<Longrightarrow> i \<le> j \<and> j < length s"
proof -
  have "find_quote e t = Some k \<Longrightarrow> k < length t" for e t k
    by (induction t arbitrary: e k) (auto split: if_splits)
  from this [of False "drop i s"] show "osip_quote_find s i = Some j \<Longrightarrow> i \<le> j \<and> j < length s"
    by (auto simp: osip_quote_find_eq)
qed

lemma quoted_string_set_bounds:
  assumes "osip_quoted_string_set name s space res = (i, result, Some n)" and "space \<le> length s"
  shows "space \<le> n \<and> n \<le> length s"
proof -
  let ?str = "skip_chars is_sep s space"
  have str: "space \<le> ?str" "?str \<le> length s" using skip_chars_ge skip_chars_le [OF assms(2)] by auto
  consider "n = space" | "n = ?str"
    | q1 q2 where "osip_quote_find s ?str = Some q1" "osip_quote_find s (q1 + 1) = Some q2" "next_element s (q2 + 1) = Some n"
    using assms(1) unfolding osip_quoted_string_set_def Let_def
    by (auto split: if_split_asm option.split_asm)
  then show ?thesis
  proof cases
    case (3 q1 q2)
    then show ?thesis
      using quote_find_bounds [OF 3(1)] quote_find_bounds [OF 3(2)] next_element_bounds [OF 3(3)] str by linarith
  qed (use str assms(2) in simp_all)
qed

lemma token_set_bounds:
  assumes "osip_token_set name s space res = (i, result, Some n)" and "space \<le> length s"
  shows "space \<le> n \<and> n \<le> length s"
proof -
  let ?str = "skip_chars is_sep s space"
  let ?stop = "case strchr s ?str (CHR '','') of Some e \<Rightarrow> e | None \<Rightarrow> length s"
  have str: "space \<le> ?str" "?str \<le> length s" using skip_chars_ge skip_chars_le [OF assms(2)] by auto
  have tend: "space \<le> ?stop" using str strchr_bounds [of s ?str "CHR '',''"] by (auto split: option.split)
  consider "n = space" | "n = ?str" | "next_element s (if ?stop < length s then ?stop + 1 else ?stop) = Some n"
    using assms(1) unfolding osip_token_set_def Let_def by (auto split: if_split_asm option.split_asm)
  then show ?thesis
  proof cases
    case 3
    then show ?thesis using next_element_bounds [OF 3] tend by (simp split: if_split_asm)
  qed (use str assms(2) in simp_all)
qed

lemma field_set_bounds:
  "field_set f s space a = (i, result, Some n) \<Longrightarrow> space \<le> length s \<Longrightarrow> space \<le> n \<and> n \<le> length s"
  using quoted_string_set_bounds token_set_bounds by (auto simp: field_set_def split: if_split_asm)

lemma try_fields_bounds:
  "try_fields fs s space a ok = Inr (n, b, ok') \<Longrightarrow> space \<le> length s \<Longrightarrow>
   space \<le> n \<and> n \<le> length s \<and> (ok' \<longrightarrow> ok \<or> space < n) \<and> (ok \<longrightarrow> ok')"
proof (induction fs arbitrary: space a ok)
  case (Cons f fs)
  obtain i r x where e: "field_set f s space a = (i, r, x)" by (metis prod_cases3)
  with Cons.prems(1) obtain y where y: "x = Some y" "try_fields fs s y (fset f r a) (ok \<or> y \<noteq> space) = Inr (n, b, ok')"
    by (auto simp: Let_def split: if_splits option.splits)
  have "space \<le> y \<and> y \<le> length s" using field_set_bounds e y(1) Cons.prems(2) by metis
  with Cons.IH [OF y(2)] show ?case by auto
qed auto

lemma skip_unknown_bounds:
  "skip_unknown s space = Inr n \<Longrightarrow> space < n \<and> n < length s"
  by (auto simp: skip_unknown_def split: if_splits option.splits dest!: strchr_bounds)

function auth_params :: "'a field list \<Rightarrow> string \<Rightarrow> nat \<Rightarrow> 'a \<Rightarrow> int \<times> 'a" where
  "auth_params fs s space a =
     (if length s < space then (OSIP_SUCCESS, a)
      else
        (case try_fields fs s space a False of
           Inl r \<Rightarrow> r
         | Inr (space', a', parse_ok) \<Rightarrow>
             if parse_ok then auth_params fs s space' a'
             else (case skip_unknown s space' of Inl i \<Rightarrow> (i, a') | Inr n \<Rightarrow> auth_params fs s n a')))"
  by pat_completeness auto
termination
  apply (relation "measure (\<lambda>(fs, s, space, a). length s - space)")
    apply simp
   apply (auto dest!: try_fields_bounds) [1]
  apply (force dest!: try_fields_bounds skip_unknown_bounds)
  done

declare auth_params.simps [simp del]

section \<open>Printing\<close>

definition osip_str_append :: "nat \<Rightarrow> string \<Rightarrow> string \<Rightarrow> string option" where
  "osip_str_append len buf src = sprintf_end len buf src"

definition osip_strn_append :: "nat \<Rightarrow> string \<Rightarrow> string \<Rightarrow> nat \<Rightarrow> string option" where
  "osip_strn_append len buf src n = sprintf_end len buf (take n src)"

text \<open>The share of a field in the size of the buffer.\<close>

definition field_len :: "nat \<Rightarrow> string option \<Rightarrow> nat" where
  "field_len k v = (case v of None \<Rightarrow> 0 | Some s \<Rightarrow> length s + k)"

text \<open>\<open>if (v != NULL) { append (label); append (v); }\<close>\<close>

definition append_field :: "nat \<Rightarrow> string \<Rightarrow> string option \<Rightarrow> string \<Rightarrow> string option" where
  "append_field len label v buf =
     (case v of
        None \<Rightarrow> Some buf
      | Some s \<Rightarrow> do {
          buf \<leftarrow> osip_strn_append len buf label (length label);
          osip_str_append len buf s })"

fun append_fields :: "nat \<Rightarrow> (string \<times> string option) list \<Rightarrow> string \<Rightarrow> string option" where
  "append_fields len [] buf = Some buf"
| "append_fields len ((label, v) # fs) buf = do { buf \<leftarrow> append_field len label v buf; append_fields len fs buf }"

text \<open>The same with a separator in front of every field but the first that is printed.\<close>

fun append_separated :: "nat \<Rightarrow> string \<Rightarrow> bool \<Rightarrow> (string \<times> string option) list \<Rightarrow> string \<Rightarrow> string option" where
  "append_separated len sep first [] buf = Some buf"
| "append_separated len sep first ((label, v) # fs) buf =
     (case v of
        None \<Rightarrow> append_separated len sep first fs buf
      | Some s \<Rightarrow> do {
          buf \<leftarrow> (if first then Some buf else osip_strn_append len buf sep (length sep));
          buf \<leftarrow> osip_strn_append len buf label (length label);
          buf \<leftarrow> osip_str_append len buf s;
          append_separated len sep False fs buf })"

section \<open>WWW-Authenticate and Proxy-Authenticate\<close>

definition osip_www_authenticate_init :: www_authenticate where
  "osip_www_authenticate_init = \<lparr>wa_auth_type = None, wa_realm = None, wa_domain = None, wa_nonce = None,
     wa_opaque = None, wa_stale = None, wa_algorithm = None, wa_qop_options = None, wa_version = None,
     wa_targetname = None, wa_gssapi_data = None, wa_auth_param = None\<rparr>"

definition www_authenticate_fields :: "www_authenticate field list" where
  "www_authenticate_fields =
    [\<lparr>fquoted = True, fname = ''realm'', fget = wa_realm, fset = \<lambda>v. wa_realm_update (\<lambda>_. v)\<rparr>,
     \<lparr>fquoted = True, fname = ''domain'', fget = wa_domain, fset = \<lambda>v. wa_domain_update (\<lambda>_. v)\<rparr>,
     \<lparr>fquoted = True, fname = ''nonce'', fget = wa_nonce, fset = \<lambda>v. wa_nonce_update (\<lambda>_. v)\<rparr>,
     \<lparr>fquoted = True, fname = ''opaque'', fget = wa_opaque, fset = \<lambda>v. wa_opaque_update (\<lambda>_. v)\<rparr>,
     \<lparr>fquoted = False, fname = ''stale'', fget = wa_stale, fset = \<lambda>v. wa_stale_update (\<lambda>_. v)\<rparr>,
     \<lparr>fquoted = False, fname = ''algorithm'', fget = wa_algorithm, fset = \<lambda>v. wa_algorithm_update (\<lambda>_. v)\<rparr>,
     \<lparr>fquoted = True, fname = ''qop'', fget = wa_qop_options, fset = \<lambda>v. wa_qop_options_update (\<lambda>_. v)\<rparr>,
     \<lparr>fquoted = False, fname = ''version'', fget = wa_version, fset = \<lambda>v. wa_version_update (\<lambda>_. v)\<rparr>,
     \<lparr>fquoted = True, fname = ''targetname'', fget = wa_targetname, fset = \<lambda>v. wa_targetname_update (\<lambda>_. v)\<rparr>,
     \<lparr>fquoted = True, fname = ''gssapi-data'', fget = wa_gssapi_data, fset = \<lambda>v. wa_gssapi_data_update (\<lambda>_. v)\<rparr>]"

definition osip_www_authenticate_parse :: "www_authenticate \<Rightarrow> string \<Rightarrow> int \<times> www_authenticate" where
  "osip_www_authenticate_parse wwwa s =
     (case strchr s 0 (CHR '' '') of
        None \<Rightarrow> (OSIP_SYNTAXERROR, wwwa)
      | Some space \<Rightarrow>
          if space + 1 < 2 then (OSIP_SYNTAXERROR, wwwa)
          else auth_params www_authenticate_fields s space (wwwa\<lparr>wa_auth_type := Some (osip_strncpy s 0 space)\<rparr>))"

text \<open>The fields in the order in which they are printed, with their labels.\<close>

definition www_authenticate_labels :: "www_authenticate \<Rightarrow> (string \<times> string option) list" where
  "www_authenticate_labels w =
     [('' realm='', wa_realm w), ('', domain='', wa_domain w), ('', nonce='', wa_nonce w),
      ('', opaque='', wa_opaque w), ('', stale='', wa_stale w), ('', algorithm='', wa_algorithm w),
      ('', qop='', wa_qop_options w), ('', version='', wa_version w),
      ('', targetname='', wa_targetname w), ('', gssapi-data='', wa_gssapi_data w)]"

text \<open>The size of the buffer.\<close>

definition www_authenticate_len :: "www_authenticate \<Rightarrow> nat" where
  "www_authenticate_len w =
     length (the (wa_auth_type w)) + 1 + field_len 7 (wa_realm w) + field_len 8 (wa_nonce w) + 2
       + field_len 9 (wa_domain w) + field_len 9 (wa_opaque w) + field_len 8 (wa_stale w)
       + field_len 12 (wa_algorithm w) + field_len 6 (wa_qop_options w) + field_len 10 (wa_version w)
       + field_len 13 (wa_targetname w) + field_len 14 (wa_gssapi_data w)"

definition osip_www_authenticate_to_str :: "www_authenticate option \<Rightarrow> (int \<times> string option) option" where
  "osip_www_authenticate_to_str wp =
     (case wp of
        None \<Rightarrow> Some (OSIP_BADPARAMETER, None)
      | Some w \<Rightarrow>
          (case wa_auth_type w of
             None \<Rightarrow> Some (OSIP_BADPARAMETER, None)
           | Some ty \<Rightarrow> do {
               let len = www_authenticate_len w;
               buf \<leftarrow> osip_str_append len [] ty;
               buf \<leftarrow> append_fields len (www_authenticate_labels w) buf;
               Some (OSIP_SUCCESS, Some (if wa_realm w = None \<and> chr_at buf (length ty) = CHR '',''
                                         then buf[length ty := CHR '' ''] else buf)) }))"

definition osip_www_authenticate_clone :: "www_authenticate option \<Rightarrow> int \<times> www_authenticate option" where
  "osip_www_authenticate_clone wp =
     (case wp of
        None \<Rightarrow> (OSIP_BADPARAMETER, None)
      | Some w \<Rightarrow>
          if wa_auth_type w = None then (OSIP_BADPARAMETER, None)
          else (OSIP_SUCCESS, Some (osip_www_authenticate_init
             \<lparr>wa_auth_type := osip_strdup (wa_auth_type w), wa_realm := dup (wa_realm w), wa_domain := dup (wa_domain w),
              wa_nonce := dup (wa_nonce w), wa_opaque := dup (wa_opaque w), wa_stale := dup (wa_stale w),
              wa_algorithm := dup (wa_algorithm w), wa_qop_options := dup (wa_qop_options w),
              wa_version := dup (wa_version w), wa_targetname := dup (wa_targetname w),
              wa_gssapi_data := dup (wa_gssapi_data w)\<rparr>)))"

definition osip_message_set_www_authenticate :: "message \<Rightarrow> string option \<Rightarrow> int \<times> message" where
  "osip_message_set_www_authenticate =
     list_setter (osip_www_authenticate_parse osip_www_authenticate_init) (\<lambda>h m. m\<lparr>www_authenticates := www_authenticates m @ [h]\<rparr>)"

definition osip_message_set_proxy_authenticate :: "message \<Rightarrow> string option \<Rightarrow> int \<times> message" where
  "osip_message_set_proxy_authenticate =
     list_setter (osip_www_authenticate_parse osip_www_authenticate_init) (\<lambda>h m. m\<lparr>proxy_authenticates := proxy_authenticates m @ [h]\<rparr>)"

section \<open>Authorization and Proxy-Authorization\<close>

definition authorization_fields :: "authorization field list" where
  "authorization_fields =
    [\<lparr>fquoted = True, fname = ''username'', fget = au_username, fset = \<lambda>v. au_username_update (\<lambda>_. v)\<rparr>,
     \<lparr>fquoted = True, fname = ''realm'', fget = au_realm, fset = \<lambda>v. au_realm_update (\<lambda>_. v)\<rparr>,
     \<lparr>fquoted = True, fname = ''nonce'', fget = au_nonce, fset = \<lambda>v. au_nonce_update (\<lambda>_. v)\<rparr>,
     \<lparr>fquoted = True, fname = ''uri'', fget = au_uri, fset = \<lambda>v. au_uri_update (\<lambda>_. v)\<rparr>,
     \<lparr>fquoted = True, fname = ''response'', fget = au_response, fset = \<lambda>v. au_response_update (\<lambda>_. v)\<rparr>,
     \<lparr>fquoted = True, fname = ''digest'', fget = au_digest, fset = \<lambda>v. au_digest_update (\<lambda>_. v)\<rparr>,
     \<lparr>fquoted = False, fname = ''algorithm'', fget = au_algorithm, fset = \<lambda>v. au_algorithm_update (\<lambda>_. v)\<rparr>,
     \<lparr>fquoted = True, fname = ''cnonce'', fget = au_cnonce, fset = \<lambda>v. au_cnonce_update (\<lambda>_. v)\<rparr>,
     \<lparr>fquoted = True, fname = ''opaque'', fget = au_opaque, fset = \<lambda>v. au_opaque_update (\<lambda>_. v)\<rparr>,
     \<lparr>fquoted = False, fname = ''qop'', fget = au_message_qop, fset = \<lambda>v. au_message_qop_update (\<lambda>_. v)\<rparr>,
     \<lparr>fquoted = False, fname = ''nc'', fget = au_nonce_count, fset = \<lambda>v. au_nonce_count_update (\<lambda>_. v)\<rparr>,
     \<lparr>fquoted = False, fname = ''version'', fget = au_version, fset = \<lambda>v. au_version_update (\<lambda>_. v)\<rparr>,
     \<lparr>fquoted = True, fname = ''targetname'', fget = au_targetname, fset = \<lambda>v. au_targetname_update (\<lambda>_. v)\<rparr>,
     \<lparr>fquoted = True, fname = ''gssapi-data'', fget = au_gssapi_data, fset = \<lambda>v. au_gssapi_data_update (\<lambda>_. v)\<rparr>,
     \<lparr>fquoted = True, fname = ''crand'', fget = au_crand, fset = \<lambda>v. au_crand_update (\<lambda>_. v)\<rparr>,
     \<lparr>fquoted = True, fname = ''cnum'', fget = au_cnum, fset = \<lambda>v. au_cnum_update (\<lambda>_. v)\<rparr>]"

definition osip_authorization_parse :: "authorization \<Rightarrow> string \<Rightarrow> int \<times> authorization" where
  "osip_authorization_parse auth s =
     (case strchr s 0 (CHR '' '') of
        None \<Rightarrow> (OSIP_SYNTAXERROR, auth)
      | Some space \<Rightarrow>
          if space < 1 then (OSIP_SYNTAXERROR, auth)
          else auth_params authorization_fields s space (auth\<lparr>au_auth_type := Some (osip_strncpy s 0 space)\<rparr>))"

text \<open>The fields in the order in which they are printed, with their labels.\<close>

definition authorization_labels :: "authorization \<Rightarrow> (string \<times> string option) list" where
  "authorization_labels a =
     [('' username='', au_username a), ('' realm='', au_realm a), ('' nonce='', au_nonce a),
      ('' uri='', au_uri a), ('' response='', au_response a), ('' digest='', au_digest a),
      ('' algorithm='', au_algorithm a), ('' cnonce='', au_cnonce a), ('' opaque='', au_opaque a),
      ('' qop='', au_message_qop a), ('' nc='', au_nonce_count a), ('' version='', au_version a),
      ('' targetname='', au_targetname a), ('' gssapi-data='', au_gssapi_data a),
      ('' crand='', au_crand a), ('' cnum='', au_cnum a)]"

text \<open>The size of the buffer.\<close>

definition authorization_len :: "authorization \<Rightarrow> nat" where
  "authorization_len a =
     length (the (au_auth_type a)) + 1 + field_len 10 (au_username a) + field_len 8 (au_realm a) + field_len 8 (au_nonce a)
       + field_len 6 (au_uri a) + field_len 11 (au_response a) + 2 + field_len 9 (au_digest a)
       + field_len 12 (au_algorithm a) + field_len 9 (au_cnonce a) + field_len 9 (au_opaque a)
       + field_len 5 (au_nonce_count a) + field_len 6 (au_message_qop a) + field_len 10 (au_version a)
       + field_len 13 (au_targetname a) + field_len 14 (au_gssapi_data a) + field_len 8 (au_crand a)
       + field_len 7 (au_cnum a)"

definition osip_authorization_to_str :: "authorization option \<Rightarrow> (int \<times> string option) option" where
  "osip_authorization_to_str ap =
     (case ap of
        None \<Rightarrow> Some (OSIP_BADPARAMETER, None)
      | Some a \<Rightarrow>
          (case au_auth_type a of
             None \<Rightarrow> Some (OSIP_BADPARAMETER, None)
           | Some ty \<Rightarrow> do {
               let len = authorization_len a;
               buf \<leftarrow> osip_str_append len [] ty;
               buf \<leftarrow> append_separated len '','' True (authorization_labels a) buf;
               Some (OSIP_SUCCESS, Some buf) }))"

definition osip_message_set_authorization :: "message \<Rightarrow> string option \<Rightarrow> int \<times> message" where
  "osip_message_set_authorization =
     list_setter (osip_authorization_parse osip_authorization_init) (\<lambda>h m. m\<lparr>authorizations := authorizations m @ [h]\<rparr>)"

definition osip_message_set_proxy_authorization :: "message \<Rightarrow> string option \<Rightarrow> int \<times> message" where
  "osip_message_set_proxy_authorization =
     list_setter (osip_authorization_parse osip_authorization_init)
       (\<lambda>h m. m\<lparr>proxy_authorizations := proxy_authorizations m @ [h]\<rparr>)"

section \<open>Authentication-Info and Proxy-Authentication-Info\<close>

definition osip_authentication_info_init :: authentication_info where
  "osip_authentication_info_init = \<lparr>ai_auth_type = None, ai_nextnonce = None, ai_qop_options = None,
     ai_rspauth = None, ai_cnonce = None, ai_nonce_count = None, ai_snum = None, ai_srand = None,
     ai_realm = None, ai_targetname = None, ai_opaque = None\<rparr>"

definition authentication_info_fields :: "authentication_info field list" where
  "authentication_info_fields =
    [\<lparr>fquoted = True, fname = ''nextnonce'', fget = ai_nextnonce, fset = \<lambda>v. ai_nextnonce_update (\<lambda>_. v)\<rparr>,
     \<lparr>fquoted = True, fname = ''cnonce'', fget = ai_cnonce, fset = \<lambda>v. ai_cnonce_update (\<lambda>_. v)\<rparr>,
     \<lparr>fquoted = True, fname = ''rspauth'', fget = ai_rspauth, fset = \<lambda>v. ai_rspauth_update (\<lambda>_. v)\<rparr>,
     \<lparr>fquoted = False, fname = ''nc'', fget = ai_nonce_count, fset = \<lambda>v. ai_nonce_count_update (\<lambda>_. v)\<rparr>,
     \<lparr>fquoted = False, fname = ''qop'', fget = ai_qop_options, fset = \<lambda>v. ai_qop_options_update (\<lambda>_. v)\<rparr>,
     \<lparr>fquoted = True, fname = ''snum'', fget = ai_snum, fset = \<lambda>v. ai_snum_update (\<lambda>_. v)\<rparr>,
     \<lparr>fquoted = True, fname = ''srand'', fget = ai_srand, fset = \<lambda>v. ai_srand_update (\<lambda>_. v)\<rparr>,
     \<lparr>fquoted = True, fname = ''targetname'', fget = ai_targetname, fset = \<lambda>v. ai_targetname_update (\<lambda>_. v)\<rparr>,
     \<lparr>fquoted = True, fname = ''realm'', fget = ai_realm, fset = \<lambda>v. ai_realm_update (\<lambda>_. v)\<rparr>,
     \<lparr>fquoted = True, fname = ''opaque'', fget = ai_opaque, fset = \<lambda>v. ai_opaque_update (\<lambda>_. v)\<rparr>]"

definition osip_authentication_info_parse :: "authentication_info \<Rightarrow> string \<Rightarrow> int \<times> authentication_info" where
  "osip_authentication_info_parse ainfo s =
     (case (strchr s 0 (CHR '' ''), strchr s 0 (CHR ''='')) of
        (Some space, Some hack) \<Rightarrow>
          if space < hack
          then auth_params authentication_info_fields s space (ainfo\<lparr>ai_auth_type := Some (osip_strncpy s 0 space)\<rparr>)
          else auth_params authentication_info_fields s 0 ainfo
      | _ \<Rightarrow> auth_params authentication_info_fields s 0 ainfo)"

text \<open>The fields in the order in which they are printed, with their labels.\<close>

definition authentication_info_labels :: "authentication_info \<Rightarrow> (string \<times> string option) list" where
  "authentication_info_labels a =
     [(''qop='', ai_qop_options a), (''nextnonce='', ai_nextnonce a), (''rspauth='', ai_rspauth a),
      (''cnonce='', ai_cnonce a), (''nc='', ai_nonce_count a), (''snum='', ai_snum a),
      (''srand='', ai_srand a), (''targetname='', ai_targetname a), (''realm='', ai_realm a),
      (''opaque='', ai_opaque a)]"

text \<open>The size of the buffer.\<close>

definition authentication_info_len :: "authentication_info \<Rightarrow> nat" where
  "authentication_info_len a =
     field_len 1 (ai_auth_type a) + field_len 11 (ai_nextnonce a) + field_len 10 (ai_rspauth a)
       + field_len 9 (ai_cnonce a) + field_len 5 (ai_nonce_count a) + field_len 6 (ai_qop_options a)
       + field_len 7 (ai_snum a) + field_len 8 (ai_srand a) + field_len 13 (ai_targetname a)
       + field_len 8 (ai_realm a) + field_len 8 (ai_opaque a)"

definition osip_authentication_info_to_str :: "authentication_info option \<Rightarrow> (int \<times> string option) option" where
  "osip_authentication_info_to_str ap =
     (case ap of
        None \<Rightarrow> Some (OSIP_BADPARAMETER, None)
      | Some a \<Rightarrow>
          (let len = authentication_info_len a
           in if len = 0 then Some (OSIP_BADPARAMETER, None)
              else do {
                buf \<leftarrow> (case ai_auth_type a of
                          None \<Rightarrow> Some []
                        | Some ty \<Rightarrow> do { buf \<leftarrow> osip_str_append len [] ty; osip_str_append len buf '' '' });
                buf \<leftarrow> append_separated len '', '' True (authentication_info_labels a) buf;
                Some (OSIP_SUCCESS, Some buf) }))"

definition osip_authentication_info_clone :: "authentication_info option \<Rightarrow> int \<times> authentication_info option" where
  "osip_authentication_info_clone ap =
     (case ap of
        None \<Rightarrow> (OSIP_BADPARAMETER, None)
      | Some a \<Rightarrow>
          (OSIP_SUCCESS, Some (osip_authentication_info_init
             \<lparr>ai_auth_type := dup (ai_auth_type a), ai_nextnonce := dup (ai_nextnonce a), ai_cnonce := dup (ai_cnonce a),
              ai_rspauth := dup (ai_rspauth a), ai_nonce_count := dup (ai_nonce_count a),
              ai_qop_options := dup (ai_qop_options a), ai_snum := dup (ai_snum a), ai_srand := dup (ai_srand a),
              ai_targetname := dup (ai_targetname a), ai_realm := dup (ai_realm a), ai_opaque := dup (ai_opaque a)\<rparr>)))"

definition osip_message_set_authentication_info :: "message \<Rightarrow> string option \<Rightarrow> int \<times> message" where
  "osip_message_set_authentication_info =
     list_setter (osip_authentication_info_parse osip_authentication_info_init)
       (\<lambda>h m. m\<lparr>authentication_infos := authentication_infos m @ [h]\<rparr>)"

definition osip_message_set_proxy_authentication_info :: "message \<Rightarrow> string option \<Rightarrow> int \<times> message" where
  "osip_message_set_proxy_authentication_info =
     list_setter (osip_authentication_info_parse osip_authentication_info_init)
       (\<lambda>h m. m\<lparr>proxy_authentication_infos := proxy_authentication_infos m @ [h]\<rparr>)"

end
