(* ===== verification/Osip_Auth_Print.thy ===== *)
theory Osip_Auth_Print
  imports Osip_Auth
begin

text \<open>
  Printing of the authentication headers: it stays inside its buffer and prints the expected text, with
  the exceptions of \<^verbatim>\<open>Authentication-Info\<close>.
\<close>

section \<open>Printing\<close>

fun fields_text :: "(string \<times> string option) list \<Rightarrow> string" where
  "fields_text [] = []"
| "fields_text ((label, v) # fs) = (case v of None \<Rightarrow> [] | Some s \<Rightarrow> label @ s) @ fields_text fs"

fun separated_text :: "string \<Rightarrow> bool \<Rightarrow> (string \<times> string option) list \<Rightarrow> string" where
  "separated_text sep first [] = []"
| "separated_text sep first ((label, v) # fs) =
     (case v of
        None \<Rightarrow> separated_text sep first fs
      | Some s \<Rightarrow> (if first then [] else sep) @ label @ s @ separated_text sep False fs)"

lemma append_fields_exact:
  "length buf < len \<Longrightarrow> append_fields len fs buf =
     (if length buf + length (fields_text fs) < len then Some (buf @ fields_text fs) else None)"
proof (induction len fs buf rule: append_fields.induct)
  case (2 len label v fs buf)
  then show ?case
    by (cases v) (auto simp: append_field_def osip_strn_append_def osip_str_append_def sprintf_end_def)
qed simp

lemma append_separated_exact:
  "length buf < len \<Longrightarrow> append_separated len sep first fs buf =
     (if length buf + length (separated_text sep first fs) < len then Some (buf @ separated_text sep first fs) else None)"
proof (induction len sep first fs buf rule: append_separated.induct)
  case (2 len sep first label v fs buf)
  show ?case
  proof (cases v)
    case None
    then show ?thesis using 2 by simp
  next
    case (Some s)
    let ?b = "buf @ (if first then [] else sep) @ label @ s"
    have IH: "append_separated len sep False fs ?b = (if length ?b + length (separated_text sep False fs) < len
        then Some (?b @ separated_text sep False fs) else None)" if "length ?b < len"
      using 2(2) [of s "if first then buf else buf @ sep" "(if first then buf else buf @ sep) @ label" ?b] that Some
      by (cases first) (auto simp: osip_strn_append_def osip_str_append_def)
    show ?thesis
      using IH Some 2(3) by (cases first) (auto simp: osip_strn_append_def osip_str_append_def sprintf_end_def)
  qed
qed simp

text \<open>The length of a text: what the fields need themselves and the separators between them.\<close>

definition present :: "string option \<Rightarrow> nat" where
  "present v = of_bool (v \<noteq> None)"

definition value_len :: "string option \<Rightarrow> nat" where
  "value_len v = (case v of None \<Rightarrow> 0 | Some s \<Rightarrow> length s)"

lemma field_len_split: "field_len k v = value_len v + k * present v"
  by (auto simp: field_len_def value_len_def present_def split: option.split)

lemma present_le: "present v \<le> 1" by (simp add: present_def)

definition fields_need :: "(string \<times> string option) list \<Rightarrow> nat" where
  "fields_need fs = sum_list (map (\<lambda>(label, v). value_len v + length label * present v) fs)"

definition fields_count :: "(string \<times> string option) list \<Rightarrow> nat" where
  "fields_count fs = sum_list (map (\<lambda>(label, v). present v) fs)"

lemma length_fields_text: "length (fields_text fs) = fields_need fs"
  by (induction fs rule: fields_text.induct)
    (auto simp: fields_need_def value_len_def present_def split: option.split)

lemma length_separated_text:
  "length (separated_text sep first fs) = fields_need fs + length sep * (fields_count fs - of_bool first)"
proof (induction sep first fs rule: separated_text.induct)
  case (2 sep first label v fs)
  then show ?case
    by (cases v; cases first) (auto simp: fields_need_def fields_count_def value_len_def present_def algebra_simps)
qed (simp add: fields_need_def fields_count_def)

declare fields_text.simps [simp del] separated_text.simps [simp del]

lemmas print_sizes = field_len_split length_fields_text length_separated_text fields_need_def fields_count_def

lemma www_authenticate_fits:
  assumes "wa_auth_type w = Some ty"
  shows "osip_www_authenticate_to_str (Some w) = Some (OSIP_SUCCESS, Some
     (let buf = ty @ fields_text (www_authenticate_labels w)
      in if wa_realm w = None \<and> chr_at buf (length ty) = CHR '','' then buf[length ty := CHR '' ''] else buf))"
proof -
  have "length ty + length (fields_text (www_authenticate_labels w)) < www_authenticate_len w"
    using assms by (simp add: www_authenticate_len_def print_sizes www_authenticate_labels_def)
  then show ?thesis
    using assms by (simp add: osip_www_authenticate_to_str_def osip_str_append_def append_fields_exact Let_def)
qed

lemma need_and_count: "fields_need fs + fields_count fs = sum_list (map (\<lambda>(label, v). field_len (length label + 1) v) fs)"
  by (induction fs) (auto simp: fields_need_def fields_count_def field_len_split)

lemma authorization_len_sum:
  assumes "au_auth_type a = Some ty"
  shows "authorization_len a = length ty + 3 + field_len 10 (au_username a)
    + sum_list (map (\<lambda>(label, v). field_len (length label + 1) v) (tl (authorization_labels a)))"
  using assms by (simp add: authorization_len_def authorization_labels_def eval_nat_numeral)

lemma authorization_fits:
  assumes "au_auth_type a = Some ty"
  shows "osip_authorization_to_str (Some a) = Some (OSIP_SUCCESS, Some (ty @ separated_text '','' True (authorization_labels a)))"
proof -
  let ?rest = "tl (authorization_labels a)"
  have l: "authorization_labels a = ('' username='', au_username a) # ?rest" by (simp add: authorization_labels_def)
  have "fields_count (authorization_labels a) = present (au_username a) + fields_count ?rest"
    by (subst l) (simp add: fields_count_def)
  moreover have "fields_need (authorization_labels a) = field_len 10 (au_username a) + fields_need ?rest"
    by (subst l) (simp add: fields_need_def field_len_split)
  ultimately have "length ty + length (separated_text '','' True (authorization_labels a)) < authorization_len a"
    using present_le [of "au_username a"] need_and_count [of ?rest] authorization_len_sum [OF assms]
    by (simp add: length_separated_text)
  then show ?thesis
    using assms by (simp add: osip_authorization_to_str_def osip_str_append_def append_separated_exact Let_def)
qed

definition info_start :: "authentication_info \<Rightarrow> string" where
  "info_start a = (case ai_auth_type a of None \<Rightarrow> [] | Some ty \<Rightarrow> ty @ '' '')"

lemma info_balance:
  "authentication_info_len a + present (ai_nextnonce a) + present (ai_opaque a)
   = length (info_start a) + length (separated_text '', '' True (authentication_info_labels a))
     + 2 * of_bool (fields_count (authentication_info_labels a) \<noteq> 0)"
proof -
  let ?n = "fields_count (authentication_info_labels a)"
  have l: "length (info_start a) = value_len (ai_auth_type a) + present (ai_auth_type a)"
    by (auto simp: info_start_def value_len_def present_def split: option.split)
  have "2 * (?n - 1) + 2 * of_bool (?n \<noteq> 0) = 2 * ?n" by (cases ?n) auto
  then have "length (separated_text '', '' True (authentication_info_labels a)) + 2 * of_bool (?n \<noteq> 0)
      = fields_need (authentication_info_labels a) + 2 * ?n"
    by (simp add: length_separated_text)
  moreover have "authentication_info_len a + present (ai_nextnonce a) + present (ai_opaque a)
      = length (info_start a) + (fields_need (authentication_info_labels a) + 2 * ?n)"
    by (simp add: l authentication_info_len_def field_len_split fields_need_def fields_count_def authentication_info_labels_def)
  ultimately show ?thesis by simp
qed

lemma info_to_str_exact:
  assumes "ai_auth_type a \<noteq> None \<or> fields_count (authentication_info_labels a) \<noteq> 0"
  shows "osip_authentication_info_to_str (Some a) =
    (if length (info_start a) + length (separated_text '', '' True (authentication_info_labels a)) < authentication_info_len a
     then Some (OSIP_SUCCESS, Some (info_start a @ separated_text '', '' True (authentication_info_labels a)))
     else None)"
proof -
  have pos: "authentication_info_len a \<noteq> 0"
    using assms by (auto simp: authentication_info_len_def field_len_split fields_count_def authentication_info_labels_def present_def)
  have start: "(case ai_auth_type a of None \<Rightarrow> Some []
        | Some ty \<Rightarrow> do { buf \<leftarrow> osip_str_append (authentication_info_len a) [] ty; osip_str_append (authentication_info_len a) buf '' '' })
      = (if length (info_start a) < authentication_info_len a then Some (info_start a) else None)"
    using pos by (auto simp: info_start_def osip_str_append_def sprintf_end_def split: option.split)
  show ?thesis
    using pos start append_separated_exact [of "info_start a" "authentication_info_len a"]
    by (auto simp: osip_authentication_info_to_str_def Let_def)
qed


definition sample_info :: authentication_info where
  "sample_info = osip_authentication_info_init\<lparr>ai_nextnonce := Some (DQUOTE # ''a'' @ [DQUOTE]), ai_opaque := Some (DQUOTE # ''b'' @ [DQUOTE])\<rparr>"


end
