(* ===== verification/Osip_Uri_Proofs.thy ===== *)
theory Osip_Uri_Proofs
  imports Osip_Uri
begin

text \<open>
  Correctness of the URI code: escaping stays inside its buffer and is undone by unescaping,
  printing stays inside its buffer, and parsing what was printed yields the URI again.
\<close>

section \<open>Escaping\<close>

definition esc :: "string \<Rightarrow> char \<Rightarrow> string" where
  "esc def c = (if osip_is_alphanum c \<or> c \<in> set def then [c] else percent_encode c)"

definition escaped :: "string \<Rightarrow> string \<Rightarrow> string" where
  "escaped def s = concat (map (esc def) s)"

lemma length_esc: "length (esc def c) \<le> 3"
  by (simp add: esc_def percent_encode_def)

lemma length_escaped: "length (escaped def s) \<le> 3 * length s"
  by (induction s) (auto simp: escaped_def intro: add_mono [OF length_esc, simplified])

text \<open>The invariant of the loop: \<open>newlen\<close> is what the result needs if the rest is copied as it
  is, and the buffer holds it.\<close>

lemma escape_loop_fits:
  "newlen = length ns + length s + 1 \<Longrightarrow> newlen \<le> alloc \<Longrightarrow>
   escape_loop def s ns alloc newlen = Some (ns @ escaped def s)"
proof (induction s arbitrary: ns alloc newlen)
  case Nil
  then show ?case by (simp add: escaped_def)
next
  case (Cons c s)
  show ?case
  proof (cases "osip_is_alphanum c \<or> c \<in> set def")
    case True
    then show ?thesis using Cons.prems Cons.IH [of newlen "ns @ [c]" alloc]
      by (simp add: escaped_def esc_def)
  next
    case False
    let ?alloc = "if newlen + 2 > alloc then alloc * 2 else alloc"
    have "newlen + 2 \<le> ?alloc" using Cons.prems by auto
    then show ?thesis
      using False Cons.prems Cons.IH [of "newlen + 2" "ns @ percent_encode c" ?alloc]
      by (simp add: escaped_def esc_def percent_encode_def Let_def)
  qed
qed

lemma escape_fits: "osip_uri_escape_nonascii_and_nondef s def = Some (escaped def s)"
  by (simp add: osip_uri_escape_nonascii_and_nondef_def escape_loop_fits Let_def)

lemmas escape_defs =
  osip_uri_escape_userinfo_def osip_uri_escape_password_def osip_uri_escape_uri_param_def
  osip_uri_escape_header_param_def escape_fits

section \<open>Unescaping\<close>

lemma of_char_hex_digit: "n < 16 \<Longrightarrow> of_char (hex_digit n) = (if n < 10 then 48 + n else 55 + n)"
  by (simp add: hex_digit_def of_char_of)

lemma char_neqI: "of_char c \<noteq> (of_char d :: nat) \<Longrightarrow> c \<noteq> d"
  by auto

lemma hex_digit_facts:
  assumes "n < 16"
  shows "hex_value (hex_digit n) = Some n" "\<not> isspace (hex_digit n)" "hex_digit n \<noteq> CHR ''+''"
    "hex_digit n \<noteq> CHR ''-''" "hex_digit n \<noteq> CHR ''x''" "hex_digit n \<noteq> CHR ''X''"
  using assms
  by (auto simp: hex_value_def char_in_def isspace_def Let_def of_char_hex_digit intro!: char_neqI split: if_splits)

lemma sscanf_hex:
  "a < 16 \<Longrightarrow> b < 16 \<Longrightarrow> sscanf_02X (hex_digit a # hex_digit b # s) = Some (16 * a + b)"
  by (simp add: sscanf_02X_def hex_digit_facts)

lemma of_char_less: "of_char c < (256 :: nat)"
  by (metis char_of_mod_256 mod_less_divisor of_char_mod_256 of_char_of zero_less_numeral)

lemma unescape_percent: "unescape_loop (percent_encode c @ s) = c # unescape_loop s"
proof -
  have *: "of_char c div 16 < (16 :: nat)" using of_char_less [of c] by (simp add: less_mult_imp_div_less)
  have "16 * (of_char c div 16) + of_char c mod 16 = (of_char c :: nat)" by simp
  with * show ?thesis
    by (simp add: percent_encode_def sscanf_hex hex_digit_facts chr_at_def numeral_2_eq_2)
qed

lemma unescape_esc:
  "CHR ''%'' \<notin> set def \<Longrightarrow> unescape_loop (esc def c @ s) = c # unescape_loop s"
  by (auto simp: esc_def unescape_percent osip_is_alphanum_def char_in_def)

lemma unescape_escaped:
  "CHR ''%'' \<notin> set def \<Longrightarrow> cstring s \<Longrightarrow> osip_uri_unescape (escaped def s) = s"
proof -
  assume def: "CHR ''%'' \<notin> set def" and s: "cstring s"
  have "unescape_loop (escaped def s) = s"
    by (induction s) (simp_all add: escaped_def unescape_esc [OF def])
  then show ?thesis using s by (simp add: osip_uri_unescape_def cstring_def takeWhile_neq_id)
qed

section \<open>Printing\<close>

definition print_param :: "uri_param \<Rightarrow> string" where
  "print_param p =
     (if osip_strcasecmp (the (gname p)) ''x-obr'' = 0 \<or> osip_strcasecmp (the (gname p)) ''x-obp'' = 0 then []
      else '';'' @ escaped uri_param_def (the (gname p)) @
        (case gvalue p of None \<Rightarrow> [] | Some v \<Rightarrow> ''='' @ escaped uri_param_def v))"

fun header_text :: "nat \<Rightarrow> uri_param list \<Rightarrow> string" where
  "header_text pos [] = []"
| "header_text pos (h # hs) =
     (if pos = 0 then ''?'' else ''&'') @ escaped header_param_def (the (gname h)) @ ''='' @
     escaped header_param_def (the (gvalue h)) @ header_text (pos + 1) hs"

lemma print_params_fits:
  "length buf < len \<Longrightarrow> \<forall>p\<in>set ps. gname p \<noteq> None \<Longrightarrow>
   \<exists>len'. print_params len buf ps = Some (len', buf @ concat (map print_param ps)) \<and>
          length (buf @ concat (map print_param ps)) < len'"
proof (induction ps arbitrary: len buf)
  case (Cons p ps)
  then obtain n where n: "gname p = Some n" by auto
  have IH: "\<exists>len'. print_params l (buf @ print_param p) ps
      = Some (len', (buf @ print_param p) @ concat (map print_param ps))
      \<and> length ((buf @ print_param p) @ concat (map print_param ps)) < len'"
    if "length (buf @ print_param p) < l" for l
    using Cons.IH [OF that] Cons.prems(2) by simp
  show ?case
  proof (cases "osip_strcasecmp n ''x-obr'' = 0 \<or> osip_strcasecmp n ''x-obp'' = 0")
    case True
    then have "print_param p = []" using n by (simp add: print_param_def)
    with True show ?thesis using n IH [of len] Cons.prems(1) by auto
  next
    case False
    show ?thesis
    proof (cases "gvalue p")
      case None
      then have "print_param p = '';'' @ escaped uri_param_def n"
        using False n by (simp add: print_param_def)
      with None False n Cons.prems(1) IH [of "len + (length (escaped uri_param_def n) + 2)"] show ?thesis
        by (auto simp: escape_defs Let_def)
    next
      case (Some v)
      then have "print_param p = '';'' @ escaped uri_param_def n @ ''='' @ escaped uri_param_def v"
        using False n by (simp add: print_param_def)
      with Some False n Cons.prems(1)
        IH [of "len + (length (escaped uri_param_def n) + length (escaped uri_param_def v) + 3)"]
      show ?thesis by (auto simp: escape_defs Let_def)
    qed
  qed
qed simp

lemma print_headers_fits:
  "length buf < len \<Longrightarrow> \<forall>h\<in>set hs. gname h \<noteq> None \<and> gvalue h \<noteq> None \<Longrightarrow>
   \<exists>len'. print_headers pos len buf hs = Some (len', buf @ header_text pos hs)"
proof (induction hs arbitrary: pos len buf)
  case (Cons h hs)
  then obtain n v where h: "gname h = Some n" "gvalue h = Some v" by auto
  let ?t = "(if pos = 0 then ''?'' else ''&'') @ escaped header_param_def n @ ''='' @ escaped header_param_def v"
  let ?len = "len + (length (escaped header_param_def n) + length (escaped header_param_def v) + 4)"
  have "length ?t \<le> ?len - length buf - 1" using Cons.prems(1) by auto
  then have "snprintf_end ?len buf ?t = buf @ ?t" by (simp only: snprintf_end_def take_all)
  moreover have "length (buf @ ?t) < ?len" using Cons.prems(1) by simp
  ultimately show ?case
    using h Cons.IH [of "buf @ ?t" ?len "pos + 1"] Cons.prems(2) by (auto simp: escape_defs Let_def)
qed simp

definition printable :: "uri \<Rightarrow> bool" where
  "printable u \<longleftrightarrow> (\<forall>p\<in>set (url_params u). gname p \<noteq> None) \<and>
     (\<forall>h\<in>set (url_headers u). gname h \<noteq> None \<and> gvalue h \<noteq> None)"

definition user_text :: "uri \<Rightarrow> string" where
  "user_text u =
     (case username u of
        None \<Rightarrow> []
      | Some n \<Rightarrow> escaped userinfo_def n @
          (case password u of None \<Rightarrow> [] | Some p \<Rightarrow> '':'' @ escaped password_def p) @ ''@'')"

definition host_text :: "uri \<Rightarrow> string" where
  "host_text u =
     (if CHR '':'' \<in> set (the (host u)) then ''['' @ the (host u) @ '']'' else the (host u)) @
     (case port u of None \<Rightarrow> [] | Some p \<Rightarrow> '':'' @ p)"

definition uri_text :: "uri \<Rightarrow> string" where
  "uri_text u =
     (case uri_string u of
        Some str \<Rightarrow> the (scheme u) @ '':'' @ str
      | None \<Rightarrow> (case scheme u of None \<Rightarrow> ''sip'' | Some s \<Rightarrow> s) @ '':'' @ user_text u @ host_text u @
          concat (map print_param (url_params u)) @ header_text 0 (url_headers u))"

lemma strchr_in_iff: "strchr s 0 c \<noteq> None \<longleftrightarrow> c \<in> set s"
  unfolding strchr_None_iff in_set_conv_nth by auto

lemma print_userinfo_fits:
  assumes "length buf + length (user_text u) < len"
  shows "print_userinfo len buf u = Some (buf @ user_text u)"
  using assms
  by (cases "username u"; cases "password u")
     (simp_all add: print_userinfo_def user_text_def escape_defs)

lemma print_hostport_fits:
  assumes "length buf + length (host_text u) < len" and "host u = Some h"
  shows "print_hostport len buf h u = Some (buf @ host_text u)"
  using assms unfolding print_hostport_def host_text_def strchr_in_iff
  by (cases "port u") auto

lemma base_fits:
  assumes "host u = Some h"
  shows "length sch + 1 + length (user_text u) + length (host_text u) < base_len sch h u"
proof -
  have "length (user_text u) + length sch + 2 + length (host_text u) \<le> base_len sch h u"
    using length_escaped [of userinfo_def "the (username u)"] length_escaped [of password_def "the (password u)"] assms
    by (cases "username u"; cases "password u"; cases "port u")
       (simp_all add: base_len_def user_text_def host_text_def Let_def)
  then show ?thesis by linarith
qed

lemma osip_uri_to_str_text:
  assumes pr: "printable u" and h: "if uri_string u = None then host u \<noteq> None else scheme u \<noteq> None"
  shows "osip_uri_to_str (Some u) = Some (OSIP_SUCCESS, Some (uri_text u))"
proof (cases "uri_string u")
  case (Some str)
  with h show ?thesis by (auto simp: osip_uri_to_str_def uri_text_def Let_def)
next
  case None
  with h obtain h where h: "host u = Some h" by auto
  define sch where "sch = (case scheme u of None \<Rightarrow> ''sip'' | Some s \<Rightarrow> s)"
  define len where "len = base_len sch h u"
  let ?base = "(sch @ '':'') @ user_text u @ host_text u"
  have base: "length sch + 1 + length (user_text u) + length (host_text u) < len"
    using base_fits [OF h] by (simp add: len_def)
  obtain len1 where p: "print_params len ?base (url_params u)
      = Some (len1, ?base @ concat (map print_param (url_params u)))"
    "length (?base @ concat (map print_param (url_params u))) < len1"
    using print_params_fits [of ?base len "url_params u"] base pr by (auto simp: printable_def)
  obtain len2 where hd: "print_headers 0 len1 (?base @ concat (map print_param (url_params u))) (url_headers u)
      = Some (len2, (?base @ concat (map print_param (url_params u))) @ header_text 0 (url_headers u))"
    using print_headers_fits [OF p(2), of "url_headers u" 0] pr by (auto simp: printable_def)
  have sch: "(if uri_string u = None \<and> scheme u = None then Some ''sip'' else scheme u) = Some sch"
    using None by (simp add: sch_def split: option.splits)
  have "sprintf_end len [] (sch @ '':'') = Some (sch @ '':'')" using base by simp
  moreover have "print_userinfo len (sch @ '':'') u = Some ((sch @ '':'') @ user_text u)"
    using base by (intro print_userinfo_fits) simp
  moreover have "print_hostport len ((sch @ '':'') @ user_text u) h u = Some (?base)"
    using base print_hostport_fits [OF _ h, of "(sch @ '':'') @ user_text u" len] by simp
  ultimately have "osip_uri_to_str (Some u) = Some (OSIP_SUCCESS,
      Some ((?base @ concat (map print_param (url_params u))) @ header_text 0 (url_headers u)))"
    using sch h p hd None unfolding osip_uri_to_str_def len_def by simp
  then show ?thesis using None h by (simp add: uri_text_def sch_def)
qed

section \<open>Parsing what was printed\<close>

subsection \<open>Separators\<close>

lemma strchr_shift: "strchr (a @ s) (length a + i) c = map_option ((+) (length a)) (strchr s i c)"
  by (simp add: strchr_def Let_def)

lemma strchr_shift0: "strchr (a @ s) (length a) c = map_option ((+) (length a)) (strchr s 0 c)"
  using strchr_shift [of a s 0] by simp

lemma strchr_skip: "c \<notin> set a \<Longrightarrow> strchr (a @ s) 0 c = map_option ((+) (length a)) (strchr s 0 c)"
  by (auto simp: strchr_def Let_def takeWhile_append takeWhile_neq_id)

lemma strchr_here: "strchr (c # s) 0 c = Some 0"
  by (simp add: strchr_def)

lemma strchr_Cons: "x \<noteq> c \<Longrightarrow> strchr (x # s) 0 c = map_option Suc (strchr s 0 c)"
  by (simp add: strchr_def Let_def)

lemma strchr_Cons1: "strchr (x # s) (Suc 0) c = map_option Suc (strchr s 0 c)"
  by (simp add: strchr_def Let_def)

lemma strchr_Nil: "strchr [] i c = None"
  by (simp add: strchr_def)

lemmas strchr_text = strchr_shift0 strchr_skip strchr_here strchr_Cons strchr_Cons1 strchr_Nil

lemma next_separator_shift:
  "next_separator (a @ s) (length a) c d = map_option ((+) (length a)) (next_separator s 0 c d)"
  by (simp add: next_separator_def strchr_shift0 split: option.splits)

lemma next_separator_after:
  assumes "c \<notin> set b" "d \<notin> set b" "c \<noteq> d" "d \<noteq> NUL"
  shows "next_separator (b @ d # s) 0 c d = None"
  using assms by (cases "strchr s 0 c") (simp_all add: next_separator_def strchr_text)

lemma next_separator_before:
  assumes "c \<notin> set b" "d \<notin> set b" "c \<noteq> d" "d \<noteq> NUL"
  shows "next_separator (b @ c # s) 0 c d = Some (length b)"
  using assms by (cases "strchr s 0 d") (simp_all add: next_separator_def strchr_text)

lemma next_separator_none: "c \<notin> set b \<Longrightarrow> next_separator b 0 c d = None"
  by (simp add: next_separator_def strchr_no_sep)

lemma notin_escaped:
  assumes "\<not> osip_is_alphanum c" "c \<notin> set def" "c \<noteq> CHR ''%''"
  shows "c \<notin> set (escaped def s)"
proof -
  have hex: "hex_digit n \<noteq> c" if "n < 16" for n
  proof -
    have "osip_is_alphanum (hex_digit n)"
      using that by (simp add: osip_is_alphanum_def char_in_def of_char_hex_digit)
    then show ?thesis using assms(1) by auto
  qed
  have "of_char x div 16 < (16 :: nat)" for x using of_char_less [of x] by (simp add: less_mult_imp_div_less)
  then have "c \<notin> set (esc def x)" for x
    using assms hex [of "of_char x div 16"] hex [of "of_char x mod 16"]
    by (auto simp: esc_def percent_encode_def)
  then show ?thesis by (auto simp: escaped_def)
qed

lemma escaped_Nil_iff: "escaped def s = [] \<longleftrightarrow> s = []"
  by (cases s) (auto simp: escaped_def esc_def percent_encode_def)

lemmas escape_sets = userinfo_def_def password_def_def uri_param_def_def header_param_def_def

lemma not_alphanum:
  "\<not> osip_is_alphanum (CHR '':'')" "\<not> osip_is_alphanum (CHR ''@'')" "\<not> osip_is_alphanum (CHR '';'')"
  "\<not> osip_is_alphanum (CHR ''?'')" "\<not> osip_is_alphanum (CHR ''='')" "\<not> osip_is_alphanum (CHR ''&'')"
  by (simp_all add: osip_is_alphanum_def char_in_def)

lemma userinfo_seps [simp]:
  "CHR '':'' \<notin> set (escaped userinfo_def s)" "CHR ''@'' \<notin> set (escaped userinfo_def s)"
  "CHR '':'' \<notin> set (escaped password_def s)" "CHR ''@'' \<notin> set (escaped password_def s)"
  by (simp_all add: notin_escaped not_alphanum escape_sets)

lemma param_seps [simp]:
  "CHR ''@'' \<notin> set (escaped uri_param_def s)" "CHR '';'' \<notin> set (escaped uri_param_def s)"
  "CHR ''?'' \<notin> set (escaped uri_param_def s)" "CHR ''='' \<notin> set (escaped uri_param_def s)"
  "CHR ''@'' \<notin> set (escaped header_param_def s)" "CHR '';'' \<notin> set (escaped header_param_def s)"
  "CHR ''&'' \<notin> set (escaped header_param_def s)" "CHR ''='' \<notin> set (escaped header_param_def s)"
  by (simp_all add: notin_escaped not_alphanum escape_sets)

lemma unescape_defs [simp]:
  "cstring s \<Longrightarrow> osip_uri_unescape (escaped userinfo_def s) = s"
  "cstring s \<Longrightarrow> osip_uri_unescape (escaped password_def s) = s"
  "cstring s \<Longrightarrow> osip_uri_unescape (escaped uri_param_def s) = s"
  "cstring s \<Longrightarrow> osip_uri_unescape (escaped header_param_def s) = s"
  by (simp_all add: unescape_escaped escape_sets)

subsection \<open>Parameters and headers\<close>

definition token :: "string \<Rightarrow> bool" where
  "token s \<longleftrightarrow> s \<noteq> [] \<and> cstring s \<and> trimmed s"

definition wf_param :: "uri_param \<Rightarrow> bool" where
  "wf_param p \<longleftrightarrow>
     (case gname p of
        None \<Rightarrow> False
      | Some n \<Rightarrow> token n \<and> osip_strcasecmp n ''x-obr'' \<noteq> 0 \<and> osip_strcasecmp n ''x-obp'' \<noteq> 0)
     \<and> (case gvalue p of None \<Rightarrow> True | Some v \<Rightarrow> token v)"

definition wf_header :: "uri_param \<Rightarrow> bool" where
  "wf_header h \<longleftrightarrow>
     (case gname h of None \<Rightarrow> False | Some n \<Rightarrow> token n) \<and> (case gvalue h of None \<Rightarrow> False | Some v \<Rightarrow> token v)"

lemma param_add_trimmed:
  "trimmed n \<Longrightarrow> osip_uri_param_add ps (Some n) None = (OSIP_SUCCESS, ps @ [\<lparr>gname = Some n, gvalue = None\<rparr>])"
  "trimmed n \<Longrightarrow> trimmed x \<Longrightarrow>
   osip_uri_param_add ps (Some n) (Some x) = (OSIP_SUCCESS, ps @ [\<lparr>gname = Some n, gvalue = Some x\<rparr>])"
  by (simp_all add: osip_uri_param_add_def osip_uri_param_set_def osip_uri_param_init_def
      osip_clrspace_strip strip_trimmed)

lemma strncpy_at: "osip_strncpy (a @ b @ c) (length a) (length b) = b"
  by (simp add: osip_strncpy_def)

lemma parse_one_param_print:
  assumes p: "wf_param p" and r: "r = [] \<or> hd r = CHR '';''"
  shows "parse_one_param ps (print_param p @ r) (length (print_param p)) = (OSIP_SUCCESS, ps @ [p])"
proof -
  obtain n where n: "gname p = Some n" "token n" and nx: "\<not> (osip_strcasecmp n ''x-obr'' = 0 \<or> osip_strcasecmp n ''x-obp'' = 0)"
    using p by (auto simp: wf_param_def split: option.splits)
  let ?n = "escaped uri_param_def n"
  have ne: "?n \<noteq> []" using n(2) by (simp add: escaped_Nil_iff token_def)
  have tn: "trimmed n" "cstring n" using n(2) by (simp_all add: token_def)
  have semi: "CHR '';'' \<noteq> NUL" by (simp add: NUL_def)
  show ?thesis
  proof (cases "gvalue p")
    case None
    then have pp: "print_param p = CHR '';'' # ?n" using n nx by (simp add: print_param_def)
    have "next_separator (?n @ r) 0 (CHR ''='') (CHR '';'') = None"
    proof (cases r)
      case (Cons x xs)
      then show ?thesis using r next_separator_after [of "CHR ''=''" ?n "CHR '';''" xs] semi by simp
    qed (simp add: next_separator_none)
    then have ns: "next_separator (CHR '';'' # ?n @ r) (Suc 0) (CHR ''='') (CHR '';'') = None"
      using next_separator_shift [of "'';''" "?n @ r"] by simp
    have "osip_strncpy (CHR '';'' # ?n @ r) (Suc 0) (length ?n) = ?n"
      using strncpy_at [of "'';''" ?n r] by simp
    moreover have "p = \<lparr>gname = Some n, gvalue = None\<rparr>" using n None by simp
    moreover have "2 \<le> length (CHR '';'' # ?n)" using ne by (cases ?n) simp_all
    ultimately show ?thesis
      unfolding pp using ns tn ne by (simp add: parse_one_param_def param_add_trimmed)
  next
    case (Some v)
    let ?v = "escaped uri_param_def v"
    have v: "token v" using p Some by (simp add: wf_param_def)
    have pp: "print_param p = CHR '';'' # ?n @ CHR ''='' # ?v" using n nx Some by (simp add: print_param_def)
    have ns: "next_separator (CHR '';'' # ?n @ CHR ''='' # ?v @ r) (Suc 0) (CHR ''='') (CHR '';'') = Some (Suc (length ?n))"
      using next_separator_shift [of "'';''" "?n @ CHR ''='' # ?v @ r"]
        next_separator_before [of "CHR ''=''" ?n "CHR '';''" "?v @ r"] semi by simp
    have "?v \<noteq> []" using v by (simp add: escaped_Nil_iff token_def)
    then have len: "0 < length ?v" "0 < length ?n" using ne by auto
    have "osip_strncpy (CHR '';'' # ?n @ CHR ''='' # ?v @ r) (Suc 0) (length ?n) = ?n"
      using strncpy_at [of "'';''" ?n "CHR ''='' # ?v @ r"] by simp
    moreover have "osip_strncpy (CHR '';'' # ?n @ CHR ''='' # ?v @ r) (Suc (Suc (length ?n))) (length ?v) = ?v"
      using strncpy_at [of "CHR '';'' # ?n @ ''=''" ?v r] by simp
    moreover have "p = \<lparr>gname = Some n, gvalue = Some v\<rparr>" using n Some by simp
    moreover have "trimmed v" "cstring v" using v by (simp_all add: token_def)
    ultimately show ?thesis
      unfolding pp using len ns tn by (simp add: parse_one_param_def param_add_trimmed)
  qed
qed

lemma print_param_head: "wf_param p \<Longrightarrow> \<exists>t. print_param p = CHR '';'' # t \<and> CHR '';'' \<notin> set t"
  by (auto simp: wf_param_def print_param_def split: option.splits)

lemma parse_params_print:
  "qs \<noteq> [] \<Longrightarrow> \<forall>q\<in>set qs. wf_param q \<Longrightarrow>
   parse_params_loop ps (concat (map print_param qs)) = (OSIP_SUCCESS, ps @ qs)"
proof (induction qs arbitrary: ps)
  case (Cons q qs)
  obtain t where t: "print_param q = CHR '';'' # t" "CHR '';'' \<notin> set t" using print_param_head Cons.prems(2) by fastforce
  let ?r = "concat (map print_param qs)"
  have one: "parse_one_param ps (print_param q @ ?r) (length (print_param q)) = (OSIP_SUCCESS, ps @ [q])"
    if "?r = [] \<or> hd ?r = CHR '';''"
    using parse_one_param_print [OF _ that] Cons.prems(2) by simp
  show ?case
  proof (cases qs)
    case Nil
    then have "strchr (concat (map print_param (q # qs))) 1 (CHR '';'') = None"
      using t by (simp add: strchr_Cons1 strchr_no_sep)
    then show ?thesis using one Nil by (subst parse_params_loop.simps) simp
  next
    case (Cons q2 qs2)
    then obtain t2 where t2: "?r = CHR '';'' # t2" using print_param_head Cons.prems(2) by fastforce
    then have "strchr (print_param q @ ?r) 1 (CHR '';'') = Some (length (print_param q))"
      using t by (simp add: strchr_Cons1 strchr_skip strchr_here)
    moreover have "drop (length (print_param q)) (print_param q @ ?r) = ?r" by simp
    moreover have "parse_params_loop (ps @ [q]) ?r = (OSIP_SUCCESS, (ps @ [q]) @ qs)"
      using Cons Cons.IH [of "ps @ [q]"] Cons.prems(2) by simp
    ultimately show ?thesis using one t2 by (subst parse_params_loop.simps) simp
  qed
qed simp

lemma header_text_head:
  "hs \<noteq> [] \<Longrightarrow> \<exists>t. header_text pos hs = (if pos = 0 then CHR ''?'' else CHR ''&'') # t"
  by (cases hs) auto

lemma parse_headers_print:
  "hs \<noteq> [] \<Longrightarrow> \<forall>h\<in>set hs. wf_header h \<Longrightarrow>
   osip_uri_parse_headers url (header_text pos hs) = (OSIP_SUCCESS, url\<lparr>url_headers := url_headers url @ hs\<rparr>)"
proof (induction hs arbitrary: url pos)
  case (Cons h hs)
  obtain n v where h: "h = \<lparr>gname = Some n, gvalue = Some v\<rparr>" and tok: "token n" "token v"
    using Cons.prems(2) by (cases h) (auto simp: wf_header_def split: option.splits)
  let ?n = "escaped header_param_def n" and ?v = "escaped header_param_def v"
  let ?c = "if pos = 0 then CHR ''?'' else CHR ''&''"
  let ?r = "header_text (pos + 1) hs"
  have tx: "header_text pos (h # hs) = ?c # ?n @ CHR ''='' # ?v @ ?r" by (simp add: h)
  have add: "osip_uri_param_add (url_headers url) (Some n) (Some v) = (OSIP_SUCCESS, url_headers url @ [h])"
    using tok h by (simp add: param_add_trimmed token_def)
  have eq: "strchr (?c # ?n @ CHR ''='' # ?v @ ?r) 0 (CHR ''='') = Some (Suc (length ?n))"
    by (simp add: strchr_text)
  have cs: "cstring n" "cstring v" using tok by (simp_all add: token_def)
  have name: "osip_strncpy (?c # ?n @ CHR ''='' # ?v @ ?r) (Suc 0) (length ?n) = ?n"
    using strncpy_at [of "[?c]" ?n "CHR ''='' # ?v @ ?r"] by simp
  have val: "osip_strncpy (?c # ?n @ CHR ''='' # ?v @ ?r) (Suc (Suc (length ?n))) (length ?v) = ?v"
    using strncpy_at [of "?c # ?n @ ''=''" ?v ?r] by simp
  have vne: "0 < length ?v" using tok by (simp add: escaped_Nil_iff token_def)
  show ?case
  proof (cases hs)
    case Nil
    then have "strchr (?c # ?n @ CHR ''='' # ?v @ ?r) (Suc 0) (CHR ''&'') = None"
      by (simp add: strchr_text strchr_no_sep)
    moreover have "osip_strncpy (?c # ?n @ CHR ''='' # ?v) (Suc (Suc (length ?n))) (Suc (length ?v)) = ?v"
      using Nil by (simp add: osip_strncpy_def)
    ultimately show ?thesis
      unfolding tx using eq name add cs Nil by (subst osip_uri_parse_headers.simps) (simp add: Let_def)
  next
    case (Cons h2 hs2)
    then obtain t where t: "?r = CHR ''&'' # t" using header_text_head [of hs "pos + 1"] by auto
    have "strchr (?c # ?n @ CHR ''='' # ?v @ ?r) (Suc 0) (CHR ''&'') = Some (Suc (length ?n + Suc (length ?v)))"
      unfolding t by (simp add: strchr_text)
    moreover have "drop (Suc (length ?n + Suc (length ?v))) (?c # ?n @ CHR ''='' # ?v @ ?r) = ?r" by simp
    moreover have "osip_uri_parse_headers (url\<lparr>url_headers := url_headers url @ [h]\<rparr>) ?r
        = (OSIP_SUCCESS, url\<lparr>url_headers := url_headers url @ h # hs\<rparr>)"
      using Cons Cons.IH [of "url\<lparr>url_headers := url_headers url @ [h]\<rparr>" "pos + 1"] Cons.prems(2) by simp
    ultimately show ?thesis
      unfolding tx using eq name val add cs vne by (subst osip_uri_parse_headers.simps) (simp add: Let_def)
  qed
qed simp

subsection \<open>Host and port\<close>

lemma scan_back_to:
  "lo \<le> k \<Longrightarrow> k \<le> p \<Longrightarrow> stop (chr_at s k) \<or> k = lo \<Longrightarrow>
   (\<And>j. k < j \<Longrightarrow> j \<le> p \<Longrightarrow> \<not> stop (chr_at s j)) \<Longrightarrow> scan_back stop s lo p = k"
proof (induction stop s lo p rule: scan_back.induct)
  case (1 stop s lo p)
  show ?case
  proof (cases "k = p")
    case True
    with "1.prems" show ?thesis by (subst scan_back.simps) auto
  next
    case False
    then have "p > lo" "\<not> stop (chr_at s p)" "k \<le> p - 1" using "1.prems" by auto
    moreover from this have "scan_back stop s lo (p - 1) = k" using "1.IH" "1.prems" by simp
    ultimately show ?thesis by (subst scan_back.simps) simp
  qed
qed

lemma chr_at_mid: "chr_at (a @ x # b) (length a) = x"
  by (simp add: chr_at_def)

lemma chr_at_in: "length a \<le> j \<Longrightarrow> j < length a + length b \<Longrightarrow> chr_at (a @ b @ c) j \<in> set b"
  by (auto simp: chr_at_def nth_append)

text \<open>Scanning back over \<open>b\<close> to the character in front of it.\<close>

lemma scan_back_over:
  assumes "lo \<le> length a" "stop x \<or> lo = length a" "\<forall>y\<in>set b. \<not> stop y"
  shows "scan_back stop (a @ x # b @ c) lo (length a + length b) = length a"
proof (rule scan_back_to)
  fix j assume j: "length a < j" "j \<le> length a + length b"
  have "chr_at ((a @ [x]) @ b @ c) j \<in> set b" using j by (intro chr_at_in) auto
  then show "\<not> stop (chr_at (a @ x # b @ c) j)" using assms(3) by simp
qed (use assms in \<open>auto simp: chr_at_mid\<close>)

text \<open>The same when the scan starts on the character behind \<open>b\<close>.\<close>

lemma scan_back_over1:
  assumes "lo \<le> length a" "stop x \<or> lo = length a" "\<forall>y\<in>set b. \<not> stop y" "\<not> stop (chr_at c 0)"
  shows "scan_back stop (a @ x # b @ c) lo (length a + length b + 1) = length a"
proof -
  have "chr_at (a @ x # b @ c) (length a + length b + 1) = chr_at c 0"
    by (simp add: chr_at_def nth_append)
  then show ?thesis
    using assms scan_back_over [OF assms(1-3), of c] by (subst scan_back.simps) simp
qed

definition wf_host :: "string \<Rightarrow> bool" where
  "wf_host h \<longleftrightarrow> token h \<and> (\<forall>c\<in>set h. c \<notin> {CHR ''@'', CHR ''?'', CHR '';'', CHR ''['', CHR '']''})"

definition wf_port :: "string \<Rightarrow> bool" where
  "wf_port p \<longleftrightarrow> p \<noteq> [] \<and> length p \<le> 7 \<and> list_all isdigit p"

lemma digits_plain:
  assumes "list_all isdigit p"
  shows "cstring p" "trimmed p"
    "\<forall>c\<in>set p. c \<notin> {CHR ''@'', CHR ''?'', CHR '';'', CHR '']'', CHR ''['', CHR '':''}"
proof -
  have d: "c \<noteq> NUL" "\<not> is_lws c" "c \<notin> {CHR ''@'', CHR ''?'', CHR '';'', CHR '']'', CHR ''['', CHR '':''}"
    if "isdigit c" for c
    using that by (auto simp: isdigit_def is_lws_def char_defs Let_def)
  show "cstring p" "\<forall>c\<in>set p. c \<notin> {CHR ''@'', CHR ''?'', CHR '';'', CHR '']'', CHR ''['', CHR '':''}"
    using assms d by (auto simp: cstring_def list_all_iff)
  show "trimmed p" using assms d by (auto simp: trimmed_def list_all_iff)
qed

lemma clrncpy_mid: "b \<noteq> [] \<Longrightarrow> trimmed b \<Longrightarrow> osip_clrncpy (a @ b @ c) (length a) (length b) = b"
  by (simp add: osip_clrncpy_segment strip_trimmed)

lemma bracket_host_plain:
  assumes h: "wf_host h" and sep: "x \<noteq> CHR '']''" and tail: "chr_at tail 0 \<noteq> CHR '']''"
  shows "bracket_host url (pre @ x # h @ tail) (length pre) (length pre + length h + 1)
    = (OSIP_SUCCESS, url\<lparr>host := Some h\<rparr>)"
proof -
  have "scan_back (\<lambda>c. c = CHR '']'') (pre @ x # h @ tail) (length pre) (length pre + length h + 1) = length pre"
    using h tail by (intro scan_back_over1) (auto simp: wf_host_def)
  moreover have "osip_clrncpy (pre @ x # h @ tail) (Suc (length pre)) (length h) = h"
    using clrncpy_mid [of h "pre @ [x]" tail] h by (simp add: wf_host_def token_def)
  moreover have "0 < length h" using h by (simp add: wf_host_def token_def)
  ultimately show ?thesis using sep by (simp add: bracket_host_def chr_at_mid)
qed

lemma bracket_host_ipv6:
  assumes h: "wf_host h" and sep: "x \<noteq> CHR ''[''" and tail: "chr_at tail 0 \<noteq> CHR '']''"
  shows "bracket_host url (pre @ x # ''['' @ h @ '']'' @ tail) (length pre) (length pre + length h + 3)
    = (OSIP_SUCCESS, url\<lparr>host := Some h\<rparr>)"
proof -
  let ?s = "pre @ x # ''['' @ h @ '']'' @ tail"
  have tmp: "scan_back (\<lambda>c. c = CHR '']'') ?s (length pre) (length pre + length h + 3) = length pre + length h + 2"
    using scan_back_over1 [of "length pre" "pre @ x # ''['' @ h" "\<lambda>c. c = CHR '']''" "CHR '']''" "[]" tail] tail
    by (simp add: numeral_3_eq_3)
  have at: "chr_at ?s (length pre + length h + 2) = CHR '']''"
    using chr_at_mid [of "pre @ x # ''['' @ h" "CHR '']''" tail] by simp
  have "chr_at ?s (length pre) = x" "chr_at ?s (Suc (length pre)) = CHR ''[''"
    using chr_at_mid [of pre x] chr_at_mid [of "pre @ [x]" "CHR ''[''"] by simp_all
  then have forw: "scan_forw (\<lambda>c. c = CHR ''['') ?s (length pre) (length pre + length h + 2) = length pre + 1"
    using sep by (subst scan_forw.simps, subst scan_forw.simps) simp
  have "osip_clrncpy ?s (length pre + 2) (length h) = h"
    using clrncpy_mid [of h "pre @ x # ''[''" "'']'' @ tail"] h by (simp add: wf_host_def token_def)
  moreover have "0 < length h" using h by (simp add: wf_host_def token_def)
  ultimately show ?thesis using tmp at forw by (simp add: bracket_host_def)
qed

lemma parse_hostport_end:
  assumes "scan_back (\<lambda>c. c = CHR '']'' \<or> c = CHR '':'') buf hst (params - 1) = k"
    and "chr_at buf k = CHR '':'' \<longrightarrow> hst = k"
  shows "parse_hostport url buf hst params = bracket_host url buf hst params"
  using assms by (simp add: parse_hostport_def)

lemma parse_hostport_port:
  assumes "a = pre @ x # hh" and p: "wf_port p"
  shows "parse_hostport url (a @ '':'' @ p @ tail) (length pre) (length a + 1 + length p)
     = bracket_host (url\<lparr>port := Some p\<rparr>) (a @ '':'' @ p @ tail) (length pre) (length a)"
proof -
  note plain = digits_plain [of p]
  have pp: "list_all isdigit p" "p \<noteq> []" "length p \<le> 7" using p by (simp_all add: wf_port_def)
  have "scan_back (\<lambda>c. c = CHR '']'' \<or> c = CHR '':'') (a @ CHR '':'' # p @ tail) (length pre) (length a + length p) = length a"
    using assms(1) plain pp by (intro scan_back_over) auto
  moreover have "osip_clrncpy (a @ CHR '':'' # p @ tail) (Suc (length a)) (length p) = p"
    using clrncpy_mid [of p "a @ '':''" tail] plain pp by simp
  moreover have "chr_at (a @ CHR '':'' # p @ tail) (length a) = CHR '':''" by (rule chr_at_mid)
  moreover have "length pre \<noteq> length a" "0 < length p" using assms(1) pp by auto
  ultimately show ?thesis using pp by (simp add: parse_hostport_def)
qed

lemma parse_hostport_text:
  assumes h: "host u = Some h" "wf_host h" and p: "case port u of None \<Rightarrow> True | Some p \<Rightarrow> wf_port p"
    and x: "x = CHR '':'' \<or> x = CHR ''@''" and tail: "chr_at tail 0 \<noteq> CHR '']''" and url: "port url = None"
  shows "parse_hostport url (pre @ x # host_text u @ tail) (length pre) (length pre + 1 + length (host_text u))
     = (OSIP_SUCCESS, url\<lparr>host := host u, port := port u\<rparr>)"
proof (cases "port u")
  case None
  then have upd: "url\<lparr>host := Some h, port := None\<rparr> = url\<lparr>host := Some h\<rparr>" using url by simp
  show ?thesis
  proof (cases "CHR '':'' \<in> set h")
    case True
    then have ht: "host_text u = ''['' @ h @ '']''" using h None by (simp add: host_text_def)
    have "parse_hostport url (pre @ x # host_text u @ tail) (length pre) (length pre + 1 + length (host_text u))
      = bracket_host url (pre @ x # ''['' @ h @ '']'' @ tail) (length pre) (length pre + length h + 3)"
      using scan_back_over [of "length pre" "pre @ x # ''['' @ h" "\<lambda>c. c = CHR '']'' \<or> c = CHR '':''" "CHR '']''" "[]" tail]
        chr_at_mid [of "pre @ x # ''['' @ h" "CHR '']''" tail] ht
        parse_hostport_end [of "pre @ x # ''['' @ h @ '']'' @ tail" "length pre" "length pre + length h + 3"]
      by (simp add: numeral_3_eq_3)
    then show ?thesis using bracket_host_ipv6 [OF h(2) _ tail] x None h upd by auto
  next
    case False
    then have ht: "host_text u = h" using h None by (simp add: host_text_def)
    have "scan_back (\<lambda>c. c = CHR '']'' \<or> c = CHR '':'') (pre @ x # h @ tail) (length pre) (length pre + length h) = length pre"
      using False h(2) by (intro scan_back_over) (auto simp: wf_host_def)
    then have "parse_hostport url (pre @ x # h @ tail) (length pre) (length pre + length h + 1)
      = bracket_host url (pre @ x # h @ tail) (length pre) (length pre + length h + 1)"
      by (intro parse_hostport_end [where k = "length pre"]) simp_all
    then show ?thesis using bracket_host_plain [OF h(2) _ tail] x None h upd ht by auto
  qed
next
  case (Some q)
  define hh where "hh = (if CHR '':'' \<in> set h then ''['' @ h @ '']'' else h)"
  have ht: "host_text u = hh @ '':'' @ q" using h Some by (simp add: host_text_def hh_def)
  have wq: "wf_port q" using p Some by simp
  have c: "chr_at ('':'' @ q @ tail) 0 \<noteq> CHR '']''" by (simp add: chr_at_def)
  have "bracket_host (url\<lparr>port := Some q\<rparr>) (pre @ x # hh @ '':'' @ q @ tail) (length pre) (length (pre @ x # hh))
    = (OSIP_SUCCESS, url\<lparr>port := Some q, host := Some h\<rparr>)"
    using bracket_host_ipv6 [OF h(2) _ c, of x] bracket_host_plain [OF h(2) _ c, of x] x
    by (auto simp: numeral_3_eq_3 hh_def)
  then have "parse_hostport url (pre @ x # host_text u @ tail) (length pre) (length pre + 1 + length (host_text u))
    = (OSIP_SUCCESS, url\<lparr>port := Some q, host := Some h\<rparr>)"
    using parse_hostport_port [OF refl wq, of url pre x hh tail] by (simp add: ht add.assoc)
  moreover have "url\<lparr>port := Some q, host := Some h\<rparr> = url\<lparr>host := Some h, port := Some q\<rparr>" by (cases url) simp
  ultimately show ?thesis using h Some by simp
qed

subsection \<open>The whole URI\<close>

definition wf_uri :: "uri \<Rightarrow> bool" where
  "wf_uri u \<longleftrightarrow>
     uri_string u = None
     \<and> (case scheme u of None \<Rightarrow> False
        | Some s \<Rightarrow> list_all osip_is_alpha s \<and> 3 \<le> length s \<and> osip_strncasecmp s ''sip'' 3 = 0)
     \<and> (case username u of None \<Rightarrow> password u = None | Some n \<Rightarrow> n \<noteq> [] \<and> cstring n)
     \<and> (case password u of None \<Rightarrow> True | Some p \<Rightarrow> p \<noteq> [] \<and> cstring p)
     \<and> (case host u of None \<Rightarrow> False | Some h \<Rightarrow> wf_host h)
     \<and> (case port u of None \<Rightarrow> True | Some p \<Rightarrow> wf_port p)
     \<and> list_all wf_param (url_params u) \<and> list_all wf_header (url_headers u)"

lemma host_text_seps:
  assumes "host u = Some h" "wf_host h" "case port u of None \<Rightarrow> True | Some p \<Rightarrow> wf_port p"
  shows "CHR ''?'' \<notin> set (host_text u)" "CHR '';'' \<notin> set (host_text u)" "CHR ''@'' \<notin> set (host_text u)"
  using assms digits_plain by (auto simp: host_text_def wf_host_def wf_port_def split: option.splits)

lemma params_text_seps:
  "CHR ''?'' \<notin> set (concat (map print_param ps))" "CHR ''@'' \<notin> set (concat (map print_param ps))"
  by (auto simp: print_param_def split: option.splits if_splits)

lemma header_text_seps: "CHR ''@'' \<notin> set (header_text pos hs)" "CHR '';'' \<notin> set (header_text pos hs)"
  by (induction hs arbitrary: pos) auto

lemma parse_hostpart_text:
  assumes h: "host u = Some h" "wf_host h" and p: "case port u of None \<Rightarrow> True | Some p \<Rightarrow> wf_port p"
    and ps: "list_all wf_param (url_params u)" and hs: "list_all wf_header (url_headers u)"
    and x: "x = CHR '':'' \<or> x = CHR ''@''"
    and url: "port url = None" "url_params url = []" "url_headers url = []"
  shows "parse_hostpart url (pre @ x # host_text u @ concat (map print_param (url_params u)) @ header_text 0 (url_headers u)) (length pre)
    = (OSIP_SUCCESS, url\<lparr>url_headers := url_headers u, url_params := url_params u, host := host u, port := port u\<rparr>)"
proof -
  let ?ht = "host_text u" and ?pt = "concat (map print_param (url_params u))"
    and ?hd = "header_text 0 (url_headers u)"
  let ?buf = "pre @ x # ?ht @ ?pt @ ?hd"
  note seps = host_text_seps [OF h p] params_text_seps [of "url_params u"] header_text_seps [of 0 "url_headers u"]
  let ?url1 = "url\<lparr>url_headers := url_headers u\<rparr>" let ?hend = "length pre + 1 + length ?ht + length ?pt"
  have hdr: "(case strchr ?buf (length pre) (CHR ''?'') of
              None \<Rightarrow> (length ?buf, url)
            | Some headers \<Rightarrow> (headers, snd (osip_uri_parse_headers url (drop headers ?buf)))) = (?hend, ?url1)"
  proof (cases "url_headers u = []")
    case True
    then have "strchr ?buf (length pre) (CHR ''?'') = None"
      using x seps by (auto simp: strchr_text strchr_no_sep)
    with True url(3) show ?thesis by simp
  next
    case False
    then obtain t where t: "?hd = CHR ''?'' # t" using header_text_head [of _ 0] by auto
    have st: "strchr ?buf (length pre) (CHR ''?'') = Some ?hend"
      unfolding t using x seps by (auto simp: strchr_text)
    have "drop ?hend ?buf = ?hd" by simp
    moreover have "osip_uri_parse_headers url ?hd = (OSIP_SUCCESS, ?url1)"
      using parse_headers_print [OF False] hs url(3) by (simp add: list_all_iff)
    ultimately show ?thesis using st by (simp del: drop_append)
  qed
  have ends: "chr_at (?pt @ ?hd) 0 \<noteq> CHR '']''"
    using ps print_param_head header_text_head [of "url_headers u" 0]
    by (cases "url_params u"; cases "url_headers u") (fastforce simp: chr_at_def NUL_def)+
  have hp: "parse_hostport url' ?buf (length pre) (length pre + 1 + length ?ht)
      = (OSIP_SUCCESS, url'\<lparr>host := host u, port := port u\<rparr>)" if "port url' = None" for url'
    using parse_hostport_text [OF h p x ends that] by simp
  show ?thesis
  proof (cases "url_params u = []")
    case True
    then have "strchr ?buf (length pre) (CHR '';'') = None" using x seps by (auto simp: strchr_text strchr_no_sep)
    with True hp [of ?url1] url show ?thesis unfolding parse_hostpart_def hdr by simp
  next
    case False
    then obtain t where t: "?pt = CHR '';'' # t"
      using ps print_param_head by (cases "url_params u") fastforce+
    have st: "strchr ?buf (length pre) (CHR '';'') = Some (length pre + 1 + length ?ht)"
      unfolding t using x seps by (auto simp: strchr_text)
    have len: "?pt \<noteq> []" using t by simp
    have "osip_strncpy ?buf (length pre + 1 + length ?ht) (length ?pt) = ?pt"
      using strncpy_at [of "pre @ x # ?ht" ?pt ?hd] by simp
    then have pp: "snd (osip_uri_parse_params ?url1 (osip_strncpy ?buf (length pre + 1 + length ?ht) (length ?pt)))
        = ?url1\<lparr>url_params := url_params u\<rparr>"
      using parse_params_print [OF False, of "[]"] ps url(2)
      by (simp add: osip_uri_parse_params_def list_all_iff)
    have "parse_hostpart url ?buf (length pre) = parse_hostport (?url1\<lparr>url_params := url_params u\<rparr>) ?buf (length pre) (length pre + 1 + length ?ht)"
      unfolding parse_hostpart_def hdr using st len pp by auto
    with hp [of "?url1\<lparr>url_params := url_params u\<rparr>"] url show ?thesis by simp
  qed
qed

lemma parse_userinfo_text:
  assumes n: "username u = Some n" "n \<noteq> []" "cstring n"
    and p: "case password u of None \<Rightarrow> True | Some p \<Rightarrow> p \<noteq> [] \<and> cstring p" and url: "password url = None"
  shows "parse_userinfo url ((pre @ [x]) @ user_text u @ tail) (length pre) (length pre + length (user_text u))
    = (OSIP_SUCCESS, url\<lparr>password := password u, username := username u\<rparr>)"
proof -
  let ?n = "escaped userinfo_def n"
  have nl: "0 < length ?n" using n by (simp add: escaped_Nil_iff)
  have at: "CHR ''@'' \<noteq> NUL" by (simp add: NUL_def)
  show ?thesis
  proof (cases "password u")
    case None
    then have ut: "user_text u = ?n @ ''@''" using n by (simp add: user_text_def)
    have "next_separator ((pre @ [x]) @ ?n @ CHR ''@'' # tail) (length (pre @ [x])) (CHR '':'') (CHR ''@'') = None"
      unfolding next_separator_shift using at by (simp add: next_separator_after)
    moreover have "osip_strncpy ((pre @ [x]) @ ?n @ CHR ''@'' # tail) (length (pre @ [x])) (length ?n) = ?n"
      by (rule strncpy_at)
    moreover have "url\<lparr>password := None\<rparr> = url" using url by simp
    ultimately show ?thesis using n nl None url by (simp add: parse_userinfo_def ut)
  next
    case (Some q)
    let ?q = "escaped password_def q"
    have ut: "user_text u = ?n @ CHR '':'' # ?q @ ''@''" using n Some by (simp add: user_text_def)
    have q: "0 < length ?q" "cstring q" using p Some by (simp_all add: escaped_Nil_iff)
    have "next_separator ((pre @ [x]) @ ?n @ CHR '':'' # ?q @ CHR ''@'' # tail) (length (pre @ [x])) (CHR '':'') (CHR ''@'')
        = Some (length (pre @ [x]) + length ?n)"
      unfolding next_separator_shift using at by (simp add: next_separator_before)
    moreover have "osip_strncpy ((pre @ [x]) @ ?n @ CHR '':'' # ?q @ CHR ''@'' # tail) (length (pre @ [x])) (length ?n) = ?n"
      by (rule strncpy_at)
    moreover have "osip_strncpy ((pre @ x # ?n @ '':'') @ ?q @ CHR ''@'' # tail) (length (pre @ x # ?n @ '':'')) (length ?q) = ?q"
      by (rule strncpy_at)
    ultimately show ?thesis using n nl q Some by (simp add: parse_userinfo_def ut)
  qed
qed

lemma wf_uri_parse:
  assumes wf: "wf_uri u"
  shows "osip_uri_parse osip_uri_init (Some (uri_text u)) = (OSIP_SUCCESS, u)"
proof -
  obtain sch where sch: "scheme u = Some sch" "list_all osip_is_alpha sch" "3 \<le> length sch"
    "osip_strncasecmp sch ''sip'' 3 = 0" using wf by (auto simp: wf_uri_def split: option.splits)
  obtain h where h: "host u = Some h" "wf_host h" using wf by (auto simp: wf_uri_def split: option.splits)
  have us: "uri_string u = None" and prt: "case port u of None \<Rightarrow> True | Some p \<Rightarrow> wf_port p"
    and lists: "list_all wf_param (url_params u)" "list_all wf_header (url_headers u)"
    and pw: "case password u of None \<Rightarrow> True | Some p \<Rightarrow> p \<noteq> [] \<and> cstring p"
    using wf by (auto simp: wf_uri_def)
  let ?rest = "host_text u @ concat (map print_param (url_params u)) @ header_text 0 (url_headers u)"
  define t where "t = sch @ CHR '':'' # user_text u @ ?rest"
  have tx: "uri_text u = t" using sch us by (simp add: uri_text_def t_def)
  note seps = host_text_seps [OF h prt] params_text_seps [of "url_params u"] header_text_seps [of 0 "url_headers u"]
  have alpha: "CHR '':'' \<notin> set sch" "CHR '' '' \<notin> set sch" "CHR ''@'' \<notin> set sch"
    using sch(2) by (auto simp: list_all_iff osip_is_alpha_def char_in_def)
  have colon: "strchr t 0 (CHR '':'') = Some (length sch)" unfolding t_def using alpha by (simp add: strchr_text)
  have pre: "take (length sch) t = sch" "osip_strncpy t 0 (length sch) = sch" "t \<noteq> []"
    by (simp_all add: t_def osip_strncpy_def)
  have sp: "strchr sch 0 (CHR '' '') = None" using alpha by (simp add: strchr_no_sep)
  let ?url = "osip_uri_init\<lparr>scheme := Some sch\<rparr>"
  have init: "port ?url = None" "url_params ?url = []" "url_headers ?url = []" "password ?url = None"
    by (simp_all add: osip_uri_init_def)
  have head: "osip_uri_parse osip_uri_init (Some t) =
     (case strchr t 0 (CHR ''@'') of
        None \<Rightarrow> parse_hostpart ?url t (length sch)
      | Some at \<Rightarrow>
          if chr_at t (length sch + 1) = CHR ''@'' then parse_hostpart ?url t (length sch + 1)
          else (case parse_userinfo ?url t (length sch) at of
                  (i, url) \<Rightarrow> if i \<noteq> OSIP_SUCCESS then (i, url) else parse_hostpart url t at))"
    using colon pre sp sch by (simp add: osip_uri_parse_def Let_def)
  show ?thesis
  proof (cases "username u")
    case None
    then have ut: "user_text u = []" "password u = None" using wf by (simp_all add: user_text_def wf_uri_def)
    have "strchr t 0 (CHR ''@'') = None"
      unfolding t_def ut using alpha seps by (intro strchr_no_sep) auto
    moreover have "parse_hostpart ?url t (length sch) = (OSIP_SUCCESS,
        ?url\<lparr>url_headers := url_headers u, url_params := url_params u, host := host u, port := port u\<rparr>)"
      unfolding t_def ut append_Nil using parse_hostpart_text [OF h prt lists _ init(1-3), of "CHR '':''" sch] by blast
    moreover have "?url\<lparr>url_headers := url_headers u, url_params := url_params u, host := host u, port := port u\<rparr> = u"
      using None ut us sch by (cases u) (simp add: osip_uri_init_def)
    ultimately show ?thesis using head tx by simp
  next
    case (Some n)
    then have n: "n \<noteq> []" "cstring n" using wf by (simp_all add: wf_uri_def)
    obtain ui where ut: "user_text u = ui @ ''@''" "CHR ''@'' \<notin> set ui" "ui \<noteq> []"
      using Some n by (cases "password u") (auto simp: user_text_def escaped_Nil_iff)
    let ?at = "length sch + length (user_text u)"
    have at: "strchr t 0 (CHR ''@'') = Some ?at"
      unfolding t_def ut(1) using alpha ut(2) by (simp add: strchr_text)
    have "chr_at t (length sch + 1) = hd ui"
      using ut(3) unfolding t_def ut(1) by (cases ui) (simp_all add: chr_at_def nth_append)
    then have ne: "chr_at t (length sch + 1) \<noteq> CHR ''@''" using ut(2,3) by (metis hd_in_set)
    let ?url2 = "?url\<lparr>password := password u, username := username u\<rparr>"
    have user: "parse_userinfo ?url t (length sch) ?at = (OSIP_SUCCESS, ?url2)"
      using parse_userinfo_text [OF Some n pw init(4), of sch "CHR '':''" ?rest] by (simp add: t_def)
    have init2: "port ?url2 = None" "url_params ?url2 = []" "url_headers ?url2 = []" by (simp_all add: osip_uri_init_def)
    have t2: "t = (sch @ CHR '':'' # ui) @ CHR ''@'' # ?rest" "length (sch @ CHR '':'' # ui) = ?at"
      by (simp_all add: t_def ut(1))
    have "parse_hostpart ?url2 t ?at = (OSIP_SUCCESS,
        ?url2\<lparr>url_headers := url_headers u, url_params := url_params u, host := host u, port := port u\<rparr>)"
      using parse_hostpart_text [OF h prt lists _ init2, of "CHR ''@''" "sch @ CHR '':'' # ui"]
      unfolding t2(2) [symmetric] t2(1) [symmetric] by simp
    moreover have "?url2\<lparr>url_headers := url_headers u, url_params := url_params u, host := host u, port := port u\<rparr> = u"
      using us sch by (cases u) (simp add: osip_uri_init_def)
    ultimately show ?thesis using head tx at ne user by simp
  qed
qed

lemma wf_uri_printable: "wf_uri u \<Longrightarrow> printable u"
  by (auto simp: wf_uri_def printable_def list_all_iff wf_param_def wf_header_def split: option.splits)

lemma wf_uri_to_str:
  assumes "wf_uri u"
  shows "osip_uri_to_str (Some u) = Some (OSIP_SUCCESS, Some (uri_text u))"
  using assms by (intro osip_uri_to_str_text wf_uri_printable) (auto simp: wf_uri_def split: option.splits)

lemma param_list_clone_id: "\<forall>p\<in>set ps. gname p \<noteq> None \<Longrightarrow> param_list_clone ps = (OSIP_SUCCESS, ps)"
  by (induction ps) (auto simp: osip_uri_param_clone_def)

lemma osip_uri_clone_id:
  assumes "printable u" and "host u \<noteq> None \<or> uri_string u \<noteq> None"
  shows "osip_uri_clone (Some u) = (OSIP_SUCCESS, Some u)"
proof -
  have "param_list_clone (url_params u) = (OSIP_SUCCESS, url_params u)"
    "param_list_clone (url_headers u) = (OSIP_SUCCESS, url_headers u)"
    using assms(1) by (auto simp: printable_def intro!: param_list_clone_id)
  moreover have "(if x \<noteq> None then osip_strdup x else None) = x" for x by simp
  ultimately show ?thesis using assms(2)
    by (cases u) (auto simp: osip_uri_clone_def osip_uri_init_def Let_def)
qed

section \<open>Properties of URIs\<close>

text \<open>
  C1. Round trip of SIP URIs: printing a well-formed SIP URI (user, password, parameters and
  headers of any bytes, IPv6 hosts included) and parsing the text with \<^verbatim>\<open>osip_uri_parse\<close> yields
  exactly the same structure.
\<close>

theorem osip_uri_roundtrip:
  assumes "wf_uri u"
  shows "\<exists>s. osip_uri_to_str (Some u) = Some (OSIP_SUCCESS, Some s) \<and>
             osip_uri_parse osip_uri_init (Some s) = (OSIP_SUCCESS, u)"
  using wf_uri_to_str [OF assms] wf_uri_parse [OF assms] by blast

definition sample_uri :: uri where
  "sample_uri = osip_uri_init\<lparr>scheme := Some ''sip'', username := Some ''a@b'', password := Some ''p:w'',
     host := Some ''fe80::1'', port := Some ''5060'',
     url_params := [\<lparr>gname = Some ''lr'', gvalue = None\<rparr>, \<lparr>gname = Some ''ttl'', gvalue = Some ''1;5''\<rparr>],
     url_headers := [\<lparr>gname = Some ''s'', gvalue = Some ''x=y&z''\<rparr>]\<rparr>"

lemma sample_uri_wf: "wf_uri sample_uri"
  by (simp add: sample_uri_def wf_uri_def osip_uri_init_def wf_host_def wf_port_def wf_param_def wf_header_def
      token_def trimmed_def is_lws_def char_defs osip_is_alpha_def char_in_def isdigit_def
      osip_strncasecmp_def osip_strcasecmp_def tolower_def numeral_3_eq_3)

theorem osip_uri_roundtrip_witness:
  "\<exists>s. osip_uri_to_str (Some sample_uri) = Some (OSIP_SUCCESS, Some s) \<and>
       osip_uri_parse osip_uri_init (Some s) = (OSIP_SUCCESS, sample_uri)"
  by (rule osip_uri_roundtrip [OF sample_uri_wf])

text \<open>
  C2. Escaping never writes behind its growing buffer, at most triples the length, and
  unescaping gives the original string back, for every table of unreserved characters that
  does not hold the percent sign.
\<close>

theorem osip_uri_escape_safe:
  assumes "CHR ''%'' \<notin> set def" and "cstring s"
  shows "\<exists>e. osip_uri_escape_nonascii_and_nondef s def = Some e \<and> length e \<le> 3 * length s \<and>
             osip_uri_unescape e = s"
  using escape_fits length_escaped unescape_escaped [OF assms] by blast

theorem osip_uri_escape_safe_witness:
  "\<exists>e. osip_uri_escape_nonascii_and_nondef ''a b%c'' userinfo_def = Some e \<and> length e \<le> 15 \<and>
       osip_uri_unescape e = ''a b%c''"
  using osip_uri_escape_safe [of userinfo_def "''a b%c''"] by (simp add: userinfo_def_def NUL_def)

text \<open>
  C3. \<^verbatim>\<open>osip_uri_to_str\<close> stays inside the buffer it computes and reallocates, for every URI with a
  host whose parameters have names and whose headers have names and values.
\<close>

theorem osip_uri_to_str_in_bounds:
  assumes "printable u" and "host u \<noteq> None" and "uri_string u = None"
  shows "osip_uri_to_str (Some u) = Some (OSIP_SUCCESS, Some (uri_text u))"
  using assms by (intro osip_uri_to_str_text) simp_all

theorem osip_uri_to_str_in_bounds_witness:
  "osip_uri_to_str (Some sample_uri) = Some (OSIP_SUCCESS, Some (uri_text sample_uri))"
  using osip_uri_to_str_in_bounds [of sample_uri] wf_uri_printable [OF sample_uri_wf]
  by (simp add: sample_uri_def osip_uri_init_def)

text \<open>
  \<^verbatim>\<open>osip_uri_clone\<close> copies every field of a URI whose parameters and headers have names.
\<close>

theorem osip_uri_clone_exact:
  assumes "printable u" and "host u \<noteq> None \<or> uri_string u \<noteq> None"
  shows "osip_uri_clone (Some u) = (OSIP_SUCCESS, Some u)"
  by (rule osip_uri_clone_id [OF assms])

theorem osip_uri_clone_exact_witness: "osip_uri_clone (Some sample_uri) = (OSIP_SUCCESS, Some sample_uri)"
  using osip_uri_clone_exact [of sample_uri] wf_uri_printable [OF sample_uri_wf]
  by (simp add: sample_uri_def osip_uri_init_def)

end
