(* ===== verification/Osip_Headers_Proofs.thy ===== *)
theory Osip_Headers_Proofs
  imports Osip_Headers Osip_Uri_Proofs
begin

text \<open>
  Correctness of the header code: what a header prints, its parser reads back (the locale
  \<open>header_codec\<close>), so comparing the printed forms compares the headers; printing stays inside
  its buffers; cloning copies; matching is the comparison the standard asks for.
\<close>

section \<open>The interface of a printable header\<close>

locale header_codec =
  fixes wf :: "'h \<Rightarrow> bool"
    and to_str :: "'h \<Rightarrow> string option"
    and parse :: "string \<Rightarrow> 'h option"
  assumes roundtrip: "wf h \<Longrightarrow> \<exists>s. to_str h = Some s \<and> parse s = Some h"
begin

lemma to_str_inj: "wf h1 \<Longrightarrow> wf h2 \<Longrightarrow> to_str h1 = to_str h2 \<longleftrightarrow> h1 = h2"
  using roundtrip [of h1] roundtrip [of h2] by auto

lemma reprint: "wf h \<Longrightarrow> to_str h = Some s \<Longrightarrow> Option.bind (parse s) to_str = Some s"
  using roundtrip [of h] by auto

end

section \<open>Generic parameters\<close>

definition wf_gparam :: "uri_param \<Rightarrow> bool" where
  "wf_gparam p \<longleftrightarrow>
     (case gname p of
        None \<Rightarrow> False
      | Some n \<Rightarrow> token n \<and> CHR ''='' \<notin> set n \<and> CHR '';'' \<notin> set n)
     \<and> (case gvalue p of
          None \<Rightarrow> True
        | Some v \<Rightarrow> token v \<and> CHR '';'' \<notin> set v \<and> DQUOTE \<notin> set v \<and> hd v \<noteq> CHR '','')"

definition gparam_text :: "uri_param \<Rightarrow> string" where
  "gparam_text p = '';'' @ the (gname p) @ (case gvalue p of None \<Rightarrow> [] | Some v \<Rightarrow> ''='' @ v)"

definition gparams_text :: "uri_param list \<Rightarrow> string" where
  "gparams_text ps = concat (map gparam_text ps)"

lemma gparam_head: "wf_gparam p \<Longrightarrow> \<exists>t. gparam_text p = CHR '';'' # t \<and> CHR '';'' \<notin> set t"
  by (auto simp: wf_gparam_def gparam_text_def split: option.splits)

lemma gparams_head: "ps \<noteq> [] \<Longrightarrow> \<exists>t. gparams_text ps = CHR '';'' # t"
  by (cases ps) (auto simp: gparams_text_def gparam_text_def)

lemma skip_chars_none: "\<not> P (chr_at s i) \<Longrightarrow> skip_chars P s i = i"
proof (cases "i < length s")
  case True
  then have "drop i s = s ! i # drop (Suc i) s" by (metis Cons_nth_drop_Suc)
  moreover assume "\<not> P (chr_at s i)"
  ultimately show ?thesis using True by (simp add: skip_chars_def chr_at_def)
qed (simp add: skip_chars_def)

lemma token_hd: "token v \<Longrightarrow> \<exists>c t. v = c # t \<and> c \<noteq> CHR '' '' \<and> c \<noteq> HT \<and> c \<noteq> NUL"
  by (cases v) (auto simp: token_def trimmed_def is_lws_def char_defs)

lemma semi_NUL: "CHR '';'' \<noteq> NUL"
  by (simp add: NUL_def)

text \<open>The separators of a printed parameter in front of the rest \<open>r\<close>.\<close>

lemma param_separators_text:
  assumes p: "wf_gparam p" and r: "r = [] \<or> hd r = CHR '';''"
  shows "param_separators (gparam_text p @ r)
    = (case gvalue p of None \<Rightarrow> None | Some v \<Rightarrow> Some (Suc (length (the (gname p)))),
       if r = [] then None else Some (length (gparam_text p)))"
proof -
  obtain n where n: "gname p = Some n" "CHR ''='' \<notin> set n" "CHR '';'' \<notin> set n"
    using p by (auto simp: wf_gparam_def split: option.splits)
  obtain t where t: "gparam_text p = CHR '';'' # t" "CHR '';'' \<notin> set t" using gparam_head [OF p] by blast
  have comma: "strchr (gparam_text p @ r) 1 (CHR '';'') = (if r = [] then None else Some (length (gparam_text p)))"
  proof (cases r)
    case (Cons x xs)
    then show ?thesis using r t by (simp add: strchr_text)
  qed (use t in \<open>simp add: strchr_text strchr_no_sep\<close>)
  show ?thesis
  proof (cases "gvalue p")
    case None
    then have g: "gparam_text p = CHR '';'' # n" using n by (simp add: gparam_text_def)
    have "next_separator (n @ r) 0 (CHR ''='') (CHR '';'') = None"
    proof (cases r)
      case (Cons x xs)
      then show ?thesis using r n next_separator_after [of "CHR ''=''" n "CHR '';''" xs] semi_NUL by simp
    qed (use n in \<open>simp add: next_separator_none\<close>)
    then have "next_separator (gparam_text p @ r) 1 (CHR ''='') (CHR '';'') = None"
      using next_separator_shift [of "'';''" "n @ r"] by (simp add: g)
    with comma None show ?thesis by (simp add: param_separators_def)
  next
    case (Some v)
    then have v: "token v" "DQUOTE \<notin> set v" using p by (simp_all add: wf_gparam_def)
    obtain c u where c: "v = c # u" "c \<noteq> CHR '' ''" using token_hd [OF v(1)] by blast
    have g: "gparam_text p = CHR '';'' # n @ CHR ''='' # v" using n Some by (simp add: gparam_text_def)
    have eq: "next_separator (gparam_text p @ r) 1 (CHR ''='') (CHR '';'') = Some (Suc (length n))"
      using next_separator_shift [of "'';''" "n @ CHR ''='' # v @ r"]
        next_separator_before [of "CHR ''=''" n "CHR '';''" "v @ r"] n semi_NUL by (simp add: g)
    have at: "chr_at (gparam_text p @ r) (Suc (Suc (length n))) = c"
      using chr_at_mid [of "CHR '';'' # n @ ''=''" c "u @ r"] by (simp add: g c)
    moreover have "c \<noteq> DQUOTE" using v c by auto
    ultimately show ?thesis
      using eq comma Some n c skip_chars_none [of "\<lambda>c. c = CHR '' ''" "gparam_text p @ r" "Suc (Suc (length n))"]
      by (simp add: param_separators_def Let_def)
  qed
qed

lemma generic_param_one_text:
  assumes p: "wf_gparam p"
  shows "generic_param_one ps (gparam_text p @ r)
     (case gvalue p of None \<Rightarrow> None | Some v \<Rightarrow> Some (Suc (length (the (gname p))))) (length (gparam_text p))
     = (OSIP_SUCCESS, ps @ [p])"
proof -
  obtain n where n: "gname p = Some n" "token n" using p by (auto simp: wf_gparam_def split: option.splits)
  have nt: "0 < length n" "trimmed n" using n(2) by (auto simp: token_def)
  show ?thesis
  proof (cases "gvalue p")
    case None
    then have g: "gparam_text p = CHR '';'' # n" using n by (simp add: gparam_text_def)
    have "osip_strncpy (CHR '';'' # n @ r) (Suc 0) (length n) = n" using strncpy_at [of "'';''" n r] by simp
    moreover have "p = \<lparr>gname = Some n, gvalue = None\<rparr>" using n None by simp
    ultimately show ?thesis
      unfolding g using nt None by (simp add: generic_param_one_def param_add_trimmed)
  next
    case (Some v)
    then have v: "token v" "hd v \<noteq> CHR '',''" using p by (simp_all add: wf_gparam_def)
    obtain c u where c: "v = c # u" "c \<noteq> CHR '' ''" "c \<noteq> HT" "c \<noteq> NUL" "c \<noteq> CHR '',''"
      using token_hd [OF v(1)] v(2) by auto
    have g: "gparam_text p = CHR '';'' # n @ CHR ''='' # v" using n Some by (simp add: gparam_text_def)
    have at: "chr_at (CHR '';'' # n @ CHR ''='' # v @ r) (Suc (Suc (length n))) = c"
      using chr_at_mid [of "CHR '';'' # n @ ''=''" c "u @ r"] c by simp
    have "osip_strncpy (CHR '';'' # n @ CHR ''='' # v @ r) (Suc 0) (length n) = n"
      using strncpy_at [of "'';''" n "CHR ''='' # v @ r"] by simp
    moreover have "osip_strncpy (CHR '';'' # n @ CHR ''='' # v @ r) (Suc (Suc (length n))) (length v) = v"
      using strncpy_at [of "CHR '';'' # n @ ''=''" v r] by simp
    moreover have "p = \<lparr>gname = Some n, gvalue = Some v\<rparr>" using n Some by simp
    moreover have "trimmed v" "0 < length v" using v by (auto simp: token_def)
    moreover have "skip_chars (\<lambda>c. c = HT \<or> c = CHR '' '') (CHR '';'' # n @ CHR ''='' # v @ r) (Suc (Suc (length n)))
        = Suc (Suc (length n))" using at c by (intro skip_chars_none) simp
    ultimately show ?thesis
      unfolding g using nt at c(4,5) Some n(1) by (simp add: generic_param_one_def param_add_trimmed)
  qed
qed

lemma parseall_text:
  "ps \<noteq> [] \<Longrightarrow> list_all wf_gparam ps \<Longrightarrow>
   osip_generic_param_parseall qs (gparams_text ps) = (OSIP_SUCCESS, qs @ ps)"
proof (induction ps arbitrary: qs)
  case (Cons p ps)
  have p: "wf_gparam p" using Cons.prems by simp
  let ?r = "gparams_text ps"
  have r: "?r = [] \<or> hd ?r = CHR '';''" using gparams_head [of ps] by (cases ps) (auto simp: gparams_text_def)
  have tx: "gparams_text (p # ps) = gparam_text p @ ?r" by (simp add: gparams_text_def)
  have ne: "\<not> (\<exists>t. gparam_text p = t \<and> length t < 2)"
    using p by (auto simp: gparam_text_def wf_gparam_def token_def split: option.splits)
  show ?case
  proof (cases ps)
    case Nil
    then have "?r = []" by (simp add: gparams_text_def)
    then show ?thesis unfolding tx
      using Nil param_separators_text [OF p r] generic_param_one_text [OF p, of qs ?r] ne
      by (subst osip_generic_param_parseall.simps) simp
  next
    case (Cons p2 ps2)
    then have "?r \<noteq> []" using gparams_head [of ps] by auto
    then show ?thesis unfolding tx
      using Cons Cons.prems Cons.IH param_separators_text [OF p r] generic_param_one_text [OF p, of qs ?r]
      by (subst osip_generic_param_parseall.simps) simp
  qed
qed simp

lemma sprint_generic_params_fits:
  "length buf < len \<Longrightarrow> \<forall>p\<in>set ps. gname p \<noteq> None \<Longrightarrow>
   \<exists>len'. sprint_generic_params len buf ps = Some (len', buf @ gparams_text ps) \<and>
          length (buf @ gparams_text ps) < len'"
proof (induction ps arbitrary: len buf)
  case (Cons p ps)
  then obtain n where n: "gname p = Some n" by auto
  let ?len = "len + length (gparam_text p) + 1"
  have fit: "length (buf @ gparam_text p) < ?len" using Cons.prems(1) by simp
  have IH: "\<exists>len'. sprint_generic_params ?len (buf @ gparam_text p) ps
      = Some (len', (buf @ gparam_text p) @ gparams_text ps) \<and> length ((buf @ gparam_text p) @ gparams_text ps) < len'"
    using Cons.IH [OF fit] Cons.prems(2) by simp
  show ?case
    using IH n Cons.prems(1)
    by (cases "gvalue p") (auto simp: gparams_text_def gparam_text_def Let_def numeral_3_eq_3)
qed (simp add: gparams_text_def)

lemma snprintf_fits: "length buf + length s < len \<Longrightarrow> snprintf_end len buf s = buf @ s"
  by (simp add: snprintf_end_def)

lemma snprint_generic_params_fits:
  "length buf < len \<Longrightarrow> \<forall>p\<in>set ps. gname p \<noteq> None \<Longrightarrow>
   \<exists>len'. snprint_generic_params len buf ps = Some (len', buf @ gparams_text ps)"
proof (induction ps arbitrary: len buf)
  case (Cons p ps)
  then obtain n where n: "gname p = Some n" by auto
  let ?len = "len + length (gparam_text p) + 1"
  have fit: "length (buf @ gparam_text p) < ?len" using Cons.prems(1) by simp
  have IH: "\<exists>len'. snprint_generic_params ?len (buf @ gparam_text p) ps
      = Some (len', (buf @ gparam_text p) @ gparams_text ps)"
    using Cons.IH [OF fit] Cons.prems(2) by simp
  show ?case
    using IH n Cons.prems(1)
    by (cases "gvalue p") (auto simp: gparams_text_def gparam_text_def Let_def snprintf_fits numeral_3_eq_3)
qed (simp add: gparams_text_def)

section \<open>Via\<close>

definition wf_via :: "via \<Rightarrow> bool" where
  "wf_via v \<longleftrightarrow>
     (case via_version v of None \<Rightarrow> False | Some s \<Rightarrow> token s \<and> CHR ''/'' \<notin> set s)
     \<and> (case via_protocol v of None \<Rightarrow> False | Some s \<Rightarrow> token s \<and> CHR '' '' \<notin> set s)
     \<and> (case via_host v of None \<Rightarrow> False
        | Some h \<Rightarrow> token h \<and> (\<forall>c\<in>set h. c \<notin> {CHR ''['', CHR '']'', CHR '';'', CHR ''(''}))
     \<and> (case via_port v of None \<Rightarrow> True | Some p \<Rightarrow> p \<noteq> [] \<and> list_all isdigit p)
     \<and> (case via_comment v of None \<Rightarrow> True
        | Some c \<Rightarrow> c \<noteq> [] \<and> cstring c \<and> (\<forall>x\<in>set c. x \<notin> {CHR ''('', CHR '')'', CHR '';''}))
     \<and> list_all wf_gparam (via_params v)
     \<and> CHR ''('' \<notin> set (gparams_text (via_params v))
     \<and> (via_comment v \<noteq> None \<longrightarrow> CHR '')'' \<notin> set (the (via_host v)) \<union> set (gparams_text (via_params v)))"

definition via_host_text :: "via \<Rightarrow> string" where
  "via_host_text v =
     (let h = the (via_host v) in if CHR '':'' \<in> set h then ''['' @ h @ '']'' else h) @
     (case via_port v of None \<Rightarrow> [] | Some p \<Rightarrow> '':'' @ p)"

definition via_tail_text :: "via \<Rightarrow> string" where
  "via_tail_text v = gparams_text (via_params v) @ (case via_comment v of None \<Rightarrow> [] | Some c \<Rightarrow> '' ('' @ c @ '')'')"

definition via_text :: "via \<Rightarrow> string" where
  "via_text v = ''SIP/'' @ the (via_version v) @ ''/'' @ the (via_protocol v) @ '' '' @ via_host_text v @ via_tail_text v"

lemma osip_via_to_str_text:
  assumes "via_version v \<noteq> None" "via_protocol v \<noteq> None" "via_host v \<noteq> None" "\<forall>p\<in>set (via_params v). gname p \<noteq> None"
  shows "osip_via_to_str (Some v) = Some (OSIP_SUCCESS, Some (via_text v))"
proof -
  obtain ver pro h where v: "via_version v = Some ver" "via_protocol v = Some pro" "via_host v = Some h"
    using assms(1-3) by auto
  let ?base = "''SIP/'' @ ver @ ''/'' @ pro @ '' '' @ via_host_text v"
  define len where "len = length ver + 1 + length pro + 1 + 3 + 2 + length h + 3 + 1
    + (case via_port v of None \<Rightarrow> 0 | Some p \<Rightarrow> length p + 2)"
  have base: "length ?base < len" using v by (auto simp: len_def via_host_text_def Let_def split: option.splits)
  obtain len' where ps: "sprint_generic_params len ?base (via_params v) = Some (len', ?base @ gparams_text (via_params v))"
    "length (?base @ gparams_text (via_params v)) < len'"
    using sprint_generic_params_fits [OF base assms(4)] by blast
  have sn: "snprintf_end (len' + length c + 4) (?base @ gparams_text (via_params v)) ('' ('' @ c @ '')'')
      = ?base @ gparams_text (via_params v) @ '' ('' @ c @ '')''" for c
    using ps(2) by (subst snprintf_fits) simp_all
  have base': "sprintf_end len [] ?base = Some ?base" using base by simp
  have len_eq: "(case via_port v of None \<Rightarrow> length ver + 1 + length pro + 1 + 3 + 2 + length h + 3 + 1
      | Some p \<Rightarrow> length ver + 1 + length pro + 1 + 3 + 2 + length h + 3 + 1 + length p + 2) = len"
    by (simp add: len_def split: option.splits)
  have host: "(if strchr h 0 (CHR '':'') \<noteq> None then ''['' @ h @ '']'' else h) @
      (case via_port v of None \<Rightarrow> [] | Some p \<Rightarrow> '':'' @ p) = via_host_text v"
    using v unfolding strchr_in_iff by (simp add: via_host_text_def)
  show ?thesis
    unfolding osip_via_to_str_def via_text_def via_tail_text_def
    using v base' ps(1) sn len_eq
    by (simp only: option.case prod.case Let_def host option.sel) (simp split: option.splits)
qed

lemma atoi_digits_nonneg: "list_all isdigit p \<Longrightarrow> p \<noteq> [] \<Longrightarrow> 0 \<le> osip_atoi p"
proof -
  assume p: "list_all isdigit p" "p \<noteq> []"
  have "0 \<le> foldl (\<lambda>a c. 10 * a + (int (of_char c) - 48)) a ds" if "0 \<le> a" "list_all isdigit ds" for a ds
    using that by (induction ds arbitrary: a) (auto simp: isdigit_def Let_def)
  then have "0 \<le> digits_value ds" if "list_all isdigit ds" for ds using that by (simp add: digits_value_def)
  moreover have "takeWhile isdigit p = p" using p by (simp add: list_all_iff takeWhile_eq_all_conv)
  ultimately have "0 \<le> digits_value (takeWhile isdigit p)" using p by metis
  moreover have "hd p \<noteq> CHR ''-''" "hd p \<noteq> CHR ''+''" "\<not> isspace (hd p)"
    using p by (cases p; auto simp: isdigit_def isspace_def Let_def)+
  moreover have "dropWhile isspace p = p" using calculation(4) by (cases p) auto
  ultimately show ?thesis using p by (simp add: osip_atoi_def atoi_def Let_def INT_MIN_def INT_MAX_def)
qed

text \<open>A separator that does not occur in \<open>a\<close> is found behind it, or not at all.\<close>

lemma strchr_behind:
  assumes "c \<notin> set a"
  shows "\<forall>k. strchr (pre @ a @ rest) (length pre) c = Some k \<longrightarrow> length pre + length a \<le> k"
  using assms by (simp add: strchr_shift0 strchr_skip) (auto simp: map_option_case split: option.splits)

lemma via_parse_port_none:
  "\<forall>k. prt = Some k \<longrightarrow> params \<le> k \<Longrightarrow> via_parse_port via hvalue prt params = (OSIP_SUCCESS, via, params)"
  by (auto simp: via_parse_port_def split: option.splits)

lemma via_parse_port_some:
  assumes "p \<noteq> []" "list_all isdigit p"
  shows "via_parse_port via (a @ '':'' @ p @ rest) (Some (length a)) (length a + 1 + length p)
    = (OSIP_SUCCESS, via\<lparr>via_port := Some p\<rparr>, length a)"
proof -
  have "osip_clrncpy (a @ CHR '':'' # p @ rest) (Suc (length a)) (length p) = p"
    using clrncpy_mid [of p "a @ '':''" rest] digits_plain [OF assms(2)] assms(1) by simp
  with assms show ?thesis using atoi_digits_nonneg [OF assms(2,1)] by (simp add: via_parse_port_def Let_def)
qed

lemma via_parse_hostport_plain:
  assumes h: "token h" "\<forall>c\<in>set h. c \<notin> {CHR ''['', CHR '']'', CHR '':''}"
    and p: "case prt of None \<Rightarrow> True | Some p \<Rightarrow> p \<noteq> [] \<and> list_all isdigit p" and v: "via_port v = None"
  defines "hp \<equiv> h @ (case prt of None \<Rightarrow> [] | Some p \<Rightarrow> '':'' @ p)"
  shows "via_parse_hostport v (pre @ '' '' @ hp @ rest) (length pre) (length pre + 1 + length hp)
     = (OSIP_SUCCESS, v\<lparr>via_port := prt, via_host := Some h\<rparr>)"
proof -
  let ?s = "pre @ '' '' @ hp @ rest" and ?e = "length pre + 1 + length hp"
  have hpl: "CHR ''['' \<notin> set ('' '' @ hp)"
    using h p digits_plain by (auto simp: hp_def split: option.splits)
  have br: "\<forall>k. strchr ?s (length pre) (CHR ''['') = Some k \<longrightarrow> \<not> k < ?e"
    using strchr_behind [OF hpl, of pre rest] by auto
  have host: "osip_clrncpy ?s (length pre + 1) (length h) = h"
    using clrncpy_mid [of h "pre @ '' ''" "(case prt of None \<Rightarrow> [] | Some p \<Rightarrow> '':'' @ p) @ rest"] h(1)
    by (simp add: token_def hp_def)
  have len: "0 < length h" using h(1) by (simp add: token_def)
  have pp: "via_parse_port v ?s (strchr ?s (length pre) (CHR '':'')) ?e
      = (OSIP_SUCCESS, v\<lparr>via_port := prt\<rparr>, length pre + 1 + length h)"
  proof (cases prt)
    case None
    then have "CHR '':'' \<notin> set ('' '' @ hp)" using h(2) by (auto simp: hp_def)
    then have "\<forall>k. strchr ?s (length pre) (CHR '':'') = Some k \<longrightarrow> ?e \<le> k"
      using strchr_behind [of "CHR '':''" "'' '' @ hp" pre rest] by simp
    then show ?thesis using via_parse_port_none [of _ ?e v ?s] None v by (simp add: hp_def)
  next
    case (Some q)
    have nocolon: "CHR '':'' \<notin> set h" using h(2) by auto
    have sc: "strchr ?s (length pre) (CHR '':'') = Some (length (pre @ '' '' @ h))"
      using nocolon Some by (simp add: hp_def strchr_text)
    have "via_parse_port v ((pre @ '' '' @ h) @ '':'' @ q @ rest) (Some (length (pre @ '' '' @ h)))
       (length (pre @ '' '' @ h) + 1 + length q) = (OSIP_SUCCESS, v\<lparr>via_port := Some q\<rparr>, length (pre @ '' '' @ h))"
      using p Some by (intro via_parse_port_some) simp_all
    then show ?thesis using sc Some by (simp add: hp_def add.assoc)
  qed
  show ?thesis
    using br host len pp by (cases "strchr ?s (length pre) (CHR ''['')") (simp_all add: via_parse_hostport_def)
qed

lemma via_parse_hostport_ipv6:
  assumes h: "token h" "\<forall>c\<in>set h. c \<notin> {CHR ''['', CHR '']''}"
    and p: "case prt of None \<Rightarrow> True | Some p \<Rightarrow> p \<noteq> [] \<and> list_all isdigit p" and v: "via_port v = None"
  defines "hp \<equiv> (''['' @ h @ '']'') @ (case prt of None \<Rightarrow> [] | Some p \<Rightarrow> '':'' @ p)"
  shows "via_parse_hostport v (pre @ '' '' @ hp @ rest) (length pre) (length pre + 1 + length hp)
     = (OSIP_SUCCESS, v\<lparr>via_host := Some h, via_port := prt\<rparr>)"
proof -
  let ?s = "pre @ '' '' @ hp @ rest" and ?e = "length pre + 1 + length hp"
  let ?pt = "case prt of None \<Rightarrow> [] | Some p \<Rightarrow> '':'' @ p"
  let ?v = "v\<lparr>via_host := Some h\<rparr>"
  have nobr: "CHR '']'' \<notin> set h" using h(2) by auto
  have s2: "?s = (pre @ '' ['' @ h) @ '']'' @ ?pt @ rest" by (simp add: hp_def)
  have lb: "strchr ?s (length pre) (CHR ''['') = Some (length pre + 1)" by (simp add: hp_def strchr_text)
  have "strchr ((pre @ '' '') @ ''['' @ h @ '']'' @ ?pt @ rest) (length (pre @ '' '')) (CHR '']'') = Some (length pre + 2 + length h)"
    unfolding strchr_shift0 using nobr by (simp add: strchr_text)
  then have rb: "strchr ?s (length pre + 1) (CHR '']'') = Some (length pre + 2 + length h)" by (simp add: hp_def)
  have host: "osip_clrncpy ?s (length pre + 2) (length h) = h"
    using clrncpy_mid [of h "pre @ '' [''" "'']'' @ ?pt @ rest"] h(1) by (simp add: token_def hp_def)
  have len: "0 < length h" "length pre + 2 + length h \<le> ?e" using h(1) by (simp_all add: token_def hp_def)
  have "\<exists>k. via_parse_port ?v ?s (strchr ?s (length pre + 2 + length h) (CHR '':'')) ?e
      = (OSIP_SUCCESS, ?v\<lparr>via_port := prt\<rparr>, k)"
  proof (cases prt)
    case None
    then have "\<forall>k. strchr ?s (length pre + 2 + length h) (CHR '':'') = Some k \<longrightarrow> ?e \<le> k"
      using strchr_behind [of "CHR '':''" "'']''" "pre @ '' ['' @ h" rest] unfolding s2 by (simp add: hp_def)
    then show ?thesis using via_parse_port_none [of _ ?e ?v ?s] None v by simp
  next
    case (Some q)
    have sc: "strchr ?s (length pre + 2 + length h) (CHR '':'') = Some (length (pre @ '' ['' @ h @ '']''))"
      using strchr_shift0 [of "pre @ '' ['' @ h" "'']'' @ ?pt @ rest" "CHR '':''"] Some unfolding s2
      by (simp add: strchr_text)
    have "via_parse_port ?v ((pre @ '' ['' @ h @ '']'') @ '':'' @ q @ rest) (Some (length (pre @ '' ['' @ h @ '']'')))
       (length (pre @ '' ['' @ h @ '']'') + 1 + length q)
       = (OSIP_SUCCESS, ?v\<lparr>via_port := Some q\<rparr>, length (pre @ '' ['' @ h @ '']''))"
      using p Some by (intro via_parse_port_some) simp_all
    then show ?thesis using sc Some by (simp add: hp_def add.assoc)
  qed
  then show ?thesis using lb rb host len by (auto simp: via_parse_hostport_def Let_def hp_def)
qed

lemma via_parse_hostport_text:
  assumes h: "via_host v = Some h" "token h" "\<forall>c\<in>set h. c \<notin> {CHR ''['', CHR '']'', CHR '';'', CHR ''(''}"
    and p: "case via_port v of None \<Rightarrow> True | Some p \<Rightarrow> p \<noteq> [] \<and> list_all isdigit p" and w: "via_port w = None"
  shows "via_parse_hostport w (pre @ '' '' @ via_host_text v @ rest) (length pre) (length pre + 1 + length (via_host_text v))
     = (OSIP_SUCCESS, w\<lparr>via_host := via_host v, via_port := via_port v\<rparr>)"
proof (cases "CHR '':'' \<in> set h")
  case True
  then have tx: "via_host_text v = (''['' @ h @ '']'') @ (case via_port v of None \<Rightarrow> [] | Some p \<Rightarrow> '':'' @ p)"
    using h(1) by (simp add: via_host_text_def)
  have "\<forall>c\<in>set h. c \<notin> {CHR ''['', CHR '']''}" using h(3) by blast
  from via_parse_hostport_ipv6 [OF h(2) this p w, of pre rest] show ?thesis by (simp only: tx h(1))
next
  case False
  then have tx: "via_host_text v = h @ (case via_port v of None \<Rightarrow> [] | Some p \<Rightarrow> '':'' @ p)"
    using h(1) by (simp add: via_host_text_def)
  have upd: "w\<lparr>via_port := via_port v, via_host := Some h\<rparr> = w\<lparr>via_host := Some h, via_port := via_port v\<rparr>"
    by (cases w) simp
  have "\<forall>c\<in>set h. c \<notin> {CHR ''['', CHR '']'', CHR '':''}" using h(3) False by blast
  from via_parse_hostport_plain [OF h(2) this p w, of pre rest] show ?thesis by (simp only: tx h(1) upd)
qed

lemma via_host_text_chars:
  assumes "via_host v = Some h" "\<forall>c\<in>set h. c \<notin> {CHR ''['', CHR '']'', CHR '';'', CHR ''(''}"
    and "case via_port v of None \<Rightarrow> True | Some p \<Rightarrow> p \<noteq> [] \<and> list_all isdigit p"
  shows "CHR '';'' \<notin> set (via_host_text v)" "CHR ''('' \<notin> set (via_host_text v)"
    "CHR '')'' \<notin> set h \<Longrightarrow> CHR '')'' \<notin> set (via_host_text v)"
proof -
  have "c \<notin> set p" if "list_all isdigit p" "c \<in> {CHR '';'', CHR ''('', CHR '')''}" for c p
    using that by (auto simp: list_all_iff isdigit_def Let_def)
  with assms show "CHR '';'' \<notin> set (via_host_text v)" "CHR ''('' \<notin> set (via_host_text v)"
    "CHR '')'' \<notin> set h \<Longrightarrow> CHR '')'' \<notin> set (via_host_text v)"
    by (auto simp: via_host_text_def Let_def split: option.splits)
qed

lemma via_parse_comment_text:
  assumes "CHR ''('' \<notin> set a" "case cm of None \<Rightarrow> True
     | Some c \<Rightarrow> c \<noteq> [] \<and> CHR '')'' \<notin> set a \<and> (\<forall>x\<in>set c. x \<notin> {CHR ''('', CHR '')'', CHR '';''})"
    and w: "via_comment w = None"
  shows "via_parse_comment w (pre @ a @ (case cm of None \<Rightarrow> [] | Some c \<Rightarrow> '' ('' @ c @ '')'')) (length pre)
    = (OSIP_SUCCESS, w\<lparr>via_comment := cm\<rparr>, length pre + length a)"
proof (cases cm)
  case None
  then show ?thesis using assms(1) w by (simp add: via_parse_comment_def strchr_shift0 strchr_no_sep)
next
  case (Some c)
  then have c: "c \<noteq> []" "CHR '')'' \<notin> set a" "CHR '')'' \<notin> set c" using assms(2) by auto
  let ?s = "pre @ a @ '' ('' @ c @ '')''"
  have "strchr ?s (length pre) (CHR ''('') = Some (length pre + length a + 1)"
    using assms(1) by (simp add: strchr_text)
  moreover have "strchr ?s (length pre) (CHR '')'') = Some (length pre + length a + 2 + length c)"
    using c by (simp add: strchr_text)
  moreover have "osip_strncpy ?s (length pre + length a + 2) (length c) = c"
    using strncpy_at [of "pre @ a @ '' (''" c "'')''"] by simp
  moreover have "0 < length c" using c by simp
  ultimately show ?thesis using Some by (simp add: via_parse_comment_def)
qed

lemma via_parse_sentby_text:
  assumes v: "wf_via v" and w: "via_port w = None" "via_comment w = None" "via_params w = []"
  shows "via_parse_sentby w (pre @ '' '' @ via_host_text v @ via_tail_text v) (length pre)
    = (OSIP_SUCCESS, w\<lparr>via_comment := via_comment v, via_params := via_params v, via_host := via_host v, via_port := via_port v\<rparr>)"
proof -
  obtain h where h: "via_host v = Some h" "token h" "\<forall>c\<in>set h. c \<notin> {CHR ''['', CHR '']'', CHR '';'', CHR ''(''}"
    using v by (auto simp: wf_via_def split: option.splits)
  have p: "case via_port v of None \<Rightarrow> True | Some p \<Rightarrow> p \<noteq> [] \<and> list_all isdigit p"
    and ps: "list_all wf_gparam (via_params v)" using v by (auto simp: wf_via_def)
  let ?hp = "via_host_text v" and ?g = "gparams_text (via_params v)"
    and ?c = "case via_comment v of None \<Rightarrow> [] | Some c \<Rightarrow> '' ('' @ c @ '')''"
  let ?s = "pre @ '' '' @ ?hp @ ?g @ ?c"
  note chars = via_host_text_chars [OF h(1,3) p]
  have cm: "via_parse_comment w ?s (length pre) = (OSIP_SUCCESS, w\<lparr>via_comment := via_comment v\<rparr>, length pre + 1 + length ?hp + length ?g)"
    using via_parse_comment_text [of "'' '' @ ?hp @ ?g" "via_comment v" w pre] v w(2) chars h(1)
    by (auto simp: wf_via_def split: option.splits)
  let ?w1 = "w\<lparr>via_comment := via_comment v\<rparr>"
  have hostport: "via_parse_hostport w' ?s (length pre) (length pre + 1 + length ?hp)
      = (OSIP_SUCCESS, w'\<lparr>via_host := via_host v, via_port := via_port v\<rparr>)" if "via_port w' = None" for w'
    using via_parse_hostport_text [OF h p that, of pre "?g @ ?c"] by simp
  have nosemi: "CHR '';'' \<notin> set ?c" using v by (auto simp: wf_via_def split: option.splits)
  show ?thesis
  proof (cases "via_params v = []")
    case True
    then have g: "?g = []" by (simp add: gparams_text_def)
    have "strchr ?s (length pre) (CHR '';'') = None"
      using chars(1) nosemi by (simp add: g strchr_text strchr_no_sep)
    then show ?thesis unfolding via_tail_text_def via_parse_sentby_def
      using cm hostport [of ?w1] w True g by (simp add: True)
  next
    case False
    then obtain t where t: "?g = CHR '';'' # t" using gparams_head by blast
    have st: "strchr ?s (length pre) (CHR '';'') = Some (length pre + 1 + length ?hp)"
      using chars(1) unfolding t by (simp add: strchr_text)
    have cp: "osip_strncpy ?s (length pre + 1 + length ?hp) (length ?g) = ?g"
      using strncpy_at [of "pre @ '' '' @ ?hp" ?g ?c] by simp
    have pa: "osip_generic_param_parseall [] ?g = (OSIP_SUCCESS, via_params v)"
      using parseall_text [OF False ps, of "[]"] by simp
    have ne: "?g \<noteq> []" using t by simp
    show ?thesis unfolding via_tail_text_def via_parse_sentby_def
      using cm st cp pa hostport [of "?w1\<lparr>via_params := via_params v\<rparr>"] w ne by simp
  qed
qed

lemma wf_via_parse:
  assumes v: "wf_via v"
  shows "osip_via_parse osip_via_init (Some (via_text v)) = Some (OSIP_SUCCESS, v)"
proof -
  obtain ver pro where vp: "via_version v = Some ver" "token ver" "CHR ''/'' \<notin> set ver"
    "via_protocol v = Some pro" "token pro" "CHR '' '' \<notin> set pro"
    using v by (auto simp: wf_via_def split: option.splits)
  let ?rest = "via_host_text v @ via_tail_text v"
  let ?s = "''SIP/'' @ ver @ ''/'' @ pro @ '' '' @ ?rest"
  have tx: "via_text v = ?s" using vp by (simp add: via_text_def)
  have l: "0 < length ver" "0 < length pro" using vp by (simp_all add: token_def)
  have v1: "strchr ?s 0 (CHR ''/'') = Some 3" by (simp add: strchr_text numeral_3_eq_3)
  have v2: "strchr ?s 4 (CHR ''/'') = Some (4 + length ver)"
    using strchr_shift0 [of "''SIP/''" "ver @ ''/'' @ pro @ '' '' @ ?rest" "CHR ''/''"] vp(3)
    by (simp add: strchr_text eval_nat_numeral)
  have v3: "strchr ?s (5 + length ver) (CHR '' '') = Some (5 + length ver + length pro)"
    using strchr_shift0 [of "''SIP/'' @ ver @ ''/''" "pro @ '' '' @ ?rest" "CHR '' ''"] vp(6)
    by (simp add: strchr_text eval_nat_numeral)
  have fh: "via_find_host ?s (4 + length ver) = Some (Some (5 + length ver + length pro))"
    using v3 l by (simp add: via_find_host_def)
  have cv: "osip_clrncpy ?s 4 (length ver) = ver"
    using clrncpy_mid [of ver "''SIP/''" "''/'' @ pro @ '' '' @ ?rest"] vp(2)
    by (simp add: token_def eval_nat_numeral)
  have cp: "osip_clrncpy ?s (5 + length ver) (length pro) = pro"
    using clrncpy_mid [of pro "''SIP/'' @ ver @ ''/''" "'' '' @ ?rest"] vp(5)
    by (simp add: token_def eval_nat_numeral)
  let ?w = "osip_via_init\<lparr>via_version := Some ver, via_protocol := Some pro\<rparr>"
  have sb: "via_parse_sentby ?w ?s (5 + length ver + length pro)
     = (OSIP_SUCCESS, ?w\<lparr>via_comment := via_comment v, via_params := via_params v, via_host := via_host v, via_port := via_port v\<rparr>)"
    using via_parse_sentby_text [OF v, of ?w "''SIP/'' @ ver @ ''/'' @ pro"]
    by (simp add: osip_via_init_def eval_nat_numeral)
  have "?w\<lparr>via_comment := via_comment v, via_params := via_params v, via_host := via_host v, via_port := via_port v\<rparr> = v"
    using vp by (cases v) (simp add: osip_via_init_def)
  then show ?thesis
    unfolding tx osip_via_parse_def using v1 v2 fh cv cp sb l by (simp add: Let_def)
qed

section \<open>From\<close>

definition quoted :: "string \<Rightarrow> bool" where
  "quoted d \<longleftrightarrow> (\<exists>q. d = DQUOTE # q @ [DQUOTE] \<and> find_quote False (q @ [DQUOTE]) = Some (length q))"

definition wf_displayname :: "string \<Rightarrow> bool" where
  "wf_displayname d \<longleftrightarrow> quoted d \<or> (token d \<and> list_all is_display_char d)"

definition wf_from :: "from_hdr \<Rightarrow> bool" where
  "wf_from f \<longleftrightarrow>
     (case displayname f of None \<Rightarrow> True | Some d \<Rightarrow> wf_displayname d)
     \<and> (case from_url f of None \<Rightarrow> False
        | Some u \<Rightarrow> wf_uri u \<and> CHR ''>'' \<notin> set (the (host u)) \<and> 6 \<le> length (uri_text u))
     \<and> list_all wf_gparam (gen_params f)"

definition from_text :: "from_hdr \<Rightarrow> string" where
  "from_text f = (case displayname f of None \<Rightarrow> ''<'' | Some d \<Rightarrow> d @ '' <'') @ uri_text (the (from_url f)) @ ''>'' @
     gparams_text (gen_params f)"

lemma osip_from_to_str_text:
  assumes u: "from_url f = Some u" "osip_uri_to_str (Some u) = Some (OSIP_SUCCESS, Some (uri_text u))"
    and ps: "\<forall>p\<in>set (gen_params f). gname p \<noteq> None"
  shows "osip_from_to_str (Some f) = Some (OSIP_SUCCESS, Some (from_text f))"
proof -
  let ?d = "case displayname f of None \<Rightarrow> ''<'' | Some d \<Rightarrow> d @ '' <''"
  let ?len = "case displayname f of None \<Rightarrow> length (uri_text u) + 5 | Some d \<Rightarrow> length (uri_text u) + length d + 5"
  have fit: "length (?d @ uri_text u @ ''>'') < ?len" by (simp split: option.splits)
  obtain len' where "snprint_generic_params ?len (?d @ uri_text u @ ''>'') (gen_params f)
      = Some (len', (?d @ uri_text u @ ''>'') @ gparams_text (gen_params f))"
    using snprint_generic_params_fits [OF fit ps] by blast
  with fit u show ?thesis
    by (cases "displayname f") (simp_all add: osip_from_to_str_def from_text_def)
qed

lemma uri_text_gt:
  assumes wf: "wf_uri u" and "CHR ''>'' \<notin> set (the (host u))"
  shows "CHR ''>'' \<notin> set (uri_text u)"
proof -
  have na: "\<not> osip_is_alphanum (CHR ''>'')" by (simp add: osip_is_alphanum_def char_in_def)
  have e: "CHR ''>'' \<notin> set (escaped userinfo_def s)" "CHR ''>'' \<notin> set (escaped password_def s)"
    "CHR ''>'' \<notin> set (escaped uri_param_def s)" "CHR ''>'' \<notin> set (escaped header_param_def s)" for s
    using na by (simp_all add: notin_escaped escape_sets)
  have ht: "CHR ''>'' \<notin> set (header_text pos hs)" for pos hs
    by (induction hs arbitrary: pos) (auto simp: e)
  have pt: "CHR ''>'' \<notin> set (concat (map print_param ps))" for ps
    by (auto simp: print_param_def e split: option.splits if_splits)
  have ut: "CHR ''>'' \<notin> set (user_text u)" by (auto simp: user_text_def e split: option.splits)
  have dig: "CHR ''>'' \<notin> set p" if "wf_port p" for p
    using that by (auto simp: wf_port_def list_all_iff isdigit_def)
  have hs: "CHR ''>'' \<notin> set (host_text u)"
    using wf assms(2) dig by (auto simp: host_text_def wf_uri_def split: option.splits)
  have sc: "CHR ''>'' \<notin> set s" if "list_all osip_is_alpha s" for s
    using that by (auto simp: list_all_iff osip_is_alpha_def char_in_def)
  show ?thesis using wf ht pt ut hs sc by (auto simp: uri_text_def wf_uri_def split: option.splits)
qed

lemma uri_text_end:
  assumes wf: "wf_uri u"
  shows "\<exists>a x. uri_text u = a @ [x] \<and> x \<noteq> CHR '';''"
proof -
  have ends: "\<exists>a x. c @ b = a @ [x] \<and> x \<noteq> CHR '';''" if "b \<noteq> []" "CHR '';'' \<notin> set b" for b c :: string
    using that by (cases b rule: rev_cases) auto
  obtain c where tx: "uri_text u = c @ host_text u @ concat (map print_param (url_params u)) @ header_text 0 (url_headers u)"
    using wf by (auto simp: uri_text_def wf_uri_def split: option.splits)
  obtain h where h: "host u = Some h" "wf_host h" using wf by (auto simp: wf_uri_def split: option.splits)
  have prt: "case port u of None \<Rightarrow> True | Some p \<Rightarrow> wf_port p" using wf by (simp add: wf_uri_def)
  show ?thesis
  proof (cases "url_headers u = []")
    case False
    then obtain t where "header_text 0 (url_headers u) = CHR ''?'' # t" using header_text_head [of _ 0] by auto
    then have "header_text 0 (url_headers u) \<noteq> []" by simp
    from ends [OF this header_text_seps(2), of "c @ host_text u @ concat (map print_param (url_params u))"]
    show ?thesis by (simp add: tx)
  next
    case True
    show ?thesis
    proof (cases "url_params u" rule: rev_cases)
      case (snoc ps p)
      then have p: "wf_param p" using wf by (simp add: wf_uri_def)
      obtain t where t: "print_param p = CHR '';'' # t" "CHR '';'' \<notin> set t" using print_param_head [OF p] by blast
      have "t \<noteq> []" using t(1) p
        by (auto simp: print_param_def wf_param_def token_def escaped_Nil_iff split: option.splits)
      moreover have "uri_text u = (c @ host_text u @ concat (map print_param ps) @ '';'') @ t"
        using tx snoc t(1) True by simp
      ultimately show ?thesis using ends [OF _ t(2)] by metis
    next
      case Nil
      have "host_text u \<noteq> []" using h by (auto simp: host_text_def wf_host_def token_def)
      moreover have "uri_text u = c @ host_text u" using tx Nil True by simp
      ultimately show ?thesis using ends [OF _ host_text_seps(2) [OF h prt]] by metis
    qed
  qed
qed

lemma find_quote_more:
  "find_quote e (q @ [DQUOTE]) = Some (length q) \<Longrightarrow> find_quote e (q @ DQUOTE # r) = Some (length q)"
  by (induction q arbitrary: e) (auto split: if_splits)

lemma skip_chars_over:
  assumes "list_all P b" "\<not> P x"
  shows "skip_chars P (a @ b @ x # c) (length a) = length a + length b"
proof -
  have "takeWhile P (b @ x # c) = b" using assms by (induction b) auto
  then show ?thesis by (simp add: skip_chars_def)
qed

lemma strip_blank: "trimmed d \<Longrightarrow> d \<noteq> [] \<Longrightarrow> strip (d @ '' '') = d"
proof -
  assume d: "trimmed d" "d \<noteq> []"
  then obtain c e where "d = c # e" "\<not> is_lws c" by (cases d) (auto simp: trimmed_def)
  then have "dropWhile is_lws (d @ '' '') = d @ '' ''" by simp
  moreover have "dropWhile is_lws (rev d) = rev d" using d by (intro dropWhile_hd) (simp add: trimmed_def hd_rev)
  moreover have "is_lws (CHR '' '')" by (simp add: is_lws_def)
  ultimately show ?thesis by (simp add: strip_def)
qed

text \<open>The first half of the parser on a printed header: the offset of the bracket and the display
  name.\<close>

lemma from_parse_name_text:
  assumes "case displayname f of None \<Rightarrow> True | Some d \<Rightarrow> wf_displayname d" and r: "r \<noteq> []"
    and fr: "displayname fr = None"
  defines "d \<equiv> (case displayname f of None \<Rightarrow> [] | Some d \<Rightarrow> d @ '' '')"
  shows "skip_chars (\<lambda>c. c = CHR '' '') (d @ CHR ''<'' # r) 0 = 0
    \<and> from_parse_name fr (d @ CHR ''<'' # r) 0 = Inl (length d, fr\<lparr>displayname := displayname f\<rparr>)"
proof (cases "displayname f")
  case None
  have "\<not> is_display_char (CHR ''<'')" by (simp add: is_display_char_def osip_is_alphanum_def char_in_def)
  then have "skip_chars is_display_char (CHR ''<'' # r) 0 = 0" by (intro skip_chars_none) (simp add: chr_at_def)
  moreover have "skip_chars (\<lambda>c. c = CHR '' '') (CHR ''<'' # r) 0 = 0" by (intro skip_chars_none) (simp add: chr_at_def)
  moreover have "fr\<lparr>displayname := None\<rparr> = fr" using fr by simp
  ultimately show ?thesis using None r by (simp add: d_def from_parse_name_def chr_at_def DQUOTE_def)
next
  case (Some n)
  then have n: "wf_displayname n" using assms(1) by simp
  have tx: "d @ CHR ''<'' # r = n @ '' '' @ CHR ''<'' # r" "length d = length n + 1" using Some by (simp_all add: d_def)
  show ?thesis
  proof (cases "quoted n")
    case True
    then obtain q where q: "n = DQUOTE # q @ [DQUOTE]" "find_quote False (q @ [DQUOTE]) = Some (length q)"
      by (auto simp: quoted_def)
    let ?s = "n @ '' '' @ CHR ''<'' # r"
    have qf: "osip_quote_find ?s 1 = Some (1 + length q)"
      using find_quote_more [OF q(2)] q(1) by (simp add: osip_quote_find_eq)
    have sk: "skip_chars (\<lambda>c. c = CHR '' '') ?s (length n) = length n + 1"
      using skip_chars_over [of "\<lambda>c. c = CHR '' ''" "'' ''" "CHR ''<''" n r] by simp
    have cp: "osip_strncpy ?s 0 (length n) = n" using strncpy_at [of "[]" n] by simp
    have at: "chr_at ?s (length n + 1) = CHR ''<''" using chr_at_mid [of "n @ '' ''" "CHR ''<''" r] by simp
    have hd: "chr_at ?s 0 = DQUOTE" using q(1) by (simp add: chr_at_def)
    have "skip_chars (\<lambda>c. c = CHR '' '') ?s 0 = 0" using hd by (intro skip_chars_none) (simp add: DQUOTE_def)
    moreover have "length n = length q + 2" using q(1) by simp
    ultimately show ?thesis unfolding tx using qf sk cp at hd r Some by (simp add: from_parse_name_def)
  next
    case False
    then have t: "token n" "list_all is_display_char n" using n by (simp_all add: wf_displayname_def)
    let ?s = "n @ '' '' @ CHR ''<'' # r"
    have nd: "\<not> is_display_char (CHR ''<'')" "\<not> is_display_char DQUOTE" "is_display_char (CHR '' '')"
      by (simp_all add: is_display_char_def osip_is_alphanum_def char_in_def DQUOTE_def)
    have sk: "skip_chars is_display_char ?s 0 = length n + 1"
      using skip_chars_over [of is_display_char "n @ '' ''" "CHR ''<''" "[]" r] t nd by simp
    obtain c e where c: "n = c # e" "c \<noteq> CHR '' ''" using token_hd [OF t(1)] by blast
    have hd: "chr_at ?s 0 = c" "c \<noteq> DQUOTE" using c t(2) nd by (auto simp: chr_at_def)
    have at: "chr_at ?s (length n + 1) = CHR ''<''" using chr_at_mid [of "n @ '' ''" "CHR ''<''" r] by simp
    have "osip_clrncpy ((n @ '' '') @ CHR ''<'' # r) 0 (length (n @ '' '')) = strip (n @ '' '')"
      by (rule osip_clrncpy_prefix) simp
    then have cp: "osip_clrncpy ?s 0 (length n + 1) = n" using t(1) by (simp add: strip_blank token_def)
    have "skip_chars (\<lambda>c. c = CHR '' '') ?s 0 = 0" using hd c by (intro skip_chars_none) simp
    then show ?thesis unfolding tx using sk cp at hd r Some by (simp add: from_parse_name_def Let_def)
  qed
qed

lemma wf_from_parse:
  assumes f: "wf_from f"
  shows "osip_from_parse (Some osip_from_init) (Some (from_text f)) = (OSIP_SUCCESS, Some f)"
proof -
  obtain u where u: "from_url f = Some u" "wf_uri u" "CHR ''>'' \<notin> set (the (host u))" "6 \<le> length (uri_text u)"
    using f by (auto simp: wf_from_def split: option.splits)
  have dn: "case displayname f of None \<Rightarrow> True | Some d \<Rightarrow> wf_displayname d"
    and ps: "list_all wf_gparam (gen_params f)" using f by (simp_all add: wf_from_def)
  define d where "d = (case displayname f of None \<Rightarrow> [] | Some d \<Rightarrow> d @ '' '')"
  let ?g = "gparams_text (gen_params f)" and ?t = "uri_text u"
  let ?r = "?t @ ''>'' @ ?g"
  let ?s = "d @ CHR ''<'' # ?r"
  have tx: "from_text f = ?s" using u by (simp add: from_text_def d_def split: option.splits)
  let ?fr = "osip_from_init\<lparr>displayname := displayname f\<rparr>"
  have name: "skip_chars (\<lambda>c. c = CHR '' '') ?s 0 = 0" "from_parse_name osip_from_init ?s 0 = Inl (length d, ?fr)"
    using from_parse_name_text [OF dn, of ?r osip_from_init] by (simp_all add: d_def osip_from_init_def)
  have gt: "strchr ?s (length d + 1) (CHR ''>'') = Some (length d + 1 + length ?t)"
    using strchr_shift0 [of "d @ ''<''" ?r "CHR ''>''"] uri_text_gt [OF u(2,3)] by (simp add: strchr_text)
  obtain a x where ax: "?t = a @ [x]" "x \<noteq> CHR '';''" using uri_text_end [OF u(2)] by blast
  have semi: "strchr ?s (length d + 1 + length ?t - 1) (CHR '';'')
      = (if gen_params f = [] then None else Some (length d + 1 + length ?t + 1))"
  proof -
    have "strchr ?s (length (d @ ''<'' @ a)) (CHR '';'')
        = map_option ((+) (length (d @ ''<'' @ a))) (strchr (x # CHR ''>'' # ?g) 0 (CHR '';''))"
      using strchr_shift0 [of "d @ ''<'' @ a" "x # CHR ''>'' # ?g"] by (simp add: ax)
    moreover have "strchr (x # CHR ''>'' # ?g) 0 (CHR '';'') = (if gen_params f = [] then None else Some 2)"
      using ax(2) gparams_head [of "gen_params f"]
      by (cases "gen_params f = []") (auto simp: strchr_text gparams_text_def numeral_2_eq_2)
    ultimately show ?thesis by (simp add: ax)
  qed
  have dr: "drop (length d + 1 + length ?t + 1) ?s = ?g" by simp
  have pa: "(case (if gen_params f = [] then None else Some (length d + 1 + length ?t + 1)) of
              None \<Rightarrow> (OSIP_SUCCESS, gen_params ?fr)
            | Some g \<Rightarrow> osip_generic_param_parseall (gen_params ?fr) (drop g ?s)) = (OSIP_SUCCESS, gen_params f)"
    using parseall_text [OF _ ps, of "[]"] dr by (auto simp: osip_from_init_def)
  have cp: "osip_strncpy ?s (length d + 1) (length ?t) = ?t"
    using strncpy_at [of "d @ ''<''" ?t "''>'' @ ?g"] by simp
  have uri: "from_parse_uri ?fr ?s (length d + 1) (length d + 1 + length ?t)
      (if gen_params f = [] then None else Some (length d + 1 + length ?t + 1))
      = (OSIP_SUCCESS, ?fr\<lparr>gen_params := gen_params f, from_url := Some u\<rparr>)"
    unfolding from_parse_uri_def pa using cp u(4) wf_uri_parse [OF u(2)] by (simp add: Let_def)
  have "?fr\<lparr>gen_params := gen_params f, from_url := Some u\<rparr> = f"
    using u by (cases f) (simp add: osip_from_init_def)
  moreover have "chr_at ?s (length d) = CHR ''<''" by (rule chr_at_mid)
  ultimately show ?thesis
    unfolding tx osip_from_parse_def using name gt semi uri by (simp add: Let_def)
qed

lemma wf_from_to_str:
  assumes "wf_from f"
  shows "osip_from_to_str (Some f) = Some (OSIP_SUCCESS, Some (from_text f))"
proof -
  obtain u where u: "from_url f = Some u" "wf_uri u" using assms by (auto simp: wf_from_def split: option.splits)
  have "\<forall>p\<in>set (gen_params f). gname p \<noteq> None"
    using assms by (auto simp: wf_from_def list_all_iff wf_gparam_def split: option.splits)
  then show ?thesis by (rule osip_from_to_str_text [OF u(1) wf_uri_to_str [OF u(2)]])
qed

lemma wf_via_to_str:
  assumes "wf_via v"
  shows "osip_via_to_str (Some v) = Some (OSIP_SUCCESS, Some (via_text v))"
  using assms by (intro osip_via_to_str_text) (auto simp: wf_via_def list_all_iff wf_gparam_def split: option.splits)

section \<open>CSeq and Call-ID\<close>

text \<open>The copy of the method runs one character too far, so only leading blanks go.\<close>

lemma osip_clrncpy_to_end:
  assumes "src \<le> length s"
  shows "osip_clrncpy s src (length s - src + 1) = dropWhile is_lws (drop src s)"
proof -
  have "clr_pend s (skip_lws s src) (length s) = Some (length s)"
    by (subst clr_pend.simps) (simp add: chr_at_def)
  moreover have "drop (length (takeWhile is_lws (drop src s))) (drop src s) = dropWhile is_lws (drop src s)"
    by (simp add: dropWhile_eq_drop)
  moreover have "length (takeWhile is_lws (drop src s)) + length (dropWhile is_lws (drop src s)) = length s - src"
    by (metis length_append length_drop takeWhile_dropWhile_id)
  ultimately show ?thesis using assms
    by (simp add: osip_clrncpy_def skip_lws_def add.commute)
qed

definition wf_cseq :: "cseq \<Rightarrow> bool" where
  "wf_cseq c \<longleftrightarrow>
     (case cseq_number c of None \<Rightarrow> False | Some n \<Rightarrow> token n \<and> CHR '' '' \<notin> set n)
     \<and> (case cseq_method c of None \<Rightarrow> False | Some m \<Rightarrow> token m)"

lemma cseq_codec_ok:
  assumes "wf_cseq c"
  shows "\<exists>s. osip_cseq_to_str (Some c) = (OSIP_SUCCESS, Some s) \<and>
             osip_cseq_parse (Some osip_cseq_init) (Some s) = (OSIP_SUCCESS, Some c)"
proof -
  obtain n m where nm: "c = \<lparr>cseq_method = Some m, cseq_number = Some n\<rparr>" "token n" "CHR '' '' \<notin> set n" "token m"
    using assms by (cases c) (auto simp: wf_cseq_def split: option.splits)
  let ?s = "n @ '' '' @ m"
  have p: "osip_cseq_to_str (Some c) = (OSIP_SUCCESS, Some ?s)"
    using nm(1) by (simp add: osip_cseq_to_str_def snprintf_end_def)
  have st: "strchr ?s 0 (CHR '' '') = Some (length n)" using nm(3) by (simp add: strchr_text)
  have num: "osip_clrncpy ?s 0 (length n) = n"
    using nm(2) clrncpy_mid [of n "[]" "'' '' @ m"] by (simp add: token_def)
  obtain x t where x: "m = x # t" "\<not> is_lws x" using nm(4) by (cases m) (auto simp: token_def trimmed_def)
  have met: "osip_clrncpy ?s (length n + 1) (length ?s - length n) = m"
    using osip_clrncpy_to_end [of "length n + 1" ?s] x by simp
  have "0 < length n" using nm(2) by (simp add: token_def)
  then show ?thesis using p st num met nm(1)
    by (intro exI [of _ ?s] conjI) (simp_all add: osip_cseq_parse_def osip_cseq_init_def Let_def)
qed

definition wf_call_id :: "call_id \<Rightarrow> bool" where
  "wf_call_id c \<longleftrightarrow>
     (case call_id_number c of None \<Rightarrow> False | Some n \<Rightarrow> token n \<and> CHR ''@'' \<notin> set n)
     \<and> (case call_id_host c of None \<Rightarrow> True | Some h \<Rightarrow> token h)"

lemma call_id_codec_ok:
  assumes "wf_call_id c"
  shows "\<exists>s. osip_call_id_to_str (Some c) = Some (OSIP_SUCCESS, Some s) \<and>
             osip_call_id_parse osip_call_id_init s = (OSIP_SUCCESS, c)"
proof -
  obtain n h where nh: "c = \<lparr>call_id_number = Some n, call_id_host = h\<rparr>" "token n" "CHR ''@'' \<notin> set n"
    "case h of None \<Rightarrow> True | Some h \<Rightarrow> token h"
    using assms by (cases c) (auto simp: wf_call_id_def split: option.splits)
  have n: "0 < length n" using nh(2) by (simp add: token_def)
  show ?thesis
  proof (cases h)
    case None
    have "osip_clrncpy n 0 (length n) = n"
      using nh(2) clrncpy_mid [of n "[]" "[]"] by (simp add: token_def)
    then show ?thesis using None nh n
      by (intro exI [of _ n]) (simp add: osip_call_id_to_str_def osip_call_id_parse_def osip_call_id_init_def strchr_no_sep Let_def)
  next
    case (Some x)
    let ?s = "n @ ''@'' @ x"
    have x: "token x" using nh(4) Some by simp
    have "strchr ?s 0 (CHR ''@'') = Some (length n)" using nh(3) by (simp add: strchr_text)
    moreover have "osip_clrncpy ?s 0 (length n) = n"
      using nh(2) clrncpy_mid [of n "[]" "''@'' @ x"] by (simp add: token_def)
    moreover have "osip_clrncpy ?s (length n + 1) (length x) = x"
      using x clrncpy_mid [of x "n @ ''@''" "[]"] by (simp add: token_def)
    ultimately show ?thesis using Some nh n
      by (intro exI [of _ ?s]) (simp add: osip_call_id_to_str_def osip_call_id_parse_def osip_call_id_init_def Let_def)
  qed
qed

section \<open>The headers implement the interface\<close>

definition printed :: "(int \<times> string option) option \<Rightarrow> string option" where
  "printed r = (case r of Some (i, d) \<Rightarrow> if i = OSIP_SUCCESS then d else None | None \<Rightarrow> None)"

definition parsed :: "int \<times> 'h \<Rightarrow> 'h option" where
  "parsed r = (if fst r = OSIP_SUCCESS then Some (snd r) else None)"

interpretation uri_codec: header_codec wf_uri "\<lambda>u. printed (osip_uri_to_str (Some u))"
  "\<lambda>s. parsed (osip_uri_parse osip_uri_init (Some s))"
  by unfold_locales (simp add: printed_def parsed_def wf_uri_to_str wf_uri_parse)

interpretation via_codec: header_codec wf_via "\<lambda>v. printed (osip_via_to_str (Some v))"
  "\<lambda>s. Option.bind (osip_via_parse osip_via_init (Some s)) parsed"
  by unfold_locales (simp add: printed_def parsed_def wf_via_to_str wf_via_parse)

interpretation from_codec: header_codec wf_from "\<lambda>f. printed (osip_from_to_str (Some f))"
  "\<lambda>s. Option.bind (parsed (osip_from_parse (Some osip_from_init) (Some s))) (\<lambda>f. f)"
  by unfold_locales (simp add: printed_def parsed_def wf_from_to_str wf_from_parse)

interpretation cseq_codec: header_codec wf_cseq "\<lambda>c. printed (Some (osip_cseq_to_str (Some c)))"
  "\<lambda>s. Option.bind (parsed (osip_cseq_parse (Some osip_cseq_init) (Some s))) (\<lambda>c. c)"
proof
  fix c assume "wf_cseq c"
  from cseq_codec_ok [OF this] show "\<exists>s. printed (Some (osip_cseq_to_str (Some c))) = Some s \<and>
     Option.bind (parsed (osip_cseq_parse (Some osip_cseq_init) (Some s))) (\<lambda>c. c) = Some c"
    by (auto simp: printed_def parsed_def)
qed

interpretation call_id_codec: header_codec wf_call_id "\<lambda>c. printed (osip_call_id_to_str (Some c))"
  "\<lambda>s. parsed (osip_call_id_parse osip_call_id_init s)"
proof
  fix c assume "wf_call_id c"
  from call_id_codec_ok [OF this] show "\<exists>s. printed (osip_call_id_to_str (Some c)) = Some s \<and>
     parsed (osip_call_id_parse osip_call_id_init s) = Some c"
    by (auto simp: printed_def parsed_def)
qed

section \<open>Properties of the headers\<close>

text \<open>
  C8. Round trip of the \<^verbatim>\<open>Via\<close> header: printing a well-formed header stays inside the buffer and
  \<^verbatim>\<open>osip_via_parse\<close> reads it back, with IPv6 hosts, port, parameters and comment.
\<close>

theorem osip_via_roundtrip:
  assumes "wf_via v"
  shows "\<exists>s. osip_via_to_str (Some v) = Some (OSIP_SUCCESS, Some s) \<and>
             osip_via_parse osip_via_init (Some s) = Some (OSIP_SUCCESS, v)"
  using wf_via_to_str [OF assms] wf_via_parse [OF assms] by blast

definition sample_via :: via where
  "sample_via = \<lparr>via_version = Some ''2.0'', via_protocol = Some ''UDP'', via_host = Some ''::1'',
     via_port = Some ''5060'', via_comment = Some ''x'',
     via_params = [\<lparr>gname = Some ''branch'', gvalue = Some ''z9hG4bK1''\<rparr>, \<lparr>gname = Some ''rport'', gvalue = None\<rparr>]\<rparr>"

lemma sample_via_wf: "wf_via sample_via"
  by (simp add: sample_via_def wf_via_def wf_gparam_def token_def trimmed_def is_lws_def char_defs
      isdigit_def gparams_text_def gparam_text_def)

theorem osip_via_roundtrip_witness:
  "\<exists>s. osip_via_to_str (Some sample_via) = Some (OSIP_SUCCESS, Some s) \<and>
       osip_via_parse osip_via_init (Some s) = Some (OSIP_SUCCESS, sample_via)"
  by (rule osip_via_roundtrip [OF sample_via_wf])

text \<open>
  C10. \<^verbatim>\<open>osip_via_match\<close>, which compares the printed forms, accepts two well-formed headers exactly
  when they are equal.
\<close>

theorem osip_via_match_iff:
  assumes "wf_via v" and "wf_via w"
  shows "osip_via_match (Some v) (Some w) = Some (if v = w then OSIP_SUCCESS else OSIP_UNDEFINED_ERROR)"
  using via_codec.to_str_inj [OF assms] wf_via_to_str [OF assms(1)] wf_via_to_str [OF assms(2)]
  by (auto simp: osip_via_match_def printed_def)

theorem osip_via_match_iff_witness:
  "osip_via_match (Some sample_via) (Some sample_via) = Some OSIP_SUCCESS"
  using osip_via_match_iff [OF sample_via_wf sample_via_wf] by simp

text \<open>
  C9. Round trip of the \<^verbatim>\<open>From\<close> header (also \<^verbatim>\<open>To\<close>): display name, quoted or not, URI and
  parameters.
\<close>

theorem osip_from_roundtrip:
  assumes "wf_from f"
  shows "\<exists>s. osip_from_to_str (Some f) = Some (OSIP_SUCCESS, Some s) \<and>
             osip_from_parse (Some osip_from_init) (Some s) = (OSIP_SUCCESS, Some f)"
  using wf_from_to_str [OF assms] wf_from_parse [OF assms] by blast

definition sample_from :: from_hdr where
  "sample_from = \<lparr>displayname = Some ''Bob'', from_url = Some sample_uri,
     gen_params = [\<lparr>gname = Some ''tag'', gvalue = Some ''12''\<rparr>]\<rparr>"

lemma sample_from_wf: "wf_from sample_from"
  using sample_uri_wf
  by (simp add: sample_from_def wf_from_def wf_displayname_def wf_gparam_def token_def trimmed_def is_lws_def
      char_defs is_display_char_def osip_is_alphanum_def char_in_def sample_uri_def osip_uri_init_def
      uri_text_def user_text_def host_text_def)

theorem osip_from_roundtrip_witness:
  "\<exists>s. osip_from_to_str (Some sample_from) = Some (OSIP_SUCCESS, Some s) \<and>
       osip_from_parse (Some osip_from_init) (Some s) = (OSIP_SUCCESS, Some sample_from)"
  by (rule osip_from_roundtrip [OF sample_from_wf])

text \<open>
  C11. Two defects of the header parsers: \<^verbatim>\<open>osip_via_parse\<close> reads behind the end of a \<^verbatim>\<open>Via\<close> value
  that ends in a blank right behind the second slash, whatever the version; and blanks in front
  of a display name cut its last characters, because \<^verbatim>\<open>osip_from_parse\<close> copies from the beginning
  of the header and not from the beginning of the name.
\<close>

theorem header_parser_defects:
  assumes "token ver" and "CHR ''/'' \<notin> set ver"
  shows "osip_via_parse osip_via_init (Some (''SIP/'' @ ver @ ''/ '')) = None \<and>
    map_option displayname (snd (osip_from_parse (Some osip_from_init) (Some ''  bob <sip:bob@a.com>'')))
      = Some (Some ''bo'')"
proof
  let ?s = "''SIP/'' @ ver @ ''/ ''" and ?h = "5 + length ver"
  have l: "0 < length ver" using assms(1) by (simp add: token_def)
  have v1: "strchr ?s 0 (CHR ''/'') = Some 3" by (simp add: strchr_text numeral_3_eq_3)
  have v2: "strchr ?s 4 (CHR ''/'') = Some (4 + length ver)"
    using strchr_shift0 [of "''SIP/''" "ver @ ''/ ''" "CHR ''/''"] assms(2) by (simp add: strchr_text eval_nat_numeral)
  have v3: "strchr ?s ?h (CHR '' '') = Some ?h"
    using strchr_shift0 [of "''SIP/'' @ ver @ ''/''" "'' ''" "CHR '' ''"] by (simp add: strchr_text eval_nat_numeral)
  have c: "chr_at ?s ?h = CHR '' ''" "chr_at ?s (?h + 1) = NUL"
    using chr_at_mid [of "''SIP/'' @ ver @ ''/''" "CHR '' ''" "[]"] by (simp_all add: eval_nat_numeral chr_at_def)
  have "via_skip ?s ?h = Some (?h + 1)"
    using c by (subst via_skip.simps, subst via_skip.simps) (simp add: NUL_def)
  then have "via_find_host ?s (4 + length ver) = None" using v3 by (simp add: via_find_host_def)
  with v1 v2 l show "osip_via_parse osip_via_init (Some ?s) = None" by (simp add: osip_via_parse_def)
  show "map_option displayname (snd (osip_from_parse (Some osip_from_init) (Some ''  bob <sip:bob@a.com>'')))
      = Some (Some ''bo'')"
    by code_simp
qed

theorem header_parser_defects_witness:
  "osip_via_parse osip_via_init (Some (''SIP/'' @ ''2.0'' @ ''/ '')) = None"
  using header_parser_defects [of "''2.0''"] by (simp add: token_def trimmed_def is_lws_def char_defs)

text \<open>
  \<^verbatim>\<open>osip_cseq_match\<close> on complete headers: the numbers are equal and the methods are equal, or
  both are among \<^verbatim>\<open>INVITE\<close> and \<^verbatim>\<open>ACK\<close>; \<^verbatim>\<open>osip_call_id_match\<close> is equality; both round trip.
\<close>

theorem cseq_call_id_match:
  assumes "wf_cseq c" and "wf_cseq d" and "wf_call_id a" and "wf_call_id b"
  shows "(osip_cseq_match (Some c) (Some d) = OSIP_SUCCESS \<longleftrightarrow>
       cseq_number c = cseq_number d \<and>
       (cseq_method c = cseq_method d \<or>
        {cseq_method c, cseq_method d} \<subseteq> {Some ''INVITE'', Some ''ACK''}))
     \<and> (osip_call_id_match (Some a) (Some b) = OSIP_SUCCESS \<longleftrightarrow> a = b)
     \<and> (\<exists>s. osip_cseq_to_str (Some c) = (OSIP_SUCCESS, Some s) \<and>
            osip_cseq_parse (Some osip_cseq_init) (Some s) = (OSIP_SUCCESS, Some c))
     \<and> (\<exists>s. osip_call_id_to_str (Some a) = Some (OSIP_SUCCESS, Some s) \<and>
            osip_call_id_parse osip_call_id_init s = (OSIP_SUCCESS, a))"
proof (intro conjI)
  show "osip_cseq_match (Some c) (Some d) = OSIP_SUCCESS \<longleftrightarrow>
       cseq_number c = cseq_number d \<and>
       (cseq_method c = cseq_method d \<or> {cseq_method c, cseq_method d} \<subseteq> {Some ''INVITE'', Some ''ACK''})"
    using assms(1,2) by (auto simp: osip_cseq_match_def wf_cseq_def split: option.splits)
  show "osip_call_id_match (Some a) (Some b) = OSIP_SUCCESS \<longleftrightarrow> a = b"
    using assms(3,4) by (cases a; cases b) (auto simp: osip_call_id_match_def wf_call_id_def split: option.splits)
qed (use cseq_codec_ok [OF assms(1)] call_id_codec_ok [OF assms(3)] in blast)+

theorem cseq_call_id_match_witness:
  "osip_cseq_match (Some \<lparr>cseq_method = Some ''INVITE'', cseq_number = Some ''1''\<rparr>)
     (Some \<lparr>cseq_method = Some ''ACK'', cseq_number = Some ''1''\<rparr>) = OSIP_SUCCESS"
  using cseq_call_id_match [of "\<lparr>cseq_method = Some ''INVITE'', cseq_number = Some ''1''\<rparr>"
      "\<lparr>cseq_method = Some ''ACK'', cseq_number = Some ''1''\<rparr>"
      "\<lparr>call_id_number = Some ''1'', call_id_host = None\<rparr>" "\<lparr>call_id_number = Some ''1'', call_id_host = None\<rparr>"]
  by (simp add: wf_cseq_def wf_call_id_def token_def trimmed_def is_lws_def char_defs)

end
