(* ===== verification/Osip_Auth_Proofs.thy ===== *)
theory Osip_Auth_Proofs
  imports Osip_Auth_Print Osip_Headers_Proofs "HOL-Library.Sublist"
begin

text \<open>
  Round trip of the authentication headers: the parser reads back what the printer wrote.  The laws of
  a table of parameters are the locale \<open>field_table\<close>, which the tables of \<^verbatim>\<open>Authorization\<close> and
  \<^verbatim>\<open>WWW-Authenticate\<close> satisfy.
\<close>

section \<open>Parsing one parameter of a printed header\<close>

text \<open>The names of parameters, and the text of a list of parameters.\<close>

definition param_name :: "string \<Rightarrow> bool" where
  "param_name n \<longleftrightarrow> n \<noteq> []
     \<and> list_all (\<lambda>c. \<not> is_sep c \<and> c \<noteq> CHR ''='' \<and> c \<noteq> DQUOTE \<and> c \<noteq> BSLASH \<and> c \<noteq> NUL \<and> c \<noteq> LF \<and> c \<noteq> CR
         \<and> tolower c = c) n"

fun items_text :: "(string \<times> string) list \<Rightarrow> string" where
  "items_text [] = []"
| "items_text ((n, v) # xs) = n @ ''='' @ v @ (if xs = [] then [] else '', '' @ items_text xs)"

definition quoted_value :: "string \<Rightarrow> bool" where
  "quoted_value v \<longleftrightarrow> quoted v \<and> 2 < length v \<and> cstring v"

definition token_value :: "string \<Rightarrow> bool" where
  "token_value v \<longleftrightarrow> token v \<and> CHR '','' \<notin> set v"

lemma skip_sep:
  assumes "list_all is_sep w" and "b = [] \<or> \<not> is_sep (hd b)"
  shows "skip_chars is_sep (pre @ w @ b) (length pre) = length pre + length w"
proof -
  have "takeWhile is_sep (w @ b) = w"
    using assms by (cases b) (auto simp: list_all_iff takeWhile_append takeWhile_eq_all_conv)
  then show ?thesis by (simp add: skip_chars_def)
qed

lemma name_chars:
  "param_name n \<Longrightarrow> c \<in> set n \<Longrightarrow>
   \<not> is_sep c \<and> c \<noteq> CHR ''='' \<and> c \<noteq> DQUOTE \<and> c \<noteq> BSLASH \<and> c \<noteq> NUL \<and> c \<noteq> LF \<and> c \<noteq> CR \<and> tolower c = c"
  unfolding param_name_def list_all_iff by blast

lemma name_head: "param_name n \<Longrightarrow> \<exists>c t. n = c # t \<and> \<not> is_sep c"
  by (cases n) (auto simp: param_name_def)

lemma tolower_eq_sign: "tolower (CHR ''='') = CHR ''=''"
  by (simp add: tolower_def)

lemma map_lower: "param_name n \<Longrightarrow> map tolower n = n"
  by (simp add: param_name_def list_all_iff map_idI)

lemma name_cstring: "param_name n \<Longrightarrow> cstring n"
  by (auto simp: param_name_def list_all_iff cstring_def)

lemma name_matches:
  "param_name n \<Longrightarrow> osip_strncasecmp n (n @ r) (length n) = 0"
  using name_cstring [of n] by (simp add: osip_strncasecmp_def stricmp_zero_iff)

lemma name_differs:
  assumes "param_name m" and "param_name n" and "\<not> prefix m n" and "cstring r"
  shows "osip_strncasecmp m (n @ ''='' @ r) (length m) \<noteq> 0"
proof
  let ?t = "take (length m) (n @ ''='' @ r)"
  assume "osip_strncasecmp m (n @ ''='' @ r) (length m) = 0"
  moreover have "cstring ?t" using name_cstring [OF assms(2)] assms(4) by (intro cstring_take) (simp add: NUL_def)
  ultimately have eq: "map tolower ?t = m"
    using name_cstring [OF assms(1)] map_lower [OF assms(1)] by (simp add: osip_strncasecmp_def stricmp_zero_iff)
  show False
  proof (cases "length m \<le> length n")
    case True
    then have "map tolower (take (length m) n) = m" using eq by simp
    then have "take (length m) n = m" using map_lower [OF assms(2)] by (simp add: take_map [symmetric])
    then show False using assms(3) by (metis take_is_prefix)
  next
    case False
    then have "map tolower ?t ! length n = CHR ''=''"
      by (simp add: nth_append tolower_eq_sign)
    then have "CHR ''='' \<in> set m" using eq False by (metis nth_mem not_le)
    then show False using assms(1) by (auto simp: param_name_def list_all_iff)
  qed
qed

lemma eq_sign_at:
  assumes "param_name n" and "list_all is_sep w"
  shows "strchr (pre @ w @ n @ ''='' @ r) (length pre) (CHR ''='') = Some (length pre + length w + length n)"
    "strchr (pre @ w @ n @ ''='' @ r) (length pre + length w) (CHR ''='') = Some (length pre + length w + length n)"
proof -
  have "\<not> is_sep (CHR ''='')" by (simp add: is_sep_def char_defs)
  then have n: "CHR ''='' \<notin> set n" "CHR ''='' \<notin> set w"
    using assms unfolding param_name_def list_all_iff by blast+
  show "strchr (pre @ w @ n @ ''='' @ r) (length pre) (CHR ''='') = Some (length pre + length w + length n)"
    using n strchr_sep [of "CHR ''=''" "length pre" "pre @ w @ n" r] by simp
  show "strchr (pre @ w @ n @ ''='' @ r) (length pre + length w) (CHR ''='') = Some (length pre + length w + length n)"
    using n strchr_sep [of "CHR ''=''" "length pre + length w" "pre @ w @ n" r] by simp
qed

text \<open>A parameter that the header does not have is passed over.\<close>

lemma field_passes:
  fixes pre w n r s :: string
  assumes "s = pre @ w @ n @ ''='' @ r" and "list_all is_sep w" and "param_name n" and "param_name (fname f)"
    and "\<not> prefix (fname f) n" and "cstring r" and "6 \<le> length (n @ ''='' @ r)" and "fget f a = None"
  shows "field_set f s (length pre) a = (OSIP_SUCCESS, None, Some (length pre + length w))"
proof -
  have sk: "skip_chars is_sep s (length pre) = length pre + length w"
    using name_head [OF assms(3)] skip_sep [OF assms(2), of "n @ ''='' @ r" pre] assms(1) by auto
  have d: "drop (length pre + length w) s = n @ ''='' @ r" by (simp add: assms(1))
  have ne: "osip_strncasecmp (fname f) (n @ ''='' @ r) (length (fname f)) \<noteq> 0"
    using name_differs [OF assms(4,3,5,6)] .
  have e: "strchr s (length pre) (CHR ''='') = Some (length pre + length w + length n)"
    using eq_sign_at(1) [OF assms(3,2), of pre r] assms(1) by simp
  have l: "\<not> length s - length pre < 6" using assms(1,7) by simp
  show ?thesis
    unfolding field_set_def osip_quoted_string_set_def osip_token_set_def Let_def sk d e assms(8)
    using ne l by simp
qed

text \<open>Where the next parameter starts.\<close>

lemma next_element_end: "next_element s (length s) = None"
  by (simp add: next_element_def skip_chars_def chr_at_def)

lemma next_element_here:
  assumes "\<not> is_blank c" and "c \<noteq> LF" and "c \<noteq> CR" and "c \<noteq> NUL"
  shows "next_element (a @ c # r) (length a) = Some (length a)"
  using assms by (simp add: next_element_def skip_chars_def chr_at_def)

lemma next_element_blank:
  assumes "\<not> is_blank c" and "c \<noteq> LF" and "c \<noteq> CR" and "c \<noteq> NUL"
  shows "next_element (a @ CHR '' '' # c # r) (length a) = Some (length a + 1)"
proof -
  have "is_blank (CHR '' '')" by (simp add: is_blank_def)
  then show ?thesis
    using assms by (simp add: next_element_def skip_chars_def chr_at_def nth_append)
qed

lemma name_first: "param_name n \<Longrightarrow> \<exists>c t. n = c # t \<and> \<not> is_blank c \<and> c \<noteq> LF \<and> c \<noteq> CR \<and> c \<noteq> NUL"
  by (cases n) (simp_all add: param_name_def is_blank_def is_sep_def)

text \<open>A quoted parameter that is there is read, up to its closing quote.\<close>

lemma find_quote_plain:
  "\<forall>c\<in>set a. c \<noteq> DQUOTE \<and> c \<noteq> BSLASH \<Longrightarrow> find_quote False (a @ DQUOTE # b) = Some (length a)"
  by (induction a) auto

lemma quoted_reads:
  fixes pre w n r s v :: string
  assumes s: "s = pre @ w @ n @ ''='' @ v @ r" and w: "list_all is_sep w" and n: "param_name n" and v: "quoted_value v"
  shows "osip_quoted_string_set n s (length pre) None
     = (OSIP_SUCCESS, Some v, next_element s (length pre + length w + length n + 1 + length v))"
proof -
  let ?p = "length pre + length w"
  have "quoted v" "2 < length v" using v by (simp_all add: quoted_value_def)
  then obtain q where v2: "v = DQUOTE # q @ [DQUOTE]" "find_quote False (q @ [DQUOTE]) = Some (length q)"
    unfolding quoted_def by blast
  with \<open>2 < length v\<close> have "q \<noteq> []" by (cases q) simp_all
  note q = v2 this
  have sk: "skip_chars is_sep s (length pre) = ?p"
    using name_head [OF n] skip_sep [OF w, of "n @ ''='' @ v @ r" pre] s by auto
  have d: "drop ?p s = n @ ''='' @ v @ r" by (simp add: s)
  have e: "strchr s ?p (CHR ''='') = Some (?p + length n)" using eq_sign_at(2) [OF n w, of pre "v @ r"] s by simp
  have "n \<noteq> []" using n by (simp add: param_name_def)
  then obtain t c where tc: "n = t @ [c]" by (cases n rule: rev_cases) simp_all
  then have "\<not> is_sep c" using name_chars [OF n, of c] by simp
  then have c: "c \<noteq> CHR '' ''" by (auto simp: is_sep_def)
  have "chr_at s (?p + length n - 1) = c" by (simp add: s tc chr_at_def nth_append)
  then have b: "back_blanks s (?p + length n) = ?p + length n" using c by (subst back_blanks.simps) simp
  have "CHR ''='' \<noteq> DQUOTE \<and> CHR ''='' \<noteq> BSLASH" by (simp add: char_defs)
  then have "\<forall>c\<in>set (n @ ''=''). c \<noteq> DQUOTE \<and> c \<noteq> BSLASH"
    using name_chars [OF n] by auto
  from find_quote_plain [OF this, of "q @ [DQUOTE] @ r"]
  have q1: "osip_quote_find s ?p = Some (?p + length n + 1)" by (simp add: osip_quote_find_eq d q(1))
  have "drop (?p + length n + 2) s = q @ DQUOTE # r" by (simp add: s q(1))
  then have q2: "osip_quote_find s (?p + length n + 1 + 1) = Some (?p + length n + 2 + length q)"
    using find_quote_more [OF q(2), of r] by (simp add: osip_quote_find_eq)
  have cp: "osip_strncpy s (?p + length n + 1) (length v) = v"
    using strncpy_mid [of "pre @ w @ n @ ''=''" v r] s by (simp add: ac_simps)
  have lv: "length v = length q + 2" by (simp add: q(1))
  show ?thesis
    unfolding osip_quoted_string_set_def Let_def sk d e
    using name_matches [OF n, of "''='' @ v @ r"] b q1 q2 q(3) cp lv by simp
qed

text \<open>A parameter with a plain value is read up to the comma behind it.\<close>

lemma token_reads:
  fixes pre w n r s v :: string
  assumes s: "s = pre @ w @ n @ ''='' @ v @ r" and w: "list_all is_sep w" and n: "param_name n" and v: "token_value v"
    and r: "r = [] \<or> hd r = CHR '',''" and l: "6 \<le> length (n @ ''='' @ v @ r)"
  shows "osip_token_set n s (length pre) None
     = (OSIP_SUCCESS, Some v, next_element s (length pre + length w + length n + 1 + length v + (if r = [] then 0 else 1)))"
proof -
  let ?p = "length pre + length w"
  have v': "v \<noteq> []" "trimmed v" "CHR '','' \<notin> set v" using v by (simp_all add: token_value_def token_def)
  have sk: "skip_chars is_sep s (length pre) = ?p"
    using name_head [OF n] skip_sep [OF w, of "n @ ''='' @ v @ r" pre] s by auto
  have d: "drop ?p s = n @ ''='' @ v @ r" by (simp add: s)
  have e: "strchr s (length pre) (CHR ''='') = Some (?p + length n)" using eq_sign_at(1) [OF n w, of pre "v @ r"] s by simp
  have "is_sep (CHR '','')" by (simp add: is_sep_def)
  then have "CHR '','' \<notin> set n" using name_chars [OF n] by blast
  then have nc: "CHR '','' \<notin> set (n @ ''='' @ v)" using v'(3) by simp
  have tend: "(case strchr s ?p (CHR '','') of Some e \<Rightarrow> e | None \<Rightarrow> length s) = ?p + length n + 1 + length v"
  proof (cases r)
    case Nil
    then have "strchr s ?p (CHR '','') = None" using nc d by (intro strchr_no_sep) simp
    then show ?thesis by (simp add: s Nil)
  next
    case (Cons x t)
    then have "strchr s ?p (CHR '','') = Some (length (pre @ w @ n @ ''='' @ v))"
      using nc r strchr_sep [of "CHR '',''" ?p "pre @ w @ n @ ''='' @ v" t] by (simp add: s)
    then show ?thesis by simp
  qed
  have cp: "osip_clrncpy s (?p + length n + 1) (length v) = v"
    using clrncpy_mid [OF v'(1,2), of "pre @ w @ n @ ''=''" r] s by (simp add: ac_simps)
  have ls: "\<not> length s - length pre < 6" using s l by simp
  have lt: "(?p + length n + 1 + length v < length s) = (r \<noteq> [])" by (simp add: s)
  show ?thesis
    unfolding osip_token_set_def Let_def sk d e
    using name_matches [OF n, of "''='' @ v @ r"] tend cp ls lt v'(1) by (cases "r = []") simp_all
qed

section \<open>Tables of parameters\<close>

text \<open>The parameters that the header \<open>h\<close> has, a header filled with them, and values that print well.\<close>

fun items_of :: "'a field list \<Rightarrow> 'a \<Rightarrow> (string \<times> string) list" where
  "items_of [] h = []"
| "items_of (f # gs) h = (case fget f h of None \<Rightarrow> items_of gs h | Some v \<Rightarrow> (fname f, v) # items_of gs h)"

fun fill :: "'a field list \<Rightarrow> 'a \<Rightarrow> 'a \<Rightarrow> 'a" where
  "fill [] h a = a"
| "fill (f # gs) h a = fill gs h (fset f (fget f h) a)"

definition value_ok :: "'a field \<Rightarrow> 'a \<Rightarrow> bool" where
  "value_ok f h \<longleftrightarrow>
     (case fget f h of
        None \<Rightarrow> True
      | Some v \<Rightarrow> (if fquoted f then quoted_value v else token_value v) \<and> 6 \<le> length (fname f @ ''='' @ v))"

lemma items_of_cases:
  "items_of gs h = (n, v) # xs \<Longrightarrow> \<exists>g\<in>set gs. fname g = n \<and> fget g h = Some v"
  by (induction gs) (auto split: option.splits)

lemma items_of_none: "items_of gs h = [] \<Longrightarrow> \<forall>g\<in>set gs. fget g h = None"
  by (induction gs) (auto split: option.splits)

text \<open>
  The laws of a table: its names are parameter names and none is the beginning of a later one, and its
  fields are independent of each other.
\<close>

locale field_table =
  fixes fs :: "'a field list"
  assumes names: "list_all (\<lambda>f. param_name (fname f)) fs"
    and no_prefix: "sorted_wrt (\<lambda>f g. \<not> prefix (fname f) (fname g)) fs"
    and get_set: "f \<in> set fs \<Longrightarrow> fget f a = None \<Longrightarrow> fset f None a = a"
    and independent: "sorted_wrt (\<lambda>f g. \<forall>v a. fget g (fset f v a) = fget g a) fs"
begin

lemma fill_none:
  "set gs \<subseteq> set fs \<Longrightarrow> \<forall>g\<in>set gs. fget g h = None \<and> fget g a = None \<Longrightarrow> fill gs h a = a"
  using get_set by (induction gs) auto

lemma try_fields_reads:
  assumes "set gs \<subseteq> set fs" and "sorted_wrt (\<lambda>f g. \<not> prefix (fname f) (fname g)) gs"
    and "sorted_wrt (\<lambda>f g. \<forall>v a. fget g (fset f v a) = fget g a) gs"
    and "s = pre @ w @ items_text (items_of gs h)" and "list_all is_sep w" and "items_of gs h \<noteq> []"
    and "list_all (\<lambda>f. value_ok f h) gs" and "list_all (\<lambda>f. fget f a = None) gs" and "cstring s"
  shows "try_fields gs s (length pre) a ok = Inl (OSIP_SUCCESS, fill gs h a)"
  using assms
proof (induction gs arbitrary: pre w a ok)
  case (Cons f gs)
  have f: "f \<in> set fs" "param_name (fname f)" "fget f a = None" "set gs \<subseteq> set fs"
    and ind: "\<forall>g\<in>set gs. \<forall>v a. fget g (fset f v a) = fget g a"
    and later: "\<forall>g\<in>set gs. \<not> prefix (fname f) (fname g)"
    and ok: "value_ok f h" "list_all (\<lambda>f. value_ok f h) gs" and none: "list_all (\<lambda>f. fget f a = None) gs"
    using Cons.prems(1-3,7,8) names by (auto simp: list_all_iff)
  note step = Cons.IH [OF f(4) _ _ _ _ _ ok(2) _ Cons.prems(9)]
  show ?case
  proof (cases "fget f h")
    case None
    have it: "items_of (f # gs) h = items_of gs h" using None by simp
    then obtain n v xs where x: "items_of gs h = (n, v) # xs" using Cons.prems(6) by (metis list.exhaust surj_pair)
    from items_of_cases [OF this] obtain g where g: "g \<in> set gs" "fname g = n" "fget g h = Some v" by blast
    then have n: "param_name n" "\<not> prefix (fname f) n" "6 \<le> length (n @ ''='' @ v)"
      using names f(4) later ok(2) by (auto simp: list_all_iff value_ok_def)
    let ?r = "v @ (if xs = [] then [] else '', '' @ items_text xs)"
    have s: "s = pre @ w @ n @ ''='' @ ?r" using Cons.prems(4) it x by simp
    then have "field_set f s (length pre) a = (OSIP_SUCCESS, None, Some (length pre + length w))"
      using Cons.prems(5,9) n f(2,3) by (intro field_passes [of s pre w n ?r]) auto
    moreover have "fset f None a = a" using get_set f by blast
    ultimately show ?thesis
      using step [of "pre @ w" "[]" a "ok \<or> w \<noteq> []"] Cons.prems(2,3,4) it x none None
      by simp
  next
    case (Some v)
    have it: "items_of (f # gs) h = (fname f, v) # items_of gs h" using Some by simp
    have v: "if fquoted f then quoted_value v else token_value v" "6 \<le> length (fname f @ ''='' @ v)"
      using ok(1) Some by (simp_all add: value_ok_def)
    let ?r = "if items_of gs h = [] then [] else '', '' @ items_text (items_of gs h)"
    let ?q = "length pre + length w + length (fname f) + 1 + length v"
    have s: "s = pre @ w @ fname f @ ''='' @ v @ ?r" using Cons.prems(4) it by simp
    define p where "p = (if fquoted f then ?q else ?q + (if ?r = [] then 0 else 1))"
    have rd: "field_set f s (length pre) a = (OSIP_SUCCESS, Some v, next_element s p)"
      unfolding p_def using f(3) v quoted_reads [OF s Cons.prems(5) f(2)] token_reads [OF s Cons.prems(5) f(2)]
      by (simp add: field_set_def)
    let ?a = "fset f (Some v) a"
    have none': "list_all (\<lambda>f. fget f ?a = None) gs" using ind none by (simp add: list_all_iff)
    show ?thesis
    proof (cases "items_of gs h = []")
      case True
      then have "p = length s" by (simp add: p_def s)
      then have "next_element s p = None" by (simp add: next_element_end)
      moreover have "fill gs h ?a = ?a"
        using fill_none [OF f(4), of h ?a] items_of_none [OF True] none' by (simp add: list_all_iff)
      ultimately show ?thesis using rd Some by simp
    next
      case False
      then obtain n u xs where x: "items_of gs h = (n, u) # xs" by (metis list.exhaust surj_pair)
      from items_of_cases [OF this] f(4) names have "param_name n" by (auto simp: list_all_iff)
      from name_first [OF this] obtain c t where c: "n = c # t" "\<not> is_blank c" "c \<noteq> LF" "c \<noteq> CR" "c \<noteq> NUL" by blast
      show ?thesis
      proof (cases "fquoted f")
        case True
        let ?pre = "pre @ w @ fname f @ ''='' @ v"
        have s': "s = ?pre @ '', '' @ items_text (items_of gs h)" using s False by simp
        have "next_element s (length ?pre) = Some (length ?pre)"
          unfolding s' using next_element_here [of "CHR '',''" ?pre] by (simp add: is_blank_def char_defs)
        moreover have "p = length ?pre" using True by (simp add: p_def)
        ultimately show ?thesis
          using rd Some step [OF _ _ s' _ False none'] Cons.prems(2,3) by (simp add: is_sep_def)
      next
        case notq: False
        let ?pre = "pre @ w @ fname f @ ''='' @ v @ '', ''"
        have s': "s = ?pre @ [] @ items_text (items_of gs h)" using s False by simp
        have "next_element s (length (pre @ w @ fname f @ ''='' @ v @ '','')) = Some (length ?pre)"
          unfolding s' using next_element_blank [OF c(2-5), of "pre @ w @ fname f @ ''='' @ v @ '',''"] x c(1) by simp
        moreover have "p = length (pre @ w @ fname f @ ''='' @ v @ '','')" using notq False by (simp add: p_def)
        ultimately show ?thesis
          using rd Some step [OF _ _ s' _ False none'] Cons.prems(2,3) by simp
      qed
    qed
  qed
qed simp

lemma cstring_items:
  "set gs \<subseteq> set fs \<Longrightarrow> list_all (\<lambda>f. value_ok f h) gs \<Longrightarrow> cstring (items_text (items_of gs h))"
proof (induction gs)
  case (Cons f gs)
  then have "param_name (fname f)" using names by (auto simp: list_all_iff)
  with Cons name_cstring [of "fname f"] show ?case
    by (auto simp: value_ok_def quoted_value_def token_value_def token_def NUL_def split: option.splits if_splits)
qed simp

lemma auth_params_reads:
  assumes "s = pre @ w @ items_text (items_of fs h)" and "list_all is_sep w" and "items_of fs h \<noteq> []"
    and "list_all (\<lambda>f. value_ok f h) fs" and "list_all (\<lambda>f. fget f a = None) fs" and "cstring s"
  shows "auth_params fs s (length pre) a = (OSIP_SUCCESS, fill fs h a)"
  using try_fields_reads [OF order_refl no_prefix independent assms] assms(1) by (subst auth_params.simps) simp

end

text \<open>The text that the two printing loops write for a table.\<close>

lemma separated_items:
  "separated_text '','' first (map (\<lambda>f. ('' '' @ fname f @ ''='', fget f h)) gs) =
     (if items_of gs h = [] then [] else (if first then '' '' else '', '') @ items_text (items_of gs h))"
  by (induction gs arbitrary: first) (auto simp: separated_text.simps split: option.split)

lemma fields_items:
  "fields_text (map (\<lambda>f. ('', '' @ fname f @ ''='', fget f h)) gs) =
     (if items_of gs h = [] then [] else '', '' @ items_text (items_of gs h))"
  by (induction gs) (auto simp: fields_text.simps split: option.split)

lemma authorization_labels_map:
  "authorization_labels a = map (\<lambda>f. ('' '' @ fname f @ ''='', fget f a)) authorization_fields"
  by (simp add: authorization_labels_def authorization_fields_def)

lemma www_authenticate_labels_map:
  "www_authenticate_labels w = ('' realm='', wa_realm w)
     # map (\<lambda>f. ('', '' @ fname f @ ''='', fget f w)) (tl www_authenticate_fields)"
  by (simp add: www_authenticate_labels_def www_authenticate_fields_def)

lemma authorization_names:
  "list_all param_name (map fname authorization_fields)"
  "sorted_wrt (\<lambda>m n. \<not> prefix m n) (map fname authorization_fields)"
  by code_simp+

lemma www_authenticate_names:
  "list_all param_name (map fname www_authenticate_fields)"
  "sorted_wrt (\<lambda>m n. \<not> prefix m n) (map fname www_authenticate_fields)"
  by code_simp+

interpretation authorization_table: field_table authorization_fields
proof
  show "list_all (\<lambda>f. param_name (fname f)) authorization_fields"
    using authorization_names(1) by (simp add: list_all_iff)
  show "sorted_wrt (\<lambda>f g. \<not> prefix (fname f) (fname g)) authorization_fields"
    using authorization_names(2) by (simp only: sorted_wrt_map)
  show "fset f None a = a" if "f \<in> set authorization_fields" "fget f a = None" for f a
    using that by (auto simp: authorization_fields_def)
  show "sorted_wrt (\<lambda>f g. \<forall>v a. fget g (fset f v a) = fget g a) authorization_fields"
    by (simp add: authorization_fields_def)
qed

interpretation www_authenticate_table: field_table www_authenticate_fields
proof
  show "list_all (\<lambda>f. param_name (fname f)) www_authenticate_fields"
    using www_authenticate_names(1) by (simp add: list_all_iff)
  show "sorted_wrt (\<lambda>f g. \<not> prefix (fname f) (fname g)) www_authenticate_fields"
    using www_authenticate_names(2) by (simp only: sorted_wrt_map)
  show "fset f None a = a" if "f \<in> set www_authenticate_fields" "fget f a = None" for f a
    using that by (auto simp: www_authenticate_fields_def)
  show "sorted_wrt (\<lambda>f g. \<forall>v a. fget g (fset f v a) = fget g a) www_authenticate_fields"
    by (simp add: www_authenticate_fields_def)
qed

section \<open>Round trips\<close>

definition wf_authorization :: "authorization \<Rightarrow> bool" where
  "wf_authorization a \<longleftrightarrow>
     (case au_auth_type a of None \<Rightarrow> False | Some ty \<Rightarrow> ty \<noteq> [] \<and> CHR '' '' \<notin> set ty \<and> cstring ty)
     \<and> list_all (\<lambda>f. value_ok f a) authorization_fields \<and> items_of authorization_fields a \<noteq> [] \<and> au_auth_param a = None"

definition wf_www_authenticate :: "www_authenticate \<Rightarrow> bool" where
  "wf_www_authenticate w \<longleftrightarrow>
     (case wa_auth_type w of None \<Rightarrow> False | Some ty \<Rightarrow> ty \<noteq> [] \<and> CHR '' '' \<notin> set ty \<and> cstring ty)
     \<and> list_all (\<lambda>f. value_ok f w) www_authenticate_fields \<and> items_of www_authenticate_fields w \<noteq> [] \<and> wa_auth_param w = None"

lemma authorization_fill:
  "au_auth_param a = None \<Longrightarrow> fill authorization_fields a (osip_authorization_init\<lparr>au_auth_type := au_auth_type a\<rparr>) = a"
  by (cases a) (simp add: authorization_fields_def osip_authorization_init_def)

lemma www_authenticate_fill:
  "wa_auth_param w = None \<Longrightarrow> fill www_authenticate_fields w (osip_www_authenticate_init\<lparr>wa_auth_type := wa_auth_type w\<rparr>) = w"
  by (cases w) (simp add: www_authenticate_fields_def osip_www_authenticate_init_def)

lemma wf_authorization_roundtrip:
  assumes "wf_authorization a"
  shows "\<exists>s. osip_authorization_to_str (Some a) = Some (OSIP_SUCCESS, Some s)
    \<and> osip_authorization_parse osip_authorization_init s = (OSIP_SUCCESS, a)"
proof -
  obtain ty where ty: "au_auth_type a = Some ty" "ty \<noteq> []" "CHR '' '' \<notin> set ty" "cstring ty"
    and ok: "list_all (\<lambda>f. value_ok f a) authorization_fields" "items_of authorization_fields a \<noteq> []" "au_auth_param a = None"
    using assms by (auto simp: wf_authorization_def split: option.splits)
  let ?s = "ty @ '' '' @ items_text (items_of authorization_fields a)"
  let ?a = "osip_authorization_init\<lparr>au_auth_type := Some ty\<rparr>"
  have "osip_authorization_to_str (Some a) = Some (OSIP_SUCCESS, Some ?s)"
    using authorization_fits [OF ty(1), unfolded authorization_labels_map separated_items] ok(2) by simp
  moreover have "strchr ?s 0 (CHR '' '') = Some (length ty)" using ty(3) strchr_sep [of "CHR '' ''" 0 ty] by simp
  moreover have "osip_strncpy ?s 0 (length ty) = ty" by (simp add: osip_strncpy_def)
  moreover have "cstring ?s"
    using ty(4) authorization_table.cstring_items [OF order_refl ok(1)] by (simp add: NUL_def)
  moreover have "list_all (\<lambda>f. fget f ?a = None) authorization_fields"
    by (simp add: authorization_fields_def osip_authorization_init_def)
  ultimately show ?thesis
    using authorization_table.auth_params_reads [OF refl _ ok(2,1), of "'' ''" ?a ty] ty(1,2) authorization_fill [OF ok(3)]
    by (auto simp: osip_authorization_parse_def is_sep_def)
qed

lemma www_authenticate_text:
  assumes "wa_auth_type w = Some ty" and "items_of www_authenticate_fields w \<noteq> []"
  shows "osip_www_authenticate_to_str (Some w) = Some (OSIP_SUCCESS, Some
    (ty @ (if wa_realm w = None then ''  '' else '' '') @ items_text (items_of www_authenticate_fields w)))"
proof -
  let ?gs = "tl www_authenticate_fields"
  have "www_authenticate_fields = \<lparr>fquoted = True, fname = ''realm'', fget = wa_realm, fset = \<lambda>v. wa_realm_update (\<lambda>_. v)\<rparr> # ?gs"
    by (simp add: www_authenticate_fields_def)
  then have i: "items_of www_authenticate_fields w =
      (case wa_realm w of None \<Rightarrow> items_of ?gs w | Some v \<Rightarrow> (''realm'', v) # items_of ?gs w)"
    by (metis field.select_convs(2,3) items_of.simps(2))
  have t: "fields_text (www_authenticate_labels w) = (case wa_realm w of None \<Rightarrow> [] | Some v \<Rightarrow> '' realm='' @ v) @
      (if items_of ?gs w = [] then [] else '', '' @ items_text (items_of ?gs w))"
    by (simp only: www_authenticate_labels_map fields_text.simps fields_items)
  show ?thesis
  proof (cases "wa_realm w")
    case None
    then have "fields_text (www_authenticate_labels w) = '', '' @ items_text (items_of www_authenticate_fields w)"
      using t i assms(2) by simp
    then show ?thesis
      using www_authenticate_fits [OF assms(1)] None by (simp add: chr_at_def list_update_append)
  next
    case (Some v)
    then show ?thesis using www_authenticate_fits [OF assms(1)] t i by simp
  qed
qed

lemma wf_www_authenticate_roundtrip:
  assumes "wf_www_authenticate w"
  shows "\<exists>s. osip_www_authenticate_to_str (Some w) = Some (OSIP_SUCCESS, Some s)
    \<and> osip_www_authenticate_parse osip_www_authenticate_init s = (OSIP_SUCCESS, w)"
proof -
  obtain ty where ty: "wa_auth_type w = Some ty" "ty \<noteq> []" "CHR '' '' \<notin> set ty" "cstring ty"
    and ok: "list_all (\<lambda>f. value_ok f w) www_authenticate_fields" "items_of www_authenticate_fields w \<noteq> []" "wa_auth_param w = None"
    using assms by (auto simp: wf_www_authenticate_def split: option.splits)
  define sep where "sep = (if wa_realm w = None then ''  '' else '' '')"
  let ?s = "ty @ sep @ items_text (items_of www_authenticate_fields w)"
  let ?a = "osip_www_authenticate_init\<lparr>wa_auth_type := Some ty\<rparr>"
  have sep: "\<exists>t. sep = CHR '' '' # t" "list_all is_sep sep" "cstring sep" by (simp_all add: sep_def is_sep_def NUL_def)
  then have "strchr ?s 0 (CHR '' '') = Some (length ty)" using ty(3) strchr_sep [of "CHR '' ''" 0 ty] by auto
  moreover have "osip_strncpy ?s 0 (length ty) = ty" by (simp add: osip_strncpy_def)
  moreover have "cstring ?s"
    using ty(4) sep(3) www_authenticate_table.cstring_items [OF order_refl ok(1)] by simp
  moreover have "list_all (\<lambda>f. fget f ?a = None) www_authenticate_fields"
    by (simp add: www_authenticate_fields_def osip_www_authenticate_init_def)
  ultimately show ?thesis
    using www_authenticate_table.auth_params_reads [OF refl sep(2) ok(2,1), of ?a ty] ty(1,2) www_authenticate_fill [OF ok(3)]
      www_authenticate_text [OF ty(1) ok(2)]
    by (auto simp: osip_www_authenticate_parse_def sep_def [symmetric])
qed

interpretation authorization_codec: header_codec wf_authorization "\<lambda>a. printed (osip_authorization_to_str (Some a))"
  "\<lambda>s. parsed (osip_authorization_parse osip_authorization_init s)"
  using wf_authorization_roundtrip by unfold_locales (fastforce simp: printed_def parsed_def)

interpretation www_authenticate_codec: header_codec wf_www_authenticate "\<lambda>w. printed (osip_www_authenticate_to_str (Some w))"
  "\<lambda>s. parsed (osip_www_authenticate_parse osip_www_authenticate_init s)"
  using wf_www_authenticate_roundtrip by unfold_locales (fastforce simp: printed_def parsed_def)

text \<open>
  C25. Round trip of challenges and credentials: a \<^verbatim>\<open>WWW-Authenticate\<close> and an \<^verbatim>\<open>Authorization\<close> header with
  any selection of parameters (quoted values properly quoted and not empty, plain values without
  commas and with at least six characters per parameter) are printed and parsed back unchanged, and different headers print
  differently.
\<close>

theorem auth_headers_roundtrip:
  assumes "wf_authorization a" and "wf_authorization b" and "wf_www_authenticate w"
  shows "(\<exists>s. osip_authorization_to_str (Some a) = Some (OSIP_SUCCESS, Some s)
           \<and> osip_authorization_parse osip_authorization_init s = (OSIP_SUCCESS, a))
    \<and> (\<exists>s. osip_www_authenticate_to_str (Some w) = Some (OSIP_SUCCESS, Some s)
           \<and> osip_www_authenticate_parse osip_www_authenticate_init s = (OSIP_SUCCESS, w))
    \<and> (printed (osip_authorization_to_str (Some a)) = printed (osip_authorization_to_str (Some b))) = (a = b)"
  using wf_authorization_roundtrip [OF assms(1)] wf_www_authenticate_roundtrip [OF assms(3)]
    authorization_codec.to_str_inj [OF assms(1,2)] by blast

definition sample_authorization :: authorization where
  "sample_authorization = osip_authorization_init\<lparr>au_auth_type := Some ''Digest'',
     au_username := Some (DQUOTE # ''34020000001320000001'' @ [DQUOTE]), au_realm := Some (DQUOTE # ''3402000000'' @ [DQUOTE]),
     au_algorithm := Some ''MD5'', au_nonce_count := Some ''00000001''\<rparr>"

definition sample_challenge :: www_authenticate where
  "sample_challenge = osip_www_authenticate_init\<lparr>wa_auth_type := Some ''Digest'',
     wa_nonce := Some (DQUOTE # ''f84f1cec41e6cbe5'' @ [DQUOTE]), wa_algorithm := Some ''MD5''\<rparr>"

lemma quoted_code: "quoted d \<longleftrightarrow> 2 \<le> length d \<and> hd d = DQUOTE \<and> last d = DQUOTE
    \<and> find_quote False (tl d) = Some (length d - 2)"
proof (cases d)
  case (Cons x t)
  show ?thesis
    by (cases t rule: rev_cases) (auto simp: quoted_def Cons)
qed (simp add: quoted_def)

lemma sample_auth_wf: "wf_authorization sample_authorization" "wf_www_authenticate sample_challenge"
  unfolding wf_authorization_def wf_www_authenticate_def value_ok_def quoted_value_def quoted_code by code_simp+

theorem auth_headers_roundtrip_witness:
  "\<exists>s. osip_authorization_to_str (Some sample_authorization) = Some (OSIP_SUCCESS, Some s)
     \<and> osip_authorization_parse osip_authorization_init s = (OSIP_SUCCESS, sample_authorization)"
  using auth_headers_roundtrip [OF sample_auth_wf(1,1,2)] by blast

end
