(* ===== verification/Osip_Body.thy ===== *)
theory Osip_Body
  imports Osip_Auth
begin

text \<open>
  Bodies (\<^verbatim>\<open>osip_body.c\<close>) and the cloning of a whole message (\<^verbatim>\<open>osip_message.c\<close>).  A body may contain
  zero bytes; where the code reads it as a C string, only the part in front of the first zero
  counts (\<open>cstr\<close>).  A read or write behind a buffer is \<open>None\<close>.
\<close>

definition cstr :: "string \<Rightarrow> string" where
  "cstr s = takeWhile (\<lambda>c. c \<noteq> NUL) s"

section \<open>Lines\<close>

text \<open>
  \<^verbatim>\<open>__osip_find_next_crlf\<close> from offset \<open>start\<close> of a C string: the offset behind the line end, or the
  code -2 and \<^verbatim>\<open>NULL\<close> when the next line is a continuation.
\<close>

definition osip_find_next_crlf :: "string \<Rightarrow> nat \<Rightarrow> int \<times> nat option" where
  "osip_find_next_crlf s start =
     (let soh = skip_chars (\<lambda>c. c \<noteq> CR \<and> c \<noteq> LF) s start
      in if chr_at s soh = NUL then (OSIP_SYNTAXERROR, None)
         else let soh = (if chr_at s soh = CR \<and> chr_at s (soh + 1) = LF then soh + 1 else soh)
              in if chr_at s (soh + 1) = CHR '' '' \<or> chr_at s (soh + 1) = HT then (-2, None)
                 else (OSIP_SUCCESS, Some (soh + 1)))"

lemma chr_at_bound: "chr_at s i \<noteq> NUL \<Longrightarrow> i < length s"
  by (auto simp: chr_at_def split: if_splits)

lemma find_next_crlf_bounds:
  assumes "osip_find_next_crlf s start = (i, Some e)"
  shows "start < e \<and> e \<le> length s"
proof -
  define soh where "soh = skip_chars (\<lambda>c. c \<noteq> CR \<and> c \<noteq> LF) s start"
  have s: "start \<le> soh" unfolding soh_def by (rule skip_chars_ge)
  have n: "chr_at s soh \<noteq> NUL"
    and e: "e = (if chr_at s soh = CR \<and> chr_at s (soh + 1) = LF then soh + 1 else soh) + 1"
    using assms by (auto simp: osip_find_next_crlf_def Let_def soh_def [symmetric] split: if_splits)
  have "chr_at s (soh + 1) = LF \<Longrightarrow> soh + 1 < length s" by (rule chr_at_bound) (simp add: char_defs)
  with s e chr_at_bound [OF n] show ?thesis
    by (cases "chr_at s soh = CR"; cases "chr_at s (soh + 1) = LF") simp_all
qed

text \<open>
  \<^verbatim>\<open>__osip_find_next_crlfcrlf\<close>; a continuation line leaves \<^verbatim>\<open>end_of_line\<close> \<^verbatim>\<open>NULL\<close>, which the code
  reads.
\<close>

function osip_find_next_crlfcrlf :: "string \<Rightarrow> nat \<Rightarrow> (int \<times> nat option) option" where
  "osip_find_next_crlfcrlf s start =
     (case osip_find_next_crlf s start of
        (i, eol) \<Rightarrow>
          if i \<noteq> -2 \<and> i \<noteq> 0 then Some (i, None)
          else (case eol of
                  None \<Rightarrow> None
                | Some e \<Rightarrow>
                    if chr_at s e = NUL then Some (OSIP_SYNTAXERROR, None)
                    else if chr_at s e = CR then Some (OSIP_SUCCESS, Some (if chr_at s (e + 1) = LF then e + 2 else e + 1))
                    else if chr_at s e = LF then Some (OSIP_SUCCESS, Some (e + 1))
                    else osip_find_next_crlfcrlf s e))"
  by pat_completeness auto
termination
  by (relation "measure (\<lambda>(s, start). length s - start)") (force dest!: find_next_crlf_bounds [OF sym])+

declare osip_find_next_crlfcrlf.simps [simp del]

section \<open>Bodies\<close>

definition osip_body_init :: body where
  "osip_body_init = \<lparr>body_buffer = None, body_length = 0, body_headers = Some [], body_content_type = None\<rparr>"

definition osip_body_clone :: "body option \<Rightarrow> (int \<times> body option) option" where
  "osip_body_clone bp =
     (case bp of
        None \<Rightarrow> Some (OSIP_BADPARAMETER, None)
      | Some b \<Rightarrow>
          if body_length b \<le> 0 then Some (OSIP_BADPARAMETER, None)
          else do {
            buf \<leftarrow> body_buffer b;
            if length buf < body_length b then None
            else do {
              let copy = osip_body_init\<lparr>body_length := body_length b, body_buffer := Some (take (body_length b) buf)\<rparr>;
              let (i, ct) = (case body_content_type b of None \<Rightarrow> (OSIP_SUCCESS, None) | Some c \<Rightarrow> osip_content_type_clone (Some c));
              if i \<noteq> 0 then Some (i, None)
              else (case body_headers b of
                      None \<Rightarrow> Some (OSIP_BADPARAMETER, None)
                    | Some hs \<Rightarrow>
                        (case list_clone osip_header_clone hs of
                           (i, hs') \<Rightarrow>
                             if i \<noteq> 0 then Some (i, None)
                             else Some (OSIP_SUCCESS, Some (copy\<lparr>body_content_type := ct, body_headers := Some hs'\<rparr>)))) } })"

definition osip_body_set_contenttype :: "body option \<Rightarrow> string option \<Rightarrow> int \<times> body option" where
  "osip_body_set_contenttype bp hv =
     (case (bp, hv) of
        (Some b, Some v) \<Rightarrow>
          (case osip_content_type_parse osip_content_type_init (Some v) of
             (i, ct) \<Rightarrow> if i \<noteq> 0 then (i, Some (b\<lparr>body_content_type := None\<rparr>))
                        else (OSIP_SUCCESS, Some (b\<lparr>body_content_type := Some ct\<rparr>)))
      | _ \<Rightarrow> (OSIP_BADPARAMETER, bp))"

definition osip_body_set_header :: "body option \<Rightarrow> string option \<Rightarrow> string option \<Rightarrow> int \<times> body option" where
  "osip_body_set_header bp name hv =
     (case (bp, name, hv) of
        (Some b, Some n, Some v) \<Rightarrow>
          (OSIP_SUCCESS, Some (b\<lparr>body_headers := map_option (\<lambda>hs. hs @ [\<lparr>hname = Some n, hvalue = Some v\<rparr>]) (body_headers b)\<rparr>))
      | _ \<Rightarrow> (OSIP_BADPARAMETER, bp))"

text \<open>
  \<^verbatim>\<open>osip_body_parse_header\<close>: the MIME headers in front of a part.  A \<^verbatim>\<open>NULL\<close> line end compares below
  every address.  The end of a value is taken two bytes in front of the next line, whatever the line
  end is.
\<close>

definition body_header_line :: "body \<Rightarrow> string \<Rightarrow> nat \<Rightarrow> nat \<Rightarrow> int \<times> body" where
  "body_header_line b s start e =
     (case strchr s start (CHR '':'') of
        None \<Rightarrow> (OSIP_SYNTAXERROR, b)
      | Some colon \<Rightarrow>
          if colon - start + 1 < 2 then (OSIP_SYNTAXERROR, b)
          else if int e - 2 - int colon < 2 then (OSIP_SYNTAXERROR, b)
          else
            (let name = osip_clrncpy s start (colon - start);
                 value = osip_clrncpy s (colon + 1) (e - 2 - colon - 1);
                 (i, b') = (if osip_strncasecmp name ''content-type'' 12 = 0
                            then osip_body_set_contenttype (Some b) (Some value)
                            else osip_body_set_header (Some b) (Some name) (Some value))
             in (i, case b' of Some x \<Rightarrow> x | None \<Rightarrow> b)))"

function osip_body_parse_header :: "body \<Rightarrow> string \<Rightarrow> nat \<Rightarrow> int \<times> body \<times> nat" where
  "osip_body_parse_header b s start =
     (case osip_find_next_crlf s start of
        (i, eol) \<Rightarrow>
          if i \<noteq> -2 \<and> i \<noteq> 0 then (i, b, 0)
          else (case eol of
                  None \<Rightarrow> (OSIP_SYNTAXERROR, b, 0)
                | Some e \<Rightarrow>
                    (case body_header_line b s start e of
                       (i, b) \<Rightarrow>
                         if i \<noteq> 0 then (i, b, 0)
                         else if chr_at s e = LF \<or> chr_at s e = CR then (OSIP_SUCCESS, b, e)
                         else osip_body_parse_header b s e)))"
  by pat_completeness auto
termination
  by (relation "measure (\<lambda>(b, s, start). length s - start)") (force dest!: find_next_crlf_bounds [OF sym])+

declare osip_body_parse_header.simps [simp del]

definition osip_body_parse :: "body option \<Rightarrow> string option \<Rightarrow> nat \<Rightarrow> (int \<times> body option) option" where
  "osip_body_parse bp start_of_body len =
     (case (bp, start_of_body) of
        (Some b, Some buf) \<Rightarrow>
          if body_headers b = None then Some (OSIP_BADPARAMETER, bp)
          else if length buf < len then None
          else Some (OSIP_SUCCESS, Some (b\<lparr>body_buffer := Some (take len buf), body_length := len\<rparr>))
      | _ \<Rightarrow> Some (OSIP_BADPARAMETER, bp))"

definition osip_body_parse_mime :: "body option \<Rightarrow> string option \<Rightarrow> nat \<Rightarrow> (int \<times> body option) option" where
  "osip_body_parse_mime bp start_of_body len =
     (case (bp, start_of_body) of
        (Some b, Some buf) \<Rightarrow>
          if body_headers b = None then Some (OSIP_BADPARAMETER, bp)
          else
            (case osip_body_parse_header b (cstr buf) 0 of
               (i, b, e) \<Rightarrow>
                 if i \<noteq> 0 then Some (i, Some b)
                 else
                   (let start = (if chr_at (cstr buf) e = CR \<and> chr_at (cstr buf) (e + 1) = LF then e + 2 else e + 1)
                    in if int len - int start \<le> 0 then Some (OSIP_SYNTAXERROR, Some b)
                       else if length buf < len then None
                       else Some (OSIP_SUCCESS, Some (b\<lparr>body_buffer := Some (take (len - start) (drop start buf)),
                              body_length := len - start\<rparr>))))
      | _ \<Rightarrow> Some (OSIP_BADPARAMETER, bp))"

definition osip_message_set_body :: "message \<Rightarrow> string option \<Rightarrow> nat \<Rightarrow> (int \<times> message) option" where
  "osip_message_set_body sip buf len = do {
     (i, b) \<leftarrow> osip_body_parse (Some osip_body_init) buf len;
     if i \<noteq> 0 then Some (i, sip)
     else do { x \<leftarrow> b; Some (OSIP_SUCCESS, sip\<lparr>message_property := 2, bodies := bodies sip @ [x]\<rparr>) } }"

definition osip_message_set_body_mime :: "message \<Rightarrow> string option \<Rightarrow> nat \<Rightarrow> (int \<times> message) option" where
  "osip_message_set_body_mime sip buf len = do {
     (i, b) \<leftarrow> osip_body_parse_mime (Some osip_body_init) buf len;
     if i \<noteq> 0 then Some (i, sip)
     else do { x \<leftarrow> b; Some (OSIP_SUCCESS, sip\<lparr>message_property := 2, bodies := bodies sip @ [x]\<rparr>) } }"

section \<open>Printing a body\<close>

definition CRLF :: string where "CRLF = [CR, LF]"

text \<open>A line with its line end, in a buffer that is enlarged when fewer than four bytes would remain.\<close>

definition append_line :: "nat \<Rightarrow> string \<Rightarrow> string \<Rightarrow> (nat \<times> string) option" where
  "append_line len buf line = do {
     let len = (if len < length buf + length line + 4 then len + length line + 4 else len);
     buf \<leftarrow> osip_str_append len buf line;
     buf \<leftarrow> osip_strn_append len buf CRLF 2;
     Some (len, buf) }"

fun print_body_headers :: "nat \<Rightarrow> string \<Rightarrow> header list \<Rightarrow> (int + nat \<times> string) option" where
  "print_body_headers len buf [] = Some (Inr (len, buf))"
| "print_body_headers len buf (h # hs) =
     (case osip_header_to_str (Some h) of
        (i, t) \<Rightarrow>
          if i \<noteq> 0 then Some (Inl i)
          else do {
            line \<leftarrow> t;
            (len, buf) \<leftarrow> append_line len buf line;
            print_body_headers len buf hs })"

definition print_body_content_type :: "nat \<Rightarrow> content_type option \<Rightarrow> (int + nat \<times> string) option" where
  "print_body_content_type len ct =
     (case ct of
        None \<Rightarrow> Some (Inr (len, []))
      | Some c \<Rightarrow> do {
          buf \<leftarrow> osip_strn_append len [] ''content-type: '' 14;
          (i, t) \<leftarrow> osip_content_type_to_str (Some c);
          if i \<noteq> 0 then Some (Inl i)
          else do { line \<leftarrow> t; r \<leftarrow> append_line len buf line; Some (Inr r) } })"

definition osip_body_to_str :: "body option \<Rightarrow> (int \<times> string option) option" where
  "osip_body_to_str bp =
     (case bp of
        None \<Rightarrow> Some (OSIP_BADPARAMETER, None)
      | Some b \<Rightarrow>
          (case (body_buffer b, body_headers b) of
             (Some content, Some hs) \<Rightarrow>
               if body_length b \<le> 0 then Some (OSIP_BADPARAMETER, None)
               else do {
                 r \<leftarrow> print_body_content_type (15 + body_length b + length hs * 40) (body_content_type b);
                 (case r of
                    Inl i \<Rightarrow> Some (i, None)
                  | Inr (len, buf) \<Rightarrow> do {
                      r \<leftarrow> print_body_headers len buf hs;
                      (case r of
                         Inl i \<Rightarrow> Some (i, None)
                       | Inr (len, buf) \<Rightarrow> do {
                           buf \<leftarrow> (if length hs > 0 \<or> body_content_type b \<noteq> None
                                   then osip_strn_append len buf CRLF 2 else Some buf);
                           let len = (if len < length buf + body_length b + 4 then len + body_length b + 4 else len);
                           if length content < body_length b \<or> len < length buf + body_length b then None
                           else Some (OSIP_SUCCESS, Some (buf @ take (body_length b) content)) }) }) }
           | _ \<Rightarrow> Some (OSIP_BADPARAMETER, None)))"

section \<open>Cloning a message\<close>

text \<open>
  The parts of a message are cloned one after the other into a fresh message; the first one that
  fails ends \<^verbatim>\<open>osip_message_clone\<close> with its code.  A step looks at the source and fills a part of the
  copy.  A pointer part is skipped when it is \<^verbatim>\<open>NULL\<close>.
\<close>

type_synonym clone_step = "message \<Rightarrow> message \<Rightarrow> (int \<times> message) option"

definition clone_part ::
  "('a option \<Rightarrow> int \<times> 'a option) \<Rightarrow> (message \<Rightarrow> 'a option) \<Rightarrow> ('a option \<Rightarrow> message \<Rightarrow> message) \<Rightarrow> clone_step" where
  "clone_part clone_func get put sip copy =
     (case get sip of
        None \<Rightarrow> Some (OSIP_SUCCESS, copy)
      | Some x \<Rightarrow> (case clone_func (Some x) of (i, y) \<Rightarrow> Some (i, put y copy)))"

definition clone_list ::
  "('a option \<Rightarrow> int \<times> 'a option) \<Rightarrow> (message \<Rightarrow> 'a list) \<Rightarrow> ('a list \<Rightarrow> message \<Rightarrow> message) \<Rightarrow> clone_step" where
  "clone_list clone_func get put sip copy =
     (case list_clone clone_func (get sip) of (i, ys) \<Rightarrow> Some (i, put ys copy))"

fun body_list_clone :: "body list \<Rightarrow> (int \<times> body list) option" where
  "body_list_clone [] = Some (OSIP_SUCCESS, [])"
| "body_list_clone (b # bs) = do {
     (i, c) \<leftarrow> osip_body_clone (Some b);
     if i \<noteq> 0 then Some (i, [])
     else (case c of
             None \<Rightarrow> Some (OSIP_SUCCESS, [])
           | Some d \<Rightarrow> do { (j, ds) \<leftarrow> body_list_clone bs; Some (j, d # ds) }) }"

definition clone_start_line :: clone_step where
  "clone_start_line sip copy =
     Some (OSIP_SUCCESS, copy\<lparr>sip_method := osip_strdup (sip_method sip), sip_version := osip_strdup (sip_version sip),
       status_code := status_code sip, reason_phrase := osip_strdup (reason_phrase sip)\<rparr>)"

definition clone_bodies :: clone_step where
  "clone_bodies sip copy = do { (i, bs) \<leftarrow> body_list_clone (bodies sip); Some (i, copy\<lparr>bodies := bs\<rparr>) }"

text \<open>The text of the message is copied as a C string: only up to its first zero byte.\<close>

definition clone_buffer :: clone_step where
  "clone_buffer sip copy =
     Some (OSIP_SUCCESS, copy\<lparr>message_length := message_length sip,
       msg_buffer := osip_strdup (map_option cstr (msg_buffer sip)),
       message_property := message_property sip, application_data := application_data sip\<rparr>)"

definition clone_steps :: "clone_step list" where
  "clone_steps =
     [clone_start_line,
      clone_part osip_uri_clone req_uri (\<lambda>x m. m\<lparr>req_uri := x\<rparr>),
      clone_list osip_content_type_clone accepts (\<lambda>x m. m\<lparr>accepts := x\<rparr>),
      clone_list osip_accept_encoding_clone accept_encodings (\<lambda>x m. m\<lparr>accept_encodings := x\<rparr>),
      clone_list osip_accept_encoding_clone accept_languages (\<lambda>x m. m\<lparr>accept_languages := x\<rparr>),
      clone_list osip_call_info_clone alert_infos (\<lambda>x m. m\<lparr>alert_infos := x\<rparr>),
      clone_list osip_content_length_clone allows (\<lambda>x m. m\<lparr>allows := x\<rparr>),
      clone_list osip_authentication_info_clone authentication_infos (\<lambda>x m. m\<lparr>authentication_infos := x\<rparr>),
      clone_list osip_content_length_clone content_encodings (\<lambda>x m. m\<lparr>content_encodings := x\<rparr>),
      clone_list osip_call_info_clone error_infos (\<lambda>x m. m\<lparr>error_infos := x\<rparr>),
      clone_list osip_authentication_info_clone proxy_authentication_infos (\<lambda>x m. m\<lparr>proxy_authentication_infos := x\<rparr>),
      clone_list osip_call_info_clone call_infos (\<lambda>x m. m\<lparr>call_infos := x\<rparr>),
      clone_list osip_authorization_clone authorizations (\<lambda>x m. m\<lparr>authorizations := x\<rparr>),
      clone_part osip_call_id_clone msg_call_id (\<lambda>x m. m\<lparr>msg_call_id := x\<rparr>),
      clone_list osip_from_clone contacts (\<lambda>x m. m\<lparr>contacts := x\<rparr>),
      clone_part osip_content_length_clone msg_content_length (\<lambda>x m. m\<lparr>msg_content_length := x\<rparr>),
      clone_part osip_content_type_clone msg_content_type (\<lambda>x m. m\<lparr>msg_content_type := x\<rparr>),
      clone_part osip_cseq_clone msg_cseq (\<lambda>x m. m\<lparr>msg_cseq := x\<rparr>),
      clone_part osip_from_clone msg_from (\<lambda>x m. m\<lparr>msg_from := x\<rparr>),
      clone_part osip_content_length_clone mime_version (\<lambda>x m. m\<lparr>mime_version := x\<rparr>),
      clone_list osip_www_authenticate_clone proxy_authenticates (\<lambda>x m. m\<lparr>proxy_authenticates := x\<rparr>),
      clone_list osip_authorization_clone proxy_authorizations (\<lambda>x m. m\<lparr>proxy_authorizations := x\<rparr>),
      clone_list osip_from_clone record_routes (\<lambda>x m. m\<lparr>record_routes := x\<rparr>),
      clone_list osip_from_clone routes (\<lambda>x m. m\<lparr>routes := x\<rparr>),
      clone_part osip_from_clone msg_to (\<lambda>x m. m\<lparr>msg_to := x\<rparr>),
      clone_list osip_via_clone vias (\<lambda>x m. m\<lparr>vias := x\<rparr>),
      clone_list osip_www_authenticate_clone www_authenticates (\<lambda>x m. m\<lparr>www_authenticates := x\<rparr>),
      clone_list osip_header_clone headers (\<lambda>x m. m\<lparr>headers := x\<rparr>),
      clone_bodies,
      clone_buffer]"

fun run_clone :: "clone_step list \<Rightarrow> message \<Rightarrow> message \<Rightarrow> (int \<times> message option) option" where
  "run_clone [] sip copy = Some (OSIP_SUCCESS, Some copy)"
| "run_clone (f # fs) sip copy = do {
     (i, copy) \<leftarrow> f sip copy;
     if i \<noteq> 0 then Some (i, None) else run_clone fs sip copy }"

definition osip_message_clone :: "message option \<Rightarrow> (int \<times> message option) option" where
  "osip_message_clone sip =
     (case sip of
        None \<Rightarrow> Some (OSIP_BADPARAMETER, None)
      | Some m \<Rightarrow> run_clone clone_steps m osip_message_init)"

end
