(* ===== verification/Osip_Parse.thy ===== *)
theory Osip_Parse
  imports Osip_Body Osip_Transaction
begin

text \<open>
  The parser of messages: \<^verbatim>\<open>osip_parser_cfg.c\<close> (the table of known headers) and
  \<^verbatim>\<open>osip_message_parse.c\<close>.  The text is a buffer that may contain zero bytes and ends in one; the
  start line and the headers are read as the C string in front of the first zero byte, bodies as
  bytes.  A read behind the buffer is \<open>None\<close>.
\<close>

section \<open>The table of headers\<close>

record config =
  cfg_hname :: string
  setheader :: "message \<Rightarrow> string option \<Rightarrow> (int \<times> message) option"
  ignored_when_invalid :: bool

definition total_setter ::
  "(message \<Rightarrow> string option \<Rightarrow> int \<times> message) \<Rightarrow> message \<Rightarrow> string option \<Rightarrow> (int \<times> message) option" where
  "total_setter f sip hv = Some (f sip hv)"

definition pconfig :: "config list" where
  "pconfig =
    [\<lparr>cfg_hname = ''accept'', setheader = total_setter osip_message_set_accept, ignored_when_invalid = True\<rparr>,
     \<lparr>cfg_hname = ''accept-encoding'', setheader = total_setter osip_message_set_accept_encoding, ignored_when_invalid = True\<rparr>,
     \<lparr>cfg_hname = ''accept-language'', setheader = total_setter osip_message_set_accept_language, ignored_when_invalid = True\<rparr>,
     \<lparr>cfg_hname = ''alert-info'', setheader = total_setter osip_message_set_alert_info, ignored_when_invalid = True\<rparr>,
     \<lparr>cfg_hname = ''allow'', setheader = total_setter osip_message_set_allow, ignored_when_invalid = True\<rparr>,
     \<lparr>cfg_hname = ''authentication-info'', setheader = total_setter osip_message_set_authentication_info, ignored_when_invalid = True\<rparr>,
     \<lparr>cfg_hname = ''authorization'', setheader = total_setter osip_message_set_authorization, ignored_when_invalid = True\<rparr>,
     \<lparr>cfg_hname = ''c'', setheader = total_setter osip_message_set_content_type, ignored_when_invalid = False\<rparr>,
     \<lparr>cfg_hname = ''call-id'', setheader = total_setter osip_message_set_call_id, ignored_when_invalid = False\<rparr>,
     \<lparr>cfg_hname = ''call-info'', setheader = total_setter osip_message_set_call_info, ignored_when_invalid = True\<rparr>,
     \<lparr>cfg_hname = ''contact'', setheader = total_setter osip_message_set_contact, ignored_when_invalid = False\<rparr>,
     \<lparr>cfg_hname = ''content-encoding'', setheader = total_setter osip_message_set_content_encoding, ignored_when_invalid = True\<rparr>,
     \<lparr>cfg_hname = ''content-length'', setheader = total_setter osip_message_set_content_length, ignored_when_invalid = False\<rparr>,
     \<lparr>cfg_hname = ''content-type'', setheader = total_setter osip_message_set_content_type, ignored_when_invalid = False\<rparr>,
     \<lparr>cfg_hname = ''cseq'', setheader = total_setter osip_message_set_cseq, ignored_when_invalid = False\<rparr>,
     \<lparr>cfg_hname = ''e'', setheader = total_setter osip_message_set_content_encoding, ignored_when_invalid = True\<rparr>,
     \<lparr>cfg_hname = ''error-info'', setheader = total_setter osip_message_set_error_info, ignored_when_invalid = True\<rparr>,
     \<lparr>cfg_hname = ''f'', setheader = total_setter osip_message_set_from, ignored_when_invalid = False\<rparr>,
     \<lparr>cfg_hname = ''from'', setheader = total_setter osip_message_set_from, ignored_when_invalid = False\<rparr>,
     \<lparr>cfg_hname = ''i'', setheader = total_setter osip_message_set_call_id, ignored_when_invalid = False\<rparr>,
     \<lparr>cfg_hname = ''l'', setheader = total_setter osip_message_set_content_length, ignored_when_invalid = False\<rparr>,
     \<lparr>cfg_hname = ''m'', setheader = total_setter osip_message_set_contact, ignored_when_invalid = False\<rparr>,
     \<lparr>cfg_hname = ''mime-version'', setheader = total_setter osip_message_set_mime_version, ignored_when_invalid = True\<rparr>,
     \<lparr>cfg_hname = ''proxy-authenticate'', setheader = total_setter osip_message_set_proxy_authenticate, ignored_when_invalid = True\<rparr>,
     \<lparr>cfg_hname = ''proxy-authentication-info'', setheader = total_setter osip_message_set_proxy_authentication_info, ignored_when_invalid = True\<rparr>,
     \<lparr>cfg_hname = ''proxy-authorization'', setheader = total_setter osip_message_set_proxy_authorization, ignored_when_invalid = True\<rparr>,
     \<lparr>cfg_hname = ''record-route'', setheader = total_setter osip_message_set_record_route, ignored_when_invalid = True\<rparr>,
     \<lparr>cfg_hname = ''route'', setheader = total_setter osip_message_set_route, ignored_when_invalid = True\<rparr>,
     \<lparr>cfg_hname = ''t'', setheader = total_setter osip_message_set_to, ignored_when_invalid = False\<rparr>,
     \<lparr>cfg_hname = ''to'', setheader = total_setter osip_message_set_to, ignored_when_invalid = False\<rparr>,
     \<lparr>cfg_hname = ''v'', setheader = osip_message_set_via, ignored_when_invalid = False\<rparr>,
     \<lparr>cfg_hname = ''via'', setheader = osip_message_set_via, ignored_when_invalid = False\<rparr>,
     \<lparr>cfg_hname = ''www-authenticate'', setheader = total_setter osip_message_set_www_authenticate, ignored_when_invalid = True\<rparr>]"

definition NUMBER_OF_HEADERS :: nat where "NUMBER_OF_HEADERS = 33"
definition HASH_TABLE_SIZE :: nat where "HASH_TABLE_SIZE = 150"

definition hash_slot :: "string \<Rightarrow> nat" where
  "hash_slot hdr = unat (osip_hash hdr) mod HASH_TABLE_SIZE"

text \<open>The loop of \<^verbatim>\<open>parser_init\<close> that enters the headers; it gives up at the first conflict.\<close>

fun fill_table :: "int \<Rightarrow> string list \<Rightarrow> int list \<Rightarrow> int \<times> int list" where
  "fill_table i [] table = (OSIP_SUCCESS, table)"
| "fill_table i (hdr # hdrs) table =
     (if table ! hash_slot hdr = - 1 then fill_table (i + 1) hdrs (table[hash_slot hdr := i])
      else (OSIP_UNDEFINED_ERROR, table))"

text \<open>\<^verbatim>\<open>parser_init\<close>: its code and \<^verbatim>\<open>hdr_ref_table\<close>.\<close>

definition parser_init :: "int \<times> int list" where
  "parser_init = fill_table 0 (map cfg_hname (take NUMBER_OF_HEADERS pconfig)) (replicate HASH_TABLE_SIZE (- 1))"

definition osip_message_is_known_header :: "int list \<Rightarrow> string \<Rightarrow> int" where
  "osip_message_is_known_header hdr_ref_table hdr =
     (let index = hdr_ref_table ! hash_slot hdr
      in if index \<noteq> - 1 \<and> cfg_hname (pconfig ! nat index) = hdr then index else - 1)"

definition osip_message_call_method :: "int \<Rightarrow> message \<Rightarrow> string option \<Rightarrow> (int \<times> message) option" where
  "osip_message_call_method i dest hv = do {
     (err, dest) \<leftarrow> setheader (pconfig ! nat i) dest hv;
     Some (if ignored_when_invalid (pconfig ! nat i) then OSIP_SUCCESS else err, dest) }"

section \<open>Headers\<close>

definition osip_message_set__header :: "int list \<Rightarrow> message \<Rightarrow> string option \<Rightarrow> string option \<Rightarrow> (int \<times> message) option" where
  "osip_message_set__header table sip name hv =
     (case name of
        None \<Rightarrow> Some (OSIP_SYNTAXERROR, sip)
      | Some hdr \<Rightarrow>
          (let my_index = osip_message_is_known_header table hdr
           in if my_index \<ge> 0 then osip_message_call_method my_index sip hv
              else (case osip_message_set_header (Some sip) (Some hdr) hv of
                      (_, m) \<Rightarrow> Some (OSIP_SUCCESS, case m of Some x \<Rightarrow> x | None \<Rightarrow> sip))))"

text \<open>The headers whose value is never split at commas.\<close>

definition unsplit_headers :: "string list" where
  "unsplit_headers = [''date'', ''t'', ''to'', ''f'', ''from'', ''i'', ''call-id'', ''cseq'', ''s'', ''subject'',
     ''expires'', ''server'', ''user-agent'', ''www-authenticate'', ''authentication-info'', ''proxy-authenticate'',
     ''proxy-authorization'', ''proxy-authentication-info'', ''organization'', ''authorization'', ''r'', ''refer-to'',
     ''b'', ''referred-by'']"

text \<open>
  The number of backslashes that the code counts for a quote at \<open>p\<close>; it starts at the quote itself.
\<close>

fun backslashes :: "string \<Rightarrow> nat \<Rightarrow> nat \<Rightarrow> nat" where
  "backslashes v beg p =
     (if beg \<le> p \<and> chr_at v p = BSLASH then (if p = 0 then 1 else 1 + backslashes v beg (p - 1)) else 0)"

declare backslashes.simps [simp del]

definition uri_starts :: "string \<Rightarrow> nat \<Rightarrow> bool" where
  "uri_starts v ptr \<longleftrightarrow>
     (osip_strncasecmp (drop (ptr + 1) v) ''sip:'' 4 = 0 \<or> osip_strncasecmp (drop (ptr + 1) v) ''sips:'' 5 = 0
      \<or> osip_strncasecmp (drop (ptr + 1) v) ''http:'' 5 = 0 \<or> osip_strncasecmp (drop (ptr + 1) v) ''https:'' 6 = 0
      \<or> osip_strncasecmp (drop (ptr + 1) v) ''tel:'' 4 = 0)
     \<and> strchr v ptr (CHR ''>'') \<noteq> None"

text \<open>What happens at a comma or at the end: a value is stored, unless it is quoted, in a URI or empty.\<close>

definition store_value ::
  "int list \<Rightarrow> string \<Rightarrow> string \<Rightarrow> nat \<Rightarrow> nat \<Rightarrow> message \<Rightarrow> (int \<times> message + nat \<times> message) option" where
  "store_value table hdr v ptr beg sip =
     (if chr_at v beg = NUL then Some (Inl (OSIP_SUCCESS, sip))
      else if ptr - beg + 1 < 2 then Some (Inr (ptr + 1, sip))
      else do {
        (i, sip) \<leftarrow> osip_message_set__header table sip (Some hdr) (Some (osip_clrncpy v beg (ptr - beg)));
        Some (if i \<noteq> 0 then Inl (i, sip) else Inr (ptr + 1, sip)) })"

function split_values ::
  "int list \<Rightarrow> string \<Rightarrow> string \<Rightarrow> nat \<Rightarrow> nat \<Rightarrow> bool \<Rightarrow> bool \<Rightarrow> message \<Rightarrow> (int \<times> message) option" where
  "split_values table hdr v ptr beg inquotes inuri sip =
     (if length v \<le> ptr then do {
        r \<leftarrow> store_value table hdr v ptr beg sip;
        Some (case r of Inl x \<Rightarrow> x | Inr (_, sip) \<Rightarrow> (OSIP_SUCCESS, sip)) }
      else if chr_at v ptr = DQUOTE then
        split_values table hdr v (ptr + 1) beg (if even (backslashes v beg ptr) then \<not> inquotes else inquotes) inuri sip
      else if chr_at v ptr = CHR ''<'' then
        split_values table hdr v (ptr + 1) beg inquotes (if \<not> inquotes \<and> \<not> inuri \<and> uri_starts v ptr then True else inuri) sip
      else if chr_at v ptr = CHR ''>'' then
        split_values table hdr v (ptr + 1) beg inquotes (if \<not> inquotes \<and> inuri then False else inuri) sip
      else if chr_at v ptr = CHR '','' \<and> \<not> inquotes \<and> \<not> inuri then do {
        r \<leftarrow> store_value table hdr v ptr beg sip;
        (case r of
           Inl x \<Rightarrow> Some x
         | Inr (beg, sip) \<Rightarrow> split_values table hdr v (ptr + 1) beg inquotes inuri sip) }
      else split_values table hdr v (ptr + 1) beg inquotes inuri sip)"
  by pat_completeness auto
termination by (relation "measure (\<lambda>(table, hdr, v, ptr, _). length v - ptr)") auto

declare split_values.simps [simp del]

definition osip_message_set_multiple_header ::
  "int list \<Rightarrow> message \<Rightarrow> string \<Rightarrow> string option \<Rightarrow> (int \<times> message) option" where
  "osip_message_set_multiple_header table sip name hv =
     (let hdr = osip_tolower name
      in case hv of
           None \<Rightarrow> osip_message_set__header table sip (Some hdr) hv
         | Some v \<Rightarrow>
             if strchr v 0 (CHR '','') = None \<or> hdr \<in> set unsplit_headers
             then osip_message_set__header table sip (Some hdr) hv
             else split_values table hdr v 0 0 False False sip)"

text \<open>
  \<^verbatim>\<open>msg_headers_parse\<close>: the third result is where the body starts, unless the text ends first.
\<close>

definition header_line_value :: "string \<Rightarrow> nat \<Rightarrow> nat \<Rightarrow> string option" where
  "header_line_value s colon e =
     (let stop = (if chr_at s (e - 2) = CR \<or> chr_at s (e - 2) = LF then e - 2 else e - 1)
      in if int stop - int colon < 2 then None else Some (osip_clrncpy s (colon + 1) (stop - colon - 1)))"

function msg_headers_parse :: "int list \<Rightarrow> message \<Rightarrow> string \<Rightarrow> nat \<Rightarrow> (int \<times> message \<times> nat option) option" where
  "msg_headers_parse table sip s start =
     (if chr_at s start = NUL then Some (OSIP_SUCCESS, sip, None)
      else
        (case osip_find_next_crlf s start of
           (i, eoh) \<Rightarrow>
             if i \<noteq> -2 \<and> i \<noteq> 0 then Some (i, sip, None)
             else if chr_at s start = CR \<or> chr_at s start = LF then Some (OSIP_SUCCESS, sip, Some start)
             else
               (case (strchr s start (CHR '':''), eoh) of
                  (Some colon, Some e) \<Rightarrow>
                    if colon - start + 1 < 2 \<or> e \<le> colon then Some (OSIP_SYNTAXERROR, sip, None)
                    else do {
                      (i, sip) \<leftarrow> osip_message_set_multiple_header table sip (osip_clrncpy s start (colon - start))
                                    (header_line_value s colon e);
                      if i \<noteq> 0 then Some (OSIP_SYNTAXERROR, sip, None)
                      else msg_headers_parse table sip s e }
                | _ \<Rightarrow> Some (OSIP_SYNTAXERROR, sip, None))))"
  by pat_completeness auto
termination
  by (relation "measure (\<lambda>(table, sip, s, start). length s - start)") (force dest!: find_next_crlf_bounds [OF sym])+

declare msg_headers_parse.simps [simp del]

section \<open>The start line\<close>

text \<open>\<^verbatim>\<open>sscanf (s, "%d", &n)\<close>; out of range it saturates like \<^verbatim>\<open>atoi\<close>.\<close>

definition sscanf_d :: "string \<Rightarrow> int option" where
  "sscanf_d s =
     (let t = dropWhile isspace s;
          u = (if t \<noteq> [] \<and> (hd t = CHR ''-'' \<or> hd t = CHR ''+'') then tl t else t)
      in if u \<noteq> [] \<and> isdigit (hd u) then Some (atoi s) else None)"

text \<open>The offset behind the line end at \<open>hp\<close>.\<close>

definition behind_line :: "string \<Rightarrow> nat \<Rightarrow> nat" where
  "behind_line s hp = (if chr_at s hp = CR \<and> chr_at s (hp + 1) = LF then hp + 2 else hp + 1)"

text \<open>The two start line parsers return the offset of the headers; it is 0 after an error.\<close>

definition req_version_end :: "string \<Rightarrow> nat \<Rightarrow> nat option" where
  "req_version_end s p1 =
     (if \<exists>k<7. chr_at s (p1 + 1 + k) = NUL then None
      else if osip_strncasecmp (drop (p1 + 1) s) ''sip/'' 4 \<noteq> 0 then None
      else let hp = skip_chars (\<lambda>c. isdigit c \<or> c = CHR ''.'') s (p1 + 5)
           in if chr_at s hp = CR \<or> chr_at s hp = LF then Some hp else None)"

definition osip_message_startline_parsereq :: "message \<Rightarrow> string \<Rightarrow> int \<times> message \<times> nat" where
  "osip_message_startline_parsereq dest s =
     (let dest = dest\<lparr>sip_method := None, status_code := 0, reason_phrase := None\<rparr>
      in case strchr s 0 (CHR '' '') of
           None \<Rightarrow> (OSIP_SYNTAXERROR, dest, 0)
         | Some p2 \<Rightarrow>
             if chr_at s (p2 + 1) = NUL \<or> chr_at s (p2 + 2) = NUL \<or> p2 = 0 then (OSIP_SYNTAXERROR, dest, 0)
             else
               (case strchr s (p2 + 2) (CHR '' '') of
                  None \<Rightarrow> (OSIP_SYNTAXERROR, dest, 0)
                | Some p1 \<Rightarrow>
                    if p1 - p2 < 2 then (OSIP_SYNTAXERROR, dest, 0)
                    else
                      (case osip_uri_parse osip_uri_init (Some (osip_clrncpy s (p2 + 1) (p1 - p2 - 1))) of
                         (i, u) \<Rightarrow>
                           if i \<noteq> 0 then (OSIP_SYNTAXERROR, dest\<lparr>req_uri := None\<rparr>, 0)
                           else
                             (case req_version_end s p1 of
                                None \<Rightarrow> (OSIP_SYNTAXERROR, dest\<lparr>req_uri := None\<rparr>, 0)
                              | Some hp \<Rightarrow>
                                  (OSIP_SUCCESS,
                                   dest\<lparr>sip_method := Some (osip_strncpy s 0 p2), req_uri := Some u,
                                        sip_version := Some (osip_strncpy s (p1 + 1) (hp - p1 - 1))\<rparr>,
                                   behind_line s hp)))))"

definition osip_message_startline_parseresp :: "message \<Rightarrow> string \<Rightarrow> int \<times> message \<times> nat" where
  "osip_message_startline_parseresp dest s =
     (let dest = dest\<lparr>req_uri := None, sip_method := None\<rparr>
      in case strchr s 0 (CHR '' '') of
           None \<Rightarrow> (OSIP_SYNTAXERROR, dest, 0)
         | Some statuscode \<Rightarrow>
             (case strchr s (statuscode + 1) (CHR '' '') of
                None \<Rightarrow> (OSIP_SYNTAXERROR, dest\<lparr>sip_version := None\<rparr>, 0)
              | Some reasonphrase \<Rightarrow>
                  (let dest = dest\<lparr>sip_version := Some (osip_strncpy s 0 statuscode)\<rparr>
                   in case sscanf_d (drop (statuscode + 1) s) of
                        None \<Rightarrow> (OSIP_SYNTAXERROR, dest, 0)
                      | Some code \<Rightarrow>
                          (let dest = dest\<lparr>status_code := code\<rparr>;
                               hp = skip_chars (\<lambda>c. c \<noteq> CR \<and> c \<noteq> LF) s reasonphrase
                           in if code = 0 then (OSIP_SYNTAXERROR, dest, 0)
                              else if chr_at s hp = NUL then (OSIP_SYNTAXERROR, dest, 0)
                              else (OSIP_SUCCESS,
                                    dest\<lparr>reason_phrase := Some (osip_strncpy s (reasonphrase + 1) (hp - reasonphrase - 1))\<rparr>,
                                    behind_line s hp)))))"

definition osip_message_startline_parse :: "message \<Rightarrow> string \<Rightarrow> int \<times> message \<times> nat" where
  "osip_message_startline_parse dest s =
     (if take 4 s = ''SIP/'' then osip_message_startline_parseresp dest s else osip_message_startline_parsereq dest s)"

section \<open>Continuation lines\<close>

text \<open>
  \<^verbatim>\<open>osip_util_replace_all_lws\<close> on the rest of the buffer.  Behind a continuation the loop steps over one
  more character; when the message ends there, this is the terminating zero, and the code goes on
  reading behind it.
\<close>

function osip_util_replace_all_lws :: "string \<Rightarrow> string option" where
  "osip_util_replace_all_lws tmp =
     (if chr_at tmp 0 = NUL \<or> chr_at tmp 1 = NUL \<or> chr_at tmp 2 = NUL \<or> chr_at tmp 3 = NUL then Some tmp
      else if take 4 tmp = [CR, LF, CR, LF] \<or> take 2 tmp = [CR, CR] \<or> take 2 tmp = [LF, LF] then Some tmp
      else if take 2 tmp = [CR, LF] \<and> is_blank (chr_at tmp 2)
             \<or> (chr_at tmp 0 = CR \<or> chr_at tmp 0 = LF) \<and> is_blank (chr_at tmp 1) then
        (case dropWhile is_blank (drop 2 tmp) of
           [] \<Rightarrow> None
         | c # rest \<Rightarrow> do {
             r \<leftarrow> osip_util_replace_all_lws rest;
             Some (replicate (2 + length (takeWhile is_blank (drop 2 tmp))) (CHR '' '') @ c # r) })
      else do { r \<leftarrow> osip_util_replace_all_lws (drop 1 tmp); Some (take 1 tmp @ r) })"
  by pat_completeness auto
termination
proof (relation "measure length", goal_cases)
  case (2 tmp c rest)
  have "length (dropWhile is_blank (drop 2 tmp)) \<le> length tmp"
    using length_dropWhile_le [of is_blank "drop 2 tmp"] by simp
  with 2 show ?case by simp
next
  case (3 tmp)
  then have "tmp \<noteq> []" by (auto simp: chr_at_def)
  then show ?case by simp
qed simp

declare osip_util_replace_all_lws.simps [simp del]

section \<open>Bodies\<close>

fun strstr :: "string \<Rightarrow> string \<Rightarrow> nat option" where
  "strstr hay needle =
     (if take (length needle) hay = needle then Some 0
      else case hay of [] \<Rightarrow> None | c # cs \<Rightarrow> map_option Suc (strstr cs needle))"

declare strstr.simps [simp del]

text \<open>
  \<^verbatim>\<open>__osip_find_next_occurence\<close> in the buffer \<open>b\<close> from offset \<open>off\<close>: zero bytes in front of the text are
  stepped over, at most a thousand times.
\<close>

fun occurrence_loop :: "nat \<Rightarrow> string \<Rightarrow> string \<Rightarrow> nat \<Rightarrow> int \<times> nat option" where
  "occurrence_loop 0 str b off = (OSIP_SYNTAXERROR, None)"
| "occurrence_loop (Suc k) str b off =
     (case strstr (cstr (drop off b)) str of
        Some j \<Rightarrow> (OSIP_SUCCESS, Some (off + j))
      | None \<Rightarrow>
          (let ptr = off + length (cstr (drop off b))
           in if length b - ptr > 0 then occurrence_loop k str b (ptr + 1) else (OSIP_SYNTAXERROR, None)))"

definition osip_find_next_occurence :: "string \<Rightarrow> string \<Rightarrow> nat \<Rightarrow> int \<times> nat option" where
  "osip_find_next_occurence str b off = occurrence_loop 1000 str b off"

lemma strstr_bounds: "strstr hay needle = Some j \<Longrightarrow> j + length needle \<le> length hay"
proof (induction hay arbitrary: j)
  case Nil
  then show ?case by (simp add: strstr.simps [of "[]"] split: if_splits)
next
  case (Cons c cs)
  show ?case
  proof (cases "take (length needle) (c # cs) = needle")
    case True
    then have "length needle \<le> length (c # cs)" by (metis length_take min.cobounded1)
    with True Cons.prems show ?thesis by (simp add: strstr.simps [of "c # cs"])
  next
    case False
    with Cons show ?thesis by (fastforce simp: strstr.simps [of "c # cs"])
  qed
qed

lemma occurrence_bounds:
  "str \<noteq> [] \<Longrightarrow> occurrence_loop k str b off = (i, Some j) \<Longrightarrow> off \<le> j \<and> j + length str \<le> length b"
proof (induction k arbitrary: off)
  case (Suc k)
  show ?case
  proof (cases "strstr (cstr (drop off b)) str")
    case None
    with Suc.prems Suc.IH [of "off + length (cstr (drop off b)) + 1"] show ?thesis
      by (simp add: Let_def split: if_splits)
  next
    case (Some x)
    have "length (cstr (drop off b)) \<le> length b - off"
      using length_takeWhile_le [of _ "drop off b"] by (simp add: cstr_def)
    moreover have "0 < length str" using Suc.prems(1) by simp
    ultimately have "off + x + length str \<le> length b" using strstr_bounds [OF Some] by linarith
    with Some Suc.prems(2) show ?thesis by simp
  qed
qed simp

text \<open>\<^verbatim>\<open>sprintf (s, "%i", n)\<close>\<close>

fun nat_digits :: "nat \<Rightarrow> string" where
  "nat_digits n = (if n < 10 then [char_of (48 + n)] else nat_digits (n div 10) @ [char_of (48 + n mod 10)])"

declare nat_digits.simps [simp del]

definition sprintf_i :: "int \<Rightarrow> string" where
  "sprintf_i n = (if n < 0 then CHR ''-'' # nat_digits (nat (- n)) else nat_digits (nat n))"

text \<open>
  The body of a message that is not multipart, from offset \<open>pos\<close> of the buffer: the line end is skipped, and
  \<^verbatim>\<open>Content-Length\<close> bytes are taken, or all of them.
\<close>

definition body_start :: "string \<Rightarrow> nat \<Rightarrow> nat option" where
  "body_start b pos =
     (if chr_at b pos = CR then Some (if chr_at b (pos + 1) = LF then pos + 2 else pos + 1)
      else if chr_at b pos = LF then Some (pos + 1) else None)"

definition plain_body_parse :: "message \<Rightarrow> string \<Rightarrow> nat \<Rightarrow> (int \<times> message) option" where
  "plain_body_parse sip b pos =
     (case body_start b pos of
        None \<Rightarrow> Some (OSIP_SYNTAXERROR, sip)
      | Some start \<Rightarrow>
          (let len = length b - start
           in if len \<le> 0 then Some (OSIP_SYNTAXERROR, sip)
              else do {
                (i, osip_body_len, sip) \<leftarrow>
                  (case msg_content_length sip of
                     Some cl \<Rightarrow> do { v \<leftarrow> cl_value cl; Some (OSIP_SUCCESS, osip_atoi v, sip) }
                   | None \<Rightarrow>
                       (case osip_message_set_content_length sip (Some (sprintf_i (int len))) of
                          (i, sip) \<Rightarrow> Some (i, int len, sip)));
                if i \<noteq> 0 then Some (i, sip)
                else if osip_body_len < 0 \<or> int len < osip_body_len then Some (OSIP_SYNTAXERROR, sip)
                else osip_message_set_body sip (Some (take (nat osip_body_len) (drop start b))) (nat osip_body_len) }))"

text \<open>
  One part of a multipart body between two boundaries: its start and length, \<open>Inl\<close> the code
  of an allocation that no address space can satisfy.  A negative length that is not refused there is a
  \<^verbatim>\<open>memcpy\<close> of almost the whole address space.
\<close>

definition body_part :: "string \<Rightarrow> nat \<Rightarrow> nat \<Rightarrow> nat \<Rightarrow> (int + string) option" where
  "body_part b len_sep start_of_body end_of_body =
     (let start = start_of_body + len_sep + 1;
          start = (if chr_at b start = LF \<or> chr_at b start = CR then start + 1 else start);
          body_len = int end_of_body - int start;
          body_len = (if chr_at b (end_of_body - 1) = CR then body_len - 1 else body_len)
      in if body_len + 2 < 0 then Some (Inl OSIP_NOMEM)
         else if body_len < 0 then None
         else Some (Inr (take (nat body_len) (drop start b))))"

definition separator :: "string \<Rightarrow> string" where
  "separator gv =
     [LF, CHR ''-'', CHR ''-''] @
     (if chr_at gv 0 = DQUOTE \<and> chr_at gv (length gv - 1) = DQUOTE then take (length gv - 2) (drop 1 gv) else gv)"

lemma separator_occurrence:
  assumes "osip_find_next_occurence (separator gv) b off = (i, Some j)"
  shows "off \<le> j \<and> j < length b \<and> off + length (separator gv) > off"
proof -
  have "separator gv \<noteq> []" by (simp add: separator_def)
  from occurrence_bounds [OF this assms [unfolded osip_find_next_occurence_def]] this
  show ?thesis by (cases "separator gv") simp_all
qed

function multipart_loop :: "message \<Rightarrow> string \<Rightarrow> string \<Rightarrow> nat \<Rightarrow> (int \<times> message) option" where
  "multipart_loop sip gv b pos =
     (case osip_find_next_occurence (separator gv) b pos of
        (i, None) \<Rightarrow> Some (i, sip)
      | (i, Some start_of_body) \<Rightarrow>
          (case osip_find_next_occurence (separator gv) b (start_of_body + length (separator gv)) of
             (i, None) \<Rightarrow> Some (i, sip)
           | (i, Some end_of_body) \<Rightarrow> do {
               part \<leftarrow> body_part b (length (separator gv)) start_of_body end_of_body;
               (case part of
                  Inl e \<Rightarrow> Some (e, sip)
                | Inr tmp \<Rightarrow> do {
                    (i, sip) \<leftarrow> osip_message_set_body_mime sip (Some tmp) (length tmp);
                    if i \<noteq> 0 then Some (i, sip)
                    else if take 2 (drop (end_of_body + length (separator gv)) b) = ''--'' then Some (OSIP_SUCCESS, sip)
                    else multipart_loop sip gv b end_of_body }) }))"
  by pat_completeness auto
termination
proof (relation "measure (\<lambda>(sip, gv, b, pos). length b - pos)", goal_cases)
  case (2 sip gv b pos x y start xa ya stop)
  have "osip_find_next_occurence (separator gv) b pos = (x, Some start)"
    "osip_find_next_occurence (separator gv) b (start + length (separator gv)) = (xa, Some stop)"
    using 2 by simp_all
  from this [THEN separator_occurrence] show ?case by (cases "separator gv") auto
qed simp

declare multipart_loop.simps [simp del]

definition msg_osip_body_parse :: "message \<Rightarrow> string \<Rightarrow> nat \<Rightarrow> (int \<times> message) option" where
  "msg_osip_body_parse sip b pos =
     (case msg_content_type sip of
        None \<Rightarrow> Some (OSIP_SUCCESS, sip)
      | Some ct \<Rightarrow>
          (case (ct_type ct, ct_subtype ct) of
             (Some ty, Some _) \<Rightarrow>
               if osip_strcasecmp ty ''multipart'' \<noteq> 0 then plain_body_parse sip b pos
               else do {
                 (i, ct_param) \<leftarrow> osip_uri_param_get_byname (ct_gen_params ct) (Some ''boundary'');
                 if i \<noteq> 0 then Some (i, sip)
                 else (case param_value ct_param of
                         None \<Rightarrow> Some (OSIP_SYNTAXERROR, sip)
                       | Some gv \<Rightarrow> multipart_loop sip gv b pos) }
           | _ \<Rightarrow> Some (OSIP_SUCCESS, sip)))"

section \<open>The message\<close>

definition has_body :: "message \<Rightarrow> string \<Rightarrow> nat \<Rightarrow> bool" where
  "has_body sip b pos =
     (case msg_content_length sip of
        Some cl \<Rightarrow> (case cl_value cl of Some v \<Rightarrow> atoi v > 0 | None \<Rightarrow> False)
      | None \<Rightarrow> chr_at b pos = CR \<and> chr_at b (pos + 1) = LF \<and> length b - pos - 2 > 0
                \<or> chr_at b pos = LF \<and> length b - pos - 1 > 0)"

definition default_content_length :: "message \<Rightarrow> message" where
  "default_content_length sip =
     (if msg_content_length sip = None then snd (osip_message_set_content_length sip (Some ''0'')) else sip)"

text \<open>
  \<^verbatim>\<open>_osip_message_parse\<close>.  When the text ends inside the headers, the parser goes on as if the body started
  where the headers do.
\<close>

definition message_parse :: "int list \<Rightarrow> message \<Rightarrow> string \<Rightarrow> bool \<Rightarrow> (int \<times> message) option" where
  "message_parse table sip buf sipfrag = do {
     b \<leftarrow> osip_util_replace_all_lws (dropWhile (\<lambda>c. c = CR \<or> c = LF) buf);
     let (i, sip, hdrs) = osip_message_startline_parse sip (cstr b);
     if i \<noteq> 0 \<and> \<not> sipfrag then Some (i, sip)
     else do {
       (i, sip, body) \<leftarrow> msg_headers_parse table sip (cstr b) hdrs;
       if i \<noteq> 0 then Some (i, sip)
       else do {
         let pos = (case body of Some p \<Rightarrow> p | None \<Rightarrow> hdrs);
         let sip = (case msg_content_length sip of
                      Some cl \<Rightarrow> if cl_value cl = None then sip\<lparr>msg_content_length := None\<rparr> else sip
                    | None \<Rightarrow> sip);
         if \<not> has_body sip b pos then Some (OSIP_SUCCESS, default_content_length sip)
         else do {
           (i, sip) \<leftarrow> msg_osip_body_parse sip b pos;
           Some (if i \<noteq> 0 then (i, sip) else (OSIP_SUCCESS, default_content_length sip)) } } } }"

definition osip_message_parse :: "int list \<Rightarrow> message \<Rightarrow> string \<Rightarrow> (int \<times> message) option" where
  "osip_message_parse table sip buf = message_parse table sip buf False"

definition osip_message_parse_sipfrag :: "int list \<Rightarrow> message \<Rightarrow> string \<Rightarrow> (int \<times> message) option" where
  "osip_message_parse_sipfrag table sip buf = message_parse table sip buf True"

text \<open>\<^verbatim>\<open>osip_parse\<close> of \<^verbatim>\<open>osip_event.c\<close>: the event of an incoming message, or \<^verbatim>\<open>NULL\<close>.\<close>

definition osip_parse :: "int list \<Rightarrow> string \<Rightarrow> osip_event option option" where
  "osip_parse table buf = do {
     (i, sip) \<leftarrow> osip_message_parse table osip_message_init buf;
     if i \<noteq> 0 then Some None
     else if MSG_IS_REQUEST sip \<and> (sip_method sip = None \<or> req_uri sip = None) then Some None
     else do {
       ty \<leftarrow> evt_set_type_incoming_sipmessage sip;
       Some (Some \<lparr>evt_type = ty, evt_transactionid = 0, evt_sip = Some sip\<rparr>) } }"

section \<open>Repair of the top Via\<close>

text \<open>The assignment to the value of the first parameter of a name, through the pointer that the search returns.\<close>

fun set_byname :: "uri_param list \<Rightarrow> string \<Rightarrow> string \<Rightarrow> uri_param list" where
  "set_byname [] pname v = []"
| "set_byname (p # ps) pname v =
     (case gname p of
        Some n \<Rightarrow>
          if length pname = length n \<and> osip_strncasecmp n pname (length pname) = 0 then p\<lparr>gvalue := Some v\<rparr> # ps
          else p # set_byname ps pname v
      | None \<Rightarrow> p # set_byname ps pname v)"

text \<open>\<^verbatim>\<open>_snprintf (s, 8, "%i", n)\<close>: eight characters are written without a zero behind them.\<close>

definition snprintf_8 :: "int \<Rightarrow> string option" where
  "snprintf_8 n = (if length (sprintf_i n) < 8 then Some (sprintf_i n) else None)"

definition osip_message_fix_last_via_header :: "message option \<Rightarrow> string option \<Rightarrow> int \<Rightarrow> (int \<times> message option) option" where
  "osip_message_fix_last_via_header request ip_addr portnum =
     (case request of
        None \<Rightarrow> Some (OSIP_BADPARAMETER, None)
      | Some m \<Rightarrow>
          if MSG_IS_RESPONSE m then Some (OSIP_SUCCESS, Some m)
          else (case vias m of
            [] \<Rightarrow> Some (OSIP_BADPARAMETER, Some m)
          | v # vs \<Rightarrow>
              (case via_host v of
                 None \<Rightarrow> Some (OSIP_BADPARAMETER, Some m)
               | Some h \<Rightarrow> do {
                   (_, rport) \<leftarrow> osip_uri_param_get_byname (via_params v) (Some ''rport'');
                   ps \<leftarrow> (case rport of
                     Some p \<Rightarrow>
                       (if gvalue p = None then do { t \<leftarrow> snprintf_8 portnum; Some (set_byname (via_params v) ''rport'' t) }
                        else Some (via_params v))
                   | None \<Rightarrow> Some (via_params v));
                   ip \<leftarrow> ip_addr;
                   let ps = (if h = ip then ps else snd (osip_uri_param_add ps (Some ''received'') (Some ip)));
                   Some (OSIP_SUCCESS, Some (m\<lparr>vias := v\<lparr>via_params := ps\<rparr> # vs\<rparr>)) })))"

section \<open>Reason phrases\<close>

definition reasons1xx :: "(int \<times> string) list" where
  "reasons1xx =
   [(100, ''Trying''), (180, ''Ringing''), (181, ''Call Is Being Forwarded''), (182, ''Queued''),
    (183, ''Session Progress'')]"

definition reasons2xx :: "(int \<times> string) list" where
  "reasons2xx =
   [(200, ''OK''), (202, ''Accepted'')]"

definition reasons3xx :: "(int \<times> string) list" where
  "reasons3xx =
   [(300, ''Multiple Choices''), (301, ''Moved Permanently''), (302, ''Moved Temporarily''),
    (305, ''Use Proxy''), (380, ''Alternative Service'')]"

definition reasons4xx :: "(int \<times> string) list" where
  "reasons4xx =
   [(400, ''Bad Request''), (401, ''Unauthorized''), (402, ''Payment Required''), (403, ''Forbidden''),
    (404, ''Not Found''), (405, ''Method Not Allowed''), (406, ''Not Acceptable''),
    (407, ''Proxy Authentication Required''), (408, ''Request Timeout''), (409, ''Conflict''),
    (410, ''Gone''), (411, ''Length Required''), (412, ''Conditional Request Failed''),
    (413, ''Request Entity Too Large''), (414, ''Request-URI Too Long''), (415, ''Unsupported Media Type''),
    (416, ''Unsupported URI Scheme''), (417, ''Unknown Resource-Priority''), (420, ''Bad Extension''),
    (421, ''Extension Required''), (422, ''Session Interval Too Small''), (423, ''Interval Too Brief''),
    (469, ''Bad Info Package''), (480, ''Temporarily Unavailable''),
    (481, ''Call/Transaction Does Not Exist''), (482, ''Loop Detected''), (483, ''Too Many Hops''),
    (484, ''Address Incomplete''), (485, ''Ambiguous''), (486, ''Busy Here''),
    (487, ''Request Terminated''), (488, ''Not Acceptable Here''), (489, ''Bad Event''),
    (491, ''Request Pending''), (493, ''Undecipherable'')]"

definition reasons5xx :: "(int \<times> string) list" where
  "reasons5xx =
   [(500, ''Server Internal Error''), (501, ''Not Implemented''), (502, ''Bad Gateway''),
    (503, ''Service Unavailable''), (504, ''Server Time-out''), (505, ''Version Not Supported''),
    (513, ''Message Too Large'')]"

definition reasons6xx :: "(int \<times> string) list" where
  "reasons6xx =
   [(600, ''Busy Everywhere''), (603, ''Decline''), (604, ''Does Not Exist Anywhere''),
    (606, ''Not Acceptable''), (687, ''Dialog Terminated'')]"

definition osip_message_get_reason :: "int \<Rightarrow> string option" where
  "osip_message_get_reason replycode =
     (let k = replycode div 100;
          reasons = (if k = 1 then reasons1xx else if k = 2 then reasons2xx else if k = 3 then reasons3xx
                     else if k = 4 then reasons4xx else if k = 5 then reasons5xx else if k = 6 then reasons6xx else [])
      in map_of reasons replycode)"

end
