(* ===== verification/Osip_To_Str.thy ===== *)
theory Osip_To_Str
  imports Osip_Parse
begin

text \<open>
  Printing of a SIP message, \<^verbatim>\<open>osip/src/osipparser2/osip_message_to_str.c\<close>: the start line, the table of
  headers, the generic headers, \<^verbatim>\<open>Content-Length\<close> and the bodies with their boundaries.

  The text grows in a buffer of \<open>cap\<close> bytes, so the state of the printer is a pair of \<open>cap\<close> and
  of what is written; a write behind the buffer is the outer \<open>None\<close>.  A printed header is what its own
  printer returns, \<open>printed\<close>: these calls do not touch the message, and the code makes them in the order in
  which the table is read here.
\<close>

section \<open>The start line\<close>

definition osip_protocol_version :: string where
  "osip_protocol_version = ''SIP/2.0''"

definition message_startline_to_strreq :: "message \<Rightarrow> (int \<times> string option) option" where
  "message_startline_to_strreq sip =
     (case (req_uri sip, sip_method sip) of
        (Some u, Some meth) \<Rightarrow> do {
          (i, r) \<leftarrow> osip_uri_to_str (Some u);
          if i \<noteq> 0 then Some (i, None)
          else do {
            rquri \<leftarrow> r;
            let version = (case sip_version sip of None \<Rightarrow> osip_protocol_version | Some v \<Rightarrow> v);
            let len = length meth + length rquri + length version + 3;
            tmp \<leftarrow> osip_str_append len [] meth;
            tmp \<leftarrow> osip_str_append len tmp '' '';
            tmp \<leftarrow> osip_str_append len tmp rquri;
            tmp \<leftarrow> osip_str_append len tmp '' '';
            tmp \<leftarrow> osip_str_append len tmp version;
            Some (OSIP_SUCCESS, Some tmp) } }
      | _ \<Rightarrow> Some (OSIP_BADPARAMETER, None))"

definition message_startline_to_strresp :: "message \<Rightarrow> (int \<times> string option) option" where
  "message_startline_to_strresp sip =
     (case reason_phrase sip of
        None \<Rightarrow> Some (OSIP_BADPARAMETER, None)
      | Some reason \<Rightarrow>
          if status_code sip < 100 \<or> status_code sip > 699 then Some (OSIP_BADPARAMETER, None)
          else do {
            let version = (case sip_version sip of None \<Rightarrow> osip_protocol_version | Some v \<Rightarrow> v);
            status \<leftarrow> sprintf_end 5 [] (sprintf_i (status_code sip));
            let len = length version + 3 + length reason + 4;
            tmp \<leftarrow> osip_str_append len [] version;
            tmp \<leftarrow> osip_str_append len tmp '' '';
            tmp \<leftarrow> osip_strn_append len tmp status 3;
            tmp \<leftarrow> osip_str_append len tmp '' '';
            tmp \<leftarrow> osip_str_append len tmp reason;
            Some (OSIP_SUCCESS, Some tmp) })"

definition message_startline_to_str :: "message \<Rightarrow> (int \<times> string option) option" where
  "message_startline_to_str sip =
     (if sip_method sip \<noteq> None then message_startline_to_strreq sip
      else if status_code sip \<noteq> 0 then message_startline_to_strresp sip
      else Some (OSIP_BADPARAMETER, None))"

section \<open>Access\<close>

definition osip_message_get_reason_phrase :: "message \<Rightarrow> string option" where
  "osip_message_get_reason_phrase sip = reason_phrase sip"

definition osip_message_get_status_code :: "message \<Rightarrow> int" where
  "osip_message_get_status_code sip = status_code sip"

definition osip_message_get_method :: "message \<Rightarrow> string option" where
  "osip_message_get_method sip = sip_method sip"

definition osip_message_get_version :: "message \<Rightarrow> string option" where
  "osip_message_get_version sip = sip_version sip"

definition osip_message_get_uri :: "message \<Rightarrow> uri option" where
  "osip_message_get_uri sip = req_uri sip"

definition osip_message_get__property :: "message option \<Rightarrow> int" where
  "osip_message_get__property sip = (case sip of None \<Rightarrow> OSIP_BADPARAMETER | Some m \<Rightarrow> message_property m)"

definition osip_message_force_update :: "message option \<Rightarrow> int \<times> message option" where
  "osip_message_force_update sip =
     (case sip of
        None \<Rightarrow> (OSIP_BADPARAMETER, None)
      | Some m \<Rightarrow> (OSIP_SUCCESS, Some (m\<lparr>message_property := 2\<rparr>)))"

section \<open>The buffer\<close>

definition SIP_MESSAGE_MAX_LENGTH :: nat where "SIP_MESSAGE_MAX_LENGTH = 8000"
definition MIME_MAX_BOUNDARY_LEN :: nat where "MIME_MAX_BOUNDARY_LEN = 70"

text \<open>\<^verbatim>\<open>if (cap < written + needed) cap = written + needed\<close>, with the reallocation\<close>

definition room :: "nat \<Rightarrow> string \<Rightarrow> nat \<Rightarrow> nat" where
  "room cap buf needed = (if cap < length buf + needed then length buf + needed else cap)"

definition osip_message_realloc :: "nat \<Rightarrow> string \<Rightarrow> nat \<Rightarrow> nat" where
  "osip_message_realloc cap buf needed = room cap buf (needed + 100)"

type_synonym printed = "(int \<times> string option) option"

text \<open>Name, text and line end of one header; a header that is not printed leaves its name behind.\<close>

definition strcat_header :: "nat \<Rightarrow> string \<Rightarrow> string \<Rightarrow> printed \<Rightarrow> (int \<times> nat \<times> string) option" where
  "strcat_header cap buf name header = do {
     let cap = room cap buf (100 + length name);
     buf \<leftarrow> osip_strn_append cap buf name (length name);
     (i, t) \<leftarrow> header;
     if i \<noteq> 0 then Some (i, cap, buf)
     else do {
       tmp \<leftarrow> t;
       let cap = room cap buf (length tmp + 100);
       buf \<leftarrow> osip_str_append cap buf tmp;
       buf \<leftarrow> osip_strn_append cap buf CRLF 2;
       Some (OSIP_SUCCESS, cap, buf) } }"

definition strcat_simple_header :: "nat \<Rightarrow> string \<Rightarrow> string \<Rightarrow> printed option \<Rightarrow> (int \<times> nat \<times> string) option" where
  "strcat_simple_header cap buf name header =
     (case header of None \<Rightarrow> Some (OSIP_SUCCESS, cap, buf) | Some h \<Rightarrow> strcat_header cap buf name h)"

fun strcat_headers_one_per_line ::
  "nat \<Rightarrow> string \<Rightarrow> string \<Rightarrow> printed list \<Rightarrow> (int \<times> nat \<times> string) option" where
  "strcat_headers_one_per_line cap buf name [] = Some (OSIP_SUCCESS, cap, buf)"
| "strcat_headers_one_per_line cap buf name (h # hs) = do {
     (i, cap, buf) \<leftarrow> strcat_header cap buf name h;
     if i \<noteq> 0 then Some (i, cap, buf) else strcat_headers_one_per_line cap buf name hs }"

section \<open>The table of headers\<close>

record to_str_entry =
  header_name :: string
  header_list :: "printed list"
  header_data :: "printed option"

definition list_entry :: "string \<Rightarrow> ('a option \<Rightarrow> printed) \<Rightarrow> 'a list \<Rightarrow> to_str_entry" where
  "list_entry name to_str hs = \<lparr>header_name = name, header_list = map (\<lambda>h. to_str (Some h)) hs, header_data = None\<rparr>"

definition data_entry :: "string \<Rightarrow> ('a option \<Rightarrow> printed) \<Rightarrow> 'a option \<Rightarrow> to_str_entry" where
  "data_entry name to_str h = \<lparr>header_name = name, header_list = [], header_data = map_option (\<lambda>x. to_str (Some x)) h\<rparr>"

text \<open>A printer that cannot fault\<close>

definition total :: "('a \<Rightarrow> int \<times> string option) \<Rightarrow> 'a \<Rightarrow> printed" where
  "total f x = Some (f x)"

definition to_str_table :: "message \<Rightarrow> to_str_entry list" where
  "to_str_table sip =
    [list_entry ''Via: '' osip_via_to_str (vias sip),
     list_entry ''Record-Route: '' osip_record_route_to_str (record_routes sip),
     list_entry ''Route: '' osip_route_to_str (routes sip),
     data_entry ''From: '' osip_from_to_str (msg_from sip),
     data_entry ''To: '' osip_to_to_str (msg_to sip),
     data_entry ''Call-ID: '' osip_call_id_to_str (msg_call_id sip),
     data_entry ''CSeq: '' (total osip_cseq_to_str) (msg_cseq sip),
     list_entry ''Contact: '' osip_contact_to_str (contacts sip),
     list_entry ''Authorization: '' osip_authorization_to_str (authorizations sip),
     list_entry ''WWW-Authenticate: '' osip_www_authenticate_to_str (www_authenticates sip),
     list_entry ''Proxy-Authenticate: '' osip_www_authenticate_to_str (proxy_authenticates sip),
     list_entry ''Proxy-Authorization: '' osip_authorization_to_str (proxy_authorizations sip),
     list_entry ''Call-Info: '' osip_call_info_to_str (call_infos sip),
     data_entry ''Content-Type: '' osip_content_type_to_str (msg_content_type sip),
     data_entry ''Mime-Version: '' (total osip_content_length_to_str) (mime_version sip),
     list_entry ''Allow: '' (total osip_content_length_to_str) (allows sip),
     list_entry ''Content-Encoding: '' (total osip_content_length_to_str) (content_encodings sip),
     list_entry ''Alert-Info: '' osip_call_info_to_str (alert_infos sip),
     list_entry ''Error-Info: '' osip_call_info_to_str (error_infos sip),
     list_entry ''Accept: '' osip_accept_to_str (accepts sip),
     list_entry ''Accept-Encoding: '' osip_accept_encoding_to_str (accept_encodings sip),
     list_entry ''Accept-Language: '' osip_accept_encoding_to_str (accept_languages sip),
     list_entry ''Authentication-Info: '' osip_authentication_info_to_str (authentication_infos sip),
     list_entry ''Proxy-Authentication-Info: '' osip_authentication_info_to_str (proxy_authentication_infos sip)]"

text \<open>
  The loop over the table.  \<^verbatim>\<open>table[13].header_list\<close> is the one of \<^verbatim>\<open>Content-Type\<close> and always
  \<^verbatim>\<open>NULL\<close>, so both functions run for every entry, and the code of the first is overwritten by the second.
\<close>

fun strcat_table :: "nat \<Rightarrow> string \<Rightarrow> to_str_entry list \<Rightarrow> (int \<times> nat \<times> string) option" where
  "strcat_table cap buf [] = Some (OSIP_SUCCESS, cap, buf)"
| "strcat_table cap buf (e # es) = do {
     (_, cap, buf) \<leftarrow> strcat_simple_header cap buf (header_name e) (header_data e);
     (i, cap, buf) \<leftarrow> strcat_headers_one_per_line cap buf (header_name e) (header_list e);
     if i \<noteq> 0 then Some (i, cap, buf) else strcat_table cap buf es }"

fun strcat_generic :: "nat \<Rightarrow> string \<Rightarrow> header list \<Rightarrow> (int \<times> nat \<times> string) option" where
  "strcat_generic cap buf [] = Some (OSIP_SUCCESS, cap, buf)"
| "strcat_generic cap buf (h # hs) =
     (case osip_header_to_str (Some h) of
        (i, t) \<Rightarrow>
          if i \<noteq> 0 then Some (i, cap, buf)
          else do {
            tmp \<leftarrow> t;
            let cap = osip_message_realloc cap buf (length tmp + 3);
            buf \<leftarrow> osip_str_append cap buf tmp;
            buf \<leftarrow> osip_strn_append cap buf CRLF 2;
            strcat_generic cap buf hs })"

section \<open>The bodies\<close>

text \<open>
  The boundary between the parts with the line end and the dashes in front of it, \<open>Inl\<close> the code when it is too
  long.  A boundary that is a lone quote is copied with a length of \<open>-1\<close>.
\<close>

definition find_boundary :: "message \<Rightarrow> (int + string option) option" where
  "find_boundary sip =
     (case msg_content_type sip of
        None \<Rightarrow> Some (Inr None)
      | Some ct \<Rightarrow>
          if mime_version sip = None then Some (Inr None)
          else (case ct_type ct of
            None \<Rightarrow> Some (Inr None)
          | Some ty \<Rightarrow>
              if osip_strcasecmp ty ''multipart'' \<noteq> 0 then Some (Inr None)
              else do {
                (i, ct_param) \<leftarrow> osip_uri_param_get_byname (ct_gen_params ct) (Some ''boundary'');
                (case (if i \<ge> 0 then Option.bind ct_param gvalue else None) of
                   None \<Rightarrow> Some (Inr None)
                 | Some gv \<Rightarrow>
                     let len = length gv in
                     if len > MIME_MAX_BOUNDARY_LEN then Some (Inl OSIP_SYNTAXERROR)
                     else if chr_at gv 0 = DQUOTE \<and> chr_at gv (len - 1) = DQUOTE then
                       (if len < 2 then None else Some (Inr (Some (CRLF @ ''--'' @ osip_strncpy gv 1 (len - 2)))))
                     else Some (Inr (Some (CRLF @ ''--'' @ gv)))) }))"

fun strcat_bodies :: "string option \<Rightarrow> nat \<Rightarrow> string \<Rightarrow> body list \<Rightarrow> (int \<times> nat \<times> string) option" where
  "strcat_bodies boundary cap buf [] = Some (OSIP_SUCCESS, cap, buf)"
| "strcat_bodies boundary cap buf (b # bs) = do {
     buf \<leftarrow> (case boundary of
        None \<Rightarrow> Some buf
      | Some bd \<Rightarrow> do { buf \<leftarrow> osip_str_append cap buf bd; osip_strn_append cap buf CRLF 2 });
     (i, t) \<leftarrow> osip_body_to_str (Some b);
     if i \<noteq> 0 then Some (i, cap, buf)
     else do {
       tmp \<leftarrow> t;
       let cap = room cap buf (100 + length tmp);
       buf \<leftarrow> osip_str_append cap buf tmp;
       strcat_bodies boundary cap buf bs } }"

text \<open>\<^verbatim>\<open>snprintf (tmp2, 15, "%i", (int) size)\<close>, copied so that it ends where the five blanks did\<close>

definition patch_length :: "string \<Rightarrow> nat \<Rightarrow> nat \<Rightarrow> string" where
  "patch_length buf at n =
     (let tmp2 = sprintf_i (sint (word_of_nat n :: 32 word))
      in take (at + 5 - length tmp2) buf @ tmp2 @ drop (at + 5) buf)"

section \<open>The message\<close>

text \<open>
  \<^verbatim>\<open>_osip_message_to_str\<close>: the code, the text and its length, and the message, which keeps a copy of the text.
\<close>

type_synonym to_str_result = "(int \<times> (string \<times> nat) option \<times> message) option"

definition keep_text :: "message \<Rightarrow> string \<Rightarrow> to_str_result" where
  "keep_text sip buf = Some (OSIP_SUCCESS, Some (buf, length buf),
     sip\<lparr>message_property := 1, msg_buffer := Some buf, message_length := length buf\<rparr>)"

definition print_bodies :: "message \<Rightarrow> nat \<Rightarrow> string \<Rightarrow> nat \<Rightarrow> to_str_result" where
  "print_bodies sip cap buf at = do {
     let start_of_bodies = length buf;
     bd \<leftarrow> find_boundary sip;
     (case bd of
        Inl e \<Rightarrow> Some (e, None, sip)
      | Inr boundary \<Rightarrow> do {
          (i, cap, buf) \<leftarrow> strcat_bodies boundary cap buf (bodies sip);
          if i \<noteq> 0 then Some (i, None, sip)
          else do {
            buf \<leftarrow> (case boundary of
               None \<Rightarrow> Some buf
             | Some bd \<Rightarrow> do {
                 buf \<leftarrow> osip_str_append cap buf bd;
                 buf \<leftarrow> osip_strn_append cap buf ''--'' 2;
                 osip_strn_append cap buf CRLF 2 });
            keep_text sip (patch_length buf at (length buf - start_of_bodies)) } }) }"

definition print_content :: "message \<Rightarrow> bool \<Rightarrow> nat \<Rightarrow> string \<Rightarrow> to_str_result" where
  "print_content sip sipfrag cap buf = do {
     let cap = osip_message_realloc cap buf 16;
     if sipfrag \<and> bodies sip = [] then do {
       buf \<leftarrow> osip_strn_append cap buf CRLF 2;
       keep_text sip buf }
     else do {
       buf \<leftarrow> osip_strn_append cap buf ''Content-Length: '' 16;
       let at = length buf;
       buf \<leftarrow> (if bodies sip = [] then osip_strn_append cap buf ''0'' 1 else osip_str_append cap buf ''     '');
       buf \<leftarrow> osip_strn_append cap buf CRLF 2;
       buf \<leftarrow> osip_strn_append cap buf CRLF 2;
       if bodies sip = [] then keep_text sip buf else print_bodies sip cap buf at } }"

definition message_to_str :: "message option \<Rightarrow> bool \<Rightarrow> (int \<times> (string \<times> nat) option \<times> message option) option" where
  "message_to_str sipp sipfrag =
     (case sipp of
        None \<Rightarrow> Some (OSIP_BADPARAMETER, None, None)
      | Some sip \<Rightarrow>
          if osip_message_get__property sipp = 1 then
            (case msg_buffer sip of
               None \<Rightarrow> None
             | Some t \<Rightarrow>
                 if length t < message_length sip then None
                 else Some (OSIP_SUCCESS, Some (take (message_length sip) t, message_length sip), Some sip))
          else do {
            let sip = sip\<lparr>msg_buffer := None\<rparr>;
            (i, line) \<leftarrow> message_startline_to_str sip;
            if i \<noteq> 0 \<and> \<not> sipfrag then Some (i, None, Some sip)
            else do {
              buf \<leftarrow> (if i \<noteq> 0 then Some []
                      else do {
                        tmp \<leftarrow> line;
                        buf \<leftarrow> osip_str_append SIP_MESSAGE_MAX_LENGTH [] tmp;
                        osip_strn_append SIP_MESSAGE_MAX_LENGTH buf CRLF 2 });
              (i, cap, buf) \<leftarrow> strcat_table SIP_MESSAGE_MAX_LENGTH buf (to_str_table sip);
              if i \<noteq> 0 then Some (i, None, Some sip)
              else do {
                (i, cap, buf) \<leftarrow> strcat_generic cap buf (headers sip);
                if i \<noteq> 0 then Some (i, None, Some sip)
                else do {
                  (i, text, sip) \<leftarrow> print_content sip sipfrag cap buf;
                  Some (i, text, Some sip) } } } })"

definition osip_message_to_str :: "message option \<Rightarrow> (int \<times> (string \<times> nat) option \<times> message option) option" where
  "osip_message_to_str sip = message_to_str sip False"

definition osip_message_to_str_sipfrag :: "message option \<Rightarrow> (int \<times> (string \<times> nat) option \<times> message option) option" where
  "osip_message_to_str_sipfrag sip = message_to_str sip True"

end
