(* ===== verification/Osip_Body_Proofs.thy ===== *)
theory Osip_Body_Proofs
  imports Osip_Body Osip_Headers_Proofs
begin

text \<open>
  What the copy of a message is (\<^verbatim>\<open>osip_message_clone\<close>), and the buffer of \<^verbatim>\<open>osip_body_to_str\<close>.
\<close>

section \<open>Copies of the parts\<close>

text \<open>Two headers lose their unknown parameters when they are cloned.\<close>

definition authorization_cut :: "authorization \<Rightarrow> authorization" where
  "authorization_cut a = a\<lparr>au_auth_param := None\<rparr>"

definition www_authenticate_cut :: "www_authenticate \<Rightarrow> www_authenticate" where
  "www_authenticate_cut w = w\<lparr>wa_auth_param := None\<rparr>"

definition body_ok :: "body \<Rightarrow> bool" where
  "body_ok b \<longleftrightarrow> 0 < body_length b
     \<and> (case body_buffer b of None \<Rightarrow> False | Some s \<Rightarrow> length s = body_length b)
     \<and> (case body_headers b of None \<Rightarrow> False | Some hs \<Rightarrow> (\<forall>h\<in>set hs. hname h \<noteq> None))
     \<and> (case body_content_type b of None \<Rightarrow> True | Some c \<Rightarrow> named (ct_gen_params c))"

lemma clone_content_type: "named (ct_gen_params c) \<Longrightarrow> osip_content_type_clone (Some c) = (OSIP_SUCCESS, Some c)"
  by (cases c) (simp add: osip_content_type_clone_def osip_content_type_init_def param_list_clone_named)

lemma clone_accept_encoding:
  "ae_element c \<noteq> None \<and> named (ae_gen_params c) \<Longrightarrow> osip_accept_encoding_clone (Some c) = (OSIP_SUCCESS, Some c)"
  by (cases c) (simp add: osip_accept_encoding_clone_def osip_accept_encoding_init_def param_list_clone_named)

lemma clone_call_info:
  "ci_element c \<noteq> None \<and> named (ci_gen_params c) \<Longrightarrow> osip_call_info_clone (Some c) = (OSIP_SUCCESS, Some c)"
proof (cases c)
  case (fields e ps)
  assume a: "ci_element c \<noteq> None \<and> named (ci_gen_params c)"
  have "osip_uri_param_clone (Some p) = (OSIP_SUCCESS, Some p)" if "p \<in> set ps" for p
    using that a fields by (cases p) (auto simp: osip_uri_param_clone_def named_def)
  then have "list_clone osip_uri_param_clone ps = (OSIP_SUCCESS, ps)"
    using list_clone_map [of ps osip_uri_param_clone "\<lambda>x. x"] by simp
  with a fields show ?thesis by (simp add: osip_call_info_clone_def osip_call_info_init_def)
qed

lemma clone_content_length: "osip_content_length_clone (Some c) = (OSIP_SUCCESS, Some c)"
  by (cases c) (simp add: osip_content_length_clone_def osip_content_length_init_def)

lemma clone_authentication_info: "osip_authentication_info_clone (Some a) = (OSIP_SUCCESS, Some a)"
  by (cases a) (simp add: osip_authentication_info_clone_def osip_authentication_info_init_def)

lemma clone_authorization: "osip_authorization_clone (Some a) = (OSIP_SUCCESS, Some (authorization_cut a))"
  by (cases a) (simp add: osip_authorization_clone_def osip_authorization_init_def authorization_cut_def)

lemma clone_www_authenticate:
  "wa_auth_type w \<noteq> None \<Longrightarrow> osip_www_authenticate_clone (Some w) = (OSIP_SUCCESS, Some (www_authenticate_cut w))"
  by (cases w) (simp add: osip_www_authenticate_clone_def osip_www_authenticate_init_def www_authenticate_cut_def)

lemma clone_call_id: "call_id_number c \<noteq> None \<Longrightarrow> osip_call_id_clone (Some c) = (OSIP_SUCCESS, Some c)"
  by (cases c) (simp add: osip_call_id_clone_def osip_call_id_init_def)

lemma clone_cseq: "cseq_method c \<noteq> None \<and> cseq_number c \<noteq> None \<Longrightarrow> osip_cseq_clone (Some c) = (OSIP_SUCCESS, Some c)"
  by (cases c) (simp add: osip_cseq_clone_def osip_cseq_init_def)

lemma clone_header: "hname h \<noteq> None \<Longrightarrow> osip_header_clone (Some h) = (OSIP_SUCCESS, Some h)"
  by (cases h) (simp add: osip_header_clone_def osip_header_init_def)

lemma clone_body: "body_ok b \<Longrightarrow> osip_body_clone (Some b) = Some (OSIP_SUCCESS, Some b)"
proof (cases b)
  case (fields buf n hs ct)
  assume a: "body_ok b"
  obtain s h where b: "buf = Some s" "length s = n" "hs = Some h" "\<forall>x\<in>set h. hname x \<noteq> None" "0 < n"
    using a fields by (auto simp: body_ok_def split: option.splits)
  have "list_clone osip_header_clone h = (OSIP_SUCCESS, h)"
    using list_clone_map [of h osip_header_clone "\<lambda>x. x"] clone_header b(4) by simp
  moreover have "ct = Some c \<Longrightarrow> osip_content_type_clone ct = (OSIP_SUCCESS, ct)" for c
    using a fields clone_content_type [of c] by (simp add: body_ok_def)
  ultimately show ?thesis
    using fields b by (cases ct) (simp_all add: osip_body_clone_def osip_body_init_def)
qed

lemma clone_body_list: "\<forall>b\<in>set bs. body_ok b \<Longrightarrow> body_list_clone bs = Some (OSIP_SUCCESS, bs)"
  by (induction bs) (simp_all add: clone_body)

section \<open>Copies of messages\<close>

text \<open>A message all of whose headers and bodies are complete.\<close>

definition message_ok :: "message \<Rightarrow> bool" where
  "message_ok m \<longleftrightarrow>
     (\<forall>u. req_uri m = Some u \<longrightarrow> uri_ok u)
     \<and> (\<forall>c\<in>set (accepts m) \<union> set_option (msg_content_type m). named (ct_gen_params c))
     \<and> (\<forall>c\<in>set (accept_encodings m) \<union> set (accept_languages m). ae_element c \<noteq> None \<and> named (ae_gen_params c))
     \<and> (\<forall>c\<in>set (alert_infos m) \<union> set (error_infos m) \<union> set (call_infos m). ci_element c \<noteq> None \<and> named (ci_gen_params c))
     \<and> (\<forall>c. msg_call_id m = Some c \<longrightarrow> call_id_number c \<noteq> None)
     \<and> (\<forall>c. msg_cseq m = Some c \<longrightarrow> cseq_method c \<noteq> None \<and> cseq_number c \<noteq> None)
     \<and> (\<forall>f\<in>set (contacts m) \<union> set (record_routes m) \<union> set (routes m) \<union> set_option (msg_from m) \<union> set_option (msg_to m). from_ok f)
     \<and> (\<forall>v\<in>set (vias m). via_ok v)
     \<and> (\<forall>w\<in>set (proxy_authenticates m) \<union> set (www_authenticates m). wa_auth_type w \<noteq> None)
     \<and> (\<forall>h\<in>set (headers m). hname h \<noteq> None)
     \<and> (\<forall>b\<in>set (bodies m). body_ok b)"

text \<open>The copy of a complete message.\<close>

definition message_copy :: "message \<Rightarrow> message" where
  "message_copy m = m\<lparr>authorizations := map authorization_cut (authorizations m),
     proxy_authorizations := map authorization_cut (proxy_authorizations m),
     www_authenticates := map www_authenticate_cut (www_authenticates m),
     proxy_authenticates := map www_authenticate_cut (proxy_authenticates m),
     msg_buffer := map_option cstr (msg_buffer m)\<rparr>"

lemma run_clone_part:
  assumes "get sip = None \<Longrightarrow> put None copy = copy"
    and "\<And>x. get sip = Some x \<Longrightarrow> clone_func (Some x) = (OSIP_SUCCESS, Some x)"
  shows "run_clone (clone_part clone_func get put # fs) sip copy = run_clone fs sip (put (get sip) copy)"
  using assms by (cases "get sip") (simp_all add: clone_part_def)

lemma run_clone_list:
  assumes "\<And>x. x \<in> set (get sip) \<Longrightarrow> clone_func (Some x) = (OSIP_SUCCESS, Some (f x))"
  shows "run_clone (clone_list clone_func get put # fs) sip copy = run_clone fs sip (put (map f (get sip)) copy)"
  using list_clone_map [of "get sip" clone_func f] assms by (simp add: clone_list_def)

lemma run_clone_list_same:
  assumes "\<And>x. x \<in> set (get sip) \<Longrightarrow> clone_func (Some x) = (OSIP_SUCCESS, Some x)"
  shows "run_clone (clone_list clone_func get put # fs) sip copy = run_clone fs sip (put (get sip) copy)"
  using run_clone_list [of get sip clone_func "\<lambda>x. x"] assms by simp

text \<open>The steps of a clone on a complete message.\<close>

lemma message_ok_parts:
  assumes "message_ok m"
  shows "req_uri m = Some u \<Longrightarrow> osip_uri_clone (Some u) = (OSIP_SUCCESS, Some u)"
    and "ct \<in> set (accepts m) \<Longrightarrow> osip_content_type_clone (Some ct) = (OSIP_SUCCESS, Some ct)"
    and "msg_content_type m = Some ct \<Longrightarrow> osip_content_type_clone (Some ct) = (OSIP_SUCCESS, Some ct)"
    and "ae \<in> set (accept_encodings m) \<Longrightarrow> osip_accept_encoding_clone (Some ae) = (OSIP_SUCCESS, Some ae)"
    and "ae \<in> set (accept_languages m) \<Longrightarrow> osip_accept_encoding_clone (Some ae) = (OSIP_SUCCESS, Some ae)"
    and "ci \<in> set (alert_infos m) \<Longrightarrow> osip_call_info_clone (Some ci) = (OSIP_SUCCESS, Some ci)"
    and "ci \<in> set (error_infos m) \<Longrightarrow> osip_call_info_clone (Some ci) = (OSIP_SUCCESS, Some ci)"
    and "ci \<in> set (call_infos m) \<Longrightarrow> osip_call_info_clone (Some ci) = (OSIP_SUCCESS, Some ci)"
    and "msg_call_id m = Some c \<Longrightarrow> osip_call_id_clone (Some c) = (OSIP_SUCCESS, Some c)"
    and "msg_cseq m = Some cs \<Longrightarrow> osip_cseq_clone (Some cs) = (OSIP_SUCCESS, Some cs)"
    and "f \<in> set (contacts m) \<Longrightarrow> osip_from_clone (Some f) = (OSIP_SUCCESS, Some f)"
    and "f \<in> set (record_routes m) \<Longrightarrow> osip_from_clone (Some f) = (OSIP_SUCCESS, Some f)"
    and "f \<in> set (routes m) \<Longrightarrow> osip_from_clone (Some f) = (OSIP_SUCCESS, Some f)"
    and "msg_from m = Some f \<Longrightarrow> osip_from_clone (Some f) = (OSIP_SUCCESS, Some f)"
    and "msg_to m = Some f \<Longrightarrow> osip_from_clone (Some f) = (OSIP_SUCCESS, Some f)"
    and "v \<in> set (vias m) \<Longrightarrow> osip_via_clone (Some v) = (OSIP_SUCCESS, Some v)"
    and "w \<in> set (proxy_authenticates m) \<Longrightarrow> osip_www_authenticate_clone (Some w) = (OSIP_SUCCESS, Some (www_authenticate_cut w))"
    and "w \<in> set (www_authenticates m) \<Longrightarrow> osip_www_authenticate_clone (Some w) = (OSIP_SUCCESS, Some (www_authenticate_cut w))"
    and "h \<in> set (headers m) \<Longrightarrow> osip_header_clone (Some h) = (OSIP_SUCCESS, Some h)"
    and "body_list_clone (bodies m) = Some (OSIP_SUCCESS, bodies m)"
  using assms
  by (simp_all add: message_ok_def clones_of_ok clone_content_type clone_accept_encoding clone_call_info
      clone_call_id clone_cseq clone_www_authenticate clone_header clone_body_list)

lemmas run_clone_same = run_clone_part run_clone_list_same
  run_clone_list [where clone_func = osip_authorization_clone and f = authorization_cut]
  run_clone_list [where clone_func = osip_www_authenticate_clone and f = www_authenticate_cut]

text \<open>
  C26. The clone of a message whose headers and bodies are complete is that message, part by part,
  with two exceptions: the unknown parameters of the credentials and challenges are lost, and the
  text of the message is cut at its first zero byte, although its length is kept.
\<close>

theorem osip_message_clone_copy:
  assumes "message_ok m"
  shows "osip_message_clone (Some m) = Some (OSIP_SUCCESS, Some (message_copy m))"
proof -
  have "osip_message_clone (Some m) = run_clone clone_steps m osip_message_init"
    by (simp add: osip_message_clone_def)
  also have "\<dots> = Some (OSIP_SUCCESS, Some (message_copy m))"
    unfolding clone_steps_def osip_message_init_def message_copy_def
    by (simp del: run_clone.simps(2) add: run_clone.simps(2) [of clone_start_line] run_clone.simps(2) [of clone_bodies]
        run_clone.simps(2) [of clone_buffer] run_clone_same message_ok_parts [OF assms] clone_content_length
        clone_authorization clone_authentication_info clone_start_line_def clone_bodies_def clone_buffer_def)
  finally show ?thesis .
qed

definition sample_body :: body where
  "sample_body = \<lparr>body_buffer = Some ''v=0'', body_length = 3, body_headers = Some [],
     body_content_type = Some \<lparr>ct_type = Some ''application'', ct_subtype = Some ''sdp'', ct_gen_params = []\<rparr>\<rparr>"

definition sample_cloned :: message where
  "sample_cloned = osip_message_init\<lparr>sip_method := Some ''REGISTER'', bodies := [sample_body],
     authorizations := [osip_authorization_init\<lparr>au_auth_type := Some ''Digest'', au_auth_param := Some ''x=1''\<rparr>],
     message_length := 4, msg_buffer := Some [CHR ''a'', CHR ''b'', NUL, CHR ''c'']\<rparr>"

theorem osip_message_clone_copy_witness:
  "osip_message_clone (Some sample_cloned)
     = Some (OSIP_SUCCESS, Some (sample_cloned
         \<lparr>authorizations := [osip_authorization_init\<lparr>au_auth_type := Some ''Digest''\<rparr>], msg_buffer := Some ''ab''\<rparr>))"
proof -
  have "message_ok sample_cloned"
    by (simp add: message_ok_def sample_cloned_def osip_message_init_def sample_body_def body_ok_def)
  from osip_message_clone_copy [OF this] show ?thesis
    by (simp add: message_copy_def sample_cloned_def osip_message_init_def authorization_cut_def
        osip_authorization_init_def cstr_def char_defs)
qed

section \<open>The buffer of a printed body\<close>

lemma append_line_exact:
  "length buf \<le> len \<Longrightarrow> \<exists>len'. append_line len buf line = Some (len', buf @ line @ CRLF) \<and> length (buf @ line @ CRLF) + 2 \<le> len'
      \<and> len' = (if len < length buf + length line + 4 then len + length line + 4 else len)"
  by (simp add: append_line_def Let_def osip_str_append_def osip_strn_append_def sprintf_end_def CRLF_def)

text \<open>
  C27. A body without headers of its own is printed as its content type, an empty line and its
  bytes; the buffer is one byte too small exactly when the body is three bytes longer than the text of the
  content type.
\<close>

theorem osip_body_to_str_exact:
  assumes "body_ok b" and "body_headers b = Some []" and "body_content_type b = Some c"
    and "osip_content_type_to_str (Some c) = Some (OSIP_SUCCESS, Some t)"
  shows "osip_body_to_str (Some b)
     = (if body_length b = length t + 3 then None
        else Some (OSIP_SUCCESS, Some (''content-type: '' @ t @ CRLF @ CRLF @ the (body_buffer b))))"
proof -
  obtain s where s: "body_buffer b = Some s" "length s = body_length b" "0 < body_length b"
    using assms(1) by (auto simp: body_ok_def split: option.splits)
  obtain len where l: "append_line (15 + body_length b) ''content-type: '' t = Some (len, ''content-type: '' @ t @ CRLF)"
    and len: "len = (if 15 + body_length b < 14 + length t + 4 then 15 + body_length b + length t + 4 else 15 + body_length b)"
    using append_line_exact [of "''content-type: ''" "15 + body_length b" t] by auto
  have p: "print_body_content_type (15 + body_length b) (Some c) = Some (Inr (len, ''content-type: '' @ t @ CRLF))"
    using l assms(4) by (simp add: print_body_content_type_def osip_strn_append_def sprintf_end_def)
  have e: "osip_strn_append len (''content-type: '' @ t @ CRLF) CRLF 2
      = (if len < 19 + length t then None else Some (''content-type: '' @ t @ CRLF @ CRLF))"
    by (simp add: osip_strn_append_def sprintf_end_def CRLF_def)
  have "len < 19 + length t \<longleftrightarrow> body_length b = length t + 3" using len by auto
  with s p e assms(2,3) show ?thesis
    by (auto simp: osip_body_to_str_def Let_def CRLF_def)
qed

theorem osip_body_to_str_exact_witness:
  "osip_body_to_str (Some sample_body) = Some (OSIP_SUCCESS, Some (''content-type: application/sdp'' @ CRLF @ CRLF @ ''v=0''))
   \<and> osip_body_to_str (Some (sample_body\<lparr>body_buffer := Some ''123456789012345678'', body_length := 18\<rparr>)) = None"
proof -
  have t: "osip_content_type_to_str (body_content_type sample_body) = Some (OSIP_SUCCESS, Some ''application/sdp'')"
    by (simp add: osip_content_type_to_str_def sample_body_def sprintf_end_def Let_def)
  show ?thesis
    using osip_body_to_str_exact [of sample_body _ "''application/sdp''"] t
      osip_body_to_str_exact [of "sample_body\<lparr>body_buffer := Some ''123456789012345678'', body_length := 18\<rparr>" _ "''application/sdp''"]
    by (simp add: sample_body_def body_ok_def)
qed

end
