(* ===== verification/Osip_Parse_Proofs.thy ===== *)
theory Osip_Parse_Proofs
  imports Osip_Parse Osip_Body_Proofs
begin

text \<open>
  Properties of the message parser: the hash table of headers decides like a linear search, rendered
  header lines are stored one after the other, and messages come back from their text.
\<close>

section \<open>The table of headers\<close>

text \<open>The hash over natural numbers, which the simplifier evaluates fast.\<close>

lemma ascii_word:
  assumes "of_char c < (128 :: nat)"
  shows "(signed (of_char c :: 8 word) :: 32 word) = word_of_nat (of_char c)"
proof -
  have "sint (word_of_nat (of_char c) :: 8 word) = int (of_char c)"
    using assms by (simp add: sint_uint unsigned_of_nat signed_take_bit_int_eq_self take_bit_nat_eq_self)
  then have "(signed (word_of_nat (of_char c) :: 8 word) :: 32 word) = of_int (int (of_char c))"
    by (simp add: scast_eq)
  then show ?thesis by (simp add: of_nat_of_char of_int_of_char)
qed

definition hash_nat :: "string \<Rightarrow> nat" where
  "hash_nat s = foldl (\<lambda>h c. (33 * h + of_char c) mod 4294967296) 5381 s"

lemma hash_nat_eq:
  assumes "\<forall>c\<in>set s. of_char c < (128 :: nat)"
  shows "unat (osip_hash s) = hash_nat s"
proof -
  have "unat (foldl (\<lambda>h c. 33 * h + signed (of_char c :: 8 word)) (h :: 32 word) s)
      = foldl (\<lambda>h c. (33 * h + of_char c) mod 4294967296) (unat h) s" for h
    using assms
  proof (induction s arbitrary: h)
    case (Cons c s)
    have "33 * h + signed (of_char c :: 8 word) = word_of_nat (33 * unat h + of_char c)"
      using Cons.prems by (simp add: ascii_word)
    then have "unat (33 * h + signed (of_char c :: 8 word)) = (33 * unat h + of_char c) mod 4294967296"
      by (simp only: unsigned_of_nat) (simp add: take_bit_eq_mod)
    with Cons show ?case by simp
  qed simp
  from this [of 5381] show ?thesis by (simp add: osip_hash_djb2 hash_nat_def)
qed

definition header_slots :: "nat list" where
  "header_slots = [25, 21, 62, 24, 106, 90, 102, 72, 123, 0, 109, 144, 83, 59, 49, 74, 58, 75, 147, 78, 81, 82, 126, 5, 139, 117, 4, 22, 89, 48, 91, 61, 84]"

lemma header_names: "\<forall>n\<in>set (map cfg_hname pconfig). \<forall>c\<in>set n. of_char c < (128 :: nat)"
  by (simp add: pconfig_def)

lemma header_slots: "map hash_slot (map cfg_hname pconfig) = header_slots"
proof -
  have "hash_slot n = hash_nat n mod 150" if "n \<in> set (map cfg_hname pconfig)" for n
    proof -
    have "\<forall>c\<in>set n. of_char c < (128 :: nat)" using that header_names by blast
    from hash_nat_eq [OF this] show ?thesis by (simp add: hash_slot_def HASH_TABLE_SIZE_def)
  qed
  then have "map hash_slot (map cfg_hname pconfig) = map (\<lambda>n. hash_nat n mod 150) (map cfg_hname pconfig)"
    by (intro map_cong) auto
  also have "\<dots> = header_slots"
    by (simp add: pconfig_def header_slots_def hash_nat_def)
  finally show ?thesis .
qed


lemma fill_table_ok:
  "distinct (map hash_slot hdrs) \<Longrightarrow> \<forall>h\<in>set hdrs. hash_slot h < length table \<and> table ! hash_slot h = - 1 \<Longrightarrow>
   \<exists>t. fill_table i hdrs table = (OSIP_SUCCESS, t) \<and> length t = length table
     \<and> (\<forall>k<length hdrs. t ! hash_slot (hdrs ! k) = i + int k)
     \<and> (\<forall>s. s \<notin> set (map hash_slot hdrs) \<longrightarrow> t ! s = table ! s)"
proof (induction hdrs arbitrary: i table)
  case (Cons h hdrs)
  let ?table = "table[hash_slot h := i]"
  have s: "hash_slot h < length table" "table ! hash_slot h = - 1" using Cons.prems(2) by simp_all
  have d: "distinct (map hash_slot hdrs)" "hash_slot h \<notin> set (map hash_slot hdrs)" using Cons.prems(1) by simp_all
  have "\<forall>g\<in>set hdrs. hash_slot g < length ?table \<and> ?table ! hash_slot g = - 1"
    using Cons.prems d(2) by (auto simp: nth_list_update)
  from Cons.IH [OF d(1) this, of "i + 1"] obtain t where t: "fill_table (i + 1) hdrs ?table = (OSIP_SUCCESS, t)"
    "length t = length table" "\<forall>k<length hdrs. t ! hash_slot (hdrs ! k) = i + 1 + int k"
    "\<forall>s. s \<notin> set (map hash_slot hdrs) \<longrightarrow> t ! s = ?table ! s" by auto
  have "t ! hash_slot ((h # hdrs) ! k) = i + int k" if "k < length (h # hdrs)" for k
    using that t(3,4) d(2) s(1) by (cases k) auto
  moreover have "t ! x = table ! x" if "x \<notin> set (map hash_slot (h # hdrs))" for x
    using that t(4) by (auto simp: nth_list_update)
  ultimately show ?case using t(1,2) s(2) by auto
qed simp

text \<open>The reference: a linear search for the name.\<close>

fun linear_search :: "int \<Rightarrow> string \<Rightarrow> string list \<Rightarrow> int" where
  "linear_search i hdr [] = - 1"
| "linear_search i hdr (n # ns) = (if n = hdr then i else linear_search (i + 1) hdr ns)"

lemma linear_search_nth: "distinct ns \<Longrightarrow> k < length ns \<Longrightarrow> linear_search i (ns ! k) ns = i + int k"
proof (induction ns arbitrary: i k)
  case (Cons n ns)
  then show ?case by (cases k) auto
qed simp

lemma linear_search_none: "hdr \<notin> set ns \<Longrightarrow> linear_search i hdr ns = - 1"
  by (induction ns arbitrary: i) auto

lemma parser_table:
  obtains t where "parser_init = (OSIP_SUCCESS, t)"
    and "\<And>k. k < 33 \<Longrightarrow> t ! hash_slot (cfg_hname (pconfig ! k)) = int k"
    and "\<And>s. s < 150 \<Longrightarrow> t ! s = - 1 \<or> (\<exists>k<33. t ! s = int k)"
proof -
  let ?names = "map cfg_hname pconfig"
  have len: "length pconfig = 33" by (simp add: pconfig_def)
  have slots: "distinct (map hash_slot ?names)" "\<forall>h\<in>set ?names. hash_slot h < 150"
  proof -
    show "distinct (map hash_slot ?names)" unfolding header_slots by (simp add: header_slots_def)
    show "\<forall>h\<in>set ?names. hash_slot h < 150" by (simp add: hash_slot_def HASH_TABLE_SIZE_def)
  qed
  then have "\<forall>h\<in>set ?names. hash_slot h < length (replicate 150 (- 1 :: int)) \<and> replicate 150 (- 1) ! hash_slot h = (- 1 :: int)"
    by simp
  from fill_table_ok [OF slots(1) this, of 0] obtain t where t: "fill_table 0 ?names (replicate 150 (- 1)) = (OSIP_SUCCESS, t)"
    "\<forall>k<length ?names. t ! hash_slot (?names ! k) = int k"
    "\<forall>s. s \<notin> set (map hash_slot ?names) \<longrightarrow> t ! s = replicate 150 (- 1) ! s" by auto
  have "parser_init = (OSIP_SUCCESS, t)"
    using t(1) len by (simp add: parser_init_def NUMBER_OF_HEADERS_def HASH_TABLE_SIZE_def)
  moreover have "t ! hash_slot (cfg_hname (pconfig ! k)) = int k" if "k < 33" for k
    using t(2) that len by simp
  moreover have "t ! s = - 1 \<or> (\<exists>k<33. t ! s = int k)" if "s < 150" for s
  proof (cases "s \<in> set (map hash_slot ?names)")
    case True
    then obtain k where "k < 33" "s = hash_slot (?names ! k)" using len by (auto simp: in_set_conv_nth)
    then show ?thesis using t(2) len by auto
  qed (use t(3) that in simp)
  ultimately show ?thesis using that by blast
qed

lemma known_header_search:
  "fst parser_init = OSIP_SUCCESS"
  "osip_message_is_known_header (snd parser_init) hdr = linear_search 0 hdr (map cfg_hname pconfig)"
proof -
  obtain t where t: "parser_init = (OSIP_SUCCESS, t)"
    and hit: "\<And>k. k < 33 \<Longrightarrow> t ! hash_slot (cfg_hname (pconfig ! k)) = int k"
    and miss: "\<And>s. s < 150 \<Longrightarrow> t ! s = - 1 \<or> (\<exists>k<33. t ! s = int k)"
    by (rule parser_table) blast
  let ?names = "map cfg_hname pconfig"
  have len: "length pconfig = 33" by (simp add: pconfig_def)
  have "distinct (map hash_slot ?names)" unfolding header_slots by (simp add: header_slots_def)
  then have d: "distinct ?names" by (rule distinct_map [THEN iffD1, THEN conjunct1])
  have "osip_message_is_known_header t hdr = linear_search 0 hdr ?names"
  proof (cases "hdr \<in> set ?names")
    case True
    then obtain k where k: "k < 33" "hdr = ?names ! k" using len by (auto simp: in_set_conv_nth)
    with hit [OF k(1)] linear_search_nth [OF d, of k 0] len show ?thesis
      by (simp add: osip_message_is_known_header_def)
  next
    case False
    have "hash_slot hdr < 150" by (simp add: hash_slot_def HASH_TABLE_SIZE_def)
    from miss [OF this] False show ?thesis
      using len by (auto simp: osip_message_is_known_header_def linear_search_none)
  qed
  then show "fst parser_init = OSIP_SUCCESS"
    "osip_message_is_known_header (snd parser_init) hdr = linear_search 0 hdr (map cfg_hname pconfig)"
    unfolding t by (simp_all only: fst_conv snd_conv)
qed

text \<open>
  C28. \<^verbatim>\<open>parser_init\<close> succeeds: the 33 headers hash into different slots of the table of 150.  The look-up
  in the table then gives the same index as a linear search, for every name.
\<close>

theorem known_header_exact:
  "fst parser_init = OSIP_SUCCESS
   \<and> osip_message_is_known_header (snd parser_init) hdr = linear_search 0 hdr (map cfg_hname pconfig)"
  using known_header_search by simp

section \<open>Header lines\<close>

text \<open>
  The text of a list of headers, one per line.  A name is one word without a colon, a value one line that
  is not blank; the blanks around it are not stored.
\<close>

definition line_chars :: "string \<Rightarrow> bool" where
  "line_chars s \<longleftrightarrow> (\<forall>c\<in>set s. c \<noteq> NUL \<and> c \<noteq> CR \<and> c \<noteq> LF)"

definition wf_line :: "string \<times> string \<Rightarrow> bool" where
  "wf_line l \<longleftrightarrow>
     (case l of (n, v) \<Rightarrow>
        n \<noteq> [] \<and> trimmed n \<and> CHR '':'' \<notin> set n \<and> line_chars n \<and> strip v \<noteq> [] \<and> line_chars v)"

definition line_text :: "string \<times> string \<Rightarrow> string" where
  "line_text l = (case l of (n, v) \<Rightarrow> n @ '': '' @ v)"

definition lines_text :: "(string \<times> string) list \<Rightarrow> string" where
  "lines_text ls = concat (map (\<lambda>l. line_text l @ CRLF) ls)"

lemma lines_text_simps [simp]: "lines_text [] = []" "lines_text (l # ls) = line_text l @ CRLF @ lines_text ls"
  by (simp_all add: lines_text_def)

text \<open>The abstract view of \<^verbatim>\<open>msg_headers_parse\<close>: the headers are stored in order.\<close>

fun store_headers :: "int list \<Rightarrow> message \<Rightarrow> (string \<times> string) list \<Rightarrow> (int \<times> message) option" where
  "store_headers table sip [] = Some (OSIP_SUCCESS, sip)"
| "store_headers table sip ((n, v) # ls) = do {
     (i, sip) \<leftarrow> osip_message_set_multiple_header table sip n (Some (strip v));
     if i \<noteq> 0 then Some (OSIP_SYNTAXERROR, sip) else store_headers table sip ls }"

lemma skip_chars_prefix: "skip_chars P (pre @ s) (length pre) = length pre + length (takeWhile P s)"
  by (simp add: skip_chars_def)

lemma chr_at_behind: "chr_at (pre @ s) (length pre + i) = chr_at s i"
  by (simp add: chr_at_append)

lemma find_next_crlf_line:
  assumes "line_chars l" and "\<not> is_blank (chr_at r 0)"
  shows "osip_find_next_crlf (pre @ l @ CRLF @ r) (length pre) = (OSIP_SUCCESS, Some (length pre + length l + 2))"
proof -
  let ?s = "pre @ l @ CRLF @ r"
  have "takeWhile (\<lambda>c. c \<noteq> CR \<and> c \<noteq> LF) (l @ CRLF @ r) = l"
    using assms(1) by (auto simp: line_chars_def CRLF_def takeWhile_append takeWhile_eq_all_conv [THEN iffD2])
  then have "skip_chars (\<lambda>c. c \<noteq> CR \<and> c \<noteq> LF) ?s (length pre) = length pre + length l"
    by (simp add: skip_chars_prefix)
  moreover have "chr_at ?s (length pre + length l) = CR" "chr_at ?s (length pre + length l + 1) = LF"
    "chr_at ?s (length pre + length l + 2) = chr_at r 0"
    using chr_at_behind [of "pre @ l" "CRLF @ r" 0] chr_at_behind [of "pre @ l" "CRLF @ r" 1]
      chr_at_behind [of "pre @ l" "CRLF @ r" 2] chr_at_behind [of CRLF r 0]
    by (simp_all add: CRLF_def chr_at_def)
  moreover have "chr_at ?s (length pre + length l + 1 + 1) = chr_at r 0" using calculation(4) by simp
  ultimately show ?thesis
    using assms(2) by (simp add: osip_find_next_crlf_def Let_def char_defs is_blank_def)
qed

lemma strchr_colon:
  "CHR '':'' \<notin> set n \<Longrightarrow> strchr (pre @ n @ CHR '':'' # r) (length pre) (CHR '':'') = Some (length pre + length n)"
  by (simp add: strchr_text)

lemma header_line_value_line:
  assumes "strip v \<noteq> []"
  shows "header_line_value (pre @ n @ '': '' @ v @ CRLF @ r) (length pre + length n) (length pre + length n + length v + 4)
    = Some (strip v)"
proof -
  let ?p = "pre @ n @ '':''" and ?v = "CHR '' '' # v"
  have "chr_at (?p @ ?v @ CRLF @ r) (length pre + length n + length v + 2) = CR"
    using chr_at_behind [of "?p @ ?v" "CRLF @ r" 0] by (simp add: CRLF_def chr_at_def add.assoc)
  moreover have "osip_clrncpy (?p @ ?v @ CRLF @ r) (length ?p) (length ?v) = strip ?v"
    by (rule osip_clrncpy_segment) simp
  moreover have "strip ?v = strip v" by (simp add: strip_def is_lws_def)
  moreover have "v \<noteq> []" using assms by (auto simp: strip_def)
  ultimately show ?thesis by (simp add: header_line_value_def Let_def add.assoc)
qed

lemma line_text_chars: "wf_line l \<Longrightarrow> line_chars (line_text l)"
  by (auto simp: wf_line_def line_text_def line_chars_def char_defs)

lemma trimmed_head: "trimmed n \<Longrightarrow> n \<noteq> [] \<Longrightarrow> line_chars n \<Longrightarrow> \<exists>c t. n = c # t \<and> \<not> is_lws c \<and> c \<noteq> NUL"
  by (cases n) (auto simp: trimmed_def line_chars_def)

lemma not_lws: "\<not> is_lws c \<Longrightarrow> \<not> is_blank c \<and> c \<noteq> CR \<and> c \<noteq> LF"
  by (auto simp: is_lws_def is_blank_def)

lemma lines_head:
  assumes "\<forall>l\<in>set ls. wf_line l"
  shows "\<not> is_blank (chr_at (lines_text ls @ CRLF @ rest) 0)"
proof (cases ls)
  case Nil
  then show ?thesis by (simp add: CRLF_def chr_at_def is_blank_def char_defs)
next
  case (Cons l ls')
  obtain n v where l: "l = (n, v)" by (cases l)
  with Cons assms have "wf_line (n, v)" by simp
  then obtain c t where "n = c # t" "\<not> is_lws c" using trimmed_head [of n] by (auto simp: wf_line_def)
  with Cons l not_lws [of c] show ?thesis by (simp add: line_text_def chr_at_def)
qed

lemma msg_headers_end:
  "msg_headers_parse table sip (pre @ CRLF @ rest) (length pre) = Some (OSIP_SUCCESS, sip, Some (length pre))"
proof -
  let ?s = "pre @ CRLF @ rest"
  have c: "chr_at ?s (length pre) = CR" "chr_at ?s (length pre + 1) = LF"
    by (simp_all add: chr_at_append CRLF_def) (simp_all add: chr_at_def nth_append)
  then have "skip_chars (\<lambda>c. c \<noteq> CR \<and> c \<noteq> LF) ?s (length pre) = length pre"
    by (intro skip_chars_none) simp
  with c have "fst (osip_find_next_crlf ?s (length pre)) \<in> {- 2, 0}"
    by (simp add: osip_find_next_crlf_def Let_def char_defs)
  then show ?thesis
    using c by (simp add: msg_headers_parse.simps [of table sip ?s] split_beta char_defs)
qed

lemma msg_headers_lines:
  "\<forall>l\<in>set ls. wf_line l \<Longrightarrow>
   msg_headers_parse table sip (pre @ lines_text ls @ CRLF @ rest) (length pre) = do {
     (i, m) \<leftarrow> store_headers table sip ls;
     Some (i, m, if i = 0 then Some (length pre + length (lines_text ls)) else None) }"
proof (induction ls arbitrary: sip pre)
  case Nil
  show ?case using msg_headers_end [of table sip pre rest] by simp
next
  case (Cons l ls)
  obtain n v where l: "l = (n, v)" by (cases l)
  have wf: "wf_line (n, v)" "\<forall>l\<in>set ls. wf_line l" using Cons.prems l by simp_all
  then have nv: "n \<noteq> []" "trimmed n" "CHR '':'' \<notin> set n" "line_chars n" "strip v \<noteq> []"
    by (simp_all add: wf_line_def)
  let ?r = "lines_text ls @ CRLF @ rest"
  let ?s = "pre @ line_text (n, v) @ CRLF @ ?r"
  let ?e = "length pre + length n + length v + 4"
  have eol: "osip_find_next_crlf ?s (length pre) = (OSIP_SUCCESS, Some ?e)"
    using find_next_crlf_line [OF line_text_chars [OF wf(1)] lines_head [OF wf(2)], of pre rest]
    by (simp add: line_text_def)
  obtain c t where c: "n = c # t" "\<not> is_lws c" "c \<noteq> NUL" using trimmed_head nv by blast
  then have start: "chr_at ?s (length pre) = c" by (simp add: line_text_def chr_at_append) (simp add: chr_at_def)
  have colon: "strchr ?s (length pre) (CHR '':'') = Some (length pre + length n)"
    using strchr_colon [OF nv(3), of pre "CHR '' '' # v @ CRLF @ ?r"] by (simp add: line_text_def)
  have name: "osip_clrncpy ?s (length pre) (length n) = n"
    using clrncpy_mid [OF nv(1,2), of pre "'': '' @ v @ CRLF @ ?r"] by (simp add: line_text_def)
  have val: "header_line_value ?s (length pre + length n) ?e = Some (strip v)"
    using header_line_value_line [OF nv(5), of pre n ?r] by (simp add: line_text_def)
  have rest: "msg_headers_parse table m ?s ?e = do {
     (i, m) \<leftarrow> store_headers table m ls;
     Some (i, m, if i = 0 then Some (?e + length (lines_text ls)) else None) }" for m
    using Cons.IH [OF wf(2), of m "pre @ line_text (n, v) @ CRLF"]
    by (simp add: line_text_def CRLF_def add.assoc eval_nat_numeral cong: if_cong)
  have "msg_headers_parse table sip ?s (length pre) = do {
      (i, sip) \<leftarrow> osip_message_set_multiple_header table sip n (Some (strip v));
      if i \<noteq> 0 then Some (OSIP_SYNTAXERROR, sip, None) else msg_headers_parse table sip ?s ?e }"
    using nv(1) not_lws [OF c(2)] c(3)
    by (simp add: msg_headers_parse.simps [of table sip ?s] eol start colon name val)
  also have "\<dots> = do {
     (i, m) \<leftarrow> store_headers table sip ((n, v) # ls);
     Some (i, m, if i = 0 then Some (length pre + length (lines_text ((n, v) # ls))) else None) }"
    unfolding rest by (cases "osip_message_set_multiple_header table sip n (Some (strip v))")
      (simp_all add: split_beta line_text_def CRLF_def add.assoc eval_nat_numeral cong: if_cong)
  finally show ?case unfolding l by (simp cong: if_cong)
qed

section \<open>Whole messages\<close>

datatype start = Request string uri | Status nat string

definition start_text :: "start \<Rightarrow> string" where
  "start_text st =
     (case st of
        Request m u \<Rightarrow> m @ '' '' @ uri_text u @ '' SIP/2.0''
      | Status code reason \<Rightarrow> ''SIP/2.0 '' @ nat_digits code @ '' '' @ reason)"

definition start_message :: "start \<Rightarrow> message" where
  "start_message st =
     (case st of
        Request m u \<Rightarrow> osip_message_init\<lparr>sip_method := Some m, req_uri := Some u, sip_version := Some ''SIP/2.0''\<rparr>
      | Status code reason \<Rightarrow>
          osip_message_init\<lparr>sip_version := Some ''SIP/2.0'', status_code := int code, reason_phrase := Some reason\<rparr>)"

definition wf_start :: "start \<Rightarrow> bool" where
  "wf_start st \<longleftrightarrow>
     (case st of
        Request m u \<Rightarrow> m \<noteq> [] \<and> line_chars m \<and> CHR '' '' \<notin> set m \<and> take 4 m \<noteq> ''SIP/'' \<and> wf_uri u
          \<and> 2 \<le> length (uri_text u) \<and> (\<forall>c\<in>set (uri_text u). \<not> is_lws c \<and> c \<noteq> NUL)
      | Status code reason \<Rightarrow> 0 < code \<and> int code \<le> INT_MAX \<and> line_chars reason)"

subsection \<open>Start lines\<close>

lemma nat_digits_ne: "nat_digits n \<noteq> []"
  by (subst nat_digits.simps) simp

lemma nat_digits_isdigit: "list_all isdigit (nat_digits n)"
proof (induction n rule: nat_digits.induct)
  case (1 n)
  have d: "isdigit (char_of (48 + k :: nat))" if "k < 10" for k
    using that by (simp add: isdigit_def of_char_of)
  show ?case
    using 1 d [of n] d [of "n mod 10"] by (subst nat_digits.simps) simp
qed

lemma digits_value_nat_digits: "digits_value (nat_digits n) = int n"
proof (induction n rule: nat_digits.induct)
  case (1 n)
  have d: "int (of_char (char_of (48 + k :: nat))) - 48 = int k" if "k < 10" for k
    using that by (simp add: of_char_of)
  show ?case
  proof (cases "n < 10")
    case True
    then show ?thesis using d [of n] by (subst nat_digits.simps) (simp add: digits_value_def)
  next
    case False
    have "digits_value (nat_digits n) = 10 * digits_value (nat_digits (n div 10)) + int (n mod 10)"
      using False d [of "n mod 10"] by (subst nat_digits.simps) (simp add: digits_value_def)
    moreover have "digits_value (nat_digits (n div 10)) = int (n div 10)" using 1 False by simp
    ultimately show ?thesis using div_mult_mod_eq [of n 10] by linarith
  qed
qed

lemma isdigit_plain: "isdigit c \<Longrightarrow> \<not> isspace c \<and> c \<noteq> CHR '' '' \<and> c \<noteq> CHR ''-'' \<and> c \<noteq> CHR ''+'' \<and> \<not> is_lws c \<and> c \<noteq> NUL"
  by (auto simp: isdigit_def isspace_def is_lws_def char_defs Let_def)

lemma atoi_nat_digits:
  assumes "int n \<le> INT_MAX" and "r = [] \<or> \<not> isdigit (hd r)"
  shows "atoi (nat_digits n @ r) = int n" and "sscanf_d (nat_digits n @ r) = Some (int n)"
proof -
  obtain c t where ct: "nat_digits n = c # t" using nat_digits_ne by (cases "nat_digits n") auto
  then have c: "isdigit c" using nat_digits_isdigit [of n] by simp
  have "takeWhile isdigit (nat_digits n @ r) = nat_digits n"
    using nat_digits_isdigit [of n] assms(2) by (cases r) (auto simp: takeWhile_append list_all_iff takeWhile_eq_all_conv [THEN iffD2])
  with c ct isdigit_plain [OF c] show a: "atoi (nat_digits n @ r) = int n"
    using digits_value_nat_digits [of n] assms(1) by (simp add: atoi_def Let_def INT_MIN_def)
  with c ct isdigit_plain [OF c] show "sscanf_d (nat_digits n @ r) = Some (int n)"
    by (simp add: sscanf_d_def Let_def)
qed

lemma behind_line_crlf: "behind_line (l @ CRLF @ r) (length l) = length l + 2"
  using chr_at_behind [of l "CRLF @ r" 0] chr_at_behind [of l "CRLF @ r" 1]
  by (simp add: behind_line_def CRLF_def chr_at_def)

lemma version_end: "req_version_end (l @ '' SIP/2.0'' @ CRLF @ r) (length l) = Some (length l + 8)"
proof -
  let ?s = "l @ '' SIP/2.0'' @ CRLF @ r"
  have k: "chr_at ?s (length l + k) = chr_at ('' SIP/2.0'' @ CRLF @ r) k" for k by (rule chr_at_behind)
  have n: "chr_at ?s (length l + 1 + k) \<noteq> NUL" if "k < 7" for k
  proof -
    from that have "k \<in> {0, 1, 2, 3, 4, 5, 6}" by auto
    then show ?thesis using k [of "1 + k"] by (auto simp: chr_at_def char_defs)
  qed
  have "skip_chars (\<lambda>c. isdigit c \<or> c = CHR ''.'') ?s (length l + 5) = length l + 8"
    by (simp add: skip_chars_def isdigit_def CRLF_def char_defs)
  moreover have "osip_strncasecmp (drop (length l + 1) ?s) ''sip/'' 4 = 0"
    by (simp add: osip_strncasecmp_def tolower_def)
  moreover have "chr_at ?s (length l + 8) = CR" using k [of 8] by (simp add: CRLF_def chr_at_def)
  ultimately show ?thesis using n by (auto simp: req_version_end_def Let_def)
qed

lemma startline_request:
  assumes "wf_start (Request m u)"
  shows "osip_message_startline_parse osip_message_init (start_text (Request m u) @ CRLF @ r)
     = (OSIP_SUCCESS, start_message (Request m u), length (start_text (Request m u)) + 2)"
proof -
  let ?t = "uri_text u" and ?l = "m @ '' '' @ uri_text u"
  let ?s = "m @ '' '' @ ?t @ '' SIP/2.0'' @ CRLF @ r"
  have m: "m \<noteq> []" "line_chars m" "CHR '' '' \<notin> set m" "take 4 m \<noteq> ''SIP/''" "wf_uri u"
    and t: "2 \<le> length ?t" "\<forall>c\<in>set ?t. \<not> is_lws c \<and> c \<noteq> NUL"
    using assms by (simp_all add: wf_start_def)
  then have sp: "CHR '' '' \<notin> set ?t" by (auto simp: is_lws_def)
  obtain a b t' where t': "?t = a # b # t'" using t(1) by (cases ?t; cases "tl ?t") auto
  have "take 4 ?s \<noteq> ''SIP/''"
  proof
    assume eq: "take 4 ?s = ''SIP/''"
    have "CHR '' '' \<notin> set (take 4 ?s)" unfolding eq by simp
    then have "4 \<le> length m" by (cases "4 \<le> length m") (auto simp: take_append take_Cons')
    with eq m(4) show False by simp
  qed
  moreover have "strchr ?s 0 (CHR '' '') = Some (length m)" using m(3) by (simp add: strchr_text)
  moreover have "chr_at ?s (length m + 1) = a" "chr_at ?s (length m + 2) = b"
    using chr_at_behind [of m "'' '' @ ?t @ '' SIP/2.0'' @ CRLF @ r" 1] chr_at_behind [of m "'' '' @ ?t @ '' SIP/2.0'' @ CRLF @ r" 2]
    by (simp_all add: t' chr_at_def)
  moreover have "a \<noteq> NUL" "b \<noteq> NUL" using t(2) t' by auto
  moreover have "strchr ?s (length m + 2) (CHR '' '') = Some (length m + 1 + length ?t)"
    using strchr_sep [of "CHR '' ''" "length m + 2" ?l "''SIP/2.0'' @ CRLF @ r"] sp t' by simp
  moreover have "osip_clrncpy ?s (length m + 1) (length ?t) = ?t"
    using clrncpy_mid [of ?t "m @ '' ''" "'' SIP/2.0'' @ CRLF @ r"] t' t(2) by (simp add: trimmed_def)
  moreover note wf_uri_parse [OF m(5)]
  moreover have "req_version_end ?s (length m + 1 + length ?t) = Some (length m + length ?t + 9)"
    using version_end [of ?l r] by simp
  moreover have "osip_strncpy ?s (length m + length ?t + 2) 7 = ''SIP/2.0''" "osip_strncpy ?s 0 (length m) = m"
    using strncpy_at [of "?l @ '' ''" "''SIP/2.0''" "CRLF @ r"] by (simp_all add: osip_strncpy_def)
  moreover have "behind_line ?s (length m + length ?t + 9) = length m + length ?t + 11"
    using behind_line_crlf [of "?l @ '' SIP/2.0''" r] by (simp add: add.assoc eval_nat_numeral)
  ultimately show ?thesis
    using m(1) t(1) t' by (auto simp add: start_text_def start_message_def osip_message_startline_parse_def
        osip_message_startline_parsereq_def Let_def osip_message_init_def add.assoc)
qed

lemma startline_status:
  assumes "wf_start (Status code reason)"
  shows "osip_message_startline_parse osip_message_init (start_text (Status code reason) @ CRLF @ r)
     = (OSIP_SUCCESS, start_message (Status code reason), length (start_text (Status code reason)) + 2)"
proof -
  let ?d = "nat_digits code"
  let ?s = "''SIP/2.0 '' @ ?d @ '' '' @ reason @ CRLF @ r"
  have c: "0 < code" "int code \<le> INT_MAX" "line_chars reason" using assms by (simp_all add: wf_start_def)
  have nosp: "CHR '' '' \<notin> set ?d" using nat_digits_isdigit [of code] isdigit_plain by (auto simp: list_all_iff)
  have "strchr ?s 0 (CHR '' '') = Some 7" by (simp add: strchr_text eval_nat_numeral)
  moreover have "strchr ?s 8 (CHR '' '') = Some (8 + length ?d)"
    using strchr_sep [of "CHR '' ''" 8 "''SIP/2.0 '' @ ?d" "reason @ CRLF @ r"] nosp by simp
  moreover have "sscanf_d (?d @ '' '' @ reason @ CRLF @ r) = Some (int code)"
    using atoi_nat_digits(2) [OF c(2), of "'' '' @ reason @ CRLF @ r"] by (simp add: isdigit_def)
  moreover have "takeWhile (\<lambda>c. c \<noteq> CR \<and> c \<noteq> LF) ('' '' @ reason @ CRLF @ r) = '' '' @ reason"
    using c(3) by (auto simp: line_chars_def CRLF_def char_defs takeWhile_append takeWhile_eq_all_conv [THEN iffD2])
  then have "skip_chars (\<lambda>c. c \<noteq> CR \<and> c \<noteq> LF) ?s (8 + length ?d) = 9 + length ?d + length reason"
    using skip_chars_prefix [of "\<lambda>c. c \<noteq> CR \<and> c \<noteq> LF" "''SIP/2.0 '' @ ?d" "'' '' @ reason @ CRLF @ r"]
    by (simp add: eval_nat_numeral)
  moreover have "chr_at ?s (9 + length ?d + length reason) \<noteq> NUL"
    using chr_at_behind [of "''SIP/2.0 '' @ ?d @ '' '' @ reason" "CRLF @ r" 0]
    by (simp add: CRLF_def chr_at_def char_defs add.assoc)
  moreover have "osip_strncpy ?s (9 + length ?d) (length reason) = reason"
    using strncpy_at [of "''SIP/2.0 '' @ ?d @ '' ''" reason "CRLF @ r"] by (simp add: eval_nat_numeral)
  moreover have "osip_strncpy ?s 0 7 = ''SIP/2.0''" by (simp add: osip_strncpy_def)
  moreover have "behind_line ?s (9 + length ?d + length reason) = 11 + length ?d + length reason"
    using behind_line_crlf [of "''SIP/2.0 '' @ ?d @ '' '' @ reason" r] by (simp add: add.assoc eval_nat_numeral)
  ultimately show ?thesis
    using c(1) by (simp add: start_text_def start_message_def osip_message_startline_parse_def
        osip_message_startline_parseresp_def Let_def osip_message_init_def add.assoc)
qed

lemma startline_text:
  "wf_start st \<Longrightarrow> osip_message_startline_parse osip_message_init (start_text st @ CRLF @ r)
     = (OSIP_SUCCESS, start_message st, length (start_text st) + 2)"
  by (cases st) (use startline_request startline_status in blast)+

lemma start_text_chars: "wf_start st \<Longrightarrow> line_chars (start_text st) \<and> start_text st \<noteq> []"
proof (cases st)
  case (Request m u)
  assume "wf_start st"
  with Request show ?thesis
    by (auto simp: wf_start_def start_text_def line_chars_def is_lws_def char_defs)
next
  case (Status code reason)
  assume "wf_start st"
  moreover have "c \<noteq> NUL \<and> c \<noteq> CR \<and> c \<noteq> LF" if "c \<in> set (nat_digits code)" for c
    using that nat_digits_isdigit [of code] isdigit_plain [of c] by (auto simp: list_all_iff is_lws_def)
  ultimately show ?thesis
    using Status by (auto simp: wf_start_def start_text_def line_chars_def char_defs)
qed

subsection \<open>Text without continuation lines\<close>

lemma lws_plain:
  assumes "osip_util_replace_all_lws r = Some r" and "c \<noteq> CR" and "c \<noteq> LF" and "c \<noteq> NUL"
  shows "osip_util_replace_all_lws (c # r) = Some (c # r)"
  using assms by (subst osip_util_replace_all_lws.simps) (auto simp: chr_at_def)

lemma lws_line:
  "osip_util_replace_all_lws r = Some r \<Longrightarrow> line_chars s \<Longrightarrow> osip_util_replace_all_lws (s @ r) = Some (s @ r)"
  by (induction s) (auto simp: line_chars_def intro: lws_plain)

lemma lws_crlf:
  assumes "osip_util_replace_all_lws r = Some r" and "\<not> is_blank (chr_at r 0)"
  shows "osip_util_replace_all_lws (CRLF @ r) = Some (CRLF @ r)"
proof -
  have "osip_util_replace_all_lws (LF # r) = Some (LF # r)"
    using assms by (subst osip_util_replace_all_lws.simps) (auto simp: chr_at_def char_defs)
  moreover have "chr_at (CR # LF # r) 1 = LF" "chr_at (CR # LF # r) 2 = chr_at r 0" by (simp_all add: chr_at_def)
  moreover have "\<not> is_blank LF" by (simp add: is_blank_def char_defs)
  ultimately show ?thesis
    using assms(2) by (subst osip_util_replace_all_lws.simps) (simp add: CRLF_def)
qed

lemma lws_end: "osip_util_replace_all_lws (CRLF @ CRLF @ r) = Some (CRLF @ CRLF @ r)"
  by (subst osip_util_replace_all_lws.simps) (simp add: CRLF_def eval_nat_numeral)

lemma lws_lines:
  "\<forall>l\<in>set ls. wf_line l \<Longrightarrow> line_chars s \<Longrightarrow>
   osip_util_replace_all_lws (s @ CRLF @ lines_text ls @ CRLF @ body) = Some (s @ CRLF @ lines_text ls @ CRLF @ body)"
proof (induction ls arbitrary: s)
  case Nil
  show ?case using lws_line [OF lws_end Nil.prems(2)] by simp
next
  case (Cons l ls)
  have "line_chars (line_text l)" using Cons.prems(1) line_text_chars by simp
  with Cons have "osip_util_replace_all_lws (lines_text (l # ls) @ CRLF @ body) = Some (lines_text (l # ls) @ CRLF @ body)"
    by simp
  from lws_line [OF lws_crlf [OF this lines_head [OF Cons.prems(1)]] Cons.prems(2)] show ?case by simp
qed

subsection \<open>The message\<close>

text \<open>A body and the headers that announce it.\<close>

definition announces :: "message \<Rightarrow> string \<Rightarrow> bool" where
  "announces m body \<longleftrightarrow>
     (case msg_content_length m of
        None \<Rightarrow> body = []
      | Some cl \<Rightarrow> (case cl_value cl of None \<Rightarrow> False | Some v \<Rightarrow> atoi v = int (length body)))
     \<and> (body \<noteq> [] \<longrightarrow>
        (case msg_content_type m of
           None \<Rightarrow> False
         | Some ct \<Rightarrow> ct_subtype ct \<noteq> None \<and>
             (case ct_type ct of None \<Rightarrow> False | Some t \<Rightarrow> osip_strcasecmp t ''multipart'' \<noteq> 0)))"

definition with_body :: "message \<Rightarrow> string \<Rightarrow> message" where
  "with_body m body =
     (if body = [] then default_content_length m
      else m\<lparr>message_property := 2,
             bodies := bodies m @ [\<lparr>body_buffer = Some body, body_length = length body, body_headers = Some [], body_content_type = None\<rparr>]\<rparr>)"

lemma cstr_prefix: "NUL \<notin> set a \<Longrightarrow> cstr (a @ b) = a @ cstr b"
  by (auto simp: cstr_def takeWhile_append takeWhile_eq_all_conv [THEN iffD2])

lemma lines_text_nul: "\<forall>l\<in>set ls. wf_line l \<Longrightarrow> NUL \<notin> set (lines_text ls)"
proof (induction ls)
  case (Cons l ls)
  then have "line_chars (line_text l)" by (simp add: line_text_chars)
  with Cons show ?case by (auto simp: line_chars_def CRLF_def char_defs)
qed simp

lemma plain_body:
  assumes "announces m body" and "body \<noteq> []"
  shows "msg_osip_body_parse m (pre @ CRLF @ body) (length pre) = Some (OSIP_SUCCESS, with_body m body)"
proof -
  obtain cl v where cl: "msg_content_length m = Some cl" "cl_value cl = Some v" "atoi v = int (length body)"
    using assms by (auto simp: announces_def split: option.splits)
  obtain ct t u where ct: "msg_content_type m = Some ct" "ct_type ct = Some t" "ct_subtype ct = Some u"
    "osip_strcasecmp t ''multipart'' \<noteq> 0"
    using assms by (auto simp: announces_def split: option.splits)
  have "chr_at (pre @ CRLF @ body) (length pre) = CR" "chr_at (pre @ CRLF @ body) (length pre + 1) = LF"
    by (simp_all add: chr_at_append CRLF_def) (simp_all add: chr_at_def nth_append)
  then have "body_start (pre @ CRLF @ body) (length pre) = Some (length pre + 2)" by (simp add: body_start_def)
  moreover have "drop (length pre + 2) (pre @ CRLF @ body) = body" by (simp add: CRLF_def)
  ultimately show ?thesis
    using assms(2) cl ct
    by (simp add: msg_osip_body_parse_def plain_body_parse_def Let_def osip_atoi_def CRLF_def
        osip_message_set_body_def osip_body_parse_def osip_body_init_def with_body_def)
qed

lemma osip_message_parse_lines:
  assumes "wf_start st" and "\<forall>l\<in>set ls. wf_line l"
    and "store_headers table (start_message st) ls = Some (OSIP_SUCCESS, m)" and "announces m body"
  shows "osip_message_parse table osip_message_init (start_text st @ CRLF @ lines_text ls @ CRLF @ body)
     = Some (OSIP_SUCCESS, with_body m body)"
proof -
  let ?h = "start_text st @ CRLF @ lines_text ls" and ?b = "start_text st @ CRLF @ lines_text ls @ CRLF @ body"
  have st: "line_chars (start_text st)" "start_text st \<noteq> []" using start_text_chars [OF assms(1)] by simp_all
  have "NUL \<notin> set (lines_text ls)" by (rule lines_text_nul [OF assms(2)])
  then have nul: "NUL \<notin> set (?h @ CRLF)" using st by (auto simp: line_chars_def CRLF_def char_defs)
  have cs: "cstr ?b = ?h @ CRLF @ cstr body" using cstr_prefix [OF nul, of body] by simp
  define b where "b = ?b"
  define p where "p = length ?h"
  define q where "q = length (start_text st @ CRLF)"
  have skip: "dropWhile (\<lambda>c. c = CR \<or> c = LF) b = b"
    using st by (cases "start_text st") (auto simp: line_chars_def b_def)
  have lws: "osip_util_replace_all_lws b = Some b"
    unfolding b_def by (rule lws_lines [OF assms(2) st(1)])
  have hd: "osip_message_startline_parse osip_message_init (cstr b) = (OSIP_SUCCESS, start_message st, q)"
    using startline_text [OF assms(1), of "lines_text ls @ CRLF @ cstr body"] cs by (simp add: b_def q_def CRLF_def)
  have hs: "msg_headers_parse table (start_message st) (cstr b) q = Some (OSIP_SUCCESS, m, Some p)"
    using msg_headers_lines [OF assms(2), of table "start_message st" "start_text st @ CRLF" "cstr body"] assms(3) cs
    by (simp only: b_def p_def q_def append_assoc) simp
  have at: "chr_at b p = CR" "chr_at b (p + 1) = LF" "length b = p + 2 + length body"
    using chr_at_behind [of ?h "CRLF @ body" 0] chr_at_behind [of ?h "CRLF @ body" 1]
    by (simp_all add: CRLF_def chr_at_def b_def p_def)
  have body: "msg_osip_body_parse m b p = Some (OSIP_SUCCESS, with_body m body)" if "body \<noteq> []"
    using plain_body [OF assms(4) that, of ?h] by (simp add: b_def p_def)
  have parse: "osip_message_parse table osip_message_init b =
      (if has_body m b p then do {
         (i, sip) \<leftarrow> msg_osip_body_parse m b p;
         Some (if i \<noteq> 0 then (i, sip) else (OSIP_SUCCESS, default_content_length sip)) }
       else Some (OSIP_SUCCESS, default_content_length m))"
  proof -
    have "(case msg_content_length m of Some cl \<Rightarrow> if cl_value cl = None then m\<lparr>msg_content_length := None\<rparr> else m | None \<Rightarrow> m) = m"
      using assms(4) by (auto simp: announces_def split: option.splits)
    then show ?thesis by (simp add: osip_message_parse_def message_parse_def skip lws hd hs cong: if_cong)
  qed
  have "osip_message_parse table osip_message_init b = Some (OSIP_SUCCESS, with_body m body)"
  proof (cases "body = []")
    case True
    then have "\<not> has_body m b p"
      using assms(4) at by (auto simp: has_body_def announces_def char_defs split: option.splits)
    with True show ?thesis by (simp add: parse with_body_def)
  next
    case False
    then obtain cl v where cl: "msg_content_length m = Some cl" "cl_value cl = Some v" "atoi v = int (length body)"
      using assms(4) by (auto simp: announces_def split: option.splits)
    then have "has_body m b p" using False by (simp add: has_body_def)
    moreover have "default_content_length (with_body m body) = with_body m body"
      using cl False by (simp add: with_body_def default_content_length_def)
    ultimately show ?thesis by (simp add: parse body [OF False])
  qed
  then show ?thesis by (simp only: b_def)
qed

text \<open>
  C29. A message that consists of a start line, header lines and a body, rendered line by line, is parsed into the
  start line's message with the headers stored in order and the body attached byte for byte, zero
  bytes included.
\<close>

theorem osip_message_parse_text:
  assumes "wf_start st" and "\<forall>l\<in>set ls. wf_line l"
    and "store_headers table (start_message st) ls = Some (OSIP_SUCCESS, m)" and "announces m body"
  shows "osip_message_parse table osip_message_init (start_text st @ CRLF @ lines_text ls @ CRLF @ body)
     = Some (OSIP_SUCCESS, with_body m body)"
  by (rule osip_message_parse_lines [OF assms])

section \<open>Requests\<close>

text \<open>How the headers of a request are stored.\<close>

lemma lower_names:
  "osip_tolower ''Via'' = ''via''" "osip_tolower ''From'' = ''from''" "osip_tolower ''To'' = ''to''"
  "osip_tolower ''Call-ID'' = ''call-id''" "osip_tolower ''CSeq'' = ''cseq''"
  "osip_tolower ''c'' = ''c''" "osip_tolower ''l'' = ''l''" "osip_tolower ''x'' = ''x''"
  by code_simp+

lemma store_known:
  assumes "osip_tolower n = hdr" and "hdr \<in> set unsplit_headers \<or> CHR '','' \<notin> set v"
    and "linear_search 0 hdr (map cfg_hname pconfig) = int k"
  shows "osip_message_set_multiple_header (snd parser_init) sip n (Some v) = osip_message_call_method (int k) sip (Some v)"
proof -
  have "strchr v 0 (CHR '','') = None \<or> hdr \<in> set unsplit_headers" using assms(2) by (auto simp: strchr_no_sep)
  then show ?thesis
    using assms(1,3) by (auto simp: osip_message_set_multiple_header_def osip_message_set__header_def known_header_search)
qed

lemma store_via:
  assumes "wf_via v" and "wf_line (''Via'', via_text v)" and "CHR '','' \<notin> set (via_text v)"
  shows "osip_message_set_multiple_header (snd parser_init) sip ''Via'' (Some (via_text v))
     = Some (OSIP_SUCCESS, sip\<lparr>message_property := 2, vias := vias sip @ [v]\<rparr>)"
proof -
  have "chr_at (via_text v) 0 \<noteq> NUL" by (simp add: via_text_def chr_at_def char_defs)
  moreover have "osip_message_set_multiple_header (snd parser_init) sip ''Via'' (Some (via_text v))
     = osip_message_call_method (int 31) sip (Some (via_text v))"
    by (rule store_known [where hdr = "''via''"]) (simp_all add: lower_names assms(3) pconfig_def)
  ultimately show ?thesis
    using wf_via_parse [OF assms(1)]
    by (simp add: osip_message_call_method_def pconfig_def osip_message_set_via_def add_parsed_def)
qed

lemma wf_line_head: "wf_line (n, v) \<Longrightarrow> chr_at v 0 \<noteq> NUL"
  by (cases v) (auto simp: wf_line_def line_chars_def chr_at_def strip_def)

lemma store_from_to:
  assumes "wf_from f" and "wf_line (n, from_text f)"
  shows "n = ''From'' \<Longrightarrow> msg_from sip = None \<Longrightarrow>
      osip_message_set_multiple_header (snd parser_init) sip n (Some (from_text f))
        = Some (OSIP_SUCCESS, sip\<lparr>message_property := 2, msg_from := Some f\<rparr>)"
    and "n = ''To'' \<Longrightarrow> msg_to sip = None \<Longrightarrow>
      osip_message_set_multiple_header (snd parser_init) sip n (Some (from_text f))
        = Some (OSIP_SUCCESS, sip\<lparr>message_property := 2, msg_to := Some f\<rparr>)"
proof -
  note p = wf_from_parse [OF assms(1)] wf_line_head [OF assms(2)]
  have "osip_message_set_multiple_header (snd parser_init) sip ''From'' (Some (from_text f))
     = osip_message_call_method (int 18) sip (Some (from_text f))"
    by (rule store_known [where hdr = "''from''"]) (simp_all add: lower_names unsplit_headers_def pconfig_def)
  then show "n = ''From'' \<Longrightarrow> msg_from sip = None \<Longrightarrow>
      osip_message_set_multiple_header (snd parser_init) sip n (Some (from_text f))
        = Some (OSIP_SUCCESS, sip\<lparr>message_property := 2, msg_from := Some f\<rparr>)"
    using p by (simp add: osip_message_call_method_def pconfig_def total_setter_def osip_message_set_from_def
        single_setter_def parse_into_def)
  have "osip_message_set_multiple_header (snd parser_init) sip ''To'' (Some (from_text f))
     = osip_message_call_method (int 29) sip (Some (from_text f))"
    by (rule store_known [where hdr = "''to''"]) (simp_all add: lower_names unsplit_headers_def pconfig_def)
  then show "n = ''To'' \<Longrightarrow> msg_to sip = None \<Longrightarrow>
      osip_message_set_multiple_header (snd parser_init) sip n (Some (from_text f))
        = Some (OSIP_SUCCESS, sip\<lparr>message_property := 2, msg_to := Some f\<rparr>)"
    using p by (simp add: osip_message_call_method_def pconfig_def total_setter_def osip_message_set_to_def
        single_setter_def parse_into_def)
qed

lemma store_call_id:
  assumes "osip_call_id_parse osip_call_id_init t = (OSIP_SUCCESS, c)" and "wf_line (''Call-ID'', t)"
    and "msg_call_id sip = None"
  shows "osip_message_set_multiple_header (snd parser_init) sip ''Call-ID'' (Some t)
     = Some (OSIP_SUCCESS, sip\<lparr>message_property := 2, msg_call_id := Some c\<rparr>)"
proof -
  have "osip_message_set_multiple_header (snd parser_init) sip ''Call-ID'' (Some t) = osip_message_call_method (int 8) sip (Some t)"
    by (rule store_known [where hdr = "''call-id''"]) (simp_all add: lower_names unsplit_headers_def pconfig_def)
  then show ?thesis
    using assms wf_line_head [OF assms(2)]
    by (simp add: osip_message_call_method_def pconfig_def total_setter_def osip_message_set_call_id_def single_setter_def)
qed

lemma store_cseq:
  assumes "osip_cseq_parse (Some osip_cseq_init) (Some t) = (OSIP_SUCCESS, Some c)" and "wf_line (''CSeq'', t)"
    and "msg_cseq sip = None"
  shows "osip_message_set_multiple_header (snd parser_init) sip ''CSeq'' (Some t)
     = Some (OSIP_SUCCESS, sip\<lparr>message_property := 2, msg_cseq := Some c\<rparr>)"
proof -
  have "osip_message_set_multiple_header (snd parser_init) sip ''CSeq'' (Some t) = osip_message_call_method (int 14) sip (Some t)"
    by (rule store_known [where hdr = "''cseq''"]) (simp_all add: lower_names unsplit_headers_def pconfig_def)
  then show ?thesis
    using assms wf_line_head [OF assms(2)]
    by (simp add: osip_message_call_method_def pconfig_def total_setter_def osip_message_set_cseq_def
        single_setter_def parse_into_def)
qed

text \<open>
  A request that is written with the printers of the headers and parsed again: the parsed
  message has exactly the structures that were printed.
\<close>

theorem request_roundtrip:
  assumes "wf_start (Request meth u)" and "wf_via v" and "wf_from f" and "wf_from t" and "wf_call_id ci" and "wf_cseq cs"
    and "osip_via_to_str (Some v) = Some (OSIP_SUCCESS, Some vs)" and "osip_from_to_str (Some f) = Some (OSIP_SUCCESS, Some fs)"
    and "osip_from_to_str (Some t) = Some (OSIP_SUCCESS, Some ts)" and "osip_call_id_to_str (Some ci) = Some (OSIP_SUCCESS, Some cis)"
    and "osip_cseq_to_str (Some cs) = (OSIP_SUCCESS, Some css)"
    and "\<forall>l\<in>set [(''Via'', vs), (''From'', fs), (''To'', ts), (''Call-ID'', cis), (''CSeq'', css)]. wf_line l \<and> trimmed (snd l)"
    and "CHR '','' \<notin> set vs"
  shows "osip_message_parse (snd parser_init) osip_message_init
      (meth @ '' '' @ uri_text u @ '' SIP/2.0'' @ CRLF
        @ lines_text [(''Via'', vs), (''From'', fs), (''To'', ts), (''Call-ID'', cis), (''CSeq'', css)] @ CRLF)
    = Some (OSIP_SUCCESS, osip_message_init\<lparr>sip_method := Some meth, req_uri := Some u, sip_version := Some ''SIP/2.0'',
        message_property := 2, vias := [v], msg_from := Some f, msg_to := Some t, msg_call_id := Some ci, msg_cseq := Some cs,
        msg_content_length := Some \<lparr>cl_value = Some ''0''\<rparr>\<rparr>)"
proof -
  let ?ls = "[(''Via'', vs), (''From'', fs), (''To'', ts), (''Call-ID'', cis), (''CSeq'', css)]"
  have texts: "vs = via_text v" "fs = from_text f" "ts = from_text t"
    using assms(2-4,7-9) by (simp_all add: wf_via_to_str wf_from_to_str)
  have parses: "osip_call_id_parse osip_call_id_init cis = (OSIP_SUCCESS, ci)"
    "osip_cseq_parse (Some osip_cseq_init) (Some css) = (OSIP_SUCCESS, Some cs)"
    using call_id_codec_ok [OF assms(5)] cseq_codec_ok [OF assms(6)] assms(10,11) by auto
  define m where "m = (start_message (Request meth u))\<lparr>message_property := 2, vias := [v], msg_from := Some f,
    msg_to := Some t, msg_call_id := Some ci, msg_cseq := Some cs\<rparr>"
  have wf: "wf_line (''Via'', via_text v)" "wf_line (''From'', from_text f)" "wf_line (''To'', from_text t)"
    "wf_line (''Call-ID'', cis)" "wf_line (''CSeq'', css)" using assms(12) texts by simp_all
  have tr: "strip (via_text v) = via_text v" "strip (from_text f) = from_text f" "strip (from_text t) = from_text t"
    "strip cis = cis" "strip css = css" using assms(12) texts by (simp_all add: strip_trimmed)
  have lines: "\<forall>l\<in>set ?ls. wf_line l" using assms(12) by simp
  have "store_headers (snd parser_init) (start_message (Request meth u)) ?ls = Some (OSIP_SUCCESS, m)"
    unfolding texts m_def using assms(13) texts
    by (simp add: tr store_via [OF assms(2) wf(1)] store_from_to [OF assms(3) wf(2)] store_from_to [OF assms(4) wf(3)]
        store_call_id [OF parses(1) wf(4)] store_cseq [OF parses(2) wf(5)] start_message_def osip_message_init_def)
  moreover have "announces m []" by (simp add: announces_def m_def start_message_def osip_message_init_def)
  ultimately have "osip_message_parse (snd parser_init) osip_message_init
      (start_text (Request meth u) @ CRLF @ lines_text ?ls @ CRLF @ []) = Some (OSIP_SUCCESS, with_body m [])"
    by (rule osip_message_parse_lines [OF assms(1) lines])
  moreover have "with_body m [] = osip_message_init\<lparr>sip_method := Some meth, req_uri := Some u, sip_version := Some ''SIP/2.0'',
        message_property := 2, vias := [v], msg_from := Some f, msg_to := Some t, msg_call_id := Some ci, msg_cseq := Some cs,
        msg_content_length := Some \<lparr>cl_value = Some ''0''\<rparr>\<rparr>"
    by (simp add: with_body_def default_content_length_def m_def start_message_def osip_message_init_def
        osip_message_set_content_length_def single_setter_def osip_content_length_parse_def osip_content_length_init_def
        chr_at_def char_defs osip_strncpy_def)
  ultimately show ?thesis by (simp add: start_text_def)
qed

subsection \<open>Examples\<close>

definition sample_typed :: message where
  "sample_typed = (start_message (Status 200 ''OK''))
     \<lparr>message_property := 2, msg_content_type := Some \<lparr>ct_type = Some ''text'', ct_subtype = Some ''plain'', ct_gen_params = []\<rparr>,
      msg_content_length := Some \<lparr>cl_value = Some ''3''\<rparr>\<rparr>"

lemma sample_typed_stored:
  "store_headers (snd parser_init) (start_message (Status 200 ''OK'')) [(''c'', ''text/plain''), (''l'', ''3'')]
     = Some (OSIP_SUCCESS, sample_typed)"
proof -
  have c: "osip_message_set_multiple_header (snd parser_init) sip ''c'' (Some v) = osip_message_call_method (int 7) sip (Some v)"
    if "CHR '','' \<notin> set v" for sip v
    by (rule store_known [where hdr = "''c''"]) (use that in \<open>simp_all add: lower_names pconfig_def\<close>)
  have l: "osip_message_set_multiple_header (snd parser_init) sip ''l'' (Some v) = osip_message_call_method (int 20) sip (Some v)"
    if "CHR '','' \<notin> set v" for sip v
    by (rule store_known [where hdr = "''l''"]) (use that in \<open>simp_all add: lower_names pconfig_def\<close>)
  have ct: "osip_content_type_parse osip_content_type_init (Some ''text/plain'')
      = (OSIP_SUCCESS, \<lparr>ct_type = Some ''text'', ct_subtype = Some ''plain'', ct_gen_params = []\<rparr>)"
    by code_simp
  have "strip ''text/plain'' = ''text/plain''" "strip ''3'' = ''3''" by (simp_all add: strip_def is_lws_def char_defs)
  moreover have n: "chr_at ''text/plain'' 0 \<noteq> NUL" "chr_at ''3'' 0 \<noteq> NUL" by (simp_all add: chr_at_def char_defs)
  ultimately show ?thesis
    by (simp add: c l osip_message_call_method_def pconfig_def total_setter_def osip_message_set_content_type_def
        osip_message_set_content_length_def single_setter_def ct n osip_content_length_parse_def osip_content_length_init_def
        osip_strncpy_def sample_typed_def start_message_def osip_message_init_def)
qed

lemma sample_lines: "wf_start (Status 200 ''OK'')" "\<forall>l\<in>set [(''c'', ''text/plain''), (''l'', ''3'')]. wf_line l"
  by (simp_all add: wf_start_def wf_line_def line_chars_def trimmed_def is_lws_def char_defs INT_MAX_def strip_def)

theorem osip_message_parse_text_witness:
  "osip_message_parse (snd parser_init) osip_message_init
     (start_text (Status 200 ''OK'') @ CRLF @ lines_text [(''c'', ''text/plain''), (''l'', ''3'')] @ CRLF @ [CHR ''a'', NUL, CHR ''b''])
   = Some (OSIP_SUCCESS, with_body sample_typed [CHR ''a'', NUL, CHR ''b''])"
proof -
  have "announces sample_typed [CHR ''a'', NUL, CHR ''b'']"
  proof -
    have "atoi ''3'' = 3" "osip_strcasecmp ''text'' ''multipart'' \<noteq> 0" by code_simp+
    then show ?thesis by (simp add: announces_def sample_typed_def)
  qed
  from osip_message_parse_text [OF sample_lines sample_typed_stored this] show ?thesis .
qed

theorem request_roundtrip_witness:
  "osip_message_parse (snd parser_init) osip_message_init
      (''BYE '' @ uri_text sample_uri @ '' SIP/2.0'' @ CRLF
        @ lines_text [(''Via'', via_text sample_via), (''From'', from_text sample_from), (''To'', from_text sample_from),
            (''Call-ID'', ''1@h''), (''CSeq'', ''2 BYE'')] @ CRLF)
    = Some (OSIP_SUCCESS, osip_message_init\<lparr>sip_method := Some ''BYE'', req_uri := Some sample_uri, sip_version := Some ''SIP/2.0'',
        message_property := 2, vias := [sample_via], msg_from := Some sample_from, msg_to := Some sample_from,
        msg_call_id := Some \<lparr>call_id_number = Some ''1'', call_id_host = Some ''h''\<rparr>,
        msg_cseq := Some \<lparr>cseq_method = Some ''BYE'', cseq_number = Some ''2''\<rparr>,
        msg_content_length := Some \<lparr>cl_value = Some ''0''\<rparr>\<rparr>)"
proof -
  let ?ci = "\<lparr>call_id_number = Some ''1'', call_id_host = Some ''h''\<rparr>" and ?cs = "\<lparr>cseq_method = Some ''BYE'', cseq_number = Some ''2''\<rparr>"
  have "wf_call_id ?ci" "wf_cseq ?cs" by code_simp+
  moreover have "osip_call_id_to_str (Some ?ci) = Some (OSIP_SUCCESS, Some ''1@h'')" by code_simp
  moreover have "osip_cseq_to_str (Some ?cs) = (OSIP_SUCCESS, Some ''2 BYE'')" by code_simp
  moreover have "wf_start (Request ''BYE'' sample_uri)"
    using sample_uri_wf by code_simp
  moreover have "\<forall>l\<in>set [(''Via'', via_text sample_via), (''From'', from_text sample_from), (''To'', from_text sample_from),
      (''Call-ID'', ''1@h''), (''CSeq'', ''2 BYE'')]. wf_line l \<and> trimmed (snd l)" by code_simp
  moreover have "CHR '','' \<notin> set (via_text sample_via)" by code_simp
  ultimately show ?thesis
    using request_roundtrip [of "''BYE''" sample_uri sample_via sample_from sample_from ?ci ?cs "via_text sample_via"
        "from_text sample_from" "from_text sample_from" "''1@h''" "''2 BYE''"]
      sample_via_wf sample_from_wf wf_via_to_str [OF sample_via_wf] wf_from_to_str [OF sample_from_wf]
    by simp
qed

section \<open>Defects\<close>

text \<open>The backslash in front of a quote is never seen: the count starts at the quote itself.\<close>

lemma backslashes_quote: "chr_at v p = DQUOTE \<Longrightarrow> backslashes v beg p = 0"
  by (subst backslashes.simps) (simp add: char_defs)

lemma chr_at_in_set: "NUL \<notin> set x \<Longrightarrow> i < length x \<Longrightarrow> chr_at x i \<noteq> NUL"
  by (metis chr_at_def nth_mem)

lemma lws_fault_line:
  assumes "line_chars s" and "w \<noteq> []" and "list_all is_blank w" and "2 \<le> length w"
  shows "osip_util_replace_all_lws (s @ CRLF @ w) = None"
  using assms(1)
proof (induction s)
  case Nil
  obtain a b w' where w: "w = a # b # w'" using assms(4) by (cases w; cases "tl w") auto
  then have ab: "is_blank a" "is_blank b" and r: "\<forall>x\<in>set w'. is_blank x" using assms(3) by (auto simp: list_all_iff)
  from r have d: "dropWhile is_blank w' = []" by (simp add: dropWhile_eq_Nil_conv)
  have n: "a \<noteq> NUL" "b \<noteq> NUL" "a \<noteq> CR" using ab by (auto simp: is_blank_def char_defs)
  have l: "CR \<noteq> NUL" "LF \<noteq> NUL" "CR \<noteq> LF" "LF \<noteq> CR" by (simp_all add: char_defs)
  let ?t = "CR # LF # a # b # w'"
  have at: "chr_at ?t 0 = CR" "chr_at ?t 1 = LF" "chr_at ?t 2 = a" "chr_at ?t 3 = b"
    by (simp_all add: chr_at_def eval_nat_numeral)
  have t: "take 4 ?t = [CR, LF, a, b]" "take 2 ?t = [CR, LF]" "drop 2 ?t = a # b # w'"
    by (simp_all add: eval_nat_numeral)
  have "osip_util_replace_all_lws ?t = None"
    by (subst osip_util_replace_all_lws.simps) (simp only: at t n l ab d if_True if_False simp_thms list.inject
      dropWhile.simps list.case not_Cons_self2 option.distinct)
  then have "osip_util_replace_all_lws (CR # LF # w) = None" by (simp only: w)
  then show ?case by (simp add: CRLF_def)
next
  case (Cons c s)
  have c: "c \<noteq> NUL" "c \<noteq> CR" "c \<noteq> LF" and s: "line_chars s" using Cons.prems by (simp_all add: line_chars_def)
  have "\<not> is_blank NUL" by (simp add: is_blank_def char_defs)
  then have "NUL \<notin> set w" using assms(3) by (auto simp: list_all_iff)
  then have nul: "NUL \<notin> set (c # s @ CRLF @ w)" using c s by (auto simp: line_chars_def CRLF_def char_defs)
  have "3 < length (c # s @ CRLF @ w)" using assms(2,4) unfolding CRLF_def by (cases w) simp_all
  then have n: "chr_at (c # s @ CRLF @ w) i \<noteq> NUL" if "i \<le> 3" for i
    using that chr_at_in_set [OF nul, of i] by simp
  have t: "take 4 (c # r) \<noteq> [CR, LF, CR, LF]" "take 2 (c # r) \<noteq> [CR, x]" "take 2 (c # r) \<noteq> [LF, LF]"
    "chr_at (c # r) 0 = c" "drop 1 (c # r) = r" for r x
    using c by (simp_all add: chr_at_def eval_nat_numeral)
  show ?case
    using Cons.IH [OF s] n [of 0] n [of 1] n [of 2] n [of 3] c
    by (subst osip_util_replace_all_lws.simps) (simp only: append_Cons t if_False simp_thms if_True bind.simps)
qed

lemma strstr_here: "strstr (needle @ r) needle = Some 0"
  by (subst strstr.simps) simp

lemma occurrence_here:
  assumes "NUL \<notin> set sep"
  shows "osip_find_next_occurence sep (pre @ sep @ r) (length pre) = (OSIP_SUCCESS, Some (length pre))"
proof -
  have "cstr (sep @ r) = sep @ cstr r" using assms by (rule cstr_prefix)
  then show ?thesis
    by (simp add: osip_find_next_occurence_def eval_nat_numeral(2) numeral_eq_Suc strstr_here)
qed

lemma msg_headers_mono: "line_chars (start_text st) \<Longrightarrow> start_text st \<noteq> [] \<Longrightarrow>
   dropWhile (\<lambda>c. c = CR \<or> c = LF) (start_text st @ r) = start_text st @ r"
  by (cases "start_text st") (auto simp: line_chars_def)

lemma split_step:
  assumes "p < length v"
  shows "chr_at v p = DQUOTE \<Longrightarrow> split_values table h v p beg q u sip = split_values table h v (p + 1) beg (\<not> q) u sip"
    and "chr_at v p \<notin> {DQUOTE, CHR ''<'', CHR ''>'', CHR '',''} \<Longrightarrow>
      split_values table h v p beg q u sip = split_values table h v (p + 1) beg q u sip"
  using assms by (subst split_values.simps, simp add: backslashes_quote)+

text \<open>Two boundaries in a row leave a part of negative length.\<close>

lemma multipart_fault:
  assumes "NUL \<notin> set gv"
  shows "multipart_loop sip gv (pre @ separator gv @ separator gv @ r) (length pre) = None"
proof -
  let ?sep = "separator gv" and ?b = "pre @ separator gv @ separator gv @ r"
  have "set ?sep \<subseteq> set gv \<union> {LF, CHR ''-''}"
    by (auto simp: separator_def dest: in_set_takeD in_set_dropD)
  with assms have nul: "NUL \<notin> set ?sep" by (auto simp: char_defs)
  have first: "osip_find_next_occurence ?sep ?b (length pre) = (OSIP_SUCCESS, Some (length pre))"
    using occurrence_here [OF nul, of pre "?sep @ r"] .
  have second: "osip_find_next_occurence ?sep ?b (length pre + length ?sep) = (OSIP_SUCCESS, Some (length pre + length ?sep))"
    using occurrence_here [OF nul, of "pre @ ?sep" r] by simp
  obtain t where t: "?sep = LF # CHR ''-'' # t" by (simp add: separator_def)
  have "chr_at ?b (length pre + length ?sep + 1) = CHR ''-''"
    using chr_at_behind [of "pre @ ?sep" "?sep @ r" 1] t by (simp add: chr_at_def add.assoc)
  then have "body_part ?b (length ?sep) (length pre) (length pre + length ?sep) = None"
    by (simp add: body_part_def Let_def char_defs)
  with first second show ?thesis by (subst multipart_loop.simps) simp
qed



end
