(* ===== verification/Osip_To_Str_Proofs.thy ===== *)
theory Osip_To_Str_Proofs
  imports Osip_To_Str Osip_Parse_Proofs
begin

text \<open>
  What \<^verbatim>\<open>osip_message_to_str\<close> prints, exactly: the buffer is always enlarged in time except for the start
  line, and the parser of theory \<open>Osip_Parse\<close> reads back the message that was printed.
\<close>

section \<open>What is printed\<close>

text \<open>The text of an entry: one line for every header; a single header that its printer refuses leaves its name.\<close>

definition printed_text :: "printed \<Rightarrow> string" where
  "printed_text h = (case h of Some (_, Some t) \<Rightarrow> t | _ \<Rightarrow> [])"

definition printed_ok :: "printed \<Rightarrow> bool" where
  "printed_ok h \<longleftrightarrow> (case h of Some (i, Some t) \<Rightarrow> i = 0 | _ \<Rightarrow> False)"

definition printed_refused :: "printed \<Rightarrow> bool" where
  "printed_refused h \<longleftrightarrow> (case h of Some (i, _) \<Rightarrow> i \<noteq> 0 | _ \<Rightarrow> False)"

definition header_text :: "string \<Rightarrow> printed \<Rightarrow> string" where
  "header_text name h = name @ (if printed_refused h then [] else printed_text h @ CRLF)"

definition entry_text :: "to_str_entry \<Rightarrow> string" where
  "entry_text e = (case header_data e of None \<Rightarrow> [] | Some h \<Rightarrow> header_text (header_name e) h)
     @ concat (map (header_text (header_name e)) (header_list e))"

definition entry_ok :: "to_str_entry \<Rightarrow> bool" where
  "entry_ok e \<longleftrightarrow> list_all printed_ok (header_list e)
     \<and> (case header_data e of None \<Rightarrow> True | Some h \<Rightarrow> printed_ok h \<or> printed_refused h)"

definition roomy :: "nat \<Rightarrow> string \<Rightarrow> bool" where
  "roomy cap buf \<longleftrightarrow> length buf < cap"

lemma printed_ok_cases: "printed_ok h \<Longrightarrow> \<exists>t. h = Some (OSIP_SUCCESS, Some t)"
  by (auto simp: printed_ok_def split: option.splits)

lemma printed_refused_cases: "printed_refused h \<Longrightarrow> \<exists>i t. h = Some (i, t) \<and> i \<noteq> 0"
  by (auto simp: printed_refused_def split: option.splits)

lemma room_fits: "length buf + n \<le> room cap buf n"
  by (simp add: room_def)

lemma strcat_header_ok:
  assumes "printed_ok h"
  shows "\<exists>cap'. strcat_header cap buf name h = Some (OSIP_SUCCESS, cap', buf @ header_text name h)"
proof -
  obtain t where h: "h = Some (OSIP_SUCCESS, Some t)" using printed_ok_cases [OF assms] by blast
  have "length buf + (100 + length name) \<le> room cap buf (100 + length name)" by (rule room_fits)
  then have n: "osip_strn_append (room cap buf (100 + length name)) buf name (length name) = Some (buf @ name)"
    by (simp add: osip_strn_append_def sprintf_end_def)
  define cap' where "cap' = room (room cap buf (100 + length name)) (buf @ name) (length t + 100)"
  have c: "length (buf @ name) + (length t + 100) \<le> cap'" unfolding cap'_def by (rule room_fits)
  then have "osip_str_append cap' (buf @ name) t = Some (buf @ name @ t)"
    "osip_strn_append cap' (buf @ name @ t) CRLF 2 = Some (buf @ name @ t @ CRLF)"
    by (simp_all add: osip_str_append_def osip_strn_append_def sprintf_end_def CRLF_def)
  with n show ?thesis
    by (simp add: strcat_header_def h header_text_def printed_text_def printed_refused_def cap'_def)
qed

lemma strcat_header_refused:
  assumes "printed_refused h"
  shows "\<exists>i cap'. strcat_header cap buf name h = Some (i, cap', buf @ header_text name h)"
proof -
  obtain i t where h: "h = Some (i, t)" "i \<noteq> 0" using printed_refused_cases [OF assms] by blast
  have "length buf + (100 + length name) \<le> room cap buf (100 + length name)" by (rule room_fits)
  then have n: "osip_strn_append (room cap buf (100 + length name)) buf name (length name) = Some (buf @ name)"
    by (simp add: osip_strn_append_def sprintf_end_def)
  then show ?thesis using h by (simp add: strcat_header_def header_text_def printed_refused_def)
qed

lemma strcat_headers_ok:
  "list_all printed_ok hs \<Longrightarrow>
   \<exists>cap'. strcat_headers_one_per_line cap buf name hs = Some (OSIP_SUCCESS, cap', buf @ concat (map (header_text name) hs))"
proof (induction hs arbitrary: cap buf)
  case (Cons h hs)
  obtain c where c: "strcat_header cap buf name h = Some (OSIP_SUCCESS, c, buf @ header_text name h)"
    using strcat_header_ok Cons.prems by fastforce
  moreover obtain c' where "strcat_headers_one_per_line c (buf @ header_text name h) name hs
      = Some (OSIP_SUCCESS, c', (buf @ header_text name h) @ concat (map (header_text name) hs))"
    using Cons.IH [of c "buf @ header_text name h"] Cons.prems by auto
  ultimately show ?case by simp
qed simp

lemma strcat_table_ok:
  "list_all entry_ok es \<Longrightarrow>
   \<exists>cap'. strcat_table cap buf es = Some (OSIP_SUCCESS, cap', buf @ concat (map entry_text es))"
proof (induction es arbitrary: cap buf)
  case (Cons e es)
  have e: "entry_ok e" and es: "list_all entry_ok es" using Cons.prems by simp_all
  define b where "b = buf @ (case header_data e of None \<Rightarrow> [] | Some h \<Rightarrow> header_text (header_name e) h)"
  obtain i c where c: "strcat_simple_header cap buf (header_name e) (header_data e) = Some (i, c, b)"
  proof (cases "header_data e")
    case None
    then show ?thesis using that by (simp add: strcat_simple_header_def b_def)
  next
    case (Some h)
    then have "printed_ok h \<or> printed_refused h" using e by (simp add: entry_ok_def)
    then show ?thesis
      using that Some strcat_header_ok [of h cap buf "header_name e"] strcat_header_refused [of h cap buf "header_name e"]
      by (auto simp: strcat_simple_header_def b_def)
  qed
  have "b @ concat (map (header_text (header_name e)) (header_list e)) = buf @ entry_text e"
    by (simp add: entry_text_def b_def)
  then obtain c' where c': "strcat_headers_one_per_line c b (header_name e) (header_list e) = Some (OSIP_SUCCESS, c', buf @ entry_text e)"
    using strcat_headers_ok [of "header_list e" c b "header_name e"] e by (auto simp: entry_ok_def)
  obtain c'' where "strcat_table c' (buf @ entry_text e) es = Some (OSIP_SUCCESS, c'', (buf @ entry_text e) @ concat (map entry_text es))"
    using Cons.IH [OF es] by blast
  with c c' show ?case by simp
qed simp

text \<open>The generic headers.\<close>

definition generic_text :: "header \<Rightarrow> string" where
  "generic_text h = printed_text (Some (osip_header_to_str (Some h))) @ CRLF"

definition generic_ok :: "header \<Rightarrow> bool" where
  "generic_ok h \<longleftrightarrow> printed_ok (Some (osip_header_to_str (Some h)))"

lemma strcat_generic_ok:
  "list_all generic_ok hs \<Longrightarrow>
   \<exists>cap'. strcat_generic cap buf hs = Some (OSIP_SUCCESS, cap', buf @ concat (map generic_text hs))"
proof (induction hs arbitrary: cap buf)
  case (Cons h hs)
  then obtain t where t: "osip_header_to_str (Some h) = (OSIP_SUCCESS, Some t)"
    using printed_ok_cases [of "Some (osip_header_to_str (Some h))"] by (auto simp: generic_ok_def)
  define c where "c = osip_message_realloc cap buf (length t + 3)"
  have "length buf + (length t + 3 + 100) \<le> c" unfolding c_def osip_message_realloc_def by (rule room_fits)
  then have "osip_str_append c buf t = Some (buf @ t)" "osip_strn_append c (buf @ t) CRLF 2 = Some (buf @ t @ CRLF)"
    by (simp_all add: osip_str_append_def osip_strn_append_def sprintf_end_def CRLF_def)
  moreover have g: "generic_text h = t @ CRLF" by (simp add: generic_text_def t printed_text_def)
  moreover obtain c' where "strcat_generic c (buf @ generic_text h) hs = Some (OSIP_SUCCESS, c', (buf @ generic_text h) @ concat (map generic_text hs))"
    using Cons.IH [of c "buf @ generic_text h"] Cons.prems by auto
  ultimately show ?case by (simp add: t Let_def c_def)
qed simp

section \<open>Bodies and the whole text\<close>

definition part_text :: "string option \<Rightarrow> body \<Rightarrow> string" where
  "part_text boundary b = (case boundary of None \<Rightarrow> [] | Some bd \<Rightarrow> bd @ CRLF)
     @ printed_text (osip_body_to_str (Some b))"

definition bodies_text :: "string option \<Rightarrow> body list \<Rightarrow> string" where
  "bodies_text boundary bs = concat (map (part_text boundary) bs)
     @ (case boundary of None \<Rightarrow> [] | Some bd \<Rightarrow> bd @ ''--'' @ CRLF)"

text \<open>The length of the bodies, right-aligned in five columns; longer numbers run over the blank and the colon.\<close>

definition content_length_text :: "nat \<Rightarrow> string" where
  "content_length_text n =
     (let d = sprintf_i (sint (word_of_nat n :: 32 word)) in take (21 - length d) ''Content-Length:      '' @ d)"

definition content_text :: "string option \<Rightarrow> body list \<Rightarrow> string" where
  "content_text boundary bs =
     (if bs = [] then ''Content-Length: 0'' @ CRLF @ CRLF
      else content_length_text (length (bodies_text boundary bs)) @ CRLF @ CRLF @ bodies_text boundary bs)"

definition header_block :: "message \<Rightarrow> string" where
  "header_block sip = concat (map entry_text (to_str_table sip)) @ concat (map generic_text (headers sip))"

lemma find_boundary_short:
  assumes "find_boundary sip = Some (Inr (Some bd))"
  shows "length bd \<le> 74"
  using assms
  by (auto simp: find_boundary_def Let_def MIME_MAX_BOUNDARY_LEN_def CRLF_def osip_strncpy_def
      split: option.splits if_splits bind_split_asm prod.splits)

lemma strcat_bodies_ok:
  assumes "case boundary of None \<Rightarrow> True | Some bd \<Rightarrow> length bd \<le> 74"
  shows "list_all (\<lambda>b. printed_ok (osip_body_to_str (Some b))) bs \<Longrightarrow> length buf + 80 < cap \<Longrightarrow>
    \<exists>cap'. strcat_bodies boundary cap buf bs = Some (OSIP_SUCCESS, cap', buf @ concat (map (part_text boundary) bs))
      \<and> length (buf @ concat (map (part_text boundary) bs)) + 80 < cap'"
proof (induction bs arbitrary: cap buf)
  case (Cons b bs)
  obtain t where t: "osip_body_to_str (Some b) = Some (OSIP_SUCCESS, Some t)"
    using printed_ok_cases Cons.prems by fastforce
  define c where "c = buf @ (case boundary of None \<Rightarrow> [] | Some bd \<Rightarrow> bd @ CRLF)"
  have bd: "(case boundary of None \<Rightarrow> Some buf
      | Some bd \<Rightarrow> do { buf \<leftarrow> osip_str_append cap buf bd; osip_strn_append cap buf CRLF 2 }) = Some c"
    using assms Cons.prems(2)
    by (auto simp: c_def osip_str_append_def osip_strn_append_def sprintf_end_def CRLF_def split: option.split)
  define cap1 where "cap1 = room cap c (100 + length t)"
  have l: "length c + (100 + length t) \<le> cap1" unfolding cap1_def by (rule room_fits)
  then have a: "osip_str_append cap1 c t = Some (c @ t)" by (simp add: osip_str_append_def sprintf_end_def)
  have ct: "c @ t = buf @ part_text boundary b"
    by (simp add: c_def part_text_def t printed_text_def)
  obtain cap' where "strcat_bodies boundary cap1 (c @ t) bs = Some (OSIP_SUCCESS, cap', (c @ t) @ concat (map (part_text boundary) bs))"
    "length ((c @ t) @ concat (map (part_text boundary) bs)) + 80 < cap'"
    using Cons.IH [of "c @ t" cap1] Cons.prems l by auto
  with a t bd show ?case by (simp add: ct Let_def cap1_def)
qed simp

lemma patch_length_text:
  assumes "length (sprintf_i (sint (word_of_nat n :: 32 word))) \<le> 21"
  shows "patch_length (pre @ ''Content-Length: '' @ ''     '' @ rest) (length pre + 16) n = pre @ content_length_text n @ rest"
proof -
  define d where "d = sprintf_i (sint (word_of_nat n :: 32 word))"
  define h where "h = ''Content-Length: '' @ ''     ''"
  have h: "length h = 21" "h = ''Content-Length:      ''" by (simp_all add: h_def)
  have "length pre + 16 + 5 - length d = length pre + (21 - length d)" using assms by (simp add: d_def)
  then have "take (length pre + 16 + 5 - length d) (pre @ h @ rest) = pre @ take (21 - length d) h" using h(1) by simp
  moreover have "drop (length pre + 16 + 5) (pre @ h @ rest) = rest" using h(1) by simp
  moreover have "patch_length (pre @ h @ rest) (length pre + 16) n
      = take (length pre + 16 + 5 - length d) (pre @ h @ rest) @ d @ drop (length pre + 16 + 5) (pre @ h @ rest)"
    by (simp only: patch_length_def Let_def d_def)
  moreover have "content_length_text n = take (21 - length d) h @ d"
    by (simp only: content_length_text_def Let_def d_def h(2))
  ultimately have "patch_length (pre @ h @ rest) (length pre + 16) n = pre @ content_length_text n @ rest" by simp
  moreover have eq: "pre @ ''Content-Length: '' @ ''     '' @ rest = pre @ h @ rest" by (simp add: h_def)
  ultimately show ?thesis by (simp only: eq)
qed

lemma nat_digits_length: "n < 10 ^ Suc k \<Longrightarrow> length (nat_digits n) \<le> Suc k"
proof (induction k arbitrary: n)
  case 0
  then show ?case by (subst nat_digits.simps) simp
next
  case (Suc k)
  show ?case
  proof (cases "n < 10")
    case True
    then show ?thesis by (subst nat_digits.simps) simp
  next
    case False
    moreover have "length (nat_digits (n div 10)) \<le> Suc k"
      using Suc.prems by (intro Suc.IH) (simp add: less_mult_imp_div_less)
    ultimately show ?thesis by (subst nat_digits.simps) simp
  qed
qed

lemma sprintf_word_length: "length (sprintf_i (sint (w :: 32 word))) \<le> 11"
proof -
  have "- (2 ^ 31) \<le> sint w" "sint w < 2 ^ 31" using sint_greater_eq [of w] sint_less [of w] by simp_all
  then have "nat (- sint w) < 10 ^ Suc 9" "nat (sint w) < 10 ^ Suc 9" by simp_all
  then show ?thesis
    using nat_digits_length [of "nat (- sint w)" 9] nat_digits_length [of "nat (sint w)" 9]
    by (simp add: sprintf_i_def)
qed

text \<open>The end of the message, after the headers.\<close>

lemma print_content_ok:
  assumes "find_boundary sip = Some (Inr boundary)" and "list_all (\<lambda>b. printed_ok (osip_body_to_str (Some b))) (bodies sip)"
  shows "print_content sip False cap buf = keep_text sip (buf @ content_text boundary (bodies sip))"
proof -
  define c where "c = osip_message_realloc cap buf 16"
  have c: "length buf + 116 \<le> c" unfolding c_def osip_message_realloc_def by (rule order_trans [OF _ room_fits]) simp
  then have h: "osip_strn_append c buf ''Content-Length: '' 16 = Some (buf @ ''Content-Length: '')"
    by (simp add: osip_strn_append_def sprintf_end_def)
  show ?thesis
  proof (cases "bodies sip = []")
    case True
    have "osip_strn_append c (buf @ ''Content-Length: '') ''0'' 1 = Some (buf @ ''Content-Length: 0'')"
      "osip_strn_append c (buf @ ''Content-Length: 0'') CRLF 2 = Some (buf @ ''Content-Length: 0'' @ CRLF)"
      "osip_strn_append c (buf @ ''Content-Length: 0'' @ CRLF) CRLF 2 = Some (buf @ ''Content-Length: 0'' @ CRLF @ CRLF)"
      using c by (simp_all add: osip_strn_append_def sprintf_end_def CRLF_def)
    with h True show ?thesis
      by (simp only: print_content_def Let_def c_def bind.bind_lunit if_True simp_thms if_False content_text_def)
  next
    case False
    define l where "l = ''Content-Length: '' @ ''     ''"
    define x where "x = buf @ l @ CRLF @ CRLF"
    have hs: "osip_str_append c (buf @ ''Content-Length: '') ''     '' = Some (buf @ l)"
      "osip_strn_append c (buf @ l) CRLF 2 = Some (buf @ l @ CRLF)"
      "osip_strn_append c (buf @ l @ CRLF) CRLF 2 = Some x"
      using c by (simp_all add: osip_str_append_def osip_strn_append_def sprintf_end_def CRLF_def l_def x_def)
    have len: "length (buf @ ''Content-Length: '') = length buf + 16" by simp
    have pc: "print_content sip False cap buf = print_bodies sip c x (length buf + 16)"
      by (simp only: print_content_def Let_def c_def [symmetric] h hs False bind.bind_lunit if_False simp_thms len)
    have bd: "case boundary of None \<Rightarrow> True | Some bd \<Rightarrow> length bd \<le> 74"
      using find_boundary_short assms(1) by (auto split: option.split)
    obtain c' where c': "strcat_bodies boundary c x (bodies sip) = Some (OSIP_SUCCESS, c', x @ concat (map (part_text boundary) (bodies sip)))"
      "length (x @ concat (map (part_text boundary) (bodies sip))) + 80 < c'"
      using strcat_bodies_ok [OF bd assms(2), of x c] c by (auto simp: x_def l_def CRLF_def)
    have e: "(case boundary of None \<Rightarrow> Some y
             | Some bd \<Rightarrow> do {
                 buf \<leftarrow> osip_str_append c' y bd;
                 buf \<leftarrow> osip_strn_append c' buf ''--'' 2;
                 osip_strn_append c' buf CRLF 2 }) = Some (y @ (case boundary of None \<Rightarrow> [] | Some bd \<Rightarrow> bd @ ''--'' @ CRLF))"
      if "length y + 80 < c'" for y
      using bd that by (auto simp: osip_str_append_def osip_strn_append_def sprintf_end_def CRLF_def split: option.split)
    have "print_bodies sip c x (length buf + 16) = keep_text sip (patch_length (x @ bodies_text boundary (bodies sip)) (length buf + 16)
        (length (bodies_text boundary (bodies sip))))"
      using c' e [OF c'(2)] assms(1) by (simp add: print_bodies_def bodies_text_def)
    also have "\<dots> = keep_text sip (buf @ content_length_text (length (bodies_text boundary (bodies sip))) @ CRLF @ CRLF
        @ bodies_text boundary (bodies sip))"
      using patch_length_text [of "length (bodies_text boundary (bodies sip))" buf "CRLF @ CRLF @ bodies_text boundary (bodies sip)"]
        sprintf_word_length [of "word_of_nat (length (bodies_text boundary (bodies sip)))"]
      by (simp add: x_def l_def)
    finally show ?thesis using False pc by (simp add: content_text_def)
  qed
qed

lemma message_to_str_text:
  assumes "message_property sip \<noteq> 1" and "message_startline_to_str sip = Some (OSIP_SUCCESS, Some line)"
    and "list_all entry_ok (to_str_table sip)" and "list_all generic_ok (headers sip)"
    and "find_boundary sip = Some (Inr boundary)" and "list_all (\<lambda>b. printed_ok (osip_body_to_str (Some b))) (bodies sip)"
    and "t = line @ CRLF @ header_block sip @ content_text boundary (bodies sip)"
  shows "osip_message_to_str (Some sip) =
    (if length line + 2 < SIP_MESSAGE_MAX_LENGTH
     then Some (OSIP_SUCCESS, Some (t, length t),
            Some (sip\<lparr>message_property := 1, msg_buffer := Some t, message_length := length t\<rparr>))
     else None)"
proof -
  define sip' where "sip' = sip\<lparr>msg_buffer := None\<rparr>"
  have same: "message_startline_to_str sip' = message_startline_to_str sip" "to_str_table sip' = to_str_table sip"
    "find_boundary sip' = find_boundary sip" "headers sip' = headers sip" "bodies sip' = bodies sip"
    by (simp_all add: sip'_def message_startline_to_str_def message_startline_to_strreq_def message_startline_to_strresp_def
        to_str_table_def find_boundary_def cong: option.case_cong if_cong)
  have l: "osip_str_append SIP_MESSAGE_MAX_LENGTH [] line = (if length line < SIP_MESSAGE_MAX_LENGTH then Some line else None)"
    "osip_strn_append SIP_MESSAGE_MAX_LENGTH line CRLF 2 = (if length line + 2 < SIP_MESSAGE_MAX_LENGTH then Some (line @ CRLF) else None)"
    by (auto simp: osip_str_append_def osip_strn_append_def sprintf_end_def CRLF_def)
  obtain c where c: "strcat_table SIP_MESSAGE_MAX_LENGTH (line @ CRLF) (to_str_table sip)
      = Some (OSIP_SUCCESS, c, (line @ CRLF) @ concat (map entry_text (to_str_table sip)))"
    using strcat_table_ok [OF assms(3)] by blast
  obtain c' where c': "strcat_generic c ((line @ CRLF) @ concat (map entry_text (to_str_table sip))) (headers sip)
      = Some (OSIP_SUCCESS, c', ((line @ CRLF) @ concat (map entry_text (to_str_table sip))) @ concat (map generic_text (headers sip)))"
    using strcat_generic_ok [OF assms(4)] by blast
  have pc: "print_content sip' False c' (line @ CRLF @ header_block sip) = keep_text sip' t"
    using print_content_ok [of sip' boundary] assms(5-7) same by simp
  have "osip_message_to_str (Some sip) = (do {
      buf \<leftarrow> (if length line + 2 < SIP_MESSAGE_MAX_LENGTH then Some (line @ CRLF) else None);
      (i, cap, buf) \<leftarrow> strcat_table SIP_MESSAGE_MAX_LENGTH buf (to_str_table sip);
      if i \<noteq> 0 then Some (i, None, Some sip')
      else do {
        (i, cap, buf) \<leftarrow> strcat_generic cap buf (headers sip);
        if i \<noteq> 0 then Some (i, None, Some sip')
        else do {
          (i, text, sip) \<leftarrow> print_content sip' False cap buf;
          Some (i, text, Some sip) } } })"
    using assms(1,2) l
    by (simp add: osip_message_to_str_def message_to_str_def osip_message_get__property_def sip'_def [symmetric] same cong: if_cong)
  also have "\<dots> = (if length line + 2 < SIP_MESSAGE_MAX_LENGTH then do {
        (i, text, sip) \<leftarrow> keep_text sip' t;
        Some (i, text, Some sip) } else None)"
    using c c' pc by (simp add: header_block_def)
  finally show ?thesis by (simp add: keep_text_def sip'_def)
qed

text \<open>
  C31. The text of a message.  It is the start line, one line for every header in the order of the table, the
  generic headers, the length of the bodies and the bodies between their boundaries, and the message keeps a copy.
  The buffer is enlarged in time for everything but the start line: the printer writes behind it exactly when the
  start line and its line end do not fit in 8000 bytes.  A header that its own printer refuses leaves its bare name
  behind, and the error is lost.
\<close>

theorem osip_message_to_str_text:
  assumes "message_property sip \<noteq> 1" and "message_startline_to_str sip = Some (OSIP_SUCCESS, Some line)"
    and "list_all entry_ok (to_str_table sip)" and "list_all generic_ok (headers sip)"
    and "find_boundary sip = Some (Inr boundary)" and "list_all (\<lambda>b. printed_ok (osip_body_to_str (Some b))) (bodies sip)"
    and "t = line @ CRLF @ header_block sip @ content_text boundary (bodies sip)"
  shows "osip_message_to_str (Some sip) =
    (if length line + 2 < SIP_MESSAGE_MAX_LENGTH
     then Some (OSIP_SUCCESS, Some (t, length t),
            Some (sip\<lparr>message_property := 1, msg_buffer := Some t, message_length := length t\<rparr>))
     else None)"
  by (rule message_to_str_text [OF assms])

definition sample_printed :: message where
  "sample_printed = osip_message_init\<lparr>message_property := 2, status_code := 200, reason_phrase := Some ''OK'',
     msg_call_id := Some \<lparr>call_id_number = None, call_id_host = None\<rparr>,
     msg_cseq := Some \<lparr>cseq_method = Some ''BYE'', cseq_number = Some ''2''\<rparr>,
     headers := [\<lparr>hname = Some ''x'', hvalue = Some ''y''\<rparr>],
     bodies := [\<lparr>body_buffer = Some ''abc'', body_length = 3, body_headers = Some [], body_content_type = None\<rparr>]\<rparr>"

theorem osip_message_to_str_text_witness:
  "\<exists>t m. osip_message_to_str (Some sample_printed) = Some (OSIP_SUCCESS, Some (t, length t), Some m)
    \<and> t = ''SIP/2.0 200 OK'' @ CRLF @ ''Call-ID: CSeq: 2 BYE'' @ CRLF @ ''X: y'' @ CRLF @ ''Content-Length:     3'' @ CRLF @ CRLF @ ''abc''"
proof -
  have hyps: "message_property sample_printed \<noteq> 1"
    "message_startline_to_str sample_printed = Some (OSIP_SUCCESS, Some ''SIP/2.0 200 OK'')"
    "list_all entry_ok (to_str_table sample_printed)" "list_all generic_ok (headers sample_printed)"
    "find_boundary sample_printed = Some (Inr None)"
    "list_all (\<lambda>b. printed_ok (osip_body_to_str (Some b))) (bodies sample_printed)" by code_simp+
  define t where "t = ''SIP/2.0 200 OK'' @ CRLF @ header_block sample_printed @ content_text None (bodies sample_printed)"
  have "header_block sample_printed = ''Call-ID: CSeq: 2 BYE'' @ CRLF @ ''X: y'' @ CRLF"
    "content_text None (bodies sample_printed) = ''Content-Length:     3'' @ CRLF @ CRLF @ ''abc''" by code_simp+
  then have "t = ''SIP/2.0 200 OK'' @ CRLF @ ''Call-ID: CSeq: 2 BYE'' @ CRLF @ ''X: y'' @ CRLF @ ''Content-Length:     3'' @ CRLF @ CRLF @ ''abc''"
    by (simp add: t_def)
  with osip_message_to_str_text [OF hyps t_def] show ?thesis by (simp add: SIP_MESSAGE_MAX_LENGTH_def)
qed

section \<open>Printing and parsing again\<close>

text \<open>Simple content types: type and subtype without parameters.\<close>

definition wf_content_type :: "content_type \<Rightarrow> bool" where
  "wf_content_type ct \<longleftrightarrow> ct_gen_params ct = [] \<and>
     (case (ct_type ct, ct_subtype ct) of
        (Some t, Some s) \<Rightarrow> t \<noteq> [] \<and> s \<noteq> [] \<and> trimmed t \<and> trimmed s \<and> line_chars t \<and> line_chars s
          \<and> {CHR ''/'', CHR '';'', CHR '',''} \<inter> (set t \<union> set s) = {} \<and> osip_strcasecmp t ''multipart'' \<noteq> 0
      | _ \<Rightarrow> False)"

definition content_type_text :: "content_type \<Rightarrow> string" where
  "content_type_text ct = the (ct_type ct) @ ''/'' @ the (ct_subtype ct)"

lemma wf_content_type_parts:
  assumes "wf_content_type ct"
  shows "\<exists>t s. ct = \<lparr>ct_type = Some t, ct_subtype = Some s, ct_gen_params = []\<rparr> \<and> t \<noteq> [] \<and> s \<noteq> []
    \<and> trimmed t \<and> trimmed s \<and> line_chars t \<and> line_chars s \<and> CHR ''/'' \<notin> set t \<and> CHR '';'' \<notin> set (t @ ''/'' @ s)
    \<and> CHR '','' \<notin> set (t @ ''/'' @ s) \<and> osip_strcasecmp t ''multipart'' \<noteq> 0"
  using assms by (cases ct) (auto simp: wf_content_type_def split: option.splits)

lemma content_type_codec:
  assumes "wf_content_type ct"
  shows "osip_content_type_to_str (Some ct) = Some (OSIP_SUCCESS, Some (content_type_text ct))"
    and "osip_content_type_parse osip_content_type_init (Some (content_type_text ct)) = (OSIP_SUCCESS, ct)"
    and "wf_line (''Content-Type'', content_type_text ct)" and "trimmed (content_type_text ct)"
    and "CHR '','' \<notin> set (content_type_text ct)"
proof -
  obtain t s where ct: "ct = \<lparr>ct_type = Some t, ct_subtype = Some s, ct_gen_params = []\<rparr>" and ne: "t \<noteq> []" "s \<noteq> []"
    and wf: "trimmed t" "trimmed s" "line_chars t" "line_chars s" "CHR ''/'' \<notin> set t" "CHR '';'' \<notin> set (t @ ''/'' @ s)"
      "CHR '','' \<notin> set (t @ ''/'' @ s)"
    using wf_content_type_parts [OF assms] by blast
  show "osip_content_type_to_str (Some ct) = Some (OSIP_SUCCESS, Some (content_type_text ct))"
    by (simp add: ct content_type_text_def osip_content_type_to_str_def sprintf_end_def)
  show comma: "CHR '','' \<notin> set (content_type_text ct)" using wf(7) by (simp add: ct content_type_text_def)
  show tr: "trimmed (content_type_text ct)"
    using ne wf(1,2) by (simp add: ct content_type_text_def trimmed_def)
  have lc: "line_chars (content_type_text ct)"
    using wf(3,4) by (auto simp: ct content_type_text_def line_chars_def char_defs)
  have tx: "content_type_text ct \<noteq> []" by (simp add: content_type_text_def)
  show "wf_line (''Content-Type'', content_type_text ct)"
    using tr lc tx by (simp add: wf_line_def strip_trimmed) (simp add: trimmed_def is_lws_def line_chars_def char_defs)
  have head: "chr_at (content_type_text ct) 0 \<noteq> NUL"
    using ne(1) wf(3) by (cases t) (auto simp: ct content_type_text_def chr_at_def line_chars_def)
  have slash: "strchr (content_type_text ct) 0 (CHR ''/'') = Some (length t)"
    using wf(5) by (simp add: ct content_type_text_def strchr_text)
  have semi: "strchr (content_type_text ct) 0 (CHR '';'') = None"
    using wf(6) by (intro strchr_no_sep) (simp add: ct content_type_text_def)
  have t: "osip_clrncpy (content_type_text ct) 0 (length t) = t"
    using clrncpy_mid [OF ne(1) wf(1), of "[]" "''/'' @ s"] by (simp add: ct content_type_text_def)
  have s: "osip_clrncpy (content_type_text ct) (length t + 1) (length s) = s"
    using clrncpy_mid [OF ne(2) wf(2), of "t @ ''/''" "[]"] by (simp add: ct content_type_text_def)
  have len: "length (content_type_text ct) = length t + 1 + length s" by (simp add: ct content_type_text_def)
  define b where "b = content_type_text ct"
  have "1 \<le> length t" "1 \<le> length s" using ne by (simp_all add: Suc_le_eq)
  then have "osip_content_type_parse osip_content_type_init (Some b)
      = (OSIP_SUCCESS, \<lparr>ct_type = Some t, ct_subtype = Some s, ct_gen_params = []\<rparr>)"
    using head slash semi t s len ne unfolding b_def [symmetric]
    by (simp add: osip_content_type_parse_def osip_content_type_init_def Let_def)
  then show "osip_content_type_parse osip_content_type_init (Some (content_type_text ct)) = (OSIP_SUCCESS, ct)"
    by (simp add: ct b_def)
qed

text \<open>The header that announces the length.\<close>

lemma content_length_line:
  assumes "n < 100000"
  shows "\<exists>w. content_length_text n @ CRLF = lines_text [(''Content-Length'', w)] \<and> wf_line (''Content-Length'', w)
    \<and> strip w = nat_digits n"
proof -
  define d where "d = nat_digits n"
  define w where "w = replicate (5 - length d) (CHR '' '') @ d"
  have "length d \<le> 5" using nat_digits_length [of n 4] assms by (simp add: d_def)
  then have k: "length d = 0 \<or> length d = 1 \<or> length d = 2 \<or> length d = 3 \<or> length d = 4 \<or> length d = 5" by arith
  have "sint (word_of_nat n :: 32 word) = int n" using assms by (simp add: signed_of_nat signed_take_bit_int_eq_self)
  then have "content_length_text n = take (21 - length d) ''Content-Length:      '' @ d"
    by (simp add: content_length_text_def sprintf_i_def d_def Let_def)
  also have "\<dots> = ''Content-Length: '' @ w" using k by (elim disjE) (simp_all add: w_def eval_nat_numeral)
  finally have t: "content_length_text n @ CRLF = lines_text [(''Content-Length'', w)]" by (simp add: line_text_def)
  have dg: "list_all isdigit d" "d \<noteq> []" unfolding d_def by (rule nat_digits_isdigit, rule nat_digits_ne)
  have dc: "c \<in> set d \<Longrightarrow> \<not> is_lws c \<and> c \<noteq> NUL" for c using dg isdigit_plain [of c] by (auto simp: list_all_iff)
  have "trimmed d" using dc dg(2) by (simp add: trimmed_def)
  moreover have "dropWhile is_lws (replicate k (CHR '' '') @ d) = dropWhile is_lws d" for k
    by (induction k) (simp_all add: is_lws_def)
  ultimately have s: "strip w = d" using strip_trimmed [of d] by (simp add: w_def strip_def)
  have "line_chars w" using dc by (auto simp: line_chars_def w_def is_lws_def char_defs)
  then have "wf_line (''Content-Length'', w)"
    using s dg(2) by (simp add: wf_line_def) (simp add: trimmed_def is_lws_def line_chars_def char_defs)
  with t s show ?thesis by (auto simp: d_def)
qed

section \<open>Requests\<close>

text \<open>A request with the five headers of every request, with or without a body.\<close>

definition printed_request ::
  "string \<Rightarrow> uri \<Rightarrow> via \<Rightarrow> from_hdr \<Rightarrow> from_hdr \<Rightarrow> call_id \<Rightarrow> cseq \<Rightarrow> (content_type \<times> string) option \<Rightarrow> message" where
  "printed_request meth u v f t ci cs content =
     (let m = osip_message_init\<lparr>sip_method := Some meth, req_uri := Some u, sip_version := Some ''SIP/2.0'',
                message_property := 2, vias := [v], msg_from := Some f, msg_to := Some t, msg_call_id := Some ci, msg_cseq := Some cs\<rparr>
      in case content of
           None \<Rightarrow> m
         | Some (ct, body) \<Rightarrow> m\<lparr>msg_content_type := Some ct,
             bodies := [\<lparr>body_buffer = Some body, body_length = length body, body_headers = Some [], body_content_type = None\<rparr>]\<rparr>)"

definition wf_content :: "(content_type \<times> string) option \<Rightarrow> bool" where
  "wf_content content \<longleftrightarrow>
     (case content of None \<Rightarrow> True | Some (ct, body) \<Rightarrow> wf_content_type ct \<and> body \<noteq> [] \<and> length body < 100000)"

lemma plain_body_to_str:
  assumes "body \<noteq> []"
  shows "osip_body_to_str (Some \<lparr>body_buffer = Some body, body_length = length body, body_headers = Some [], body_content_type = None\<rparr>)
    = Some (OSIP_SUCCESS, Some body)"
  using assms by (simp add: osip_body_to_str_def print_body_content_type_def Let_def)

definition request_lines ::
  "via \<Rightarrow> from_hdr \<Rightarrow> from_hdr \<Rightarrow> string \<Rightarrow> string \<Rightarrow> (content_type \<times> string) option \<Rightarrow> (string \<times> string) list" where
  "request_lines v f t cis css content =
     [(''Via'', via_text v), (''From'', from_text f), (''To'', from_text t), (''Call-ID'', cis), (''CSeq'', css)]
     @ (case content of None \<Rightarrow> [] | Some (ct, _) \<Rightarrow> [(''Content-Type'', content_type_text ct)])"

lemma request_header_block:
  assumes "wf_via v" and "wf_from f" and "wf_from t"
    and "osip_call_id_to_str (Some ci) = Some (OSIP_SUCCESS, Some cis)"
    and "osip_cseq_to_str (Some cs) = (OSIP_SUCCESS, Some css)" and "wf_content content"
    and "m = printed_request meth u v f t ci cs content"
  shows "list_all entry_ok (to_str_table m)" and "header_block m = lines_text (request_lines v f t cis css content)"
proof -
  have p: "osip_via_to_str (Some v) = Some (OSIP_SUCCESS, Some (via_text v))"
    "osip_from_to_str (Some f) = Some (OSIP_SUCCESS, Some (from_text f))"
    "osip_to_to_str (Some t) = Some (OSIP_SUCCESS, Some (from_text t))"
    using assms(1-3) by (simp_all add: wf_via_to_str wf_from_to_str osip_to_to_str_def)
  have c: "osip_content_type_to_str (Some ct) = Some (OSIP_SUCCESS, Some (content_type_text ct))" if "content = Some (ct, b)" for ct b
    using assms(6) that by (intro content_type_codec) (simp add: wf_content_def)
  show "list_all entry_ok (to_str_table m)"
    using p assms(4,5,7) c
    by (cases content) (auto simp: printed_request_def to_str_table_def list_entry_def data_entry_def entry_ok_def total_def
        printed_ok_def osip_message_init_def)
  show "header_block m = lines_text (request_lines v f t cis css content)"
    using p assms(4,5,7) c
    by (cases content) (auto simp: printed_request_def header_block_def to_str_table_def list_entry_def data_entry_def entry_text_def
        header_text_def printed_text_def printed_refused_def total_def osip_message_init_def request_lines_def line_text_def)
qed

lemma lower_content_names:
  "osip_tolower ''Content-Type'' = ''content-type''" "osip_tolower ''Content-Length'' = ''content-length''"
  by code_simp+

lemma store_content_type:
  assumes "wf_content_type ct" and "msg_content_type sip = None"
  shows "osip_message_set_multiple_header (snd parser_init) sip ''Content-Type'' (Some (content_type_text ct))
     = Some (OSIP_SUCCESS, sip\<lparr>message_property := 2, msg_content_type := Some ct\<rparr>)"
proof -
  note c = content_type_codec [OF assms(1)]
  have "osip_message_set_multiple_header (snd parser_init) sip ''Content-Type'' (Some (content_type_text ct))
     = osip_message_call_method (int 13) sip (Some (content_type_text ct))"
    by (rule store_known [where hdr = "''content-type''"]) (use c(5) in \<open>simp_all add: lower_content_names pconfig_def\<close>)
  then show ?thesis
    using assms(2) c(2) wf_line_head [OF c(3)]
    by (simp add: osip_message_call_method_def pconfig_def total_setter_def osip_message_set_content_type_def single_setter_def)
qed

lemma store_content_length:
  assumes "msg_content_length sip = None"
  shows "osip_message_set_multiple_header (snd parser_init) sip ''Content-Length'' (Some (nat_digits n))
     = Some (OSIP_SUCCESS, sip\<lparr>message_property := 2, msg_content_length := Some \<lparr>cl_value = Some (nat_digits n)\<rparr>\<rparr>)"
proof -
  have d: "c \<in> set (nat_digits n) \<Longrightarrow> isdigit c" for c using nat_digits_isdigit [of n] by (simp add: list_all_iff)
  then have "CHR '','' \<notin> set (nat_digits n)" by (auto dest!: d simp: isdigit_def)
  then have "osip_message_set_multiple_header (snd parser_init) sip ''Content-Length'' (Some (nat_digits n))
     = osip_message_call_method (int 12) sip (Some (nat_digits n))"
    by (intro store_known [where hdr = "''content-length''"]) (simp_all add: lower_content_names pconfig_def)
  moreover have "chr_at (nat_digits n) 0 \<noteq> NUL"
    using nat_digits_ne [of n] d isdigit_plain by (cases "nat_digits n") (auto simp: chr_at_def)
  ultimately show ?thesis
    using assms nat_digits_ne [of n]
    by (simp add: osip_message_call_method_def pconfig_def total_setter_def osip_message_set_content_length_def
        single_setter_def osip_content_length_parse_def osip_content_length_init_def osip_strncpy_def)
qed

lemma store_request_lines:
  assumes "wf_via v" and "wf_from f" and "wf_from t" and "wf_call_id ci" and "wf_cseq cs"
    and "osip_call_id_to_str (Some ci) = Some (OSIP_SUCCESS, Some cis)"
    and "osip_cseq_to_str (Some cs) = (OSIP_SUCCESS, Some css)" and "wf_content content"
    and "\<forall>l\<in>set (request_lines v f t cis css content). wf_line l \<and> trimmed (snd l)" and "CHR '','' \<notin> set (via_text v)"
    and "strip w = nat_digits n" and "m = printed_request meth u v f t ci cs content"
  shows "store_headers (snd parser_init) (start_message (Request meth u))
      (request_lines v f t cis css content @ [(''Content-Length'', w)])
    = Some (OSIP_SUCCESS, m\<lparr>bodies := [], msg_content_length := Some \<lparr>cl_value = Some (nat_digits n)\<rparr>\<rparr>)"
proof -
  have parses: "osip_call_id_parse osip_call_id_init cis = (OSIP_SUCCESS, ci)"
    "osip_cseq_parse (Some osip_cseq_init) (Some css) = (OSIP_SUCCESS, Some cs)"
    using call_id_codec_ok [OF assms(4)] cseq_codec_ok [OF assms(5)] assms(6,7) by auto
  have wf: "wf_line (''Via'', via_text v)" "wf_line (''From'', from_text f)" "wf_line (''To'', from_text t)"
    "wf_line (''Call-ID'', cis)" "wf_line (''CSeq'', css)"
    and tr: "strip (via_text v) = via_text v" "strip (from_text f) = from_text f" "strip (from_text t) = from_text t"
    "strip cis = cis" "strip css = css"
    using assms(9) by (simp_all add: request_lines_def strip_trimmed)
  note five = store_via [OF assms(1) wf(1) assms(10)] store_from_to [OF assms(2) wf(2)] store_from_to [OF assms(3) wf(3)]
    store_call_id [OF parses(1) wf(4)] store_cseq [OF parses(2) wf(5)]
  show ?thesis
  proof (cases content)
    case None
    then show ?thesis
      by (simp add: request_lines_def tr five assms(11,12) store_content_length printed_request_def start_message_def osip_message_init_def)
  next
    case (Some c)
    then obtain ct b where c: "content = Some (ct, b)" "wf_content_type ct" using assms(8) by (cases c) (simp add: wf_content_def)
    have "strip (content_type_text ct) = content_type_text ct" by (rule strip_trimmed [OF content_type_codec(4) [OF c(2)]])
    with c show ?thesis
      by (simp add: request_lines_def tr five assms(11,12) store_content_length store_content_type printed_request_def
          start_message_def osip_message_init_def)
  qed
qed

text \<open>The body of the request as text, and its length.\<close>

definition content_bytes :: "(content_type \<times> string) option \<Rightarrow> string" where
  "content_bytes content = (case content of None \<Rightarrow> [] | Some (_, body) \<Rightarrow> body)"

lemma request_startline:
  assumes "wf_start (Request meth u)" and "m = printed_request meth u v f t ci cs content"
  shows "message_startline_to_str m = Some (OSIP_SUCCESS, Some (start_text (Request meth u)))"
proof -
  have "wf_uri u" using assms(1) by (simp add: wf_start_def)
  moreover have "sip_method m = Some meth" "req_uri m = Some u" "sip_version m = Some ''SIP/2.0''"
    by (simp_all add: assms(2) printed_request_def Let_def split: option.split prod.split)
  ultimately show ?thesis
    by (simp add: message_startline_to_str_def message_startline_to_strreq_def wf_uri_to_str osip_str_append_def
        sprintf_end_def start_text_def Let_def)
qed

lemma request_content_text:
  assumes "wf_content content" and "m = printed_request meth u v f t ci cs content"
  shows "\<exists>w. content_text None (bodies m) = lines_text [(''Content-Length'', w)] @ CRLF @ content_bytes content
    \<and> wf_line (''Content-Length'', w) \<and> strip w = nat_digits (length (content_bytes content))"
proof (cases content)
  case None
  have "nat_digits 0 = ''0''" by code_simp
  moreover have "strip ''0'' = ''0''" "wf_line (''Content-Length'', ''0'')" by code_simp+
  moreover have "bodies m = []" by (simp add: assms(2) None printed_request_def osip_message_init_def)
  ultimately show ?thesis
    by (intro exI [of _ "''0''"]) (simp add: None content_bytes_def content_text_def line_text_def)
next
  case (Some c)
  obtain ct b where c: "content = Some (ct, b)" "b \<noteq> []" "length b < 100000"
    using Some assms(1) by (cases c) (simp add: wf_content_def)
  let ?b = "\<lparr>body_buffer = Some b, body_length = length b, body_headers = Some [], body_content_type = None\<rparr>"
  have b: "bodies m = [?b]" by (simp add: assms(2) c(1) printed_request_def)
  have "bodies_text None [?b] = b"
    using plain_body_to_str [OF c(2)] by (simp add: bodies_text_def part_text_def printed_text_def)
  then have "content_text None (bodies m) = (content_length_text (length b) @ CRLF) @ CRLF @ b"
    by (simp add: b content_text_def)
  with content_length_line [OF c(3)] show ?thesis by (auto simp: content_bytes_def c(1))
qed

lemma request_hyps:
  assumes "wf_content content" and "m = printed_request meth u v f t ci cs content"
  shows "message_property m \<noteq> 1" and "list_all generic_ok (headers m)" and "find_boundary m = Some (Inr None)"
    and "list_all (\<lambda>b. printed_ok (osip_body_to_str (Some b))) (bodies m)"
  using assms
  by (auto simp: printed_request_def osip_message_init_def find_boundary_def printed_ok_def plain_body_to_str wf_content_def
      split: option.splits)



end
