(* ===== verification/Osip_Core.thy ===== *)
theory Osip_Core
  imports Osip_Fsm Osip_Dialog Osip_Body
begin

text \<open>
  The stack, \<^verbatim>\<open>osip2/osip.c\<close>: \<^verbatim>\<open>osip_t\<close> with its four lists of transactions and the retransmissions of
  \<^verbatim>\<open>2xx\<close> and \<^verbatim>\<open>ACK\<close> that no state machine handles, creation and search of transactions, the loops that
  execute pending events, and the timers.

  The lists hold pointers to transactions; the code finds a transaction in a list by its number, and
  the numbers are never given out twice, so the lists hold the transactions themselves here.  The callbacks
  of the application do not call back into the stack.  One call reads the clock once.
\<close>

section \<open>The structure\<close>

text \<open>A dialog belongs to the application: a retransmission names it by its address.\<close>

record ixt =
  ixt_dialog :: "nat option"
  msg2xx :: "message option"
  ixt_ack :: "message option"
  ixt_start :: timeval
  interval :: int
  dest :: "string option"
  ixt_port :: int
  ixt_sock :: int
  counter :: int

text \<open>The callback tables: a callback is the number of a function of the application.\<close>

record osip_t =
  osip_transactionid :: int
  osip_ict_transactions :: "transaction list"
  osip_ist_transactions :: "transaction list"
  osip_nict_transactions :: "transaction list"
  osip_nist_transactions :: "transaction list"
  ixt_retransmissions :: "ixt list"
  msg_callbacks :: "nat option list"
  kill_callbacks :: "nat option list"
  tp_error_callbacks :: "nat option list"
  application_context :: "nat option"

definition OSIP_MESSAGE_CALLBACK_COUNT :: nat where "OSIP_MESSAGE_CALLBACK_COUNT = 60"
definition OSIP_KILL_CALLBACK_COUNT :: nat where "OSIP_KILL_CALLBACK_COUNT = 4"
definition OSIP_TRANSPORT_ERROR_CALLBACK_COUNT :: nat where "OSIP_TRANSPORT_ERROR_CALLBACK_COUNT = 4"

definition osip_init :: osip_t where
  "osip_init = \<lparr>osip_transactionid = 1, osip_ict_transactions = [], osip_ist_transactions = [],
     osip_nict_transactions = [], osip_nist_transactions = [], ixt_retransmissions = [],
     msg_callbacks = replicate OSIP_MESSAGE_CALLBACK_COUNT None, kill_callbacks = replicate OSIP_KILL_CALLBACK_COUNT None,
     tp_error_callbacks = replicate OSIP_TRANSPORT_ERROR_CALLBACK_COUNT None, application_context = None\<rparr>"

definition osip_set_application_context :: "osip_t \<Rightarrow> nat option \<Rightarrow> osip_t" where
  "osip_set_application_context osip pointer = osip\<lparr>application_context := pointer\<rparr>"

definition osip_get_application_context :: "osip_t option \<Rightarrow> nat option" where
  "osip_get_application_context osip = (case osip of None \<Rightarrow> None | Some c \<Rightarrow> application_context c)"

section \<open>Callbacks\<close>

text \<open>The upper bound of a type is checked, a negative one is an access in front of the table.\<close>

definition set_callback :: "nat \<Rightarrow> nat option list \<Rightarrow> int \<Rightarrow> nat option \<Rightarrow> (int \<times> nat option list) option" where
  "set_callback limit table ty cb =
     (if int limit \<le> ty then Some (OSIP_BADPARAMETER, table)
      else if ty < 0 then None
      else Some (OSIP_SUCCESS, table[nat ty := cb]))"

definition osip_set_message_callback :: "osip_t \<Rightarrow> int \<Rightarrow> nat option \<Rightarrow> (int \<times> osip_t) option" where
  "osip_set_message_callback config ty cb = do {
     (i, t) \<leftarrow> set_callback OSIP_MESSAGE_CALLBACK_COUNT (msg_callbacks config) ty cb;
     Some (i, config\<lparr>msg_callbacks := t\<rparr>) }"

definition osip_set_kill_transaction_callback :: "osip_t \<Rightarrow> int \<Rightarrow> nat option \<Rightarrow> (int \<times> osip_t) option" where
  "osip_set_kill_transaction_callback config ty cb = do {
     (i, t) \<leftarrow> set_callback OSIP_KILL_CALLBACK_COUNT (kill_callbacks config) ty cb;
     Some (i, config\<lparr>kill_callbacks := t\<rparr>) }"

definition osip_set_transport_error_callback :: "osip_t \<Rightarrow> int \<Rightarrow> nat option \<Rightarrow> (int \<times> osip_t) option" where
  "osip_set_transport_error_callback config ty cb = do {
     (i, t) \<leftarrow> set_callback OSIP_TRANSPORT_ERROR_CALLBACK_COUNT (tp_error_callbacks config) ty cb;
     Some (i, config\<lparr>tp_error_callbacks := t\<rparr>) }"

section \<open>Retransmissions outside the machines\<close>

text \<open>Where a response goes: \<^verbatim>\<open>maddr\<close>, \<^verbatim>\<open>received\<close> or the host of the top \<^verbatim>\<open>Via\<close>, and \<^verbatim>\<open>rport\<close> or its port.\<close>

definition osip_response_get_destination :: "message \<Rightarrow> (string option \<times> int) option" where
  "osip_response_get_destination response =
     (case list_at (vias response) 0 of
        None \<Rightarrow> Some (None, 0)
      | Some via \<Rightarrow> do {
          (_, maddr) \<leftarrow> osip_uri_param_get_byname (via_params via) (Some ''maddr'');
          (_, received) \<leftarrow> osip_uri_param_get_byname (via_params via) (Some ''received'');
          (_, rport) \<leftarrow> osip_uri_param_get_byname (via_params via) (Some ''rport'');
          let h = (case maddr of
                     Some p \<Rightarrow> gvalue p
                   | None \<Rightarrow> (case received of Some p \<Rightarrow> gvalue p | None \<Rightarrow> via_host via));
          let prt = (case param_value rport of
                       None \<Rightarrow> (case via_port via of Some p \<Rightarrow> osip_atoi p | None \<Rightarrow> 5060)
                     | Some p \<Rightarrow> osip_atoi p);
          Some (osip_strdup h, prt) })"

definition osip_add_ixt :: "osip_t \<Rightarrow> ixt \<Rightarrow> osip_t" where
  "osip_add_ixt osip x = osip\<lparr>ixt_retransmissions := x # ixt_retransmissions osip\<rparr>"

definition ixt_init :: "timeval \<Rightarrow> ixt" where
  "ixt_init now = \<lparr>ixt_dialog = None, msg2xx = None, ixt_ack = None,
     ixt_start = add_gettimeofday now (DEFAULT_T1 + 10), interval = DEFAULT_T1, dest = None, ixt_port = 5060,
     ixt_sock = -1, counter = 10\<rparr>"

definition ixt_free :: "ixt \<Rightarrow> action list" where
  "ixt_free x = osip_message_free (ixt_ack x) @ osip_message_free (msg2xx x)"

text \<open>The copy that \<^verbatim>\<open>osip_message_clone\<close> leaves, \<^verbatim>\<open>NULL\<close> after an error.\<close>

definition cloned :: "message option \<Rightarrow> message option option" where
  "cloned m = do { (i, c) \<leftarrow> osip_message_clone m; Some (if i = 0 then c else None) }"

definition osip_start_200ok_retransmissions :: "osip_t \<Rightarrow> timeval \<Rightarrow> nat option \<Rightarrow> message \<Rightarrow> int \<Rightarrow> osip_t option" where
  "osip_start_200ok_retransmissions osip now dlg msg200ok sock = do {
     m \<leftarrow> cloned (Some msg200ok);
     (address, portnum) \<leftarrow> osip_response_get_destination msg200ok;
     Some (osip_add_ixt osip ((ixt_init now)\<lparr>ixt_dialog := dlg, msg2xx := m, ixt_sock := sock, dest := address,
       ixt_port := portnum\<rparr>)) }"

definition osip_start_ack_retransmissions ::
  "osip_t \<Rightarrow> timeval \<Rightarrow> nat option \<Rightarrow> message option \<Rightarrow> string option \<Rightarrow> int \<Rightarrow> int \<Rightarrow> osip_t option" where
  "osip_start_ack_retransmissions osip now dlg ackm address portnum sock = do {
     m \<leftarrow> cloned ackm;
     Some (osip_add_ixt osip ((ixt_init now)\<lparr>ixt_dialog := dlg, ixt_ack := m, dest := osip_strdup address,
       ixt_port := portnum, ixt_sock := sock\<rparr>)) }"

definition message_cseq_number :: "message option \<Rightarrow> string option" where
  "message_cseq_number mp =
     (case mp of None \<Rightarrow> None | Some m \<Rightarrow> (case msg_cseq m of None \<Rightarrow> None | Some c \<Rightarrow> cseq_number c))"

text \<open>
  The loop of \<^verbatim>\<open>osip_stop_200ok_retransmissions\<close> over the dialogs of the application; a retransmission whose
  dialog is no longer there is a fault.
\<close>

fun stop_200ok_loop ::
  "(nat \<Rightarrow> dialog option) \<Rightarrow> message \<Rightarrow> string \<Rightarrow> ixt list \<Rightarrow> (nat option \<times> ixt list \<times> action list) option" where
  "stop_200ok_loop dialogs ackm number [] = Some (None, [], [])"
| "stop_200ok_loop dialogs ackm number (x # xs) =
     (let skip = do { (d, ys, acts) \<leftarrow> stop_200ok_loop dialogs ackm number xs; Some (d, x # ys, acts) }
      in case message_cseq_number (msg2xx x) of
           None \<Rightarrow> skip
         | Some n \<Rightarrow> do {
             dlg \<leftarrow> (case ixt_dialog x of None \<Rightarrow> Some None | Some a \<Rightarrow> map_option Some (dialogs a));
             i \<leftarrow> osip_dialog_match_as_uas dlg (Some ackm);
             if i = 0 \<and> n = number then Some (ixt_dialog x, xs, ixt_free x) else skip })"

definition osip_stop_200ok_retransmissions ::
  "(nat \<Rightarrow> dialog option) \<Rightarrow> osip_t \<Rightarrow> message option \<Rightarrow> (nat option \<times> osip_t \<times> action list) option" where
  "osip_stop_200ok_retransmissions dialogs osip ackp =
     (case (ackp, message_cseq_number ackp) of
        (Some ackm, Some number) \<Rightarrow> do {
          (d, xs, acts) \<leftarrow> stop_200ok_loop dialogs ackm number (ixt_retransmissions osip);
          Some (d, osip\<lparr>ixt_retransmissions := xs\<rparr>, acts) }
      | _ \<Rightarrow> Some (None, osip, []))"

fun stop_dialog_loop :: "nat option \<Rightarrow> ixt list \<Rightarrow> ixt list \<times> action list" where
  "stop_dialog_loop dlg [] = ([], [])"
| "stop_dialog_loop dlg (x # xs) =
     (case stop_dialog_loop dlg xs of
        (ys, acts) \<Rightarrow> if ixt_dialog x = dlg then (ys, ixt_free x @ acts) else (x # ys, acts))"

definition osip_stop_retransmissions_from_dialog :: "osip_t \<Rightarrow> nat option \<Rightarrow> osip_t \<times> action list" where
  "osip_stop_retransmissions_from_dialog osip dlg =
     (case stop_dialog_loop dlg (ixt_retransmissions osip) of
        (xs, acts) \<Rightarrow> (osip\<lparr>ixt_retransmissions := xs\<rparr>, acts))"

definition ixt_retransmit :: "timeval \<Rightarrow> ixt \<Rightarrow> ixt \<times> action list" where
  "ixt_retransmit now x =
     (if osip_timer_gt now (ixt_start x) then
        (let i = (if interval x * 2 > DEFAULT_T2 then DEFAULT_T2 else interval x * 2);
             x' = x\<lparr>interval := i, ixt_start := add_gettimeofday (ixt_start x) i, counter := counter x - 1\<rparr>
         in (x', case (ixt_ack x, msg2xx x) of
                   (Some m, _) \<Rightarrow> [Send m (dest x) (ixt_port x) (ixt_sock x)]
                 | (None, Some m) \<Rightarrow> [Send m (dest x) (ixt_port x) (ixt_sock x)]
                 | (None, None) \<Rightarrow> []))
      else (x, []))"

fun retransmissions_loop :: "timeval \<Rightarrow> ixt list \<Rightarrow> ixt list \<times> action list" where
  "retransmissions_loop now [] = ([], [])"
| "retransmissions_loop now (x # xs) =
     (case ixt_retransmit now x of
        (x', acts) \<Rightarrow>
          (case retransmissions_loop now xs of
             (ys, acts') \<Rightarrow>
               if counter x' = 0 then (ys, acts @ ixt_free x' @ acts') else (x' # ys, acts @ acts')))"

definition osip_retransmissions_execute :: "timeval \<Rightarrow> osip_t \<Rightarrow> osip_t \<times> action list" where
  "osip_retransmissions_execute now osip =
     (case retransmissions_loop now (ixt_retransmissions osip) of
        (xs, acts) \<Rightarrow> (osip\<lparr>ixt_retransmissions := xs\<rparr>, acts))"

section \<open>The lists of transactions\<close>

definition transactions_of :: "fsm_type \<Rightarrow> osip_t \<Rightarrow> transaction list" where
  "transactions_of ty osip =
     (case ty of ICT \<Rightarrow> osip_ict_transactions osip | IST \<Rightarrow> osip_ist_transactions osip
      | NICT \<Rightarrow> osip_nict_transactions osip | NIST \<Rightarrow> osip_nist_transactions osip)"

definition with_transactions :: "fsm_type \<Rightarrow> transaction list \<Rightarrow> osip_t \<Rightarrow> osip_t" where
  "with_transactions ty trs osip =
     (case ty of
        ICT \<Rightarrow> osip\<lparr>osip_ict_transactions := trs\<rparr>
      | IST \<Rightarrow> osip\<lparr>osip_ist_transactions := trs\<rparr>
      | NICT \<Rightarrow> osip\<lparr>osip_nict_transactions := trs\<rparr>
      | NIST \<Rightarrow> osip\<lparr>osip_nist_transactions := trs\<rparr>)"

definition osip_add_ict :: "osip_t \<Rightarrow> transaction \<Rightarrow> osip_t" where
  "osip_add_ict osip ict = osip\<lparr>osip_ict_transactions := osip_ict_transactions osip @ [ict]\<rparr>"

definition osip_add_ist :: "osip_t \<Rightarrow> transaction \<Rightarrow> osip_t" where
  "osip_add_ist osip ist = osip\<lparr>osip_ist_transactions := osip_ist_transactions osip @ [ist]\<rparr>"

definition osip_add_nict :: "osip_t \<Rightarrow> transaction \<Rightarrow> osip_t" where
  "osip_add_nict osip nict = osip\<lparr>osip_nict_transactions := osip_nict_transactions osip @ [nict]\<rparr>"

definition osip_add_nist :: "osip_t \<Rightarrow> transaction \<Rightarrow> osip_t" where
  "osip_add_nist osip nist = osip\<lparr>osip_nist_transactions := osip_nist_transactions osip @ [nist]\<rparr>"

definition osip_add_transaction :: "osip_t \<Rightarrow> transaction \<Rightarrow> osip_t" where
  "osip_add_transaction osip tr =
     (case ctx_type tr of
        ICT \<Rightarrow> osip_add_ict osip tr
      | IST \<Rightarrow> osip_add_ist osip tr
      | NICT \<Rightarrow> osip_add_nict osip tr
      | NIST \<Rightarrow> osip_add_nist osip tr)"

text \<open>The loop of the four functions: the first transaction with the number is unlinked.\<close>

fun remove_by_id :: "int \<Rightarrow> transaction list \<Rightarrow> int \<times> transaction list" where
  "remove_by_id tid [] = (OSIP_UNDEFINED_ERROR, [])"
| "remove_by_id tid (tmp # trs) =
     (if transactionid tmp = tid then (OSIP_SUCCESS, trs)
      else (case remove_by_id tid trs of (i, ys) \<Rightarrow> (i, tmp # ys)))"

definition osip_remove_ict_transaction :: "osip_t \<Rightarrow> transaction \<Rightarrow> int \<times> osip_t" where
  "osip_remove_ict_transaction osip ict =
     (case remove_by_id (transactionid ict) (osip_ict_transactions osip) of
        (i, trs) \<Rightarrow> (i, osip\<lparr>osip_ict_transactions := trs\<rparr>))"

definition osip_remove_ist_transaction :: "osip_t \<Rightarrow> transaction \<Rightarrow> int \<times> osip_t" where
  "osip_remove_ist_transaction osip ist =
     (case remove_by_id (transactionid ist) (osip_ist_transactions osip) of
        (i, trs) \<Rightarrow> (i, osip\<lparr>osip_ist_transactions := trs\<rparr>))"

definition osip_remove_nict_transaction :: "osip_t \<Rightarrow> transaction \<Rightarrow> int \<times> osip_t" where
  "osip_remove_nict_transaction osip nict =
     (case remove_by_id (transactionid nict) (osip_nict_transactions osip) of
        (i, trs) \<Rightarrow> (i, osip\<lparr>osip_nict_transactions := trs\<rparr>))"

definition osip_remove_nist_transaction :: "osip_t \<Rightarrow> transaction \<Rightarrow> int \<times> osip_t" where
  "osip_remove_nist_transaction osip nist =
     (case remove_by_id (transactionid nist) (osip_nist_transactions osip) of
        (i, trs) \<Rightarrow> (i, osip\<lparr>osip_nist_transactions := trs\<rparr>))"

definition osip_remove_transaction :: "osip_t \<Rightarrow> transaction option \<Rightarrow> int \<times> osip_t" where
  "osip_remove_transaction osip trp =
     (case trp of
        None \<Rightarrow> (OSIP_BADPARAMETER, osip)
      | Some tr \<Rightarrow>
          (case ctx_type tr of
             ICT \<Rightarrow> osip_remove_ict_transaction osip tr
           | IST \<Rightarrow> osip_remove_ist_transaction osip tr
           | NICT \<Rightarrow> osip_remove_nict_transaction osip tr
           | NIST \<Rightarrow> osip_remove_nist_transaction osip tr))"

definition osip_transaction_free :: "osip_t \<Rightarrow> transaction option \<Rightarrow> int \<times> osip_t \<times> action list" where
  "osip_transaction_free osip trp =
     (case trp of
        None \<Rightarrow> (OSIP_BADPARAMETER, osip, [])
      | Some tr \<Rightarrow> (OSIP_SUCCESS, snd (osip_remove_transaction osip (Some tr)), osip_transaction_free2 tr))"

section \<open>Creation\<close>

text \<open>
  \<^verbatim>\<open>osip_transaction_init\<close>.  A request without a Call-ID is refused before a number is taken; any later error
  releases the transaction, which looks for its number in the list of its type.
\<close>

definition osip_transaction_init ::
  "osip_env \<Rightarrow> osip_t \<Rightarrow> fsm_type \<Rightarrow> message option \<Rightarrow> (int \<times> transaction option \<times> osip_t) option" where
  "osip_transaction_init env osip ty request =
     (let has_number = (case request of
                          None \<Rightarrow> False
                        | Some m \<Rightarrow> (case msg_call_id m of None \<Rightarrow> False | Some cid \<Rightarrow> call_id_number cid \<noteq> None))
      in if \<not> has_number then Some (OSIP_BADPARAMETER, None, osip)
         else do {
           let tid = osip_transactionid osip;
           let osip = osip\<lparr>osip_transactionid := tid + 1\<rparr>;
           (i, trp) \<leftarrow> transaction_new env tid ty request;
           (case trp of
              Some tr \<Rightarrow> Some (i, Some tr, osip_add_transaction osip tr)
            | None \<Rightarrow> Some (i, None, snd (osip_remove_transaction osip (Some (transaction_zero env tid ty))))) })"

definition EVT_IS_OUTGOINGREQ :: "osip_event \<Rightarrow> bool" where
  "EVT_IS_OUTGOINGREQ event \<longleftrightarrow>
     evt_type event = SND_REQINVITE \<or> evt_type event = SND_REQACK \<or> evt_type event = SND_REQUEST"

text \<open>\<^verbatim>\<open>strcmp (evt->sip->cseq->method, "INVITE")\<close>, which faults without a \<^verbatim>\<open>CSeq\<close> or a method\<close>

definition cseq_is :: "message \<Rightarrow> string \<Rightarrow> bool option" where
  "cseq_is sip name = map_option (\<lambda>m. m = name) (cseq_method_of sip)"

definition new_transaction_type :: "osip_event \<Rightarrow> message \<Rightarrow> fsm_type option option" where
  "new_transaction_type evt sip =
     (if EVT_IS_INCOMINGREQ evt then do { b \<leftarrow> cseq_is sip ''INVITE''; Some (Some (if b then IST else NIST)) }
      else if EVT_IS_OUTGOINGREQ evt then do { b \<leftarrow> cseq_is sip ''INVITE''; Some (Some (if b then ICT else NICT)) }
      else Some None)"

definition osip_create_transaction ::
  "osip_env \<Rightarrow> osip_t \<Rightarrow> osip_event option \<Rightarrow> (transaction option \<times> osip_t \<times> osip_event option) option" where
  "osip_create_transaction env osip evtp =
     (case evtp of
        None \<Rightarrow> Some (None, osip, evtp)
      | Some evt \<Rightarrow>
          (case evt_sip evt of
             None \<Rightarrow> Some (None, osip, evtp)
           | Some sip \<Rightarrow>
               if MSG_IS_REQUEST sip \<and> (sip_method sip = None \<or> cseq_method_of sip \<noteq> sip_method sip)
               then Some (None, osip, evtp)
               else do {
                 is_ack \<leftarrow> MSG_IS_ACK sip;
                 if is_ack then Some (None, osip, evtp)
                 else do {
                   tyo \<leftarrow> new_transaction_type evt sip;
                   (case tyo of
                      None \<Rightarrow> Some (None, osip, evtp)
                    | Some ty \<Rightarrow> do {
                        (i, trp, osip) \<leftarrow> osip_transaction_init env osip ty (Some sip);
                        (case trp of
                           Some tr \<Rightarrow> if i \<noteq> 0 then Some (None, osip, evtp)
                                      else Some (Some tr, osip, Some (evt\<lparr>evt_transactionid := transactionid tr\<rparr>))
                         | None \<Rightarrow> Some (None, osip, evtp)) }) } }))"

section \<open>Search\<close>

text \<open>The position of the first transaction that a comparison accepts; a comparison that faults ends the search.\<close>

fun find_loop :: "(transaction \<Rightarrow> bool option) \<Rightarrow> transaction list \<Rightarrow> nat option option" where
  "find_loop f [] = Some None"
| "find_loop f (tr # trs) = do {
     found \<leftarrow> f tr;
     if found then Some (Some 0) else do { r \<leftarrow> find_loop f trs; Some (map_option Suc r) } }"

definition osip_transaction_find :: "transaction list \<Rightarrow> osip_event \<Rightarrow> nat option option" where
  "osip_transaction_find transactions evt =
     (if EVT_IS_INCOMINGREQ evt then
        find_loop (\<lambda>tr. map_option (\<lambda>i. i = 0) (osip_transaction_matching_request_osip_to_xist_17_2_3 (Some tr) (evt_sip evt))) transactions
      else if EVT_IS_INCOMINGRESP evt then
        find_loop (\<lambda>tr. map_option (\<lambda>i. i = 0) (osip_transaction_matching_response_osip_to_xict_17_1_3 (Some tr) (evt_sip evt))) transactions
      else find_loop (\<lambda>tr. Some (transactionid tr = evt_transactionid evt)) transactions)"

text \<open>The list in which the code looks: server transactions for requests received and responses sent.\<close>

definition list_for_event :: "osip_event \<Rightarrow> message \<Rightarrow> fsm_type option option" where
  "list_for_event evt sip =
     (if EVT_IS_INCOMINGMSG evt then
        (if MSG_IS_REQUEST sip then do {
           b \<leftarrow> cseq_is sip ''INVITE''; c \<leftarrow> cseq_is sip ''ACK''; Some (Some (if b \<or> c then IST else NIST)) }
         else do { b \<leftarrow> cseq_is sip ''INVITE''; Some (Some (if b then ICT else NICT)) })
      else if EVT_IS_OUTGOINGMSG evt then
        (if MSG_IS_RESPONSE sip then do { b \<leftarrow> cseq_is sip ''INVITE''; Some (Some (if b then IST else NIST)) }
         else do {
           b \<leftarrow> cseq_is sip ''INVITE''; c \<leftarrow> cseq_is sip ''ACK''; Some (Some (if b \<or> c then ICT else NICT)) })
      else Some None)"

text \<open>
  \<^verbatim>\<open>__osip_find_transaction\<close>: the list and the position of the transaction.  With \<open>consume\<close> the event is queued
  before the mutex is released.
\<close>

definition osip_find_transaction ::
  "osip_t \<Rightarrow> osip_event option \<Rightarrow> bool \<Rightarrow> ((fsm_type \<times> nat) option \<times> osip_t) option" where
  "osip_find_transaction osip evtp consume =
     (case evtp of
        None \<Rightarrow> Some (None, osip)
      | Some evt \<Rightarrow>
          (case evt_sip evt of
             None \<Rightarrow> Some (None, osip)
           | Some sip \<Rightarrow>
               if msg_cseq sip = None then Some (None, osip)
               else do {
                 tyo \<leftarrow> list_for_event evt sip;
                 (case tyo of
                    None \<Rightarrow> Some (None, osip)
                  | Some ty \<Rightarrow> do {
                      r \<leftarrow> osip_transaction_find (transactions_of ty osip) evt;
                      (case r of
                         None \<Rightarrow> Some (None, osip)
                       | Some k \<Rightarrow>
                           if consume then do {
                             tr \<leftarrow> snd (osip_transaction_add_event (Some (transactions_of ty osip ! k)) (Some evt));
                             Some (Some (ty, k), with_transactions ty ((transactions_of ty osip)[k := tr]) osip) }
                           else Some (Some (ty, k), osip)) }) }))"

definition osip_find_transaction_and_add_event :: "osip_t \<Rightarrow> osip_event option \<Rightarrow> (int \<times> osip_t) option" where
  "osip_find_transaction_and_add_event osip evt = do {
     (transaction, osip) \<leftarrow> osip_find_transaction osip evt True;
     Some (if transaction = None then OSIP_UNDEFINED_ERROR else OSIP_SUCCESS, osip) }"

section \<open>Execution of pending events\<close>

text \<open>The inner loop: one transaction until its queue is empty.  A loop that does not end is \<open>None\<close>.\<close>

partial_function (option) execute_events ::
  "osip_env \<Rightarrow> transaction \<Rightarrow> (transaction \<times> action list) option" where
  "execute_events env tr =
     (case transactionff tr of
        [] \<Rightarrow> Some (tr, [])
      | se # ff \<Rightarrow> do {
          (_, tr, acts) \<leftarrow> osip_transaction_execute env (tr\<lparr>transactionff := ff\<rparr>) se;
          (tr, acts') \<leftarrow> execute_events env tr;
          Some (tr, acts @ acts') })"

text \<open>The outer loop, over the copy of the list.\<close>

fun execute_list :: "osip_env \<Rightarrow> transaction list \<Rightarrow> (transaction list \<times> action list) option" where
  "execute_list env [] = Some ([], [])"
| "execute_list env (tr # trs) = do {
     (tr', acts) \<leftarrow> execute_events env tr;
     (trs', acts') \<leftarrow> execute_list env trs;
     Some (tr' # trs', acts @ acts') }"

definition osip_ict_execute :: "osip_env \<Rightarrow> osip_t \<Rightarrow> (int \<times> osip_t \<times> action list) option" where
  "osip_ict_execute env osip = do {
     (trs, acts) \<leftarrow> execute_list env (osip_ict_transactions osip);
     Some (OSIP_SUCCESS, osip\<lparr>osip_ict_transactions := trs\<rparr>, acts) }"

definition osip_ist_execute :: "osip_env \<Rightarrow> osip_t \<Rightarrow> (int \<times> osip_t \<times> action list) option" where
  "osip_ist_execute env osip = do {
     (trs, acts) \<leftarrow> execute_list env (osip_ist_transactions osip);
     Some (OSIP_SUCCESS, osip\<lparr>osip_ist_transactions := trs\<rparr>, acts) }"

definition osip_nict_execute :: "osip_env \<Rightarrow> osip_t \<Rightarrow> (int \<times> osip_t \<times> action list) option" where
  "osip_nict_execute env osip = do {
     (trs, acts) \<leftarrow> execute_list env (osip_nict_transactions osip);
     Some (OSIP_SUCCESS, osip\<lparr>osip_nict_transactions := trs\<rparr>, acts) }"

definition osip_nist_execute :: "osip_env \<Rightarrow> osip_t \<Rightarrow> (int \<times> osip_t \<times> action list) option" where
  "osip_nist_execute env osip = do {
     (trs, acts) \<leftarrow> execute_list env (osip_nist_transactions osip);
     Some (OSIP_SUCCESS, osip\<lparr>osip_nist_transactions := trs\<rparr>, acts) }"

section \<open>Timers\<close>

text \<open>The first event of a chain of tests is put in the queue of the transaction.\<close>

fun queue_first :: "osip_event option list \<Rightarrow> transaction \<Rightarrow> transaction" where
  "queue_first [] tr = tr"
| "queue_first (evt # evts) tr =
     (case evt of Some e \<Rightarrow> tr\<lparr>transactionff := transactionff tr @ [e]\<rparr> | None \<Rightarrow> queue_first evts tr)"

definition ict_timers :: "timeval \<Rightarrow> transaction \<Rightarrow> osip_event option list" where
  "ict_timers now tr =
     (case ict_context tr of
        None \<Rightarrow> []
      | Some c \<Rightarrow>
          [osip_ict_need_timer_b_event now c (state tr) (transactionid tr),
           osip_ict_need_timer_a_event now c (state tr) (transactionid tr),
           osip_ict_need_timer_d_event now c (state tr) (transactionid tr)])"

definition ist_timers :: "timeval \<Rightarrow> transaction \<Rightarrow> osip_event option list" where
  "ist_timers now tr =
     (case ist_context tr of
        None \<Rightarrow> []
      | Some c \<Rightarrow>
          [osip_ist_need_timer_i_event now c (state tr) (transactionid tr),
           osip_ist_need_timer_h_event now c (state tr) (transactionid tr),
           osip_ist_need_timer_g_event now c (state tr) (transactionid tr)])"

definition nict_timers :: "timeval \<Rightarrow> transaction \<Rightarrow> osip_event option list" where
  "nict_timers now tr =
     (case nict_context tr of
        None \<Rightarrow> []
      | Some c \<Rightarrow>
          [osip_nict_need_timer_k_event now c (state tr) (transactionid tr),
           osip_nict_need_timer_f_event now c (state tr) (transactionid tr),
           osip_nict_need_timer_e_event now c (state tr) (transactionid tr)])"

definition nist_timers :: "timeval \<Rightarrow> transaction \<Rightarrow> osip_event option list" where
  "nist_timers now tr =
     (case nist_context tr of
        None \<Rightarrow> []
      | Some c \<Rightarrow> [osip_nist_need_timer_j_event now c (state tr) (transactionid tr)])"

definition osip_timers_ict_execute :: "timeval \<Rightarrow> osip_t \<Rightarrow> osip_t" where
  "osip_timers_ict_execute now osip = osip\<lparr>osip_ict_transactions :=
     map (\<lambda>tr. if 1 \<le> length (transactionff tr) then tr else queue_first (ict_timers now tr) tr) (osip_ict_transactions osip)\<rparr>"

definition osip_timers_ist_execute :: "timeval \<Rightarrow> osip_t \<Rightarrow> osip_t" where
  "osip_timers_ist_execute now osip = osip\<lparr>osip_ist_transactions :=
     map (\<lambda>tr. queue_first (ist_timers now tr) tr) (osip_ist_transactions osip)\<rparr>"

definition osip_timers_nict_execute :: "timeval \<Rightarrow> osip_t \<Rightarrow> osip_t" where
  "osip_timers_nict_execute now osip = osip\<lparr>osip_nict_transactions :=
     map (\<lambda>tr. queue_first (nict_timers now tr) tr) (osip_nict_transactions osip)\<rparr>"

definition osip_timers_nist_execute :: "timeval \<Rightarrow> osip_t \<Rightarrow> osip_t" where
  "osip_timers_nist_execute now osip = osip\<lparr>osip_nist_transactions :=
     map (\<lambda>tr. queue_first (nist_timers now tr) tr) (osip_nist_transactions osip)\<rparr>"

section \<open>The time of the next timer\<close>

text \<open>The early return with a zero time is \<open>Inl\<close>.\<close>

definition zero_time :: timeval where "zero_time = \<lparr>tv_sec = 0, tv_usec = 0\<rparr>"

definition min_when :: "bool \<Rightarrow> timeval option \<Rightarrow> timeval \<Rightarrow> timeval option" where
  "min_when in_state timer lower = (if in_state then do { t \<leftarrow> timer; Some (min_timercmp lower t) } else Some lower)"

definition due :: "timeval \<Rightarrow> timeval \<Rightarrow> timeval + timeval" where
  "due now lower = (if osip_timer_gt now lower then Inl zero_time else Inr lower)"

definition ict_timeout :: "timeval \<Rightarrow> timeval \<Rightarrow> transaction \<Rightarrow> (timeval + timeval) option" where
  "ict_timeout now lower tr =
     (if 1 \<le> length (transactionff tr) then Some (Inl zero_time)
      else do {
        lower \<leftarrow> min_when (state tr = ICT_CALLING) (map_option timer_b_start (ict_context tr)) lower;
        lower \<leftarrow> min_when (state tr = ICT_CALLING) (map_option timer_a_start (ict_context tr)) lower;
        lower \<leftarrow> min_when (state tr = ICT_COMPLETED) (map_option timer_d_start (ict_context tr)) lower;
        Some (due now lower) })"

definition ist_timeout :: "timeval \<Rightarrow> timeval \<Rightarrow> transaction \<Rightarrow> (timeval + timeval) option" where
  "ist_timeout now lower tr = do {
     lower \<leftarrow> min_when (state tr = IST_CONFIRMED) (map_option timer_i_start (ist_context tr)) lower;
     lower \<leftarrow> min_when (state tr = IST_COMPLETED) (map_option timer_h_start (ist_context tr)) lower;
     lower \<leftarrow> min_when (state tr = IST_COMPLETED) (map_option timer_g_start (ist_context tr)) lower;
     Some (due now lower) }"

definition nict_timeout :: "timeval \<Rightarrow> timeval \<Rightarrow> transaction \<Rightarrow> (timeval + timeval) option" where
  "nict_timeout now lower tr =
     (let trying = (state tr = NICT_PROCEEDING \<or> state tr = NICT_TRYING)
      in do {
        lower \<leftarrow> min_when (state tr = NICT_COMPLETED) (map_option timer_k_start (nict_context tr)) lower;
        lower \<leftarrow> min_when trying (map_option timer_f_start (nict_context tr)) lower;
        lower \<leftarrow> min_when trying (map_option timer_e_start (nict_context tr)) lower;
        Some (due now lower) })"

definition nist_timeout :: "timeval \<Rightarrow> timeval \<Rightarrow> transaction \<Rightarrow> (timeval + timeval) option" where
  "nist_timeout now lower tr = do {
     lower \<leftarrow> min_when (state tr = NIST_COMPLETED) (map_option timer_j_start (nist_context tr)) lower;
     Some (due now lower) }"

definition ixt_timeout :: "timeval \<Rightarrow> timeval \<Rightarrow> ixt \<Rightarrow> (timeval + timeval) option" where
  "ixt_timeout now lower x = Some (due now (min_timercmp lower (ixt_start x)))"

text \<open>One of the five loops, entered unless an earlier one returned.\<close>

fun timeout_loop :: "(timeval \<Rightarrow> 'a \<Rightarrow> (timeval + timeval) option) \<Rightarrow> 'a list \<Rightarrow> timeval + timeval \<Rightarrow> (timeval + timeval) option" where
  "timeout_loop f xs (Inl z) = Some (Inl z)"
| "timeout_loop f [] (Inr lower) = Some (Inr lower)"
| "timeout_loop f (x # xs) (Inr lower) = do { r \<leftarrow> f lower x; timeout_loop f xs r }"

text \<open>The difference at the end, with its corrections.\<close>

definition time_left :: "timeval \<Rightarrow> timeval \<Rightarrow> timeval" where
  "time_left now lower =
     (let s = tv_sec lower - tv_sec now; u = tv_usec lower - tv_usec now;
          (s, u) = (if u < 0 then (s - 1, u + 1000000) else (s, u));
          (s, u) = (if s < 0 then (0, 0) else (s, u));
          (s, u) = (if u > 1000000 then (s + 1, u - 1000000) else (s, u))
      in \<lparr>tv_sec = s, tv_usec = u\<rparr>)"

definition osip_timers_gettimeout :: "timeval \<Rightarrow> osip_t \<Rightarrow> timeval option" where
  "osip_timers_gettimeout now osip = do {
     r \<leftarrow> timeout_loop (ict_timeout now) (osip_ict_transactions osip) (Inr (now\<lparr>tv_sec := tv_sec now + 3600 * 24 * 365\<rparr>));
     r \<leftarrow> timeout_loop (ist_timeout now) (osip_ist_transactions osip) r;
     r \<leftarrow> timeout_loop (nict_timeout now) (osip_nict_transactions osip) r;
     r \<leftarrow> timeout_loop (nist_timeout now) (osip_nist_transactions osip) r;
     r \<leftarrow> timeout_loop (ixt_timeout now) (ixt_retransmissions osip) r;
     (case r of Inl z \<Rightarrow> Some z | Inr lower \<Rightarrow> Some (time_left now lower)) }"

end
