(* ===== verification/Osip_Core_Proofs.thy ===== *)
theory Osip_Core_Proofs
  imports Osip_Core Osip_Matching
begin

text \<open>
  The stack as a whole: the loops that execute pending events end and lose no message, every operation of
  \<^verbatim>\<open>osip.c\<close> keeps the registry of transactions (\<open>core_inv\<close>), and with it the properties of every stack an
  application can reach (\<open>stack_reachable\<close>): typing and unique numbers, execution of pending events, search of
  the transaction of a retransmission, and the time of the next timer.
\<close>

section \<open>Pending events\<close>

text \<open>A queue is worked off: the loop ends, the queue is empty, and no message is lost.\<close>

definition queue_ok :: "transaction \<Rightarrow> bool" where
  "queue_ok tr \<longleftrightarrow> (\<forall>e\<in>set (transactionff tr). event_ok e)"

definition worked_off :: "transaction \<Rightarrow> transaction \<Rightarrow> action list \<Rightarrow> bool" where
  "worked_off tr tr' acts \<longleftrightarrow>
     transactionff tr' = [] \<and> identity tr' = identity (tr\<lparr>transactionff := []\<rparr>)
     \<and> kills acts = of_bool (state tr \<noteq> final_state (ctx_type tr) \<and> state tr' = final_state (ctx_type tr))
     \<and> (state tr = final_state (ctx_type tr) \<longrightarrow> state tr' = final_state (ctx_type tr))
     \<and> owned tr + event_sips (transactionff tr) + created acts = owned tr' + freed acts"

lemma ledger_trans:
  fixes f2 :: "'a multiset"
  assumes "a + m + c1 = a1 + f1" and "a1 + e + c2 = a2 + f2"
  shows "a + (m + e) + (c1 + c2) = a2 + (f1 + f2)"
proof -
  have "a + (m + e) + (c1 + c2) = (a + m + c1) + (e + c2)" by (simp only: ac_simps)
  also have "\<dots> = (a1 + f1) + (e + c2)" by (simp only: assms(1))
  also have "\<dots> = (a1 + e + c2) + f1" by (simp only: ac_simps)
  also have "\<dots> = (a2 + f2) + f1" by (simp only: assms(2))
  finally show ?thesis by (simp only: ac_simps)
qed

lemma execute_events_ok:
  assumes "transaction_inv tr" and "queue_ok tr" and "wf_time (env_now env)"
  shows "\<exists>tr' acts. execute_events env tr = Some (tr', acts) \<and> transaction_inv tr' \<and> worked_off tr tr' acts"
  using assms(1,2)
proof (induction "transactionff tr" arbitrary: tr)
  case Nil
  then show ?case by (subst execute_events.simps) (simp add: worked_off_def identity_def)
next
  case (Cons e es)
  let ?t = "tr\<lparr>transactionff := es\<rparr>"
  have e: "event_ok e" "\<forall>x\<in>set es. event_ok x" using Cons.prems(2) Cons.hyps(2) [symmetric] by (auto simp: queue_ok_def)
  have o: "owned ?t = owned tr" by (simp add: owned_def)
  have "transaction_inv ?t" using Cons.prems(1) by (simp add: transaction_inv_queue)
  from execute_step [OF this e(1) assms(3)] obtain i t1 acts1 where 1: "osip_transaction_execute env ?t e = Some (i, t1, acts1)"
    "transaction_inv t1" "identity t1 = identity ?t"
    "kills acts1 = of_bool (state tr \<noteq> final_state (ctx_type tr) \<and> state t1 = final_state (ctx_type tr))"
    "owned tr + mset_opt (evt_sip e) + created acts1 = owned t1 + freed acts1"
    unfolding o by auto
  have q: "transactionff t1 = es" "ctx_type t1 = ctx_type tr" using 1(3) by (simp_all add: identity_def)
  have stay: "state t1 = final_state (ctx_type tr)" if "state tr = final_state (ctx_type tr)"
    using machine_final_absorbs [of ?t "ctx_type tr" env e] 1(1) that
    by (auto simp: osip_transaction_execute_def)
  obtain t2 acts2 where 2: "execute_events env t1 = Some (t2, acts2)" "transaction_inv t2" "worked_off t1 t2 acts2"
    using Cons.hyps(1) [of t1] 1(2) q e(2) by (auto simp: queue_ok_def)
  have "execute_events env tr = Some (t2, acts1 @ acts2)"
    using Cons.hyps(2) [symmetric] 1(1) 2(1) by (subst execute_events.simps) simp
  moreover have "owned tr + event_sips (transactionff tr) + created (acts1 @ acts2) = owned t2 + freed (acts1 @ acts2)"
    using ledger_trans [OF 1(5)] 2(3) q(1) Cons.hyps(2) [symmetric] by (simp add: worked_off_def)
  then have "worked_off tr t2 (acts1 @ acts2)"
    using 1(3,4) 2(3) q stay Cons.hyps(2) [symmetric] by (auto simp: worked_off_def identity_def)
  ultimately show ?case using 2(2) by blast
qed

definition held :: "transaction list \<Rightarrow> message multiset" where
  "held trs = sum_list (map (\<lambda>tr. owned tr + event_sips (transactionff tr)) trs)"

lemma held_simps [simp]:
  "held [] = {#}" "held (tr # trs) = owned tr + event_sips (transactionff tr) + held trs"
  by (simp_all add: held_def)

definition finished :: "transaction list \<Rightarrow> nat" where
  "finished trs = length (filter (\<lambda>tr. state tr = final_state (ctx_type tr)) trs)"

lemma finished_simps [simp]:
  "finished [] = 0" "finished (tr # trs) = of_bool (state tr = final_state (ctx_type tr)) + finished trs"
  by (simp_all add: finished_def)

lemma execute_list_ok:
  "\<forall>tr\<in>set trs. transaction_inv tr \<and> queue_ok tr \<Longrightarrow> wf_time (env_now env) \<Longrightarrow>
   \<exists>trs' acts. execute_list env trs = Some (trs', acts)
     \<and> list_all2 (\<lambda>tr tr'. transaction_inv tr' \<and> transactionff tr' = [] \<and> identity tr' = identity (tr\<lparr>transactionff := []\<rparr>)) trs trs'
     \<and> held trs + created acts = held trs' + freed acts \<and> finished trs + kills acts = finished trs'"
proof (induction trs)
  case (Cons tr trs)
  obtain tr' acts where 1: "execute_events env tr = Some (tr', acts)" "transaction_inv tr'" "worked_off tr tr' acts"
    using execute_events_ok [of tr env] Cons.prems by auto
  obtain trs' acts' where 2: "execute_list env trs = Some (trs', acts')"
    "list_all2 (\<lambda>tr tr'. transaction_inv tr' \<and> transactionff tr' = [] \<and> identity tr' = identity (tr\<lparr>transactionff := []\<rparr>)) trs trs'"
    "held trs + created acts' = held trs' + freed acts'" "finished trs + kills acts' = finished trs'"
    using Cons by auto
  have "execute_list env (tr # trs) = Some (tr' # trs', acts @ acts')" using 1(1) 2(1) by simp
  moreover have "held (tr # trs) + created (acts @ acts') = held (tr' # trs') + freed (acts @ acts')"
    using 1(3) 2(3) by (simp add: worked_off_def) (metis (no_types, lifting) add.assoc add.commute add.left_commute)
  moreover have "ctx_type tr' = ctx_type tr" using 1(3) by (simp add: worked_off_def identity_def)
  then have "finished (tr # trs) + kills (acts @ acts') = finished (tr' # trs')"
    using 1(3) 2(4) by (auto simp: worked_off_def)
  ultimately show ?case using 1(2,3) 2(2) by (auto simp: worked_off_def)
qed simp

section \<open>The registry\<close>

lemma transactions_of_with [simp]:
  "transactions_of ty (with_transactions ty' trs osip) = (if ty = ty' then trs else transactions_of ty osip)"
  "osip_transactionid (with_transactions ty trs osip) = osip_transactionid osip"
  by (cases ty; cases ty'; simp add: transactions_of_def with_transactions_def)+

lemma list_updates:
  "osip\<lparr>osip_ict_transactions := trs\<rparr> = with_transactions ICT trs osip"
  "osip\<lparr>osip_ist_transactions := trs\<rparr> = with_transactions IST trs osip"
  "osip\<lparr>osip_nict_transactions := trs\<rparr> = with_transactions NICT trs osip"
  "osip\<lparr>osip_nist_transactions := trs\<rparr> = with_transactions NIST trs osip"
  by (simp_all add: with_transactions_def)

lemma list_reads:
  "osip_ict_transactions osip = transactions_of ICT osip" "osip_ist_transactions osip = transactions_of IST osip"
  "osip_nict_transactions osip = transactions_of NICT osip" "osip_nist_transactions osip = transactions_of NIST osip"
  by (simp_all add: transactions_of_def)

lemma add_transaction_list:
  "osip_add_transaction osip tr = with_transactions (ctx_type tr) (transactions_of (ctx_type tr) osip @ [tr]) osip"
  by (cases "ctx_type tr") (simp_all add: osip_add_transaction_def osip_add_ict_def osip_add_ist_def osip_add_nict_def
      osip_add_nist_def with_transactions_def transactions_of_def)

lemma remove_transaction_list:
  "osip_remove_transaction osip (Some tr) =
     (case remove_by_id (transactionid tr) (transactions_of (ctx_type tr) osip) of
        (i, trs) \<Rightarrow> (i, with_transactions (ctx_type tr) trs osip))"
  by (cases "ctx_type tr") (simp_all add: osip_remove_transaction_def osip_remove_ict_transaction_def
      osip_remove_ist_transaction_def osip_remove_nict_transaction_def osip_remove_nist_transaction_def
      with_transactions_def transactions_of_def)

text \<open>The numbers in the four lists.\<close>

definition numbers :: "osip_t \<Rightarrow> int multiset" where
  "numbers osip = mset (map transactionid (transactions_of ICT osip)) + mset (map transactionid (transactions_of IST osip))
     + mset (map transactionid (transactions_of NICT osip)) + mset (map transactionid (transactions_of NIST osip))"

definition core_inv :: "osip_t \<Rightarrow> bool" where
  "core_inv osip \<longleftrightarrow>
     (\<forall>ty. \<forall>tr\<in>set (transactions_of ty osip). ctx_type tr = ty \<and> transaction_inv tr \<and> queue_ok tr
        \<and> transactionid tr < osip_transactionid osip)
     \<and> (\<forall>x. count (numbers osip) x \<le> 1)"

lemma core_inv_entry:
  "core_inv osip \<Longrightarrow> tr \<in> set (transactions_of ty osip) \<Longrightarrow>
   ctx_type tr = ty \<and> transaction_inv tr \<and> queue_ok tr \<and> transactionid tr < osip_transactionid osip"
  by (simp add: core_inv_def)

lemma numbers_with:
  "numbers (with_transactions ty trs osip) + mset (map transactionid (transactions_of ty osip))
     = numbers osip + mset (map transactionid trs)"
  by (cases ty) (simp_all add: numbers_def ac_simps)

text \<open>A list is replaced by one with fewer or the same numbers.\<close>

lemma core_inv_with:
  assumes "core_inv osip"
    and "\<forall>tr\<in>set trs. ctx_type tr = ty \<and> transaction_inv tr \<and> queue_ok tr \<and> transactionid tr < osip_transactionid osip"
    and "mset (map transactionid trs) \<subseteq># mset (map transactionid (transactions_of ty osip))"
  shows "core_inv (with_transactions ty trs osip)"
proof -
  have "count (numbers (with_transactions ty trs osip)) x \<le> count (numbers osip) x" for x
    using arg_cong [OF numbers_with [of ty trs osip], of "\<lambda>m. count m x"] mset_subset_eq_count [OF assms(3), of x] by simp
  then have "count (numbers (with_transactions ty trs osip)) x \<le> 1" for x
    using assms(1) le_trans unfolding core_inv_def by blast
  then show ?thesis using assms(1,2) by (simp add: core_inv_def)
qed

lemma core_inv_add:
  assumes "core_inv osip" and "transaction_inv tr" and "queue_ok tr" and "transactionid tr = osip_transactionid osip"
  shows "core_inv (osip_add_transaction (osip\<lparr>osip_transactionid := osip_transactionid osip + 1\<rparr>) tr)"
proof -
  let ?o = "osip\<lparr>osip_transactionid := osip_transactionid osip + 1\<rparr>"
  have t: "transactions_of ty ?o = transactions_of ty osip" for ty by (cases ty) (simp_all add: transactions_of_def)
  have n: "numbers ?o = numbers osip" by (simp add: numbers_def t)
  have "\<forall>x\<in>#numbers osip. x < osip_transactionid osip" using assms(1) by (auto simp: core_inv_def numbers_def)
  then have "count (numbers osip) (osip_transactionid osip) = 0" by (auto simp: count_eq_zero_iff)
  moreover have "numbers (osip_add_transaction ?o tr) = add_mset (osip_transactionid osip) (numbers osip)"
    using numbers_with [of "ctx_type tr" "transactions_of (ctx_type tr) osip @ [tr]" ?o] assms(4)
    by (simp add: add_transaction_list t n)
  ultimately show ?thesis
    using assms by (force simp: core_inv_def add_transaction_list t)
qed

section \<open>Every operation keeps the registry\<close>

lemma remove_by_id_sub:
  "remove_by_id tid trs = (i, trs') \<Longrightarrow> mset trs' \<subseteq># mset trs \<and> (i = 0 \<longleftrightarrow> tid \<in> transactionid ` set trs)
     \<and> (i \<noteq> 0 \<longrightarrow> trs' = trs)"
  by (induction trs arbitrary: trs' i) (auto split: if_splits prod.splits)

lemma core_inv_remove:
  assumes "core_inv osip"
  shows "core_inv (snd (osip_remove_transaction osip trp))"
proof (cases trp)
  case None
  then show ?thesis using assms by (simp add: osip_remove_transaction_def)
next
  case (Some tr)
  obtain i trs where r: "remove_by_id (transactionid tr) (transactions_of (ctx_type tr) osip) = (i, trs)" by fastforce
  have sub: "mset trs \<subseteq># mset (transactions_of (ctx_type tr) osip)" using remove_by_id_sub [OF r] by blast
  then have "set trs \<subseteq> set (transactions_of (ctx_type tr) osip)" using set_mset_mono by fastforce
  moreover have "mset (map transactionid trs) \<subseteq># mset (map transactionid (transactions_of (ctx_type tr) osip))"
    using image_mset_subseteq_mono [OF sub] by simp
  ultimately show ?thesis
    using core_inv_with [OF assms, of trs "ctx_type tr"] core_inv_entry [OF assms] Some r
    by (auto simp: remove_transaction_list subset_iff)
qed

lemma same_numbers:
  "list_all2 (\<lambda>tr tr'. transactionid tr' = transactionid tr) trs trs' \<Longrightarrow> map transactionid trs' = map transactionid trs"
  by (induction rule: list_all2_induct) auto

text \<open>A loop over one list that changes each transaction in place.\<close>

lemma core_inv_each:
  assumes "core_inv osip"
    and "list_all2 (\<lambda>tr tr'. transactionid tr' = transactionid tr \<and> ctx_type tr' = ctx_type tr \<and> transaction_inv tr' \<and> queue_ok tr')
      (transactions_of ty osip) trs"
  shows "core_inv (with_transactions ty trs osip)"
proof (rule core_inv_with [OF assms(1)])
  show "\<forall>tr\<in>set trs. ctx_type tr = ty \<and> transaction_inv tr \<and> queue_ok tr \<and> transactionid tr < osip_transactionid osip"
  proof
    fix tr'
    assume "tr' \<in> set trs"
    then obtain k where "k < length trs" "tr' = trs ! k" by (auto simp: in_set_conv_nth)
    moreover have "length trs = length (transactions_of ty osip)" using assms(2) list_all2_lengthD by fastforce
    ultimately show "ctx_type tr' = ty \<and> transaction_inv tr' \<and> queue_ok tr' \<and> transactionid tr' < osip_transactionid osip"
      using list_all2_nthD2 [OF assms(2), of k] core_inv_entry [OF assms(1), of "transactions_of ty osip ! k" ty] by simp
  qed
  have "list_all2 (\<lambda>tr tr'. transactionid tr' = transactionid tr) (transactions_of ty osip) trs"
    using assms(2) by (rule list_all2_mono) simp
  then show "mset (map transactionid trs) \<subseteq># mset (map transactionid (transactions_of ty osip))"
    by (simp add: same_numbers)
qed

text \<open>The four loops that execute, as one.\<close>

definition stack_execute :: "fsm_type \<Rightarrow> osip_env \<Rightarrow> osip_t \<Rightarrow> (int \<times> osip_t \<times> action list) option" where
  "stack_execute ty =
     (case ty of ICT \<Rightarrow> osip_ict_execute | IST \<Rightarrow> osip_ist_execute | NICT \<Rightarrow> osip_nict_execute | NIST \<Rightarrow> osip_nist_execute)"

lemma stack_execute_list:
  "stack_execute ty env osip = do {
     (trs, acts) \<leftarrow> execute_list env (transactions_of ty osip);
     Some (OSIP_SUCCESS, with_transactions ty trs osip, acts) }"
  by (cases ty) (simp_all add: stack_execute_def osip_ict_execute_def osip_ist_execute_def osip_nict_execute_def
      osip_nist_execute_def list_updates list_reads)

lemma stack_execute_ok:
  assumes "core_inv osip" and "wf_time (env_now env)"
  shows "\<exists>trs acts. stack_execute ty env osip = Some (OSIP_SUCCESS, with_transactions ty trs osip, acts)
    \<and> core_inv (with_transactions ty trs osip)
    \<and> list_all2 (\<lambda>tr tr'. transactionff tr' = [] \<and> identity tr' = identity (tr\<lparr>transactionff := []\<rparr>)) (transactions_of ty osip) trs
    \<and> held (transactions_of ty osip) + created acts = held trs + freed acts
    \<and> finished (transactions_of ty osip) + kills acts = finished trs"
proof -
  have "\<forall>tr\<in>set (transactions_of ty osip). transaction_inv tr \<and> queue_ok tr" using core_inv_entry [OF assms(1)] by blast
  from execute_list_ok [OF this assms(2)] obtain trs acts where r: "execute_list env (transactions_of ty osip) = Some (trs, acts)"
    "list_all2 (\<lambda>tr tr'. transaction_inv tr' \<and> transactionff tr' = [] \<and> identity tr' = identity (tr\<lparr>transactionff := []\<rparr>))
      (transactions_of ty osip) trs"
    "held (transactions_of ty osip) + created acts = held trs + freed acts"
    "finished (transactions_of ty osip) + kills acts = finished trs" by blast
  have "core_inv (with_transactions ty trs osip)"
    by (rule core_inv_each [OF assms(1) list_all2_mono [OF r(2)]]) (auto simp: identity_def queue_ok_def)
  moreover have "list_all2 (\<lambda>tr tr'. transactionff tr' = [] \<and> identity tr' = identity (tr\<lparr>transactionff := []\<rparr>)) (transactions_of ty osip) trs"
    by (rule list_all2_mono [OF r(2)]) simp
  ultimately show ?thesis using r(1,3,4) by (auto simp: stack_execute_list)
qed

text \<open>The four timer loops, as one.\<close>

definition timer_events :: "timeval \<Rightarrow> transaction \<Rightarrow> osip_event option list" where
  "timer_events now tr =
     (case ctx_type tr of
        ICT \<Rightarrow> if 1 \<le> length (transactionff tr) then [] else ict_timers now tr
      | IST \<Rightarrow> ist_timers now tr
      | NICT \<Rightarrow> nict_timers now tr
      | NIST \<Rightarrow> nist_timers now tr)"

definition stack_timers :: "fsm_type \<Rightarrow> timeval \<Rightarrow> osip_t \<Rightarrow> osip_t" where
  "stack_timers ty =
     (case ty of ICT \<Rightarrow> osip_timers_ict_execute | IST \<Rightarrow> osip_timers_ist_execute
      | NICT \<Rightarrow> osip_timers_nict_execute | NIST \<Rightarrow> osip_timers_nist_execute)"

lemma stack_timers_list:
  assumes "core_inv osip"
  shows "stack_timers ty now osip
    = with_transactions ty (map (\<lambda>tr. queue_first (timer_events now tr) tr) (transactions_of ty osip)) osip"
proof -
  have "\<forall>tr\<in>set (transactions_of ty osip). ctx_type tr = ty" using core_inv_entry [OF assms] by blast
  then show ?thesis
    by (cases ty) (auto simp: stack_timers_def osip_timers_ict_execute_def osip_timers_ist_execute_def
        osip_timers_nict_execute_def osip_timers_nist_execute_def list_updates list_reads timer_events_def
        intro!: arg_cong [where f = "\<lambda>trs. with_transactions _ trs osip"])
qed

lemma queue_first_cases:
  "queue_first evts tr = tr \<or> (\<exists>e. Some e \<in> set evts \<and> queue_first evts tr = tr\<lparr>transactionff := transactionff tr @ [e]\<rparr>)"
  by (induction evts) (auto split: option.split)

lemma need_timer_event:
  "osip_transaction_need_timer_x_event now b timer c tid ty = Some e \<Longrightarrow>
   e = osip_event_new ty tid \<and> c \<and> tv_sec timer \<noteq> - 1 \<and> osip_timer_gt now timer"
  by (auto simp: osip_transaction_need_timer_x_event_def split: if_splits)

lemmas timer_tests = ict_timers_def ist_timers_def nict_timers_def nist_timers_def
  osip_ict_need_timer_a_event_def osip_ict_need_timer_b_event_def osip_ict_need_timer_d_event_def
  osip_nict_need_timer_e_event_def osip_nict_need_timer_f_event_def osip_nict_need_timer_k_event_def
  osip_ist_need_timer_g_event_def osip_ist_need_timer_h_event_def osip_ist_need_timer_i_event_def
  osip_nist_need_timer_j_event_def

lemma timer_event_ok: "Some e \<in> set (timer_events now tr) \<Longrightarrow> event_ok e"
  by (auto simp: timer_events_def timer_tests event_ok_def osip_event_new_def EVT_IS_MSG_def less_eq_type_t_def
      dest!: need_timer_event [OF sym] split: fsm_type.splits option.splits if_splits)

lemma queue_add_ok: "queue_ok tr \<Longrightarrow> event_ok e \<Longrightarrow> queue_ok (tr\<lparr>transactionff := transactionff tr @ [e]\<rparr>)"
  by (auto simp: queue_ok_def)

lemma core_inv_timers:
  assumes "core_inv osip"
  shows "core_inv (stack_timers ty now osip)"
proof -
  have "list_all2 (\<lambda>tr tr'. transactionid tr' = transactionid tr \<and> ctx_type tr' = ctx_type tr \<and> transaction_inv tr' \<and> queue_ok tr')
      (transactions_of ty osip) (map (\<lambda>tr. queue_first (timer_events now tr) tr) (transactions_of ty osip))"
  proof (rule list_all2I)
    show "\<forall>x\<in>set (zip (transactions_of ty osip) (map (\<lambda>tr. queue_first (timer_events now tr) tr) (transactions_of ty osip))).
        case x of (tr, tr') \<Rightarrow> transactionid tr' = transactionid tr \<and> ctx_type tr' = ctx_type tr \<and> transaction_inv tr' \<and> queue_ok tr'"
    proof (clarify, goal_cases)
      case (1 tr tr')
      then have m: "tr \<in> set (transactions_of ty osip)" "tr' = queue_first (timer_events now tr) tr"
        by (auto simp: zip_map2 in_set_zip)
      have ok: "transaction_inv tr" "queue_ok tr" using core_inv_entry [OF assms m(1)] by blast+
      show ?case
        using queue_first_cases [of "timer_events now tr" tr]
      proof (elim disjE exE conjE)
        fix e
        assume "Some e \<in> set (timer_events now tr)"
          and q: "queue_first (timer_events now tr) tr = tr\<lparr>transactionff := transactionff tr @ [e]\<rparr>"
        then have "event_ok e" by (simp add: timer_event_ok)
        with ok show ?thesis by (simp add: m(2) q transaction_inv_queue queue_add_ok)
      qed (use ok m(2) in simp)
    qed
  qed simp
  from core_inv_each [OF assms this] show ?thesis by (simp add: stack_timers_list [OF assms])
qed

text \<open>Creation of a transaction.\<close>

definition creatable :: "osip_event \<Rightarrow> bool" where
  "creatable evt \<longleftrightarrow> (\<forall>sip. evt_sip evt = Some sip \<longrightarrow> msg_ok sip \<and> req_uri sip \<noteq> None
     \<and> (EVT_IS_INCOMINGREQ evt \<or> EVT_IS_OUTGOINGREQ evt \<longrightarrow> MSG_IS_REQUEST sip))"

lemma transaction_new_ok:
  assumes "msg_ok req" and "req_uri req \<noteq> None" and "wf_time (env_now env)"
    and "transaction_new env tid ty (Some req) = Some (i, Some tr)"
  shows "i = 0 \<and> transaction_inv tr \<and> transactionid tr = tid \<and> transactionff tr = [] \<and> ctx_type tr = ty \<and> owned tr = {#}"
  using transaction_new_result [OF assms(1-3), of tid ty] assms(4)
  by (auto simp: identity_def)

lemma osip_transaction_init_ok:
  assumes "core_inv osip" and "msg_ok req" and "req_uri req \<noteq> None" and "wf_time (env_now env)"
  shows "\<exists>i trp osip'. osip_transaction_init env osip ty (Some req) = Some (i, trp, osip') \<and> core_inv osip'
    \<and> (\<forall>tr. trp = Some tr \<longrightarrow> i = 0
        \<and> osip' = osip_add_transaction (osip\<lparr>osip_transactionid := osip_transactionid osip + 1\<rparr>) tr
        \<and> transaction_new env (osip_transactionid osip) ty (Some req) = Some (OSIP_SUCCESS, Some tr))"
proof (cases "\<exists>cid. msg_call_id req = Some cid \<and> call_id_number cid \<noteq> None")
  case False
  then show ?thesis using assms(1) by (auto simp: osip_transaction_init_def split: option.split)
next
  case True
  let ?o = "osip\<lparr>osip_transactionid := osip_transactionid osip + 1\<rparr>"
  have t: "transactions_of ty' ?o = transactions_of ty' osip" for ty' by (cases ty') (simp_all add: transactions_of_def)
  have o: "core_inv ?o"
    using assms(1) by (force simp: core_inv_def t numbers_def)
  have i: "osip_transaction_init env osip ty (Some req) = do {
      (i, trp) \<leftarrow> transaction_new env (osip_transactionid osip) ty (Some req);
      (case trp of
         Some tr \<Rightarrow> Some (i, Some tr, osip_add_transaction ?o tr)
       | None \<Rightarrow> Some (i, None, snd (osip_remove_transaction ?o (Some (transaction_zero env (osip_transactionid osip) ty))))) }"
    using True by (auto simp: osip_transaction_init_def Let_def)
  show ?thesis
    using transaction_new_result [OF assms(2-4), of "osip_transactionid osip" ty]
  proof (elim disjE exE conjE)
    fix e
    assume "transaction_new env (osip_transactionid osip) ty (Some req) = Some (e, None)"
    then show ?thesis using core_inv_remove [OF o] by (simp add: i)
  next
    fix tr
    assume n: "transaction_new env (osip_transactionid osip) ty (Some req) = Some (OSIP_SUCCESS, Some tr)"
    note r = transaction_new_ok [OF assms(2-4) n]
    have "core_inv (osip_add_transaction ?o tr)"
      using core_inv_add [OF assms(1)] r by (simp add: queue_ok_def)
    with n show ?thesis by (simp add: i)
  qed
qed

lemma osip_create_transaction_ok:
  assumes "core_inv osip" and "creatable evt" and "wf_time (env_now env)"
  shows "\<exists>trp osip' evt'. osip_create_transaction env osip (Some evt) = Some (trp, osip', Some evt') \<and> core_inv osip'"
proof (cases "evt_sip evt")
  case None
  then show ?thesis using assms(1) by (simp add: osip_create_transaction_def)
next
  case (Some sip)
  then have ok: "msg_ok sip" "req_uri sip \<noteq> None" using assms(2) by (simp_all add: creatable_def)
  obtain b where b: "MSG_IS_ACK sip = Some b" using msg_is_method_total [OF ok(1)] by (fastforce simp: MSG_IS_ACK_def)
  show ?thesis
  proof (cases "(MSG_IS_REQUEST sip \<and> (sip_method sip = None \<or> cseq_method_of sip \<noteq> sip_method sip)) \<or> b")
    case True
    then show ?thesis using assms(1) Some b by (auto simp: osip_create_transaction_def)
  next
    case False
    have "new_transaction_type evt sip \<noteq> None"
      using False assms(2) Some by (auto simp: new_transaction_type_def creatable_def cseq_is_def)
    then obtain tyo where t: "new_transaction_type evt sip = Some tyo" by blast
    show ?thesis
    proof (cases tyo)
      case None
      then show ?thesis using assms(1) False b t Some by (simp add: osip_create_transaction_def)
    next
      case (Some ty)
      obtain i trp osip' where "osip_transaction_init env osip ty (Some sip) = Some (i, trp, osip')" "core_inv osip'"
        using osip_transaction_init_ok [OF assms(1) ok assms(3), of ty] by blast
      then show ?thesis using False b t Some \<open>evt_sip evt = Some sip\<close>
        by (auto simp: osip_create_transaction_def split: option.split)
    qed
  qed
qed

text \<open>Search.\<close>

lemma find_loop_some:
  "find_loop f trs = Some (Some k) \<Longrightarrow> k < length trs \<and> f (trs ! k) = Some True \<and> (\<forall>j<k. f (trs ! j) = Some False)"
proof (induction trs arbitrary: k)
  case (Cons tr trs)
  then show ?case
    by (cases k) (auto simp: nth_Cons' less_Suc_eq_0_disj split: bind_split_asm if_splits)
qed simp

lemma find_loop_none: "find_loop f trs = Some None \<longleftrightarrow> (\<forall>tr\<in>set trs. f tr = Some False)"
  by (induction trs) (auto split: bind_split bind_split_asm if_splits)

lemma find_loop_append:
  "find_loop f trs = Some None \<Longrightarrow> f tr = Some True \<Longrightarrow> find_loop f (trs @ [tr]) = Some (Some (length trs))"
  by (induction trs) (auto split: bind_split bind_split_asm if_splits)

lemma transaction_find_bound:
  "osip_transaction_find trs evt = Some (Some k) \<Longrightarrow> k < length trs"
  using find_loop_some by (auto simp: osip_transaction_find_def split: if_splits)

definition queued :: "osip_event \<Rightarrow> transaction \<Rightarrow> transaction" where
  "queued evt tr = tr\<lparr>transactionff := transactionff tr @ [evt\<lparr>evt_transactionid := transactionid tr\<rparr>]\<rparr>"

lemma add_event_queued: "osip_transaction_add_event (Some tr) (Some evt) = (OSIP_SUCCESS, Some (queued evt tr))"
  by (simp add: osip_transaction_add_event_def queued_def)

lemma core_inv_queue:
  assumes "core_inv osip" and "event_ok evt" and "k < length (transactions_of ty osip)"
  shows "core_inv (with_transactions ty ((transactions_of ty osip)[k := queued evt (transactions_of ty osip ! k)]) osip)"
proof (rule core_inv_with [OF assms(1)])
  let ?tr = "transactions_of ty osip ! k"
  have tr: "?tr \<in> set (transactions_of ty osip)" using assms(3) by simp
  have "event_ok (evt\<lparr>evt_transactionid := transactionid ?tr\<rparr>)" using assms(2) by (simp add: event_ok_def EVT_IS_MSG_def)
  then have "ctx_type (queued evt ?tr) = ty \<and> transaction_inv (queued evt ?tr) \<and> queue_ok (queued evt ?tr)
      \<and> transactionid (queued evt ?tr) < osip_transactionid osip"
    using core_inv_entry [OF assms(1) tr] queue_add_ok by (simp add: queued_def transaction_inv_queue)
  then show "\<forall>tr\<in>set ((transactions_of ty osip)[k := queued evt ?tr]). ctx_type tr = ty \<and> transaction_inv tr \<and> queue_ok tr
      \<and> transactionid tr < osip_transactionid osip"
    using core_inv_entry [OF assms(1)] set_update_subset_insert [of "transactions_of ty osip" k "queued evt ?tr"] by blast
  have "map transactionid ((transactions_of ty osip)[k := queued evt ?tr]) = map transactionid (transactions_of ty osip)"
    using assms(3) by (simp add: map_update queued_def list_update_same_conv)
  then show "mset (map transactionid ((transactions_of ty osip)[k := queued evt ?tr]))
      \<subseteq># mset (map transactionid (transactions_of ty osip))" by simp
qed

lemma find_transaction_cases:
  assumes "osip_find_transaction osip (Some evt) consume = Some (r, osip')"
  shows "osip' = osip \<or> (\<exists>ty k. k < length (transactions_of ty osip)
    \<and> osip' = with_transactions ty ((transactions_of ty osip)[k := queued evt (transactions_of ty osip ! k)]) osip)"
  using assms transaction_find_bound
  by (auto simp: osip_find_transaction_def add_event_queued split: option.splits if_splits bind_split_asm) blast+

lemma core_inv_find:
  "core_inv osip \<Longrightarrow> event_ok evt \<Longrightarrow> osip_find_transaction osip (Some evt) consume = Some (r, osip') \<Longrightarrow> core_inv osip'"
  using find_transaction_cases core_inv_queue by blast

lemma core_inv_same:
  assumes "core_inv osip" and "\<And>ty. transactions_of ty osip' = transactions_of ty osip"
    and "osip_transactionid osip' = osip_transactionid osip"
  shows "core_inv osip'"
  using assms by (simp add: core_inv_def numbers_def)

section \<open>Reachable stacks\<close>

text \<open>Everything an application and the network can make the stack do, with well-formed events and clocks.\<close>

inductive stack_reachable :: "osip_t \<Rightarrow> bool" where
  stack_init: "stack_reachable osip_init"
| stack_create: "stack_reachable osip \<Longrightarrow> creatable evt \<Longrightarrow> wf_time (env_now env)
    \<Longrightarrow> osip_create_transaction env osip (Some evt) = Some (trp, osip', evt') \<Longrightarrow> stack_reachable osip'"
| stack_find: "stack_reachable osip \<Longrightarrow> event_ok evt
    \<Longrightarrow> osip_find_transaction osip (Some evt) consume = Some (r, osip') \<Longrightarrow> stack_reachable osip'"
| stack_add_event: "stack_reachable osip \<Longrightarrow> event_ok evt \<Longrightarrow> k < length (transactions_of ty osip)
    \<Longrightarrow> osip_transaction_add_event (Some (transactions_of ty osip ! k)) (Some evt) = (i, Some tr)
    \<Longrightarrow> stack_reachable (with_transactions ty ((transactions_of ty osip)[k := tr]) osip)"
| stack_execute: "stack_reachable osip \<Longrightarrow> wf_time (env_now env)
    \<Longrightarrow> stack_execute ty env osip = Some (i, osip', acts) \<Longrightarrow> stack_reachable osip'"
| stack_timer: "stack_reachable osip \<Longrightarrow> stack_reachable (stack_timers ty now osip)"
| stack_remove: "stack_reachable osip \<Longrightarrow> stack_reachable (snd (osip_remove_transaction osip trp))"
| stack_start_200ok: "stack_reachable osip
    \<Longrightarrow> osip_start_200ok_retransmissions osip now dlg m sock = Some osip' \<Longrightarrow> stack_reachable osip'"
| stack_start_ack: "stack_reachable osip
    \<Longrightarrow> osip_start_ack_retransmissions osip now dlg ackm address portnum sock = Some osip' \<Longrightarrow> stack_reachable osip'"
| stack_stop_200ok: "stack_reachable osip
    \<Longrightarrow> osip_stop_200ok_retransmissions dialogs osip ackm = Some (d, osip', acts) \<Longrightarrow> stack_reachable osip'"
| stack_stop_dialog: "stack_reachable osip
    \<Longrightarrow> osip_stop_retransmissions_from_dialog osip dlg = (osip', acts) \<Longrightarrow> stack_reachable osip'"
| stack_retransmit: "stack_reachable osip \<Longrightarrow> osip_retransmissions_execute now osip = (osip', acts) \<Longrightarrow> stack_reachable osip'"

lemma osip_init_inv: "core_inv osip_init"
proof -
  have "transactions_of ty osip_init = []" for ty by (cases ty) (simp_all add: transactions_of_def osip_init_def)
  then show ?thesis by (simp add: core_inv_def numbers_def)
qed

text \<open>The retransmissions do not touch the transactions.\<close>

lemma retransmissions_same [simp]:
  "transactions_of ty (osip\<lparr>ixt_retransmissions := xs\<rparr>) = transactions_of ty osip"
  by (cases ty) (simp_all add: transactions_of_def)

lemmas retransmission_defs = osip_start_200ok_retransmissions_def osip_start_ack_retransmissions_def osip_add_ixt_def
  osip_stop_200ok_retransmissions_def osip_stop_retransmissions_from_dialog_def osip_retransmissions_execute_def

lemma core_inv_retransmissions: "core_inv osip \<Longrightarrow> core_inv (osip\<lparr>ixt_retransmissions := xs\<rparr>)"
  by (erule core_inv_same) simp_all

lemma stack_reachable_inv: "stack_reachable osip \<Longrightarrow> core_inv osip"
proof (induction rule: stack_reachable.induct)
  case stack_init
  show ?case by (rule osip_init_inv)
next
  case (stack_create osip evt env trp osip' evt')
  then show ?case using osip_create_transaction_ok [of osip evt env] by auto
next
  case (stack_find osip evt consume r osip')
  then show ?case using core_inv_find by blast
next
  case (stack_add_event osip evt k ty i tr)
  then have "tr = queued evt (transactions_of ty osip ! k)" by (simp add: add_event_queued)
  then show ?case using core_inv_queue [OF stack_add_event.IH stack_add_event.hyps(2,3)] by (simp only:)
next
  case (stack_execute osip env ty i osip' acts)
  then show ?case using stack_execute_ok [of osip env ty] by auto
next
  case (stack_timer osip ty now)
  then show ?case by (simp add: core_inv_timers)
next
  case (stack_remove osip trp)
  then show ?case by (simp add: core_inv_remove)
qed (auto simp: retransmission_defs core_inv_retransmissions split: option.splits bind_split_asm prod.splits)

text \<open>The states of the four machines.\<close>

definition states_of :: "fsm_type \<Rightarrow> state_t set" where
  "states_of ty =
     (case ty of
        ICT \<Rightarrow> {ICT_PRE_CALLING, ICT_CALLING, ICT_PROCEEDING, ICT_COMPLETED, ICT_TERMINATED}
      | IST \<Rightarrow> {IST_PRE_PROCEEDING, IST_PROCEEDING, IST_COMPLETED, IST_CONFIRMED, IST_TERMINATED}
      | NICT \<Rightarrow> {NICT_PRE_TRYING, NICT_TRYING, NICT_PROCEEDING, NICT_COMPLETED, NICT_TERMINATED}
      | NIST \<Rightarrow> {NIST_PRE_TRYING, NIST_TRYING, NIST_PROCEEDING, NIST_COMPLETED, NIST_TERMINATED})"

definition has_context :: "transaction \<Rightarrow> bool" where
  "has_context tr =
     (case ctx_type tr of
        ICT \<Rightarrow> ict_context tr \<noteq> None
      | IST \<Rightarrow> ist_context tr \<noteq> None
      | NICT \<Rightarrow> nict_context tr \<noteq> None
      | NIST \<Rightarrow> nist_context tr \<noteq> None)"

lemma transaction_inv_typed: "transaction_inv tr \<Longrightarrow> state tr \<in> states_of (ctx_type tr) \<and> has_context tr"
  by (cases "ctx_type tr") (auto simp: transaction_inv_def machine_inv_def ict_inv_def ist_inv_def nict_inv_def nist_inv_def
      states_of_def has_context_def)

lemma registry_numbers:
  assumes "core_inv osip"
  shows "distinct (map transactionid (osip_ict_transactions osip @ osip_ist_transactions osip
    @ osip_nict_transactions osip @ osip_nist_transactions osip))"
proof -
  let ?ids = "map transactionid (osip_ict_transactions osip @ osip_ist_transactions osip
    @ osip_nict_transactions osip @ osip_nist_transactions osip)"
  have "mset ?ids = numbers osip" by (simp add: numbers_def list_reads ac_simps)
  then have "count (mset ?ids) x \<le> 1" for x using assms by (simp only: core_inv_def)
  then have "count (mset ?ids) x = (if x \<in> set ?ids then 1 else 0)" for x
    using count_greater_zero_iff [of "mset ?ids" x] by (cases "x \<in> set ?ids") (force simp: le_Suc_eq count_eq_zero_iff)+
  then show ?thesis by (subst distinct_count_atmost_1) blast
qed

text \<open>
  C33. Typing of the stack.  In every stack that can be reached, a transaction is in the list of its type, its state
  is one of the states of its machine and its context exists; the numbers of all transactions are different
  and smaller than the next one to be given out.
\<close>

theorem stack_registry:
  assumes "stack_reachable osip"
  shows "distinct (map transactionid (osip_ict_transactions osip @ osip_ist_transactions osip
      @ osip_nict_transactions osip @ osip_nist_transactions osip))
    \<and> (\<forall>ty tr. tr \<in> set (transactions_of ty osip) \<longrightarrow> ctx_type tr = ty \<and> state tr \<in> states_of ty \<and> has_context tr
      \<and> transactionid tr < osip_transactionid osip)"
  using registry_numbers core_inv_entry transaction_inv_typed stack_reachable_inv [OF assms] by blast


definition sample_received :: osip_event where
  "sample_received = \<lparr>evt_type = RCV_REQUEST, evt_transactionid = 0, evt_sip = Some sample_request\<rparr>"

definition sample_first :: transaction where
  "sample_first = (case transaction_new sample_env 1 NIST (Some sample_request) of Some (_, Some tr) \<Rightarrow> tr)"

definition sample_stack :: osip_t where
  "sample_stack = (case osip_create_transaction sample_env osip_init (Some sample_received) of Some (_, osip, _) \<Rightarrow> osip)"

lemma sample_create:
  "osip_create_transaction sample_env osip_init (Some sample_received)
     = Some (Some sample_first, sample_stack, Some (sample_received\<lparr>evt_transactionid := 1\<rparr>))"
  by code_simp

lemma sample_received_ok: "creatable sample_received" "event_ok sample_received"
  using sample_ok(1,3) by (simp_all add: creatable_def sample_received_def event_ok_def EVT_IS_MSG_def less_eq_type_t_def)
    (simp add: sample_request_def osip_message_init_def MSG_IS_REQUEST_def)

lemma sample_stack_reachable: "stack_reachable sample_stack"
  using stack_create [OF stack_init sample_received_ok(1) sample_ok(4)] sample_create by blast

theorem stack_registry_witness:
  "distinct (map transactionid (osip_ict_transactions sample_stack @ osip_ist_transactions sample_stack
      @ osip_nict_transactions sample_stack @ osip_nist_transactions sample_stack))"
  using stack_registry [OF sample_stack_reachable] by blast


text \<open>
  C34. Execution of the pending events ends.  In every stack that can be reached each of \<^verbatim>\<open>osip_ict_execute\<close>,
  \<^verbatim>\<open>osip_ist_execute\<close>, \<^verbatim>\<open>osip_nict_execute\<close> and \<^verbatim>\<open>osip_nist_execute\<close> returns without a fault and with all its queues
  empty.  The transactions of its list stay what they are and in their order, nothing else of the stack changes,
  every message that an event or a transaction held is still held or was released, and the kill callback was
  called once for every transaction that reached its final state.
\<close>

theorem pending_events_executed:
  assumes "stack_reachable osip" and "wf_time (env_now env)"
  shows "\<exists>osip' acts trs. stack_execute ty env osip = Some (OSIP_SUCCESS, osip', acts)
    \<and> osip' = with_transactions ty trs osip
    \<and> list_all2 (\<lambda>tr tr'. transactionff tr' = [] \<and> identity tr' = identity (tr\<lparr>transactionff := []\<rparr>)) (transactions_of ty osip) trs
    \<and> held (transactions_of ty osip) + created acts = held trs + freed acts
    \<and> finished (transactions_of ty osip) + kills acts = finished trs"
  using stack_execute_ok [OF stack_reachable_inv [OF assms(1)] assms(2), of ty] by blast

theorem pending_events_executed_witness:
  "\<exists>osip' acts trs. stack_execute NIST sample_env sample_stack = Some (OSIP_SUCCESS, osip', acts)
    \<and> osip' = with_transactions NIST trs sample_stack
    \<and> finished (transactions_of NIST sample_stack) + kills acts = finished trs"
  using pending_events_executed [OF sample_stack_reachable sample_ok(4), of NIST] by blast


section \<open>Retransmissions of a request\<close>

lemma request_matches_itself:
  assumes "transaction_new env tid ty (Some req) = Some (OSIP_SUCCESS, Some tr)" and "ty = IST \<or> ty = NIST"
    and "vias req = v # vs" and "cnamed (via_params v)" and "branch_value v = Some b" and "take 7 b = magic_cookie"
    and "via_host v \<noteq> None"
  shows "osip_transaction_matching_request_osip_to_xist_17_2_3 (Some tr) (Some req) = Some OSIP_SUCCESS"
proof -
  obtain cs m0 where cs: "msg_cseq req = Some cs" "cseq_method cs = Some m0" and k: "topvia tr = Some v" "tr_cseq tr = Some cs"
      "ist_context tr \<noteq> None \<or> nist_context tr \<noteq> None"
    using transaction_new_keys [OF assms(1)] assms(2,3) by auto
  obtain p where "via_branch v = Some (Some p)" "gvalue p = Some b"
    using via_branch_find [OF assms(4)] assms(5) by (auto simp: branch_value_def param_value_def split: option.splits)
  then have "osip_transaction_matching_request_osip_to_xist_17_2_3 (Some tr) (Some req) = match_rfc3261 tr m0 v v b b"
    using assms(3,6) k cs by (auto simp: osip_transaction_matching_request_osip_to_xist_17_2_3_def cseq_method_of_def)
  then show ?thesis using cs k assms(7) by (simp add: match_rfc3261_def same_sent_by_iff)
qed

lemma create_cases:
  assumes "osip_create_transaction env osip (Some evt) = Some (Some tr, osip', evt')"
  shows "\<exists>sip ty. evt_sip evt = Some sip \<and> MSG_IS_ACK sip = Some False
    \<and> (MSG_IS_REQUEST sip \<longrightarrow> sip_method sip \<noteq> None \<and> cseq_method_of sip = sip_method sip)
    \<and> new_transaction_type evt sip = Some (Some ty)
    \<and> transaction_new env (osip_transactionid osip) ty (Some sip) = Some (OSIP_SUCCESS, Some tr)
    \<and> osip' = osip_add_transaction (osip\<lparr>osip_transactionid := osip_transactionid osip + 1\<rparr>) tr
    \<and> evt' = Some (evt\<lparr>evt_transactionid := transactionid tr\<rparr>)"
  using assms
  by (auto simp: osip_create_transaction_def osip_transaction_init_def Let_def Option.bind_eq_Some_conv
      split: option.splits if_splits)


lemma transaction_new_type:
  assumes "transaction_new env tid ty (Some req) = Some (OSIP_SUCCESS, Some tr)"
  shows "ctx_type tr = ty"
proof -
  have "init_context env (keyed env tid ty req) req = Some (OSIP_SUCCESS, Some tr)"
    using transaction_new_cases [of env tid ty req] assms by auto
  moreover have "ctx_type (keyed env tid ty req) = ty" by (simp add: keyed_def transaction_zero_def)
  ultimately show ?thesis
    by (cases ty) (auto simp: init_context_def context_done_def Option.bind_eq_Some_conv split: prod.splits ptr.splits if_splits)
qed

lemma received_type:
  assumes "EVT_IS_INCOMINGREQ evt" and "MSG_IS_REQUEST sip" and "MSG_IS_ACK sip = Some False" and "cseq_method_of sip = sip_method sip"
    and "new_transaction_type evt sip = Some (Some ty)"
  shows "list_for_event evt sip = Some (Some ty) \<and> (ty = IST \<or> ty = NIST) \<and> msg_cseq sip \<noteq> None"
proof -
  obtain m where m: "cseq_method_of sip = Some m"
    using assms(1,5) by (cases "cseq_method_of sip") (simp_all add: new_transaction_type_def cseq_is_def)
  have "m \<noteq> ''ACK''"
  proof
    assume "m = ''ACK''"
    then have "sip_method sip = Some ''ACK''" using assms(4) m by simp
    then show False using assms(2,3) by (simp add: MSG_IS_ACK_def msg_is_method_def MSG_IS_REQUEST_def)
  qed
  moreover have "EVT_IS_INCOMINGMSG evt"
    using assms(1) by (auto simp: EVT_IS_INCOMINGREQ_def EVT_IS_INCOMINGMSG_def less_eq_type_t_def)
  moreover have "ty = (if m = ''INVITE'' then IST else NIST)"
    using assms(1,5) m by (simp add: new_transaction_type_def cseq_is_def)
  moreover have "msg_cseq sip \<noteq> None" using m by (auto simp: cseq_method_of_def split: option.splits)
  ultimately show ?thesis using m assms(2) by (simp add: list_for_event_def cseq_is_def)
qed

lemma find_transaction_none:
  assumes "osip_find_transaction osip (Some evt) consume = Some (None, osip0)" and "evt_sip evt = Some sip"
    and "msg_cseq sip \<noteq> None" and "list_for_event evt sip = Some (Some ty)"
  shows "osip_transaction_find (transactions_of ty osip) evt = Some None \<and> osip0 = osip"
proof -
  obtain r where r: "osip_transaction_find (transactions_of ty osip) evt = Some r"
    using assms by (cases "osip_transaction_find (transactions_of ty osip) evt") (simp_all add: osip_find_transaction_def)
  then show ?thesis
    using assms by (cases r; cases consume) (simp_all add: osip_find_transaction_def add_event_queued)
qed

text \<open>
  C35. A retransmitted request finds its transaction.  When no transaction was found for a received request with the
  magic cookie and one was created for it, the same request received again is queued at the end of the queue of
  that transaction, so no second one is created.
\<close>

theorem retransmission_finds_transaction:
  assumes "osip_find_transaction osip (Some evt) consume = Some (None, osip0)"
    and "osip_create_transaction env osip0 (Some evt) = Some (Some tr, osip', evt')"
    and "EVT_IS_INCOMINGREQ evt" and "evt_sip evt = Some req" and "MSG_IS_REQUEST req"
    and "vias req = v # vs" and "cnamed (via_params v)" and "via_host v \<noteq> None"
    and "branch_value v = Some b" and "take 7 b = magic_cookie"
    and "EVT_IS_INCOMINGREQ again" and "evt_sip again = Some req"
  shows "\<exists>trs. transactions_of (ctx_type tr) osip' = trs @ [tr]
    \<and> osip_find_transaction_and_add_event osip' (Some again)
        = Some (OSIP_SUCCESS, with_transactions (ctx_type tr) (trs @ [queued again tr]) osip')"
proof -
  obtain ty where c: "MSG_IS_ACK req = Some False" "cseq_method_of req = sip_method req"
    "new_transaction_type evt req = Some (Some ty)" "transaction_new env (osip_transactionid osip0) ty (Some req) = Some (OSIP_SUCCESS, Some tr)"
    "osip' = osip_add_transaction (osip0\<lparr>osip_transactionid := osip_transactionid osip0 + 1\<rparr>) tr"
    using create_cases [OF assms(2)] assms(4,5) by auto
  note l = received_type [OF assms(3,5) c(1,2,3)]
  have "new_transaction_type again req = Some (Some ty)" using c(3) assms(3,11) by (simp add: new_transaction_type_def)
  note l' = received_type [OF assms(11,5) c(1,2) this]
  let ?f = "\<lambda>tr. map_option (\<lambda>i. i = 0) (osip_transaction_matching_request_osip_to_xist_17_2_3 (Some tr) (Some req))"
  have ty: "ctx_type tr = ty" using transaction_new_type [OF c(4)] by simp
  let ?trs = "transactions_of ty osip0"
  have t: "transactions_of ty osip' = ?trs @ [tr]" by (simp add: c(5) add_transaction_list ty) (cases ty; simp add: transactions_of_def)
  have "find_loop ?f ?trs = Some None"
    using find_transaction_none [OF assms(1,4)] assms(3,4) l by (simp add: osip_transaction_find_def)
  moreover have "?f tr = Some True" using request_matches_itself [OF c(4) _ assms(6,7,9,10,8)] l by simp
  ultimately have "find_loop ?f (?trs @ [tr]) = Some (Some (length ?trs))" by (rule find_loop_append)
  then have "osip_transaction_find (transactions_of ty osip') again = Some (Some (length ?trs))"
    using assms(11,12) by (simp add: osip_transaction_find_def t)
  then have "osip_find_transaction_and_add_event osip' (Some again)
      = Some (OSIP_SUCCESS, with_transactions ty (?trs @ [queued again tr]) osip')"
    using l' assms(12) by (simp add: osip_find_transaction_and_add_event_def osip_find_transaction_def add_event_queued t)
  with t ty show ?thesis by blast
qed

theorem retransmission_finds_transaction_witness:
  "\<exists>trs. transactions_of NIST sample_stack = trs @ [sample_first]
    \<and> osip_find_transaction_and_add_event sample_stack (Some sample_received)
        = Some (OSIP_SUCCESS, with_transactions NIST (trs @ [queued sample_received sample_first]) sample_stack)"
proof -
  have "osip_find_transaction osip_init (Some sample_received) True = Some (None, osip_init)"
    "vias sample_request = hd (vias sample_request) # []" "via_host (hd (vias sample_request)) \<noteq> None"
    "EVT_IS_INCOMINGREQ sample_received" "evt_sip sample_received = Some sample_request" "MSG_IS_REQUEST sample_request"
    "ctx_type sample_first = NIST"
    by code_simp+
  then show ?thesis
    using retransmission_finds_transaction [OF _ sample_create, where again = sample_received] sample_via_params
    by (simp add: magic_cookie_def)
qed


section \<open>The time of the next timer\<close>

text \<open>The timers that run in the present state of a transaction.\<close>

definition state_timers :: "transaction \<Rightarrow> timeval list" where
  "state_timers tr =
     (case ctx_type tr of
        ICT \<Rightarrow> (case ict_context tr of None \<Rightarrow> [] | Some c \<Rightarrow>
                 if state tr = ICT_CALLING then [timer_b_start c, timer_a_start c]
                 else if state tr = ICT_COMPLETED then [timer_d_start c] else [])
      | IST \<Rightarrow> (case ist_context tr of None \<Rightarrow> [] | Some c \<Rightarrow>
                 if state tr = IST_CONFIRMED then [timer_i_start c]
                 else if state tr = IST_COMPLETED then [timer_h_start c, timer_g_start c] else [])
      | NICT \<Rightarrow> (case nict_context tr of None \<Rightarrow> [] | Some c \<Rightarrow>
                 if state tr = NICT_COMPLETED then [timer_k_start c]
                 else if state tr = NICT_PROCEEDING \<or> state tr = NICT_TRYING then [timer_f_start c, timer_e_start c] else [])
      | NIST \<Rightarrow> (case nist_context tr of None \<Rightarrow> [] | Some c \<Rightarrow>
                 if state tr = NIST_COMPLETED then [timer_j_start c] else []))"

definition running :: "transaction \<Rightarrow> timeval list" where
  "running tr = filter (\<lambda>t. tv_sec t \<noteq> -1) (state_timers tr)"

lemma timer_event_running:
  assumes "Some e \<in> set (timer_events now tr)"
  shows "\<exists>t\<in>set (running tr). osip_timer_gt now t"
proof -
  have "\<exists>t\<in>set (state_timers tr). tv_sec t \<noteq> -1 \<and> osip_timer_gt now t"
  proof (cases "ctx_type tr")
    case ICT
    with assms show ?thesis
      by (cases "ict_context tr") (auto simp: timer_events_def timer_tests state_timers_def dest!: need_timer_event [OF sym] split: if_splits)
  next
    case IST
    with assms show ?thesis
      by (cases "ist_context tr") (auto simp: timer_events_def timer_tests state_timers_def dest!: need_timer_event [OF sym] split: if_splits)
  next
    case NICT
    with assms show ?thesis
      by (cases "nict_context tr") (auto simp: timer_events_def timer_tests state_timers_def dest!: need_timer_event [OF sym] split: if_splits)
  next
    case NIST
    with assms show ?thesis
      by (cases "nist_context tr") (auto simp: timer_events_def timer_tests state_timers_def dest!: need_timer_event [OF sym] split: if_splits)
  qed
  then show ?thesis by (auto simp: running_def)
qed

text \<open>What a pass over some timers leaves: a zero time, or a bound that is not passed and not after any of them.\<close>

definition bound_ok :: "timeval \<Rightarrow> timeval list \<Rightarrow> timeval \<Rightarrow> timeval + timeval \<Rightarrow> bool" where
  "bound_ok now ts lower r \<longleftrightarrow>
     r = Inl zero_time \<or>
     (\<exists>l. r = Inr l \<and> wf_time l \<and> usecs now \<le> usecs l \<and> usecs l \<le> usecs lower \<and> (\<forall>t\<in>set ts. usecs l \<le> usecs t))"

fun min_timers :: "timeval \<Rightarrow> timeval list \<Rightarrow> timeval" where
  "min_timers lower [] = lower"
| "min_timers lower (t # ts) = min_timers (min_timercmp lower t) ts"

lemma min_timers_ok:
  "wf_time lower \<Longrightarrow> \<forall>t\<in>set (filter (\<lambda>t. tv_sec t \<noteq> -1) ts). wf_time t \<Longrightarrow>
   wf_time (min_timers lower ts) \<and> usecs (min_timers lower ts) \<le> usecs lower
   \<and> (\<forall>t\<in>set (filter (\<lambda>t. tv_sec t \<noteq> -1) ts). usecs (min_timers lower ts) \<le> usecs t)"
proof (induction ts arbitrary: lower)
  case (Cons t ts)
  show ?case
  proof (cases "tv_sec t = -1")
    case True
    then show ?thesis using Cons by (simp add: min_timercmp_def)
  next
    case False
    then have t: "wf_time t" using Cons.prems(2) by simp
    have "wf_time (min_timercmp lower t)" "usecs (min_timercmp lower t) \<le> usecs lower" "usecs (min_timercmp lower t) \<le> usecs t"
      using min_timercmp_usecs [OF Cons.prems(1) t] Cons.prems(1) t by auto
    then show ?thesis using Cons.IH [of "min_timercmp lower t"] Cons.prems(2) False by auto
  qed
qed simp

lemma due_ok:
  assumes "wf_time now" and "wf_time lower" and "\<forall>t\<in>set (filter (\<lambda>t. tv_sec t \<noteq> -1) ts). wf_time t"
  shows "bound_ok now (filter (\<lambda>t. tv_sec t \<noteq> -1) ts) lower (due now (min_timers lower ts))"
  using min_timers_ok [OF assms(2,3)] osip_timer_gt_usecs [OF assms(1), of "min_timers lower ts"]
  by (simp add: bound_ok_def due_def)

lemma ixt_timeout_ok:
  assumes "wf_time now" and "wf_time lower" and "wf_time (ixt_start x)"
  shows "\<exists>r. ixt_timeout now lower x = Some r \<and> bound_ok now [ixt_start x] lower r"
proof -
  have "tv_sec (ixt_start x) \<noteq> -1" using assms(3) by (simp add: wf_time_def)
  then show ?thesis using due_ok [OF assms(1,2), of "[ixt_start x]"] assms(3) by (simp add: ixt_timeout_def)
qed

definition transaction_timeout :: "timeval \<Rightarrow> timeval \<Rightarrow> transaction \<Rightarrow> (timeval + timeval) option" where
  "transaction_timeout now lower tr =
     (case ctx_type tr of ICT \<Rightarrow> ict_timeout now lower tr | IST \<Rightarrow> ist_timeout now lower tr
      | NICT \<Rightarrow> nict_timeout now lower tr | NIST \<Rightarrow> nist_timeout now lower tr)"

lemma transaction_timeout_min:
  assumes "has_context tr"
  shows "transaction_timeout now lower tr
    = Some (if ctx_type tr = ICT \<and> 1 \<le> length (transactionff tr) then Inl zero_time else due now (min_timers lower (state_timers tr)))"
proof (cases "ctx_type tr")
  case ICT
  then obtain c where "ict_context tr = Some c" using assms by (auto simp: has_context_def)
  with ICT show ?thesis
    by (cases "state tr = ICT_CALLING") (simp_all add: transaction_timeout_def ict_timeout_def state_timers_def min_when_def)
next
  case IST
  then obtain c where "ist_context tr = Some c" using assms by (auto simp: has_context_def)
  with IST show ?thesis
    by (cases "state tr = IST_CONFIRMED") (simp_all add: transaction_timeout_def ist_timeout_def state_timers_def min_when_def)
next
  case NICT
  then obtain c where "nict_context tr = Some c" using assms by (auto simp: has_context_def)
  with NICT show ?thesis
    by (cases "state tr = NICT_COMPLETED") (simp_all add: transaction_timeout_def nict_timeout_def state_timers_def min_when_def)
next
  case NIST
  then obtain c where "nist_context tr = Some c" using assms by (auto simp: has_context_def)
  with NIST show ?thesis
    by (cases "state tr = NIST_COMPLETED") (simp_all add: transaction_timeout_def nist_timeout_def state_timers_def min_when_def)
qed

lemma transaction_timeout_ok:
  assumes "transaction_inv tr" and "wf_time now" and "wf_time lower" and "\<forall>t\<in>set (running tr). wf_time t"
  shows "\<exists>r. transaction_timeout now lower tr = Some r \<and> bound_ok now (running tr) lower r"
proof -
  have "has_context tr" using transaction_inv_typed [OF assms(1)] by blast
  from transaction_timeout_min [OF this] show ?thesis
    using due_ok [OF assms(2,3)] assms(4) by (auto simp: bound_ok_def running_def)
qed

text \<open>The loops, and the five of them one after the other.\<close>

lemma timeout_loop_ok:
  assumes "\<forall>x\<in>set xs. \<forall>lower. wf_time lower \<longrightarrow> (\<exists>r. f lower x = Some r \<and> bound_ok now (ts x) lower r)"
    and "bound_ok now ts0 u (Inr lower)"
  shows "\<exists>r. timeout_loop f xs (Inr lower) = Some r \<and> bound_ok now (ts0 @ concat (map ts xs)) u r"
  using assms
proof (induction xs arbitrary: lower ts0)
  case (Cons x xs)
  have w: "wf_time lower" using Cons.prems(2) by (simp add: bound_ok_def)
  then obtain r where r: "f lower x = Some r" "bound_ok now (ts x) lower r" using Cons.prems(1) by auto
  show ?case
  proof (cases r)
    case (Inl z)
    with r show ?thesis by (simp add: bound_ok_def)
  next
    case (Inr l)
    then have l: "bound_ok now (ts0 @ ts x) u (Inr l)" "usecs now \<le> usecs l"
      using r(2) Cons.prems(2) by (auto simp: bound_ok_def intro: order_trans)
    from Cons.IH [OF _ l(1)] Cons.prems(1) l(2) r(1) Inr show ?thesis by simp
  qed
qed simp


lemma timeout_next:
  assumes "bound_ok now ts0 u r"
    and "\<forall>x\<in>set xs. \<forall>lower. wf_time lower \<longrightarrow> (\<exists>r. f lower x = Some r \<and> bound_ok now (ts x) lower r)"
  shows "\<exists>r'. timeout_loop f xs r = Some r' \<and> bound_ok now (ts0 @ concat (map ts xs)) u r'"
proof (cases r)
  case (Inl z)
  with assms(1) show ?thesis by (simp add: bound_ok_def)
next
  case (Inr l)
  with timeout_loop_ok [OF assms(2)] assms(1) show ?thesis by simp
qed

lemma time_left_ok:
  assumes "wf_time now" and "wf_time l" and "usecs now \<le> usecs l"
  shows "wf_time (time_left now l) \<and> usecs now + usecs (time_left now l) = usecs l"
proof -
  have "tv_sec now \<le> tv_sec l" "tv_sec now = tv_sec l \<longrightarrow> tv_usec now \<le> tv_usec l"
    using assms by (simp_all add: wf_time_def usecs_def)
  then show ?thesis using assms(1,2) by (auto simp: time_left_def Let_def wf_time_def usecs_def)
qed

definition timers_wf :: "osip_t \<Rightarrow> bool" where
  "timers_wf osip \<longleftrightarrow> (\<forall>ty. \<forall>tr\<in>set (transactions_of ty osip). \<forall>t\<in>set (running tr). wf_time t)
     \<and> (\<forall>x\<in>set (ixt_retransmissions osip). wf_time (ixt_start x))"

definition stack_running :: "osip_t \<Rightarrow> timeval list" where
  "stack_running osip = concat (map (\<lambda>ty. concat (map running (transactions_of ty osip))) [ICT, IST, NICT, NIST])
     @ map ixt_start (ixt_retransmissions osip)"

definition one_year :: "timeval \<Rightarrow> timeval" where
  "one_year now = now\<lparr>tv_sec := tv_sec now + 31536000\<rparr>"

lemma gettimeout_ok:
  assumes "core_inv osip" and "timers_wf osip" and "wf_time now"
  shows "\<exists>r. osip_timers_gettimeout now osip = Some (case r of Inl z \<Rightarrow> z | Inr l \<Rightarrow> time_left now l)
    \<and> bound_ok now (stack_running osip) (one_year now) r"
proof -
  have tr: "\<exists>r. transaction_timeout now lower tr = Some r \<and> bound_ok now (running tr) lower r"
    if "tr \<in> set (transactions_of ty osip)" "wf_time lower" for ty tr lower
    using that core_inv_entry [OF assms(1) that(1)] transaction_timeout_ok [OF _ assms(3) that(2)] assms(2)
    by (auto simp: timers_wf_def)
  have ty: "ctx_type tr = ty" if "tr \<in> set (transactions_of ty osip)" for ty tr
    using core_inv_entry [OF assms(1) that] by simp
  let ?run = "\<lambda>ty. concat (map running (transactions_of ty osip))"
  have 0: "bound_ok now [] (one_year now) (Inr (one_year now))"
    using assms(3) by (simp add: bound_ok_def one_year_def wf_time_def usecs_def)
  obtain r1 where 1: "timeout_loop (ict_timeout now) (osip_ict_transactions osip) (Inr (one_year now)) = Some r1"
    "bound_ok now (?run ICT) (one_year now) r1"
    using timeout_next [OF 0, of "transactions_of ICT osip" "ict_timeout now" running] tr [of _ ICT] ty [of _ ICT]
    by (fastforce simp: transaction_timeout_def list_reads)
  obtain r2 where 2: "timeout_loop (ist_timeout now) (osip_ist_transactions osip) r1 = Some r2"
    "bound_ok now (?run ICT @ ?run IST) (one_year now) r2"
    using timeout_next [OF 1(2), of "transactions_of IST osip" "ist_timeout now" running] tr [of _ IST] ty [of _ IST]
    by (fastforce simp: transaction_timeout_def list_reads)
  obtain r3 where 3: "timeout_loop (nict_timeout now) (osip_nict_transactions osip) r2 = Some r3"
    "bound_ok now ((?run ICT @ ?run IST) @ ?run NICT) (one_year now) r3"
    using timeout_next [OF 2(2), of "transactions_of NICT osip" "nict_timeout now" running] tr [of _ NICT] ty [of _ NICT]
    by (fastforce simp: transaction_timeout_def list_reads)
  obtain r4 where 4: "timeout_loop (nist_timeout now) (osip_nist_transactions osip) r3 = Some r4"
    "bound_ok now (((?run ICT @ ?run IST) @ ?run NICT) @ ?run NIST) (one_year now) r4"
    using timeout_next [OF 3(2), of "transactions_of NIST osip" "nist_timeout now" running] tr [of _ NIST] ty [of _ NIST]
    by (fastforce simp: transaction_timeout_def list_reads)
  obtain r5 where 5: "timeout_loop (ixt_timeout now) (ixt_retransmissions osip) r4 = Some r5"
    "bound_ok now ((((?run ICT @ ?run IST) @ ?run NICT) @ ?run NIST) @ concat (map (\<lambda>x. [ixt_start x]) (ixt_retransmissions osip)))
      (one_year now) r5"
    using timeout_next [OF 4(2), of "ixt_retransmissions osip" "ixt_timeout now" "\<lambda>x. [ixt_start x]"] ixt_timeout_ok [OF assms(3)]
      assms(2) by (fastforce simp: timers_wf_def)
  have "bound_ok now (stack_running osip) (one_year now) r5"
    using 5(2) by (simp add: stack_running_def concat_map_singleton)
  moreover have "osip_timers_gettimeout now osip = Some (case r5 of Inl z \<Rightarrow> z | Inr l \<Rightarrow> time_left now l)"
    using 1(1) 2(1) 3(1) 4(1) 5(1) by (simp add: osip_timers_gettimeout_def one_year_def split: sum.split)
  ultimately show ?thesis by blast
qed

lemma queue_first_none: "\<forall>e. Some e \<notin> set evts \<Longrightarrow> queue_first evts tr = tr"
  using queue_first_cases [of evts tr] by blast

lemma quiet:
  assumes "core_inv osip" and "timers_wf osip" and "wf_time now'" and "\<forall>t\<in>set (stack_running osip). usecs now' \<le> usecs t"
  shows "stack_timers ty now' osip = osip" and "x \<in> set (ixt_retransmissions osip) \<Longrightarrow> ixt_retransmit now' x = (x, [])"
proof -
  have "queue_first (timer_events now' tr) tr = tr" if "tr \<in> set (transactions_of ty osip)" for tr
  proof (rule queue_first_none, rule allI, rule notI)
    fix e
    assume "Some e \<in> set (timer_events now' tr)"
    then obtain t where t: "t \<in> set (running tr)" "osip_timer_gt now' t" using timer_event_running by blast
    moreover have "t \<in> set (stack_running osip)" using t(1) that by (cases ty) (auto simp: stack_running_def)
    moreover have "wf_time t" using t(1) that assms(2) by (auto simp: timers_wf_def)
    ultimately show False using assms(3,4) osip_timer_gt_usecs [of now' t] by fastforce
  qed
  then have "map (\<lambda>tr. queue_first (timer_events now' tr) tr) (transactions_of ty osip) = transactions_of ty osip"
    by (simp add: map_idI)
  then show "stack_timers ty now' osip = osip"
    using stack_timers_list [OF assms(1)] by (cases ty) (simp_all add: with_transactions_def transactions_of_def)
next
  assume "x \<in> set (ixt_retransmissions osip)"
  then have "wf_time (ixt_start x)" "usecs now' \<le> usecs (ixt_start x)"
    using assms(2,4) by (auto simp: timers_wf_def stack_running_def)
  then show "ixt_retransmit now' x = (x, [])" using assms(3) osip_timer_gt_usecs [of now' "ixt_start x"] by (simp add: ixt_retransmit_def)
qed

text \<open>
  C36. How long the application may sleep.  In every stack that can be reached whose running timers have normalised
  times, \<^verbatim>\<open>osip_timers_gettimeout\<close> returns without a fault a normalised time of at most a year; when it
  is not zero, then until that much time has passed no loop over the timers queues an event and nothing is
  retransmitted.
\<close>

theorem gettimeout_sleep:
  assumes "stack_reachable osip" and "timers_wf osip" and "wf_time now"
  shows "\<exists>t. osip_timers_gettimeout now osip = Some t \<and> wf_time t \<and> usecs t \<le> 31536000 * 1000000
    \<and> (t = zero_time \<or> (\<forall>now'. wf_time now' \<longrightarrow> usecs now' \<le> usecs now + usecs t \<longrightarrow>
          (\<forall>ty. stack_timers ty now' osip = osip) \<and> (\<forall>x\<in>set (ixt_retransmissions osip). ixt_retransmit now' x = (x, []))))"
proof -
  have inv: "core_inv osip" using assms(1) by (rule stack_reachable_inv)
  obtain r where r: "osip_timers_gettimeout now osip = Some (case r of Inl z \<Rightarrow> z | Inr l \<Rightarrow> time_left now l)"
    "bound_ok now (stack_running osip) (one_year now) r"
    using gettimeout_ok [OF inv assms(2,3)] by blast
  show ?thesis
  proof (cases r)
    case (Inl z)
    with r show ?thesis by (simp add: bound_ok_def zero_time_def wf_time_def usecs_def)
  next
    case (Inr l)
    then have l: "wf_time l" "usecs now \<le> usecs l" "usecs l \<le> usecs (one_year now)" "\<forall>t\<in>set (stack_running osip). usecs l \<le> usecs t"
      using r(2) by (simp_all add: bound_ok_def)
    note t = time_left_ok [OF assms(3) l(1,2)]
    have "usecs (one_year now) = usecs now + 31536000 * 1000000" by (simp add: one_year_def usecs_def)
    then have "usecs (time_left now l) \<le> 31536000 * 1000000" using t l(3) by simp
    moreover have "(\<forall>ty. stack_timers ty now' osip = osip) \<and> (\<forall>x\<in>set (ixt_retransmissions osip). ixt_retransmit now' x = (x, []))"
      if "wf_time now'" "usecs now' \<le> usecs now + usecs (time_left now l)" for now'
      using quiet [OF inv assms(2) that(1)] that(2) t l(4) by fastforce
    ultimately show ?thesis using r(1) Inr t by simp
  qed
qed


declare execute_events.simps [code]

text \<open>A stack that has sent a request and waits for the answer.\<close>

definition sample_send :: osip_event where
  "sample_send = \<lparr>evt_type = SND_REQUEST, evt_transactionid = 0, evt_sip = Some sample_request\<rparr>"

definition sample_waiting :: osip_t where
  "sample_waiting =
     (case osip_create_transaction sample_env osip_init (Some sample_send) of
        Some (Some tr, osip, _) \<Rightarrow>
          (case stack_execute NICT sample_env (with_transactions NICT [queued sample_send tr] osip) of
             Some (_, osip, _) \<Rightarrow> osip))"

lemma sample_waiting_reachable: "stack_reachable sample_waiting"
proof -
  have "(case osip_create_transaction sample_env osip_init (Some sample_send) of
      Some (Some tr, osip, _) \<Rightarrow> transactions_of NICT osip = [tr] | _ \<Rightarrow> False)"
    by code_simp
  then obtain tr osip evt' where c: "osip_create_transaction sample_env osip_init (Some sample_send) = Some (Some tr, osip, evt')"
    "transactions_of NICT osip = [tr]"
    by (auto split: option.splits)
  have ok: "creatable sample_send" "event_ok sample_send"
    using sample_ok(1,3) by (simp_all add: creatable_def sample_send_def event_ok_def EVT_IS_MSG_def less_eq_type_t_def)
      (simp add: sample_request_def osip_message_init_def MSG_IS_REQUEST_def)
  have "stack_reachable osip" by (rule stack_create [OF stack_init ok(1) sample_ok(4) c(1)])
  from stack_add_event [OF this ok(2), of 0 NICT _ "queued sample_send tr"] c(2)
  have q: "stack_reachable (with_transactions NICT [queued sample_send tr] osip)" by (simp add: add_event_queued)
  from stack_execute_ok [OF stack_reachable_inv [OF this] sample_ok(4), of NICT]
  obtain trs acts where "stack_execute NICT sample_env (with_transactions NICT [queued sample_send tr] osip)
      = Some (OSIP_SUCCESS, with_transactions NICT trs (with_transactions NICT [queued sample_send tr] osip), acts)" by blast
  with stack_execute [OF q sample_ok(4) this] c(1) show ?thesis by (simp add: sample_waiting_def)
qed

lemma sample_waiting_timers:
  "map running (osip_nict_transactions sample_waiting) = [[\<lparr>tv_sec = 132, tv_usec = 0\<rparr>, \<lparr>tv_sec = 100, tv_usec = 500000\<rparr>]]"
  "osip_ict_transactions sample_waiting = []" "osip_ist_transactions sample_waiting = []"
  "osip_nist_transactions sample_waiting = []" "ixt_retransmissions sample_waiting = []"
  by code_simp+

lemma sample_waiting_timers_wf: "timers_wf sample_waiting"
proof -
  have "\<forall>ts\<in>set (map running (transactions_of ty sample_waiting)). \<forall>t\<in>set ts. wf_time t" for ty
    using sample_waiting_timers by (cases ty) (simp_all add: transactions_of_def wf_time_def)
  then show ?thesis using sample_waiting_timers(5) by (simp add: timers_wf_def)
qed

lemma sample_waiting_timeout:
  "osip_timers_gettimeout \<lparr>tv_sec = 100, tv_usec = 200000\<rparr> sample_waiting = Some \<lparr>tv_sec = 0, tv_usec = 300000\<rparr>"
  by code_simp

theorem gettimeout_sleep_witness:
  "osip_timers_gettimeout \<lparr>tv_sec = 100, tv_usec = 200000\<rparr> sample_waiting = Some \<lparr>tv_sec = 0, tv_usec = 300000\<rparr>
    \<and> stack_timers NICT \<lparr>tv_sec = 100, tv_usec = 500000\<rparr> sample_waiting = sample_waiting"
proof -
  have "wf_time \<lparr>tv_sec = 100, tv_usec = 200000\<rparr>" "wf_time \<lparr>tv_sec = 100, tv_usec = 500000\<rparr>" by (simp_all add: wf_time_def)
  then show ?thesis
    using gettimeout_sleep [OF sample_waiting_reachable sample_waiting_timers_wf, of "\<lparr>tv_sec = 100, tv_usec = 200000\<rparr>"]
    by (auto simp: sample_waiting_timeout zero_time_def usecs_def)
qed

end
