(* ===== verification/Osip_Sdp.thy ===== *)
theory Osip_Sdp
  imports Osip_Body
begin

text \<open>
  Session descriptions, \<^verbatim>\<open>osip/src/osipparser2/sdp_message.c\<close>: the structures of
  \<^verbatim>\<open>sdp_message.h\<close>, the parsers of the fifteen types of lines, the order in which \<^verbatim>\<open>sdp_message_parse\<close>
  tries them, and the printer with its growing buffer.

  A pointer into the text is an offset.  A fault (a read in front of the text or behind its end, or a
  write behind the buffer) is the outer \<open>None\<close>.  The memory that a repeated line leaks is not modelled.
\<close>

section \<open>The structures\<close>

record sdp_bandwidth =
  b_bwtype :: "string option"
  b_bandwidth :: "string option"

record sdp_time_descr =
  t_start_time :: "string option"
  t_stop_time :: "string option"
  r_repeats :: "string list"

record sdp_key =
  k_keytype :: "string option"
  k_keydata :: "string option"

record sdp_attribute =
  a_att_field :: "string option"
  a_att_value :: "string option"

record sdp_connection =
  c_nettype :: "string option"
  c_addrtype :: "string option"
  c_addr :: "string option"
  c_addr_multicast_ttl :: "string option"
  c_addr_multicast_int :: "string option"

record sdp_media =
  m_media :: "string option"
  m_port :: "string option"
  m_number_of_port :: "string option"
  m_proto :: "string option"
  m_payloads :: "string list"
  med_info :: "string option"
  med_connections :: "sdp_connection list"
  med_bandwidths :: "sdp_bandwidth list"
  med_attributes :: "sdp_attribute list"
  med_key :: "sdp_key option"

record sdp_message =
  v_version :: "string option"
  o_username :: "string option"
  o_sess_id :: "string option"
  o_sess_version :: "string option"
  o_nettype :: "string option"
  o_addrtype :: "string option"
  o_addr :: "string option"
  s_name :: "string option"
  i_info :: "string option"
  u_uri :: "string option"
  e_emails :: "string list"
  p_phones :: "string list"
  c_connection :: "sdp_connection option"
  b_bandwidths :: "sdp_bandwidth list"
  t_descrs :: "sdp_time_descr list"
  z_adjustments :: "string option"
  k_key :: "sdp_key option"
  a_attributes :: "sdp_attribute list"
  m_medias :: "sdp_media list"

definition sdp_bandwidth_init :: sdp_bandwidth where
  "sdp_bandwidth_init = \<lparr>b_bwtype = None, b_bandwidth = None\<rparr>"

definition sdp_time_descr_init :: sdp_time_descr where
  "sdp_time_descr_init = \<lparr>t_start_time = None, t_stop_time = None, r_repeats = []\<rparr>"

definition sdp_key_init :: sdp_key where
  "sdp_key_init = \<lparr>k_keytype = None, k_keydata = None\<rparr>"

definition sdp_attribute_init :: sdp_attribute where
  "sdp_attribute_init = \<lparr>a_att_field = None, a_att_value = None\<rparr>"

definition sdp_connection_init :: sdp_connection where
  "sdp_connection_init = \<lparr>c_nettype = None, c_addrtype = None, c_addr = None, c_addr_multicast_ttl = None,
     c_addr_multicast_int = None\<rparr>"

definition sdp_media_init :: sdp_media where
  "sdp_media_init = \<lparr>m_media = None, m_port = None, m_number_of_port = None, m_proto = None, m_payloads = [],
     med_info = None, med_connections = [], med_bandwidths = [], med_attributes = [], med_key = None\<rparr>"

definition sdp_message_init :: sdp_message where
  "sdp_message_init = \<lparr>v_version = None, o_username = None, o_sess_id = None, o_sess_version = None, o_nettype = None,
     o_addrtype = None, o_addr = None, s_name = None, i_info = None, u_uri = None, e_emails = [], p_phones = [],
     c_connection = None, b_bandwidths = [], t_descrs = [], z_adjustments = None, k_key = None, a_attributes = [],
     m_medias = []\<rparr>"

section \<open>One line\<close>

text \<open>
  The part that the fifteen functions share: the name in front of the next equals sign, and the end of the line.
  \<open>Field v e n\<close>: the value begins at \<open>v\<close>, the line ends at \<open>e\<close> and the next one begins at \<open>n\<close>.  With an equals
  sign at the first character of the text the name is read in front of it.
\<close>

datatype sdp_line = Bad | Other | Field nat nat nat

definition equal_sign :: "string \<Rightarrow> nat \<Rightarrow> nat" where
  "equal_sign s buf = buf + length (takeWhile (\<lambda>c. c \<noteq> CHR ''='') (drop buf s))"

definition line_end :: "string \<Rightarrow> nat \<Rightarrow> nat" where
  "line_end s i = i + length (takeWhile (\<lambda>c. c \<noteq> CR \<and> c \<noteq> LF) (drop i s))"

definition sdp_field :: "char \<Rightarrow> string \<Rightarrow> nat \<Rightarrow> sdp_line option" where
  "sdp_field name s buf =
     (let equal = equal_sign s buf
      in if chr_at s equal = NUL then Some Bad
         else if equal = 0 then None
         else if s ! (equal - 1) \<noteq> name then Some Other
         else (let crlf = line_end s (equal + 1)
               in if chr_at s crlf = NUL then Some Bad
                  else if crlf = equal + 1 then Some Bad
                  else Some (Field (equal + 1) crlf (if chr_at s (crlf + 1) = LF then crlf + 2 else crlf + 1))))"

definition ERR_ERROR :: int where "ERR_ERROR = -1"
definition ERR_DISCARD :: int where "ERR_DISCARD = 0"
definition WF :: int where "WF = 1"

text \<open>The result of a line parser: its code, the position reached and the structure.\<close>

type_synonym sdp_result = "(int \<times> nat \<times> sdp_message) option"

text \<open>A line whose value is worked on by \<open>f\<close>, which yields \<open>Inl\<close> and the structure when it fails.\<close>

definition on_field :: "char \<Rightarrow> string \<Rightarrow> nat \<Rightarrow> sdp_message
    \<Rightarrow> (nat \<Rightarrow> nat \<Rightarrow> (sdp_message + sdp_message) option) \<Rightarrow> sdp_result" where
  "on_field name s buf sdp f = do {
     l \<leftarrow> sdp_field name s buf;
     (case l of
        Bad \<Rightarrow> Some (ERR_ERROR, buf, sdp)
      | Other \<Rightarrow> Some (ERR_DISCARD, buf, sdp)
      | Field v crlf next \<Rightarrow> do {
          r \<leftarrow> f v crlf;
          Some (case r of Inl sdp \<Rightarrow> (ERR_ERROR, buf, sdp) | Inr sdp \<Rightarrow> (WF, next, sdp)) }) }"

text \<open>A value that is copied as it is.\<close>

definition on_text :: "char \<Rightarrow> string \<Rightarrow> nat \<Rightarrow> sdp_message \<Rightarrow> (string \<Rightarrow> sdp_message) \<Rightarrow> sdp_result" where
  "on_text name s buf sdp store = on_field name s buf sdp (\<lambda>v crlf. Some (Inr (store (osip_strncpy s v (crlf - v)))))"

text \<open>The next token, and the last one of a line, which may end in a carriage return or a line feed.\<close>

definition sdp_token :: "string \<Rightarrow> nat \<Rightarrow> char \<Rightarrow> (string \<times> nat) option" where
  "sdp_token s tmp sep =
     (case osip_set_next_token s tmp sep of (i, Some v, Some tmp_next) \<Rightarrow> if i = 0 then Some (v, tmp_next) else None
      | _ \<Rightarrow> None)"

definition last_token :: "string \<Rightarrow> nat \<Rightarrow> (string \<times> nat) option" where
  "last_token s tmp = (case sdp_token s tmp CR of Some r \<Rightarrow> Some r | None \<Rightarrow> sdp_token s tmp LF)"

text \<open>A field of the session, or of the last media once there is one.\<close>

definition last_media :: "(sdp_media \<Rightarrow> sdp_media) \<Rightarrow> sdp_message \<Rightarrow> sdp_message" where
  "last_media f sdp = sdp\<lparr>m_medias := butlast (m_medias sdp) @ [f (last (m_medias sdp))]\<rparr>"

definition at_level :: "(sdp_message \<Rightarrow> sdp_message) \<Rightarrow> (sdp_media \<Rightarrow> sdp_media) \<Rightarrow> sdp_message \<Rightarrow> sdp_message" where
  "at_level f g sdp = (if m_medias sdp = [] then f sdp else last_media g sdp)"

section \<open>The fifteen types of lines\<close>

definition sdp_message_parse_v :: "string \<Rightarrow> nat \<Rightarrow> sdp_message \<Rightarrow> sdp_result" where
  "sdp_message_parse_v s buf sdp =
     (if chr_at s (equal_sign s buf) \<noteq> NUL \<and> equal_sign s buf = buf then Some (ERR_DISCARD, buf, sdp)
      else on_text (CHR ''v'') s buf sdp (\<lambda>x. sdp\<lparr>v_version := Some x\<rparr>))"

text \<open>The six tokens of the origin; after an error the first ones stay set.\<close>

definition parse_origin :: "string \<Rightarrow> nat \<Rightarrow> sdp_message \<Rightarrow> sdp_message + sdp_message" where
  "parse_origin s tmp sdp =
     (case sdp_token s tmp (CHR '' '') of
        None \<Rightarrow> Inl sdp
      | Some (x, tmp) \<Rightarrow> let sdp = sdp\<lparr>o_username := Some x\<rparr> in
     (case sdp_token s tmp (CHR '' '') of
        None \<Rightarrow> Inl sdp
      | Some (x, tmp) \<Rightarrow> let sdp = sdp\<lparr>o_sess_id := Some x\<rparr> in
     (case sdp_token s tmp (CHR '' '') of
        None \<Rightarrow> Inl sdp
      | Some (x, tmp) \<Rightarrow> let sdp = sdp\<lparr>o_sess_version := Some x\<rparr> in
     (case sdp_token s tmp (CHR '' '') of
        None \<Rightarrow> Inl sdp
      | Some (x, tmp) \<Rightarrow> let sdp = sdp\<lparr>o_nettype := Some x\<rparr> in
     (case sdp_token s tmp (CHR '' '') of
        None \<Rightarrow> Inl sdp
      | Some (x, tmp) \<Rightarrow> let sdp = sdp\<lparr>o_addrtype := Some x\<rparr> in
     (case last_token s tmp of
        None \<Rightarrow> Inl sdp
      | Some (x, tmp) \<Rightarrow> Inr (sdp\<lparr>o_addr := Some x\<rparr>)))))))"

definition sdp_message_parse_o :: "string \<Rightarrow> nat \<Rightarrow> sdp_message \<Rightarrow> sdp_result" where
  "sdp_message_parse_o s buf sdp = on_field (CHR ''o'') s buf sdp (\<lambda>v crlf. Some (parse_origin s v sdp))"

definition sdp_message_parse_s :: "string \<Rightarrow> nat \<Rightarrow> sdp_message \<Rightarrow> sdp_result" where
  "sdp_message_parse_s s buf sdp = on_text (CHR ''s'') s buf sdp (\<lambda>x. sdp\<lparr>s_name := Some x\<rparr>)"

definition sdp_message_parse_i :: "string \<Rightarrow> nat \<Rightarrow> sdp_message \<Rightarrow> sdp_result" where
  "sdp_message_parse_i s buf sdp = on_text (CHR ''i'') s buf sdp
     (\<lambda>x. at_level (\<lambda>sdp. sdp\<lparr>i_info := Some x\<rparr>) (\<lambda>m. m\<lparr>med_info := Some x\<rparr>) sdp)"

definition sdp_message_parse_u :: "string \<Rightarrow> nat \<Rightarrow> sdp_message \<Rightarrow> sdp_result" where
  "sdp_message_parse_u s buf sdp = on_text (CHR ''u'') s buf sdp (\<lambda>x. sdp\<lparr>u_uri := Some x\<rparr>)"

definition sdp_message_parse_e :: "string \<Rightarrow> nat \<Rightarrow> sdp_message \<Rightarrow> sdp_result" where
  "sdp_message_parse_e s buf sdp = on_text (CHR ''e'') s buf sdp (\<lambda>x. sdp\<lparr>e_emails := e_emails sdp @ [x]\<rparr>)"

definition sdp_message_parse_p :: "string \<Rightarrow> nat \<Rightarrow> sdp_message \<Rightarrow> sdp_result" where
  "sdp_message_parse_p s buf sdp = on_text (CHR ''p'') s buf sdp (\<lambda>x. sdp\<lparr>p_phones := p_phones sdp @ [x]\<rparr>)"

text \<open>The address of a connection, up to a slash when the line has one.\<close>

definition sdp_parse_address :: "string \<Rightarrow> nat \<Rightarrow> nat \<Rightarrow> sdp_connection \<Rightarrow> sdp_connection option" where
  "sdp_parse_address s crlf tmp c =
     (case strchr s tmp (CHR ''/'') of
        Some slash \<Rightarrow>
          if slash < crlf then do {
            (x, tmp) \<leftarrow> sdp_token s tmp (CHR ''/'');
            let c = c\<lparr>c_addr := Some x\<rparr>;
            (if (case strchr s (slash + 1) (CHR ''/'') of Some slash \<Rightarrow> slash < crlf | None \<Rightarrow> False) then do {
               (x, tmp) \<leftarrow> sdp_token s tmp (CHR ''/'');
               let c = c\<lparr>c_addr_multicast_ttl := Some x\<rparr>;
               (x, tmp) \<leftarrow> last_token s tmp;
               Some (c\<lparr>c_addr_multicast_int := Some x\<rparr>) }
             else do {
               (x, tmp) \<leftarrow> last_token s tmp;
               Some (c\<lparr>c_addr_multicast_ttl := Some x\<rparr>) }) }
          else do { (x, tmp) \<leftarrow> last_token s tmp; Some (c\<lparr>c_addr := Some x\<rparr>) }
      | None \<Rightarrow> do { (x, tmp) \<leftarrow> last_token s tmp; Some (c\<lparr>c_addr := Some x\<rparr>) })"

definition parse_connection :: "string \<Rightarrow> nat \<Rightarrow> nat \<Rightarrow> sdp_connection option" where
  "parse_connection s crlf tmp = do {
     (x, tmp) \<leftarrow> sdp_token s tmp (CHR '' '');
     let c = sdp_connection_init\<lparr>c_nettype := Some x\<rparr>;
     (x, tmp) \<leftarrow> sdp_token s tmp (CHR '' '');
     sdp_parse_address s crlf tmp (c\<lparr>c_addrtype := Some x\<rparr>) }"

text \<open>A structure that is released again when one of its tokens is missing.\<close>

definition stored :: "sdp_message \<Rightarrow> ('a \<Rightarrow> sdp_message \<Rightarrow> sdp_message) \<Rightarrow> 'a option \<Rightarrow> sdp_message + sdp_message" where
  "stored sdp store r = (case r of None \<Rightarrow> Inl sdp | Some x \<Rightarrow> Inr (store x sdp))"

definition sdp_message_parse_c :: "string \<Rightarrow> nat \<Rightarrow> sdp_message \<Rightarrow> sdp_result" where
  "sdp_message_parse_c s buf sdp = on_field (CHR ''c'') s buf sdp
     (\<lambda>v crlf. Some (stored sdp
        (\<lambda>c. at_level (\<lambda>sdp. sdp\<lparr>c_connection := Some c\<rparr>) (\<lambda>m. m\<lparr>med_connections := med_connections m @ [c]\<rparr>))
        (parse_connection s crlf v)))"

definition parse_bandwidth :: "string \<Rightarrow> nat \<Rightarrow> sdp_bandwidth option" where
  "parse_bandwidth s tmp = do {
     (x, tmp) \<leftarrow> sdp_token s tmp (CHR '':'');
     (y, tmp) \<leftarrow> last_token s tmp;
     Some \<lparr>b_bwtype = Some x, b_bandwidth = Some y\<rparr> }"

definition sdp_message_parse_b :: "string \<Rightarrow> nat \<Rightarrow> sdp_message \<Rightarrow> sdp_result" where
  "sdp_message_parse_b s buf sdp = on_field (CHR ''b'') s buf sdp
     (\<lambda>v crlf. Some (stored sdp
        (\<lambda>b. at_level (\<lambda>sdp. sdp\<lparr>b_bandwidths := b_bandwidths sdp @ [b]\<rparr>) (\<lambda>m. m\<lparr>med_bandwidths := med_bandwidths m @ [b]\<rparr>))
        (parse_bandwidth s v)))"

definition parse_time_descr :: "string \<Rightarrow> nat \<Rightarrow> sdp_time_descr option" where
  "parse_time_descr s tmp = do {
     (x, tmp) \<leftarrow> sdp_token s tmp (CHR '' '');
     (y, tmp) \<leftarrow> last_token s tmp;
     Some (sdp_time_descr_init\<lparr>t_start_time := Some x, t_stop_time := Some y\<rparr>) }"

definition sdp_message_parse_t :: "string \<Rightarrow> nat \<Rightarrow> sdp_message \<Rightarrow> sdp_result" where
  "sdp_message_parse_t s buf sdp = on_field (CHR ''t'') s buf sdp
     (\<lambda>v crlf. Some (stored sdp (\<lambda>t sdp. sdp\<lparr>t_descrs := t_descrs sdp @ [t]\<rparr>) (parse_time_descr s v)))"

text \<open>A repetition belongs to the last time description, without one the line is an error.\<close>

definition sdp_message_parse_r :: "string \<Rightarrow> nat \<Rightarrow> sdp_message \<Rightarrow> sdp_result" where
  "sdp_message_parse_r s buf sdp = on_field (CHR ''r'') s buf sdp
     (\<lambda>v crlf. Some (
        if t_descrs sdp = [] then Inl sdp
        else (let t = last (t_descrs sdp)
              in Inr (sdp\<lparr>t_descrs := butlast (t_descrs sdp) @ [t\<lparr>r_repeats := r_repeats t @ [osip_strncpy s v (crlf - v)]\<rparr>]\<rparr>))))"

definition sdp_message_parse_z :: "string \<Rightarrow> nat \<Rightarrow> sdp_message \<Rightarrow> sdp_result" where
  "sdp_message_parse_z s buf sdp = on_text (CHR ''z'') s buf sdp (\<lambda>x. sdp\<lparr>z_adjustments := Some x\<rparr>)"

text \<open>\<^verbatim>\<open>name[:value]\<close>, of keys and attributes\<close>

definition parse_pair :: "string \<Rightarrow> nat \<Rightarrow> nat \<Rightarrow> (string \<times> string option) option" where
  "parse_pair s crlf tmp =
     (if (case strchr s tmp (CHR '':'') of Some colon \<Rightarrow> colon < crlf | None \<Rightarrow> False) then do {
        (x, tmp) \<leftarrow> sdp_token s tmp (CHR '':'');
        (y, tmp) \<leftarrow> last_token s tmp;
        Some (x, Some y) }
      else do { (x, tmp) \<leftarrow> last_token s tmp; Some (x, None) })"

definition sdp_message_parse_k :: "string \<Rightarrow> nat \<Rightarrow> sdp_message \<Rightarrow> sdp_result" where
  "sdp_message_parse_k s buf sdp = on_field (CHR ''k'') s buf sdp
     (\<lambda>v crlf. Some (stored sdp
        (\<lambda>(x, y). let k = \<lparr>k_keytype = Some x, k_keydata = y\<rparr>
                  in at_level (\<lambda>sdp. sdp\<lparr>k_key := Some k\<rparr>) (\<lambda>m. m\<lparr>med_key := Some k\<rparr>))
        (parse_pair s crlf v)))"

definition sdp_message_parse_a :: "string \<Rightarrow> nat \<Rightarrow> sdp_message \<Rightarrow> sdp_result" where
  "sdp_message_parse_a s buf sdp = on_field (CHR ''a'') s buf sdp
     (\<lambda>v crlf. Some (stored sdp
        (\<lambda>(x, y). let a = \<lparr>a_att_field = Some x, a_att_value = y\<rparr>
                  in at_level (\<lambda>sdp. sdp\<lparr>a_attributes := a_attributes sdp @ [a]\<rparr>)
                       (\<lambda>m. m\<lparr>med_attributes := med_attributes m @ [a]\<rparr>))
        (parse_pair s crlf v)))"

text \<open>
  The payloads of a media line.  The search for a space begins at the second character: from the end of the text
  it reads behind it.  \<open>Inl\<close> is the error of a missing token.
\<close>

lemma token_advances: "sdp_token s tmp sep = Some (v, n) \<Longrightarrow> tmp < n \<and> n \<le> length s"
  by (auto simp: sdp_token_def osip_set_next_token_def Let_def split: option.splits if_splits)

function parse_payloads :: "string \<Rightarrow> nat \<Rightarrow> nat \<Rightarrow> string list \<Rightarrow> (unit + string list) option" where
  "parse_payloads s crlf tmp acc =
     (if length s \<le> tmp then None
      else if (case strchr s (tmp + 1) (CHR '' '') of Some space \<Rightarrow> space \<le> crlf | None \<Rightarrow> False) then
        (case sdp_token s tmp (CHR '' '') of
           None \<Rightarrow> Some (Inl ())
         | Some (str, tmp) \<Rightarrow> parse_payloads s crlf tmp (acc @ [str]))
      else if tmp < crlf then
        (case last_token s tmp of None \<Rightarrow> Some (Inl ()) | Some (str, tmp) \<Rightarrow> Some (Inr (acc @ [str])))
      else Some (Inr acc))"
  by pat_completeness auto
termination
  by (relation "measure (\<lambda>(s, crlf, tmp, acc). length s - tmp)") (auto dest: token_advances)

declare parse_payloads.simps [simp del]

text \<open>Port and number of ports, the protocol, which may end the line, and the payloads.\<close>

definition parse_ports :: "string \<Rightarrow> nat \<Rightarrow> sdp_media \<Rightarrow> (sdp_media \<times> nat) option" where
  "parse_ports s tmp m = do {
     space \<leftarrow> strchr s tmp (CHR '' '');
     (if (case strchr s tmp (CHR ''/'') of Some slash \<Rightarrow> slash < space | None \<Rightarrow> False) then do {
        (x, tmp) \<leftarrow> sdp_token s tmp (CHR ''/'');
        (y, tmp) \<leftarrow> sdp_token s tmp (CHR '' '');
        Some (m\<lparr>m_port := Some x, m_number_of_port := Some y\<rparr>, tmp) }
      else do { (x, tmp) \<leftarrow> sdp_token s tmp (CHR '' ''); Some (m\<lparr>m_port := Some x\<rparr>, tmp) }) }"

definition parse_media_head :: "string \<Rightarrow> nat \<Rightarrow> (sdp_media \<times> nat) option" where
  "parse_media_head s tmp = do {
     (x, tmp) \<leftarrow> sdp_token s tmp (CHR '' '');
     (m, tmp) \<leftarrow> parse_ports s tmp (sdp_media_init\<lparr>m_media := Some x\<rparr>);
     (x, tmp) \<leftarrow> (case sdp_token s tmp (CHR '' '') of Some r \<Rightarrow> Some r | None \<Rightarrow> last_token s tmp);
     Some (m\<lparr>m_proto := Some x\<rparr>, tmp) }"

definition sdp_message_parse_m :: "string \<Rightarrow> nat \<Rightarrow> sdp_message \<Rightarrow> sdp_result" where
  "sdp_message_parse_m s buf sdp = on_field (CHR ''m'') s buf sdp
     (\<lambda>v crlf.
        (case parse_media_head s v of
           None \<Rightarrow> Some (Inl sdp)
         | Some (m, tmp) \<Rightarrow> do {
             r \<leftarrow> parse_payloads s crlf tmp [];
             Some (case r of
                     Inl _ \<Rightarrow> Inl sdp
                   | Inr ps \<Rightarrow> Inr (sdp\<lparr>m_medias := m_medias sdp @ [m\<lparr>m_payloads := ps\<rparr>]\<rparr>)) }))"

section \<open>The order of the lines\<close>

text \<open>
  The state between two lines: \<open>Inl\<close> after a return of \<^verbatim>\<open>sdp_message_parse\<close> with its code, else \<open>Inr\<close> with
  the code of the last line parser (\<^verbatim>\<open>i\<close>), the position and the structure.
\<close>

type_synonym sdp_state = "(int \<times> sdp_message) + (int \<times> nat \<times> sdp_message)"

definition at_end :: "string \<Rightarrow> nat \<Rightarrow> bool" where
  "at_end s ptr \<longleftrightarrow> chr_at s ptr = NUL \<or> chr_at s ptr = CR \<or> chr_at s ptr = LF"

text \<open>One line parser.  Most of the calls are followed by the test for the end of the text (\<open>stop\<close>).\<close>

definition try_line :: "(string \<Rightarrow> nat \<Rightarrow> sdp_message \<Rightarrow> sdp_result) \<Rightarrow> bool \<Rightarrow> string \<Rightarrow> sdp_state \<Rightarrow> sdp_state option" where
  "try_line parse stop s st =
     (case st of
        Inl r \<Rightarrow> Some (Inl r)
      | Inr (_, ptr, sdp) \<Rightarrow> do {
          (i, ptr, sdp) \<leftarrow> parse s ptr sdp;
          Some (if i = -1 then Inl (-1, sdp)
                else if stop \<and> at_end s ptr then Inl (OSIP_SUCCESS, sdp)
                else Inr (i, ptr, sdp)) })"

text \<open>A line that must be there.\<close>

definition need_line :: "(string \<Rightarrow> nat \<Rightarrow> sdp_message \<Rightarrow> sdp_result) \<Rightarrow> string \<Rightarrow> sdp_state \<Rightarrow> sdp_state option" where
  "need_line parse s st = do {
     st \<leftarrow> try_line parse False s st;
     Some (case st of Inr (i, ptr, sdp) \<Rightarrow> if i = 0 then Inl (-1, sdp) else st | Inl _ \<Rightarrow> st) }"

definition stop_at_end :: "string \<Rightarrow> sdp_state \<Rightarrow> sdp_state" where
  "stop_at_end s st =
     (case st of Inr (i, ptr, sdp) \<Rightarrow> if at_end s ptr then Inl (OSIP_SUCCESS, sdp) else st | Inl _ \<Rightarrow> st)"

text \<open>\<^verbatim>\<open>i = 1; while (i == 1) ...\<close>, \<open>None\<close> if it does not end\<close>

partial_function (option) many_lines ::
  "(string \<Rightarrow> nat \<Rightarrow> sdp_message \<Rightarrow> sdp_result) \<Rightarrow> bool \<Rightarrow> string \<Rightarrow> sdp_state \<Rightarrow> sdp_state option" where
  "many_lines parse stop s st = do {
     st' \<leftarrow> try_line parse stop s st;
     (case st' of
        Inl r \<Rightarrow> Some st'
      | Inr (i, ptr, sdp) \<Rightarrow> if i = 1 then many_lines parse stop s st' else Some st') }"

declare many_lines.simps [code]

text \<open>\<^verbatim>\<open>while (more_t_header == 1)\<close>\<close>

partial_function (option) more_times :: "string \<Rightarrow> sdp_state \<Rightarrow> sdp_state option" where
  "more_times s st = do {
     st \<leftarrow> many_lines sdp_message_parse_r True s st;
     st \<leftarrow> try_line sdp_message_parse_t True s st;
     (case st of
        Inl r \<Rightarrow> Some st
      | Inr (i, ptr, sdp) \<Rightarrow> if i = ERR_DISCARD then Some st else more_times s st) }"

declare more_times.simps [code]

definition times_lines :: "string \<Rightarrow> sdp_state \<Rightarrow> sdp_state option" where
  "times_lines s st = do {
     st \<leftarrow> need_line sdp_message_parse_t s st;
     st \<leftarrow> many_lines sdp_message_parse_r True s (stop_at_end s st);
     st \<leftarrow> try_line sdp_message_parse_t True s st;
     more_times s st }"

definition media_tail :: "string \<Rightarrow> sdp_state \<Rightarrow> sdp_state option" where
  "media_tail s st = do {
     st \<leftarrow> try_line sdp_message_parse_i True s st;
     st \<leftarrow> many_lines sdp_message_parse_c True s st;
     st \<leftarrow> many_lines sdp_message_parse_b True s st;
     st \<leftarrow> try_line sdp_message_parse_k True s st;
     many_lines sdp_message_parse_a True s st }"

text \<open>\<^verbatim>\<open>while (more_m_header == 1)\<close>: the lines of a media are tried once more after the last one\<close>

partial_function (option) media_lines :: "string \<Rightarrow> sdp_state \<Rightarrow> (int \<times> sdp_message) option" where
  "media_lines s st = do {
     st \<leftarrow> try_line sdp_message_parse_m True s st;
     st' \<leftarrow> media_tail s st;
     (case (st, st') of
        (_, Inl r) \<Rightarrow> Some r
      | (Inl r, _) \<Rightarrow> Some r
      | (Inr (more_m_header, _), Inr (_, _, sdp)) \<Rightarrow>
          if more_m_header = 1 then media_lines s st' else Some (OSIP_SUCCESS, sdp)) }"

declare media_lines.simps [code]

definition sdp_message_parse :: "sdp_message \<Rightarrow> string \<Rightarrow> (int \<times> sdp_message) option" where
  "sdp_message_parse sdp s = do {
     st \<leftarrow> need_line sdp_message_parse_v s (Inr (1, 0, sdp));
     st \<leftarrow> try_line sdp_message_parse_s False s st;
     st \<leftarrow> need_line sdp_message_parse_o s st;
     st \<leftarrow> try_line sdp_message_parse_s False s st;
     st \<leftarrow> try_line sdp_message_parse_i False s st;
     st \<leftarrow> try_line sdp_message_parse_u False s st;
     st \<leftarrow> many_lines sdp_message_parse_e False s st;
     st \<leftarrow> many_lines sdp_message_parse_p False s st;
     st \<leftarrow> try_line sdp_message_parse_c False s st;
     st \<leftarrow> many_lines sdp_message_parse_b False s st;
     st \<leftarrow> times_lines s st;
     st \<leftarrow> try_line sdp_message_parse_z True s st;
     st \<leftarrow> try_line sdp_message_parse_k True s st;
     st \<leftarrow> many_lines sdp_message_parse_a True s st;
     media_lines s st }"


section \<open>Printing\<close>

text \<open>
  The buffer is the pair of its size and of what is written.  \<^verbatim>\<open>__osip_sdp_append_string\<close> enlarges it first;
  a write behind it would be \<open>None\<close>.
\<close>

type_synonym sdp_buffer = "nat \<times> string"

definition sdp_append_string :: "sdp_buffer \<Rightarrow> string \<Rightarrow> sdp_buffer option" where
  "sdp_append_string b x =
     (case b of
        (sz, cur) \<Rightarrow> do {
          let sz = (if length cur + length x + 1 > sz then sz + length x + 500 else sz);
          cur \<leftarrow> osip_str_append sz cur x;
          Some (sz, cur) })"

text \<open>Several calls one after the other.\<close>

fun sdp_append_strings :: "string list \<Rightarrow> sdp_buffer \<Rightarrow> sdp_buffer option" where
  "sdp_append_strings [] b = Some b"
| "sdp_append_strings (x # xs) b = do { b \<leftarrow> sdp_append_string b x; sdp_append_strings xs b }"

text \<open>The pieces of an optional field: what is put in front of it, the field, and what is put behind it.\<close>

definition optional :: "string \<Rightarrow> string option \<Rightarrow> string list \<Rightarrow> string list" where
  "optional front x back = (case x of None \<Rightarrow> [] | Some v \<Rightarrow> front # v # back)"

text \<open>Code and buffer; after an error the caller releases the buffer.\<close>

type_synonym sdp_appended = "(int \<times> sdp_buffer) option"

definition appended :: "string list \<Rightarrow> sdp_buffer \<Rightarrow> sdp_appended" where
  "appended xs b = do { b \<leftarrow> sdp_append_strings xs b; Some (OSIP_SUCCESS, b) }"

definition sdp_append_connection :: "sdp_connection \<Rightarrow> sdp_buffer \<Rightarrow> sdp_appended" where
  "sdp_append_connection conn b =
     (case (c_nettype conn, c_addrtype conn, c_addr conn) of
        (Some net, Some aty, Some addr) \<Rightarrow>
          appended ([''c='', net, '' '', aty, '' '', addr] @ optional ''/'' (c_addr_multicast_ttl conn) []
            @ optional ''/'' (c_addr_multicast_int conn) [] @ [CRLF]) b
      | _ \<Rightarrow> Some (-1, b))"

definition sdp_append_bandwidth :: "sdp_bandwidth \<Rightarrow> sdp_buffer \<Rightarrow> sdp_appended" where
  "sdp_append_bandwidth bandwidth b =
     (case (b_bwtype bandwidth, b_bandwidth bandwidth) of
        (Some ty, Some v) \<Rightarrow> appended [''b='', ty, '':'', v, CRLF] b
      | _ \<Rightarrow> Some (-1, b))"

definition sdp_append_time_descr :: "sdp_time_descr \<Rightarrow> sdp_buffer \<Rightarrow> sdp_appended" where
  "sdp_append_time_descr td b =
     (case (t_start_time td, t_stop_time td) of
        (Some start, Some stop) \<Rightarrow>
          appended ([''t='', start, '' '', stop, CRLF] @ concat (map (\<lambda>str. [''r='', str, CRLF]) (r_repeats td))) b
      | _ \<Rightarrow> Some (-1, b))"

definition sdp_append_key :: "sdp_key \<Rightarrow> sdp_buffer \<Rightarrow> sdp_appended" where
  "sdp_append_key key b =
     (case k_keytype key of
        Some ty \<Rightarrow> appended ([''k='', ty] @ optional '':'' (k_keydata key) [] @ [CRLF]) b
      | None \<Rightarrow> Some (-1, b))"

definition sdp_append_attribute :: "sdp_attribute \<Rightarrow> sdp_buffer \<Rightarrow> sdp_appended" where
  "sdp_append_attribute attribute b =
     (case a_att_field attribute of
        Some field \<Rightarrow> appended ([''a='', field] @ optional '':'' (a_att_value attribute) [] @ [CRLF]) b
      | None \<Rightarrow> Some (-1, b))"

text \<open>A loop over a list, left at the first error, and an optional structure.\<close>

fun append_each :: "('a \<Rightarrow> sdp_buffer \<Rightarrow> sdp_appended) \<Rightarrow> 'a list \<Rightarrow> sdp_buffer \<Rightarrow> sdp_appended" where
  "append_each f [] b = Some (OSIP_SUCCESS, b)"
| "append_each f (x # xs) b = do { (i, b) \<leftarrow> f x b; if i \<noteq> 0 then Some (-1, b) else append_each f xs b }"

definition append_optional :: "('a \<Rightarrow> sdp_buffer \<Rightarrow> sdp_appended) \<Rightarrow> 'a option \<Rightarrow> sdp_buffer \<Rightarrow> sdp_appended" where
  "append_optional f x = append_each f (case x of None \<Rightarrow> [] | Some v \<Rightarrow> [v])"

text \<open>Parts one after the other, up to the first error.\<close>

fun append_parts :: "(sdp_buffer \<Rightarrow> sdp_appended) list \<Rightarrow> sdp_buffer \<Rightarrow> sdp_appended" where
  "append_parts [] b = Some (OSIP_SUCCESS, b)"
| "append_parts (f # fs) b = do { (i, b) \<leftarrow> f b; if i \<noteq> 0 then Some (-1, b) else append_parts fs b }"

definition sdp_append_media :: "sdp_media \<Rightarrow> sdp_buffer \<Rightarrow> sdp_appended" where
  "sdp_append_media media b =
     (case (m_media media, m_port media, m_proto media) of
        (Some md, Some prt, Some proto) \<Rightarrow>
          append_parts
            [appended ([''m='', md, '' '', prt] @ optional ''/'' (m_number_of_port media) [] @ ['' '', proto]
               @ concat (map (\<lambda>str. ['' '', str]) (m_payloads media)) @ [CRLF]),
             appended (optional ''i='' (med_info media) [CRLF]),
             append_each sdp_append_connection (med_connections media),
             append_each sdp_append_bandwidth (med_bandwidths media),
             append_optional sdp_append_key (med_key media),
             append_each sdp_append_attribute (med_attributes media)] b
      | _ \<Rightarrow> Some (-1, b))"

definition BODY_MESSAGE_MAX_SIZE :: nat where "BODY_MESSAGE_MAX_SIZE = 4000"

definition sdp_message_to_str :: "sdp_message option \<Rightarrow> (int \<times> string option) option" where
  "sdp_message_to_str sdpp =
     (case sdpp of
        None \<Rightarrow> Some (-1, None)
      | Some sdp \<Rightarrow>
          (case (v_version sdp, o_username sdp, o_sess_id sdp, o_sess_version sdp, o_nettype sdp, o_addrtype sdp, o_addr sdp) of
             (Some version, Some user, Some sid, Some ver, Some net, Some aty, Some addr) \<Rightarrow> do {
               (i, b) \<leftarrow> append_parts
                 [appended [''v='', version, CRLF],
                  appended [''o='', user, '' '', sid, '' '', ver, '' '', net, '' '', aty, '' '', addr, CRLF],
                  appended (optional ''s='' (s_name sdp) [CRLF]),
                  appended (optional ''i='' (i_info sdp) [CRLF]),
                  appended (optional ''u='' (u_uri sdp) [CRLF]),
                  appended (concat (map (\<lambda>email. [''e='', email, CRLF]) (e_emails sdp))),
                  appended (concat (map (\<lambda>phone. [''p='', phone, CRLF]) (p_phones sdp))),
                  append_optional sdp_append_connection (c_connection sdp),
                  append_each sdp_append_bandwidth (b_bandwidths sdp),
                  append_each sdp_append_time_descr (t_descrs sdp),
                  appended (optional ''z='' (z_adjustments sdp) [CRLF]),
                  append_optional sdp_append_key (k_key sdp),
                  append_each sdp_append_attribute (a_attributes sdp),
                  append_each sdp_append_media (m_medias sdp)] (BODY_MESSAGE_MAX_SIZE, []);
               Some (if i \<noteq> 0 then (-1, None) else (OSIP_SUCCESS, Some (snd b))) }
           | _ \<Rightarrow> Some (-1, None)))"

text \<open>The copy is printed and parsed again.\<close>

definition sdp_message_clone :: "sdp_message option \<Rightarrow> (int \<times> sdp_message option) option" where
  "sdp_message_clone sdp = do {
     (i, body) \<leftarrow> sdp_message_to_str sdp;
     (case body of
        Some body \<Rightarrow>
          if i \<noteq> 0 then Some (-1, None)
          else do {
            (i, dest) \<leftarrow> sdp_message_parse sdp_message_init body;
            Some (if i \<noteq> 0 then (-1, None) else (OSIP_SUCCESS, Some dest)) }
      | None \<Rightarrow> Some (-1, None)) }"

end
