(* ===== verification/Osip_Sdp_Lines.thy ===== *)
theory Osip_Sdp_Lines
  imports Osip_Sdp
begin

text \<open>
  What each of the line parsers of \<^verbatim>\<open>sdp_message.c\<close> does with a printed line (\<open>reads\<close>) and with a line of another type
  (\<open>skips\<close>), and when a structure is well formed enough for its line to be read back.
\<close>

section \<open>The primitives at a position\<close>

text \<open>All of them look at the text from a position on, \<open>drop tmp s\<close>.\<close>

lemma length_of_drop: "drop tmp s = a @ c # b \<Longrightarrow> tmp + length a < length s"
  by (metis length_drop length_append length_Cons less_diff_conv add.commute less_add_Suc1 add_Suc_right)

lemma chr_at_drop: "drop tmp s = a @ c # b \<Longrightarrow> chr_at s (tmp + length a) = c"
  using length_of_drop [of tmp s a c b] nth_drop [of tmp s "length a"] by (simp add: chr_at_def)

lemma drop_further: "drop tmp s = a @ b \<Longrightarrow> drop (tmp + length a) s = b"
  by (metis add.commute append_eq_conv_conj drop_drop)

lemma strncpy_drop: "drop tmp s = a @ b \<Longrightarrow> osip_strncpy s tmp (length a) = a"
  by (simp add: osip_strncpy_def)

lemma takeWhile_stop: "(\<forall>x\<in>set a. P x) \<Longrightarrow> \<not> P c \<Longrightarrow> takeWhile P (a @ c # b) = a"
  by (simp add: takeWhile_append2)

definition plain :: "char set \<Rightarrow> string \<Rightarrow> bool" where
  "plain seps x \<longleftrightarrow> x \<noteq> [] \<and> CR \<notin> set x \<and> LF \<notin> set x \<and> (\<forall>c\<in>seps. c \<notin> set x)"

lemma token_here:
  assumes "drop tmp s = x @ sep # b" and "plain {sep} x"
  shows "sdp_token s tmp sep = Some (x, tmp + length x + 1)"
proof -
  have "takeWhile (\<lambda>c. c \<noteq> sep \<and> c \<noteq> CR \<and> c \<noteq> LF) (drop tmp s) = x"
    unfolding assms(1) by (rule takeWhile_stop) (use assms(2) in \<open>auto simp: plain_def\<close>)
  then show ?thesis
    using chr_at_drop [OF assms(1)] length_of_drop [OF assms(1)] strncpy_drop [OF assms(1)] assms(2)
    by (simp add: sdp_token_def osip_set_next_token_def plain_def)
qed

lemma token_missing:
  assumes "drop tmp s = x @ c # b" and "plain {sep} x" and "c = CR \<or> c = LF" and "c \<noteq> sep"
  shows "sdp_token s tmp sep = None"
proof -
  have "takeWhile (\<lambda>c. c \<noteq> sep \<and> c \<noteq> CR \<and> c \<noteq> LF) (drop tmp s) = x"
    unfolding assms(1) by (rule takeWhile_stop) (use assms(2,3) in \<open>auto simp: plain_def\<close>)
  then show ?thesis
    using chr_at_drop [OF assms(1)] assms(3,4) by (auto simp: sdp_token_def osip_set_next_token_def)
qed

lemma last_token_here:
  "drop tmp s = x @ CR # b \<Longrightarrow> plain {} x \<Longrightarrow> last_token s tmp = Some (x, tmp + length x + 1)"
  using token_here [of tmp s x CR b] by (simp add: last_token_def plain_def)

lemma sdp_strchr_here: "drop i s = a @ c # b \<Longrightarrow> c \<notin> set a \<Longrightarrow> strchr s i c = Some (i + length a)"
  using length_of_drop [of i s a c b] by (simp add: strchr_def takeWhile_append_neq)

lemma strchr_beyond: "drop i s = a @ b \<Longrightarrow> c \<notin> set a \<Longrightarrow> strchr s i c = Some k \<Longrightarrow> i + length a \<le> k"
proof -
  assume d: "drop i s = a @ b" "c \<notin> set a" "strchr s i c = Some k"
  have "takeWhile (\<lambda>x. x \<noteq> c) (drop i s) = a @ takeWhile (\<lambda>x. x \<noteq> c) b"
    unfolding d(1) using d(2) by (intro takeWhile_append2) auto
  then show "i + length a \<le> k" using d(3) by (auto simp: strchr_def Let_def split: if_splits)
qed

section \<open>Lines\<close>

definition line :: "char \<times> string \<Rightarrow> string" where
  "line l = fst l # CHR ''='' # snd l @ CRLF"

definition lines :: "(char \<times> string) list \<Rightarrow> string" where
  "lines ls = concat (map line ls)"

lemma lines_simps [simp]:
  "lines [] = []" "lines (l # ls) = line l @ lines ls" "lines (a @ b) = lines a @ lines b"
  by (simp_all add: lines_def)

definition name_ok :: "char \<Rightarrow> bool" where
  "name_ok n \<longleftrightarrow> n \<noteq> CHR ''='' \<and> n \<noteq> NUL \<and> n \<noteq> CR \<and> n \<noteq> LF"

text \<open>\<open>reads parse n v sdp sdp'\<close>: in front of any text the line is accepted and consumed.\<close>

definition reads :: "(string \<Rightarrow> nat \<Rightarrow> sdp_message \<Rightarrow> sdp_result) \<Rightarrow> char \<Rightarrow> string \<Rightarrow> sdp_message \<Rightarrow> sdp_message \<Rightarrow> bool" where
  "reads parse n v sdp sdp' \<longleftrightarrow>
     (\<forall>s pre rest. s = pre @ line (n, v) @ rest \<longrightarrow> parse s (length pre) sdp = Some (1, length pre + length (line (n, v)), sdp'))"

definition skips :: "(string \<Rightarrow> nat \<Rightarrow> sdp_message \<Rightarrow> sdp_result) \<Rightarrow> char \<Rightarrow> bool" where
  "skips parse c \<longleftrightarrow>
     (\<forall>s pre n v rest sdp. s = pre @ line (n, v) @ rest \<longrightarrow> name_ok n \<longrightarrow> n \<noteq> c \<longrightarrow> parse s (length pre) sdp = Some (0, length pre, sdp))"

lemma equal_sign_line:
  assumes "s = pre @ line (n, v) @ rest" and "name_ok n"
  shows "equal_sign s (length pre) = length pre + 1" and "chr_at s (length pre + 1) = CHR ''=''"
    and "s ! length pre = n" and "drop (length pre + 2) s = v @ CR # LF # rest"
  using assms by (simp_all add: equal_sign_def line_def name_ok_def chr_at_append CRLF_def nth_append chr_at_def)

lemma field_other:
  assumes "s = pre @ line (n, v) @ rest" and "name_ok n" and "n \<noteq> c"
  shows "sdp_field c s (length pre) = Some Other"
  using equal_sign_line [OF assms(1,2)] assms(3) by (simp add: sdp_field_def NUL_def)

lemma field_here:
  assumes "s = pre @ line (n, v) @ rest" and "name_ok n" and "plain {} v"
  shows "sdp_field n s (length pre) = Some (Field (length pre + 2) (length pre + 2 + length v) (length pre + length (line (n, v))))"
proof -
  note e = equal_sign_line [OF assms(1,2)]
  have "takeWhile (\<lambda>c. c \<noteq> CR \<and> c \<noteq> LF) (drop (length pre + 2) s) = v"
    unfolding e(4) by (rule takeWhile_stop) (use assms(3) in \<open>auto simp: plain_def\<close>)
  then have l: "line_end s (length pre + 2) = length pre + 2 + length v" by (simp add: line_end_def)
  have c: "chr_at s (length pre + 2 + length v) = CR" "chr_at s (length pre + 2 + length v + 1) = LF"
    using chr_at_drop [OF e(4)] chr_at_drop [of "length pre + 2" s "v @ [CR]" LF rest] e(4) by simp_all
  show ?thesis
    using e l c assms(3) by (auto simp: sdp_field_def Let_def NUL_def CR_def plain_def line_def CRLF_def)
qed

lemma on_field_skips: "(\<And>s buf sdp. parse s buf sdp = on_field c s buf sdp (f s buf sdp)) \<Longrightarrow> skips parse c"
  by (auto simp: skips_def on_field_def field_other ERR_DISCARD_def)

lemma on_field_reads:
  assumes "\<And>s buf. parse s buf sdp = on_field n s buf sdp (f s buf)" and "name_ok n" and "plain {} v"
    and "\<And>s buf p b. drop p s = v @ CR # LF # b \<Longrightarrow> f s buf p (p + length v) = Some (Inr sdp')"
  shows "reads parse n v sdp sdp'"
  unfolding reads_def
proof (intro allI impI)
  fix s pre rest
  assume s: "s = pre @ line (n, v) @ rest"
  note e = equal_sign_line [OF s assms(2)]
  show "parse s (length pre) sdp = Some (1, length pre + length (line (n, v)), sdp')"
    using field_here [OF s assms(2,3)] assms(4) [OF e(4), of "length pre"] by (simp add: assms(1) on_field_def WF_def)
qed


section \<open>The values of the lines\<close>

definition connection_value :: "sdp_connection \<Rightarrow> string" where
  "connection_value c = the (c_nettype c) @ '' '' @ the (c_addrtype c) @ '' '' @ the (c_addr c)
     @ concat (optional ''/'' (c_addr_multicast_ttl c) []) @ concat (optional ''/'' (c_addr_multicast_int c) [])"

definition has :: "char set \<Rightarrow> string option \<Rightarrow> bool" where
  "has seps x \<longleftrightarrow> (\<exists>v. x = Some v \<and> plain seps v)"

definition maybe :: "char set \<Rightarrow> string option \<Rightarrow> bool" where
  "maybe seps x \<longleftrightarrow> x = None \<or> has seps x"

definition wf_connection :: "sdp_connection \<Rightarrow> bool" where
  "wf_connection c \<longleftrightarrow> has {CHR '' ''} (c_nettype c) \<and> has {CHR '' ''} (c_addrtype c) \<and> has {CHR ''/''} (c_addr c)
     \<and> maybe {CHR ''/''} (c_addr_multicast_ttl c) \<and> maybe {} (c_addr_multicast_int c)
     \<and> (c_addr_multicast_int c \<noteq> None \<longrightarrow> c_addr_multicast_ttl c \<noteq> None)"

lemma plain_less: "plain seps x \<Longrightarrow> plain {} x"
  by (simp add: plain_def)

lemma plain_append: "plain seps a \<Longrightarrow> plain seps b \<Longrightarrow> plain seps (a @ b)"
  by (auto simp: plain_def)

lemma char_distinct [simp]: "CHR '' '' \<noteq> CR" "CHR '' '' \<noteq> LF" "CHR ''/'' \<noteq> CR" "CHR ''/'' \<noteq> LF" "CHR '':'' \<noteq> CR" "CHR '':'' \<noteq> LF"
  by (simp_all add: CR_def LF_def)

lemmas char_distinct_sym [simp] = char_distinct [symmetric]

lemma drop_Suc_of: "drop tmp s = x @ c # b \<Longrightarrow> drop (tmp + length x + 1) s = b"
  using drop_further [of tmp s "x @ [c]" b] by simp

lemma sdp_parse_address_ok:
  assumes "drop tmp s = addr @ concat (optional ''/'' ttl []) @ concat (optional ''/'' num []) @ CR # LF # b"
    and "plain {CHR ''/''} addr" and "maybe {CHR ''/''} ttl" and "maybe {} num" and "num \<noteq> None \<longrightarrow> ttl \<noteq> None"
    and "crlf = tmp + length addr + length (concat (optional ''/'' ttl [])) + length (concat (optional ''/'' num []))"
  shows "sdp_parse_address s crlf tmp c = Some (c\<lparr>c_addr := Some addr,
     c_addr_multicast_ttl := (if ttl = None then c_addr_multicast_ttl c else ttl),
     c_addr_multicast_int := (if num = None then c_addr_multicast_int c else num)\<rparr>)"
proof (cases ttl)
  case None
  then have n: "num = None" using assms(5) by auto
  have d: "drop tmp s = addr @ CR # LF # b" using assms(1) None n by (simp add: optional_def)
  have "\<not> k < crlf" if "strchr s tmp (CHR ''/'') = Some k" for k
    using strchr_beyond [OF d _ that] assms(2,6) None n by (simp add: plain_def optional_def)
  then show ?thesis
    using last_token_here [OF d plain_less [OF assms(2)]] None n by (auto simp: sdp_parse_address_def split: option.splits)
next
  case (Some t)
  have t: "plain {CHR ''/''} t" using assms(3) Some by (simp add: maybe_def has_def)
  have d: "drop tmp s = addr @ CHR ''/'' # t @ concat (optional ''/'' num []) @ CR # LF # b"
    using assms(1) Some by (simp add: optional_def)
  note d1 = drop_Suc_of [OF d]
  have a: "strchr s tmp (CHR ''/'') = Some (tmp + length addr)" "tmp + length addr < crlf"
    "sdp_token s tmp (CHR ''/'') = Some (addr, tmp + length addr + 1)"
    using sdp_strchr_here [OF d] token_here [OF d assms(2)] assms(2,6) Some by (simp_all add: plain_def optional_def)
  show ?thesis
  proof (cases num)
    case None
    have d2: "drop (tmp + length addr + 1) s = t @ CR # LF # b" using d1 None by (simp add: optional_def)
    have "\<not> k < crlf" if "strchr s (tmp + length addr + 1) (CHR ''/'') = Some k" for k
      using strchr_beyond [OF d2 _ that] t assms(6) None Some by (simp add: plain_def optional_def)
    then show ?thesis
      using a last_token_here [OF d2 plain_less [OF t]] None Some by (auto simp: sdp_parse_address_def split: option.splits)
  next
    fix n
    assume n: "num = Some n"
    have d2: "drop (tmp + length addr + 1) s = t @ CHR ''/'' # n @ CR # LF # b" using d1 n by (simp add: optional_def)
    have p: "plain {} n" using assms(4) n by (simp add: maybe_def has_def)
    show ?thesis
      using a sdp_strchr_here [OF d2] token_here [OF d2 t] last_token_here [OF drop_Suc_of [OF d2] p] t assms(6) n Some
      by (simp add: sdp_parse_address_def plain_def optional_def)
  qed
qed

lemma connection_ok:
  assumes "wf_connection c" and "drop p s = connection_value c @ CR # LF # b"
  shows "parse_connection s (p + length (connection_value c)) p = Some c"
proof -
  obtain net aty addr where c: "c_nettype c = Some net" "c_addrtype c = Some aty" "c_addr c = Some addr"
    "plain {CHR '' ''} net" "plain {CHR '' ''} aty" "plain {CHR ''/''} addr"
    using assms(1) by (auto simp: wf_connection_def has_def)
  let ?rest = "addr @ concat (optional ''/'' (c_addr_multicast_ttl c) []) @ concat (optional ''/'' (c_addr_multicast_int c) []) @ CR # LF # b"
  have d: "drop p s = net @ CHR '' '' # aty @ CHR '' '' # ?rest" using assms(2) c(1-3) by (simp add: connection_value_def)
  note d1 = drop_Suc_of [OF d] note d2 = drop_Suc_of [OF d1]
  have "sdp_parse_address s (p + length (connection_value c)) (p + length net + 1 + length aty + 1) c'
      = Some (c'\<lparr>c_addr := Some addr,
          c_addr_multicast_ttl := (if c_addr_multicast_ttl c = None then c_addr_multicast_ttl c' else c_addr_multicast_ttl c),
          c_addr_multicast_int := (if c_addr_multicast_int c = None then c_addr_multicast_int c' else c_addr_multicast_int c)\<rparr>)" for c'
    by (rule sdp_parse_address_ok [OF d2 c(6)]) (use assms(1) c(1-3) in \<open>simp_all add: wf_connection_def connection_value_def\<close>)
  then show ?thesis
    using token_here [OF d c(4)] token_here [OF d1 c(5)] c(1-3)
    by (cases c) (auto simp: parse_connection_def sdp_connection_init_def)
qed

lemma pair_ok:
  assumes "drop p s = x @ concat (optional '':'' y []) @ CR # LF # b" and "plain {CHR '':''} x" and "maybe {} y"
    and "crlf = p + length x + length (concat (optional '':'' y []))"
  shows "parse_pair s crlf p = Some (x, y)"
proof (cases y)
  case None
  have d: "drop p s = x @ CR # LF # b" using assms(1) None by (simp add: optional_def)
  have "\<not> k < crlf" if "strchr s p (CHR '':'') = Some k" for k
    using strchr_beyond [OF d _ that] assms(2,4) None by (simp add: plain_def optional_def)
  then show ?thesis
    using last_token_here [OF d plain_less [OF assms(2)]] None by (auto simp: parse_pair_def split: option.splits)
next
  case (Some t)
  have d: "drop p s = x @ CHR '':'' # t @ CR # LF # b" using assms(1) Some by (simp add: optional_def)
  have t: "plain {} t" using assms(3) Some by (simp add: maybe_def has_def)
  show ?thesis
    using sdp_strchr_here [OF d] token_here [OF d assms(2)] last_token_here [OF drop_Suc_of [OF d] t] assms(2,4) Some
    by (simp add: parse_pair_def plain_def optional_def)
qed

definition join :: "string list \<Rightarrow> string" where
  "join ps = (case ps of [] \<Rightarrow> [] | p # ps \<Rightarrow> p @ concat (map (\<lambda>q. CHR '' '' # q) ps))"

lemma join_Cons: "join (p # q # ps) = p @ CHR '' '' # join (q # ps)"
  by (simp add: join_def)

lemma payloads_ok:
  "drop tmp s = join ps @ CR # LF # b \<Longrightarrow> ps \<noteq> [] \<Longrightarrow> \<forall>p\<in>set ps. plain {CHR '' ''} p \<Longrightarrow> crlf = tmp + length (join ps)
   \<Longrightarrow> parse_payloads s crlf tmp acc = Some (Inr (acc @ ps))"
proof (induction ps arbitrary: tmp acc)
  case (Cons p ps)
  have p: "plain {CHR '' ''} p" using Cons.prems(3) by simp
  then obtain c cs where cs: "p = c # cs" by (cases p) (auto simp: plain_def)
  have l: "tmp < length s" using Cons.prems(1) by (metis Nil_is_append_conv drop_all linorder_not_less list.distinct(1))
  show ?case
  proof (cases ps)
    case Nil
    have d: "drop tmp s = p @ CR # LF # b" using Cons.prems(1) Nil by (simp add: join_def)
    have d1: "drop (tmp + 1) s = cs @ CR # LF # b" using drop_further [of tmp s "[c]"] d cs by simp
    have "\<not> k \<le> crlf" if "strchr s (tmp + 1) (CHR '' '') = Some k" for k
      using strchr_beyond [of "tmp + 1" s "cs @ [CR]" "LF # b" "CHR '' ''" k] d1 that p cs Cons.prems(4) Nil
      by (simp add: plain_def join_def)
    then show ?thesis
      using last_token_here [OF d plain_less [OF p]] l cs Cons.prems(4) Nil
      by (subst parse_payloads.simps) (auto simp: join_def split: option.splits)
  next
    case (Cons q qs)
    have d: "drop tmp s = p @ CHR '' '' # join ps @ CR # LF # b" using Cons.prems(1) Cons join_Cons by simp
    have d1: "drop (tmp + 1) s = cs @ CHR '' '' # join ps @ CR # LF # b" using drop_further [of tmp s "[c]"] d cs by simp
    have "strchr s (tmp + 1) (CHR '' '') = Some (tmp + length p)" using sdp_strchr_here [OF d1] p cs by (simp add: plain_def)
    moreover have "crlf = tmp + length p + 1 + length (join ps)" using Cons.prems(4) Cons join_Cons by simp
    ultimately show ?thesis
      using token_here [OF d p] l Cons.IH [OF drop_Suc_of [OF d], of "acc @ [p]"] Cons Cons.prems(3)
      by (subst parse_payloads.simps) simp
  qed
qed simp

definition media_value :: "sdp_media \<Rightarrow> string" where
  "media_value m = the (m_media m) @ '' '' @ the (m_port m) @ concat (optional ''/'' (m_number_of_port m) [])
     @ '' '' @ the (m_proto m) @ concat (map (\<lambda>p. CHR '' '' # p) (m_payloads m))"


definition wf_media_head :: "sdp_media \<Rightarrow> bool" where
  "wf_media_head m \<longleftrightarrow> has {CHR '' ''} (m_media m) \<and> has {CHR '' '', CHR ''/''} (m_port m)
     \<and> maybe {CHR '' ''} (m_number_of_port m) \<and> has {CHR '' ''} (m_proto m) \<and> (\<forall>p\<in>set (m_payloads m). plain {CHR '' ''} p)"

lemma ports_ok:
  assumes "drop p s = prt @ concat (optional ''/'' num []) @ CHR '' '' # b" and "plain {CHR '' '', CHR ''/''} prt"
    and "maybe {CHR '' ''} num"
  shows "parse_ports s p m = Some (m\<lparr>m_port := Some prt, m_number_of_port := (if num = None then m_number_of_port m else num)\<rparr>,
     p + length prt + length (concat (optional ''/'' num [])) + 1)"
proof (cases num)
  case None
  have d: "drop p s = prt @ CHR '' '' # b" using assms(1) None by (simp add: optional_def)
  have "\<not> k < p + length prt" if "strchr s p (CHR ''/'') = Some k" for k
    using strchr_beyond [OF d _ that] assms(2) by (simp add: plain_def)
  moreover have "plain {CHR '' ''} prt" using assms(2) by (simp add: plain_def)
  ultimately show ?thesis
    using sdp_strchr_here [OF d] token_here [OF d] assms(2) None
    by (auto simp: parse_ports_def plain_def optional_def split: option.splits)
next
  case (Some n)
  have d: "drop p s = prt @ CHR ''/'' # n @ CHR '' '' # b" using assms(1) Some by (simp add: optional_def)
  have n: "plain {CHR '' ''} n" using assms(3) Some by (simp add: maybe_def has_def)
  have q: "plain {CHR ''/''} prt" "CHR '' '' \<notin> set (prt @ CHR ''/'' # n)" using assms(2) n by (simp_all add: plain_def)
  have "drop p s = (prt @ CHR ''/'' # n) @ CHR '' '' # b" using d by simp
  from sdp_strchr_here [OF this q(2)] show ?thesis
    using sdp_strchr_here [OF d] token_here [OF d q(1)] token_here [OF drop_Suc_of [OF d] n] assms(2) Some
    by (simp add: parse_ports_def plain_def optional_def)
qed

lemma media_ok:
  assumes "wf_media_head m" and "drop p s = media_value m @ CR # LF # b" and "crlf = p + length (media_value m)"
  shows "\<exists>tmp. parse_media_head s p = Some (sdp_media_init\<lparr>m_media := m_media m, m_port := m_port m,
      m_number_of_port := m_number_of_port m, m_proto := m_proto m\<rparr>, tmp)
    \<and> parse_payloads s crlf tmp [] = Some (Inr (m_payloads m))"
proof -
  obtain md prt proto where c: "m_media m = Some md" "m_port m = Some prt" "m_proto m = Some proto"
    "plain {CHR '' ''} md" "plain {CHR '' '', CHR ''/''} prt" "plain {CHR '' ''} proto"
    using assms(1) by (auto simp: wf_media_head_def has_def)
  let ?num = "concat (optional ''/'' (m_number_of_port m) [])"
  let ?ps = "concat (map (\<lambda>p. CHR '' '' # p) (m_payloads m))"
  have d: "drop p s = md @ CHR '' '' # prt @ ?num @ CHR '' '' # proto @ ?ps @ CR # LF # b"
    using assms(2) c(1-3) by (simp add: media_value_def)
  note d1 = drop_Suc_of [OF d]
  have num: "maybe {CHR '' ''} (m_number_of_port m)" using assms(1) by (simp add: wf_media_head_def)
  let ?q = "p + length md + 1 + length prt + length ?num + 1"
  have "drop (p + length md + 1) s = (prt @ ?num) @ CHR '' '' # proto @ ?ps @ CR # LF # b" using d1 by simp
  from drop_Suc_of [OF this] have d2: "drop ?q s = proto @ ?ps @ CR # LF # b" by (simp add: ac_simps)
  note h = token_here [OF d c(4)] ports_ok [OF d1 c(5) num]
  have crlf: "crlf = ?q + length proto + length ?ps" using assms(3) c(1-3) by (simp add: media_value_def)
  show ?thesis
  proof (cases "m_payloads m")
    case Nil
    have d3: "drop ?q s = proto @ CR # LF # b" using d2 Nil by simp
    have "sdp_token s ?q (CHR '' '') = None" by (rule token_missing [OF d3 c(6)]) simp_all
    moreover have "last_token s ?q = Some (proto, ?q + length proto + 1)" by (rule last_token_here [OF d3 plain_less [OF c(6)]])
    moreover have d4: "drop (?q + length proto + 1) s = LF # b" by (rule drop_Suc_of [OF d3])
    have l: "?q + length proto + 1 < length s" using length_of_drop [of _ s "[]" LF b] d4 by simp
    have "parse_payloads s crlf (?q + length proto + 1) [] = Some (Inr [])"
    proof -
      have "\<not> k \<le> crlf" if "strchr s (?q + length proto + 1 + 1) (CHR '' '') = Some k" for k
        using strchr_bounds [OF that] crlf Nil by simp
      then show ?thesis using l crlf Nil by (subst parse_payloads.simps) (auto split: option.splits)
    qed
    ultimately show ?thesis using h c(1-3) Nil by (simp add: parse_media_head_def sdp_media_init_def)
  next
    case (Cons r rs)
    then have ps: "?ps = CHR '' '' # join (m_payloads m)" by (simp add: join_def)
    have d3: "drop ?q s = proto @ CHR '' '' # join (m_payloads m) @ CR # LF # b" using d2 ps by simp
    have "parse_payloads s crlf (?q + length proto + 1) [] = Some (Inr ([] @ m_payloads m))"
      by (rule payloads_ok [OF drop_Suc_of [OF d3]]) (use assms(1) Cons crlf ps in \<open>simp_all add: wf_media_head_def join_def\<close>)
    with h token_here [OF d3 c(6)] c(1-3) show ?thesis by (simp add: parse_media_head_def sdp_media_init_def)
  qed
qed


section \<open>The fifteen parsers on their lines\<close>

lemmas line_parsers = sdp_message_parse_s_def sdp_message_parse_i_def sdp_message_parse_u_def sdp_message_parse_e_def
  sdp_message_parse_p_def sdp_message_parse_z_def on_text_def sdp_message_parse_o_def sdp_message_parse_c_def
  sdp_message_parse_b_def sdp_message_parse_t_def sdp_message_parse_r_def sdp_message_parse_k_def
  sdp_message_parse_a_def sdp_message_parse_m_def

lemma on_field_other:
  assumes "s = pre @ line (n, v) @ rest" and "name_ok n" and "n \<noteq> c"
  shows "on_field c s (length pre) sdp f = Some (0, length pre, sdp)"
  using field_other [OF assms] by (simp add: on_field_def ERR_DISCARD_def)

lemma parsers_skip:
  "skips sdp_message_parse_s (CHR ''s'')" "skips sdp_message_parse_o (CHR ''o'')" "skips sdp_message_parse_i (CHR ''i'')"
  "skips sdp_message_parse_u (CHR ''u'')" "skips sdp_message_parse_e (CHR ''e'')" "skips sdp_message_parse_p (CHR ''p'')"
  "skips sdp_message_parse_c (CHR ''c'')" "skips sdp_message_parse_b (CHR ''b'')" "skips sdp_message_parse_t (CHR ''t'')"
  "skips sdp_message_parse_r (CHR ''r'')" "skips sdp_message_parse_z (CHR ''z'')" "skips sdp_message_parse_k (CHR ''k'')"
  "skips sdp_message_parse_a (CHR ''a'')" "skips sdp_message_parse_m (CHR ''m'')"
  unfolding skips_def line_parsers by (blast intro: on_field_other)+

lemma name_oks: "c \<in> set ''vosiuepcbtrzkam'' \<Longrightarrow> name_ok c"
  by (auto simp: name_ok_def NUL_def CR_def LF_def)

lemma text_reads:
  assumes "\<And>s buf. parse s buf sdp = on_text n s buf sdp f" and "n \<in> set ''vosiuepcbtrzkam''" and "plain {} v"
  shows "reads parse n v sdp (f v)"
  by (rule on_field_reads [where f = "\<lambda>s buf v crlf. Some (Inr (f (osip_strncpy s v (crlf - v))))"])
    (use assms name_oks strncpy_drop in \<open>auto simp: on_text_def\<close>)

lemma v_reads: "plain {} v \<Longrightarrow> reads sdp_message_parse_v (CHR ''v'') v sdp (sdp\<lparr>v_version := Some v\<rparr>)"
proof -
  assume v: "plain {} v"
  have "reads (\<lambda>s buf sdp. on_text (CHR ''v'') s buf sdp (\<lambda>x. sdp\<lparr>v_version := Some x\<rparr>)) (CHR ''v'') v sdp (sdp\<lparr>v_version := Some v\<rparr>)"
    by (rule text_reads [OF _ _ v]) simp_all
  then show ?thesis using equal_sign_line(1) [OF _ name_oks] by (simp add: reads_def sdp_message_parse_v_def)
qed

lemma texts_read:
  assumes "plain {} v"
  shows "reads sdp_message_parse_s (CHR ''s'') v sdp (sdp\<lparr>s_name := Some v\<rparr>)"
    and "reads sdp_message_parse_i (CHR ''i'') v sdp (at_level (\<lambda>sdp. sdp\<lparr>i_info := Some v\<rparr>) (\<lambda>m. m\<lparr>med_info := Some v\<rparr>) sdp)"
    and "reads sdp_message_parse_u (CHR ''u'') v sdp (sdp\<lparr>u_uri := Some v\<rparr>)"
    and "reads sdp_message_parse_e (CHR ''e'') v sdp (sdp\<lparr>e_emails := e_emails sdp @ [v]\<rparr>)"
    and "reads sdp_message_parse_p (CHR ''p'') v sdp (sdp\<lparr>p_phones := p_phones sdp @ [v]\<rparr>)"
    and "reads sdp_message_parse_z (CHR ''z'') v sdp (sdp\<lparr>z_adjustments := Some v\<rparr>)"
  by (rule text_reads [OF _ _ assms], simp_all add: line_parsers(1-6))+

definition origin_value :: "sdp_message \<Rightarrow> string" where
  "origin_value sdp = the (o_username sdp) @ '' '' @ the (o_sess_id sdp) @ '' '' @ the (o_sess_version sdp) @ '' ''
     @ the (o_nettype sdp) @ '' '' @ the (o_addrtype sdp) @ '' '' @ the (o_addr sdp)"

definition wf_origin :: "sdp_message \<Rightarrow> bool" where
  "wf_origin sdp \<longleftrightarrow> has {CHR '' ''} (o_username sdp) \<and> has {CHR '' ''} (o_sess_id sdp) \<and> has {CHR '' ''} (o_sess_version sdp)
     \<and> has {CHR '' ''} (o_nettype sdp) \<and> has {CHR '' ''} (o_addrtype sdp) \<and> has {} (o_addr sdp)"

definition with_origin :: "sdp_message \<Rightarrow> sdp_message \<Rightarrow> sdp_message" where
  "with_origin o1 sdp = sdp\<lparr>o_username := o_username o1, o_sess_id := o_sess_id o1, o_sess_version := o_sess_version o1,
     o_nettype := o_nettype o1, o_addrtype := o_addrtype o1, o_addr := o_addr o1\<rparr>"

lemma origin_reads:
  assumes "wf_origin o1"
  shows "reads sdp_message_parse_o (CHR ''o'') (origin_value o1) sdp (with_origin o1 sdp)"
proof -
  obtain u i v n t a where c: "o_username o1 = Some u" "o_sess_id o1 = Some i" "o_sess_version o1 = Some v"
    "o_nettype o1 = Some n" "o_addrtype o1 = Some t" "o_addr o1 = Some a" and w: "plain {CHR '' ''} u" "plain {CHR '' ''} i"
    "plain {CHR '' ''} v" "plain {CHR '' ''} n" "plain {CHR '' ''} t" "plain {} a"
    using assms by (auto simp: wf_origin_def has_def)
  have "parse_origin s p sdp = Inr (with_origin o1 sdp)" if "drop p s = origin_value o1 @ CR # LF # b" for s p b
  proof -
    have d: "drop p s = u @ CHR '' '' # i @ CHR '' '' # v @ CHR '' '' # n @ CHR '' '' # t @ CHR '' '' # a @ CR # LF # b"
      using that c by (simp add: origin_value_def)
    note d1 = drop_Suc_of [OF d] note d2 = drop_Suc_of [OF d1] note d3 = drop_Suc_of [OF d2]
    note d4 = drop_Suc_of [OF d3] note d5 = drop_Suc_of [OF d4]
    show ?thesis
      using token_here [OF d w(1)] token_here [OF d1 w(2)] token_here [OF d2 w(3)] token_here [OF d3 w(4)]
        token_here [OF d4 w(5)] last_token_here [OF d5 w(6)] c
      by (simp add: parse_origin_def with_origin_def)
  qed
  moreover have "plain {} (origin_value o1)" using w c by (simp add: origin_value_def plain_def)
  ultimately show ?thesis
    by (intro on_field_reads [where f = "\<lambda>s buf v crlf. Some (parse_origin s v sdp)"])
      (simp_all add: sdp_message_parse_o_def name_oks)
qed

text \<open>What the lines of a list add.\<close>

definition add_connection :: "sdp_connection \<Rightarrow> sdp_message \<Rightarrow> sdp_message" where
  "add_connection c = at_level (\<lambda>sdp. sdp\<lparr>c_connection := Some c\<rparr>) (\<lambda>m. m\<lparr>med_connections := med_connections m @ [c]\<rparr>)"

definition add_bandwidth :: "sdp_bandwidth \<Rightarrow> sdp_message \<Rightarrow> sdp_message" where
  "add_bandwidth b = at_level (\<lambda>sdp. sdp\<lparr>b_bandwidths := b_bandwidths sdp @ [b]\<rparr>) (\<lambda>m. m\<lparr>med_bandwidths := med_bandwidths m @ [b]\<rparr>)"

definition add_key :: "sdp_key \<Rightarrow> sdp_message \<Rightarrow> sdp_message" where
  "add_key k = at_level (\<lambda>sdp. sdp\<lparr>k_key := Some k\<rparr>) (\<lambda>m. m\<lparr>med_key := Some k\<rparr>)"

definition add_attribute :: "sdp_attribute \<Rightarrow> sdp_message \<Rightarrow> sdp_message" where
  "add_attribute a = at_level (\<lambda>sdp. sdp\<lparr>a_attributes := a_attributes sdp @ [a]\<rparr>) (\<lambda>m. m\<lparr>med_attributes := med_attributes m @ [a]\<rparr>)"

lemma connection_reads:
  assumes "wf_connection c"
  shows "reads sdp_message_parse_c (CHR ''c'') (connection_value c) sdp (add_connection c sdp)"
proof -
  have "plain {} (connection_value c)"
    using assms by (auto simp: wf_connection_def connection_value_def has_def maybe_def plain_def optional_def)
  then show ?thesis
    by (rule on_field_reads [rotated 2]) (use connection_ok [OF assms] in
      \<open>simp_all add: sdp_message_parse_c_def add_connection_def stored_def name_oks\<close>)
qed

definition bandwidth_value :: "sdp_bandwidth \<Rightarrow> string" where
  "bandwidth_value b = the (b_bwtype b) @ '':'' @ the (b_bandwidth b)"

definition wf_bandwidth :: "sdp_bandwidth \<Rightarrow> bool" where
  "wf_bandwidth b \<longleftrightarrow> has {CHR '':''} (b_bwtype b) \<and> has {} (b_bandwidth b)"

lemma bandwidth_reads:
  assumes "wf_bandwidth c"
  shows "reads sdp_message_parse_b (CHR ''b'') (bandwidth_value c) sdp (add_bandwidth c sdp)"
proof -
  obtain x y where c: "b_bwtype c = Some x" "b_bandwidth c = Some y" "plain {CHR '':''} x" "plain {} y"
    using assms by (auto simp: wf_bandwidth_def has_def)
  have ok: "parse_bandwidth s p = Some c" if "drop p s = bandwidth_value c @ CR # LF # b" for s p b
  proof -
    have d: "drop p s = x @ CHR '':'' # y @ CR # LF # b" using that c by (simp add: bandwidth_value_def)
    show ?thesis
      using token_here [OF d c(3)] last_token_here [OF drop_Suc_of [OF d] c(4)] c(1,2)
      by (cases c) (simp add: parse_bandwidth_def)
  qed
  have "plain {} (bandwidth_value c)" using c by (simp add: bandwidth_value_def plain_def)
  then show ?thesis
    by (rule on_field_reads [rotated 2]) (use ok in
      \<open>simp_all add: sdp_message_parse_b_def add_bandwidth_def stored_def name_oks\<close>)
qed

definition time_value :: "sdp_time_descr \<Rightarrow> string" where
  "time_value t = the (t_start_time t) @ '' '' @ the (t_stop_time t)"

definition wf_time_descr :: "sdp_time_descr \<Rightarrow> bool" where
  "wf_time_descr t \<longleftrightarrow> has {CHR '' ''} (t_start_time t) \<and> has {} (t_stop_time t) \<and> (\<forall>r\<in>set (r_repeats t). plain {} r)"

lemma time_reads:
  assumes "wf_time_descr c"
  shows "reads sdp_message_parse_t (CHR ''t'') (time_value c) sdp (sdp\<lparr>t_descrs := t_descrs sdp @ [c\<lparr>r_repeats := []\<rparr>]\<rparr>)"
proof -
  obtain x y where c: "t_start_time c = Some x" "t_stop_time c = Some y" "plain {CHR '' ''} x" "plain {} y"
    using assms by (auto simp: wf_time_descr_def has_def)
  have ok: "parse_time_descr s p = Some (c\<lparr>r_repeats := []\<rparr>)" if "drop p s = time_value c @ CR # LF # b" for s p b
  proof -
    have d: "drop p s = x @ CHR '' '' # y @ CR # LF # b" using that c by (simp add: time_value_def)
    show ?thesis
      using token_here [OF d c(3)] last_token_here [OF drop_Suc_of [OF d] c(4)] c(1,2)
      by (cases c) (simp add: parse_time_descr_def sdp_time_descr_init_def)
  qed
  have "plain {} (time_value c)" using c by (simp add: time_value_def plain_def)
  then show ?thesis
    by (rule on_field_reads [rotated 2]) (use ok in \<open>simp_all add: sdp_message_parse_t_def stored_def name_oks\<close>)
qed

definition add_repeat :: "string \<Rightarrow> sdp_message \<Rightarrow> sdp_message" where
  "add_repeat v sdp = (let t = last (t_descrs sdp)
     in sdp\<lparr>t_descrs := butlast (t_descrs sdp) @ [t\<lparr>r_repeats := r_repeats t @ [v]\<rparr>]\<rparr>)"

lemma repeat_reads:
  assumes "plain {} v" and "t_descrs sdp \<noteq> []"
  shows "reads sdp_message_parse_r (CHR ''r'') v sdp (add_repeat v sdp)"
  by (rule on_field_reads [OF _ _ assms(1), where f = "\<lambda>s buf v crlf. Some (
        if t_descrs sdp = [] then Inl sdp
        else (let t = last (t_descrs sdp)
              in Inr (sdp\<lparr>t_descrs := butlast (t_descrs sdp) @ [t\<lparr>r_repeats := r_repeats t @ [osip_strncpy s v (crlf - v)]\<rparr>]\<rparr>)))"])
    (use assms(2) strncpy_drop in \<open>auto simp: sdp_message_parse_r_def add_repeat_def name_oks Let_def\<close>)

definition pair_value :: "string option \<Rightarrow> string option \<Rightarrow> string" where
  "pair_value x y = the x @ concat (optional '':'' y [])"

lemma pair_plain: "has {CHR '':''} x \<Longrightarrow> maybe {} y \<Longrightarrow> plain {} (pair_value x y)"
  by (auto simp: has_def maybe_def pair_value_def plain_def optional_def)

lemma pair_parsed:
  assumes "has {CHR '':''} x" and "maybe {} y" and "drop p s = pair_value x y @ CR # LF # b"
  shows "parse_pair s (p + length (pair_value x y)) p = Some (the x, y)"
  by (rule pair_ok) (use assms in \<open>auto simp: has_def pair_value_def\<close>)

definition wf_key :: "sdp_key \<Rightarrow> bool" where
  "wf_key k \<longleftrightarrow> has {CHR '':''} (k_keytype k) \<and> maybe {} (k_keydata k)"

definition wf_attribute :: "sdp_attribute \<Rightarrow> bool" where
  "wf_attribute a \<longleftrightarrow> has {CHR '':''} (a_att_field a) \<and> maybe {} (a_att_value a)"

lemma key_reads:
  assumes "wf_key k"
  shows "reads sdp_message_parse_k (CHR ''k'') (pair_value (k_keytype k) (k_keydata k)) sdp (add_key k sdp)"
proof -
  have w: "has {CHR '':''} (k_keytype k)" "maybe {} (k_keydata k)" using assms by (simp_all add: wf_key_def)
  have "\<lparr>k_keytype = Some (the (k_keytype k)), k_keydata = k_keydata k\<rparr> = k" using w(1) by (cases k) (auto simp: has_def)
  then show ?thesis
    using pair_parsed [OF w]
    by (intro on_field_reads [OF _ _ pair_plain [OF w], where
          f = "\<lambda>s buf v crlf. Some (stored sdp (\<lambda>(x, y). add_key \<lparr>k_keytype = Some x, k_keydata = y\<rparr>) (parse_pair s crlf v))"])
      (auto simp: sdp_message_parse_k_def add_key_def stored_def name_oks Let_def)
qed

lemma attribute_reads:
  assumes "wf_attribute a"
  shows "reads sdp_message_parse_a (CHR ''a'') (pair_value (a_att_field a) (a_att_value a)) sdp (add_attribute a sdp)"
proof -
  have w: "has {CHR '':''} (a_att_field a)" "maybe {} (a_att_value a)" using assms by (simp_all add: wf_attribute_def)
  have "\<lparr>a_att_field = Some (the (a_att_field a)), a_att_value = a_att_value a\<rparr> = a" using w(1) by (cases a) (auto simp: has_def)
  then show ?thesis
    using pair_parsed [OF w]
    by (intro on_field_reads [OF _ _ pair_plain [OF w], where
          f = "\<lambda>s buf v crlf. Some (stored sdp (\<lambda>(x, y). add_attribute \<lparr>a_att_field = Some x, a_att_value = y\<rparr>) (parse_pair s crlf v))"])
      (auto simp: sdp_message_parse_a_def add_attribute_def stored_def name_oks Let_def)
qed

definition media_head :: "sdp_media \<Rightarrow> sdp_media" where
  "media_head m = m\<lparr>med_info := None, med_connections := [], med_bandwidths := [], med_attributes := [], med_key := None\<rparr>"

lemma maybe_plain:
  "maybe seps x \<Longrightarrow> CR \<notin> set (concat (optional ''/'' x [])) \<and> LF \<notin> set (concat (optional ''/'' x []))"
  by (cases x) (simp_all add: maybe_def has_def plain_def optional_def)

lemma media_reads:
  assumes "wf_media_head m"
  shows "reads sdp_message_parse_m (CHR ''m'') (media_value m) sdp (sdp\<lparr>m_medias := m_medias sdp @ [media_head m]\<rparr>)"
proof -
  obtain md prt proto where c: "m_media m = Some md" "m_port m = Some prt" "m_proto m = Some proto"
    "plain {} md" "plain {} prt" "plain {} proto"
    using assms plain_less by (auto simp: wf_media_head_def has_def)
  have n: "CR \<notin> set (concat (optional ''/'' (m_number_of_port m) []))" "LF \<notin> set (concat (optional ''/'' (m_number_of_port m) []))"
    using maybe_plain [of "{CHR '' ''}" "m_number_of_port m"] assms by (simp_all add: wf_media_head_def)
  have "CR \<notin> set (concat (map (\<lambda>p. CHR '' '' # p) (m_payloads m)))" "LF \<notin> set (concat (map (\<lambda>p. CHR '' '' # p) (m_payloads m)))"
    using assms by (auto simp: wf_media_head_def plain_def)
  with c n have "plain {} (media_value m)" by (simp add: media_value_def plain_def)
  then show ?thesis
  proof (rule on_field_reads [rotated 2])
    fix s :: string and buf p :: nat and b
    assume d: "drop p s = media_value m @ CR # LF # b"
    have "sdp_media_init\<lparr>m_media := m_media m, m_port := m_port m, m_number_of_port := m_number_of_port m,
        m_proto := m_proto m, m_payloads := m_payloads m\<rparr> = media_head m"
      by (cases m) (simp add: sdp_media_init_def media_head_def)
    moreover obtain tmp where "parse_media_head s p = Some (sdp_media_init\<lparr>m_media := m_media m, m_port := m_port m,
        m_number_of_port := m_number_of_port m, m_proto := m_proto m\<rparr>, tmp)"
      "parse_payloads s (p + length (media_value m)) tmp [] = Some (Inr (m_payloads m))"
      using media_ok [OF assms d refl] by blast
    ultimately show "(case parse_media_head s p of None \<Rightarrow> Some (Inl sdp)
      | Some (md, tmp) \<Rightarrow> do { r \<leftarrow> parse_payloads s (p + length (media_value m)) tmp [];
          Some (case r of Inl _ \<Rightarrow> Inl sdp | Inr ps \<Rightarrow> Inr (sdp\<lparr>m_medias := m_medias sdp @ [md\<lparr>m_payloads := ps\<rparr>]\<rparr>)) })
      = Some (Inr (sdp\<lparr>m_medias := m_medias sdp @ [media_head m]\<rparr>))"
      by (simp only: option.simps prod.case bind.bind_lunit sum.case)
  qed (simp_all add: sdp_message_parse_m_def name_oks)
qed

end
