(* ===== verification/Osip_Sdp_Text.thy ===== *)
theory Osip_Sdp_Text
  imports Osip_Sdp_Lines
begin

text \<open>
  Whole session descriptions: the lines of a well-formed description in the order of the parser, how each loop of
  \<^verbatim>\<open>sdp_message_parse\<close> consumes its lines (\<open>here\<close>), and what the printer writes (\<open>writes\<close>).
\<close>

section \<open>Sequences of lines\<close>

text \<open>
  \<open>here s i d r sdp st\<close>: the lines \<open>d\<close> are read, \<open>r\<close> remains and the last line parser returned \<open>i\<close>; when
  nothing remains \<^verbatim>\<open>sdp_message_parse\<close> has returned.
\<close>

definition here :: "string \<Rightarrow> int \<Rightarrow> (char \<times> string) list \<Rightarrow> (char \<times> string) list \<Rightarrow> sdp_message \<Rightarrow> sdp_state \<Rightarrow> bool" where
  "here s i d r sdp st \<longleftrightarrow>
     (if r = [] then st = Inl (0, sdp)
      else s = lines (d @ r) \<and> st = Inr (i, length (lines d), sdp) \<and> (\<forall>l\<in>set r. name_ok (fst l)))"

definition no_first :: "char \<Rightarrow> (char \<times> string) list \<Rightarrow> bool" where
  "no_first c r \<longleftrightarrow> r = [] \<or> fst (hd r) \<noteq> c"

lemma no_first_simps [simp]: "no_first c []" "no_first c (l # r) \<longleftrightarrow> fst l \<noteq> c"
  by (simp_all add: no_first_def)

lemma at_end_lines:
  assumes "s = lines (d @ r)" and "\<forall>l\<in>set r. name_ok (fst l)"
  shows "at_end s (length (lines d)) \<longleftrightarrow> r = []"
  using assms by (cases r) (auto simp: at_end_def chr_at_def nth_append line_def name_ok_def)

lemma try_skips:
  assumes "skips parse c" and "here s i d r sdp st" and "no_first c r"
  shows "\<exists>st'. try_line parse stop s st = Some st' \<and> here s 0 d r sdp st'"
proof (cases r)
  case Nil
  then show ?thesis using assms(2) by (simp add: here_def try_line_def)
next
  case (Cons l r')
  obtain n v where l: "l = (n, v)" by fastforce
  have s: "s = lines (d @ r)" "st = Inr (i, length (lines d), sdp)" "\<forall>l\<in>set r. name_ok (fst l)"
    using assms(2) Cons by (simp_all add: here_def)
  have "parse s (length (lines d)) sdp = Some (0, length (lines d), sdp)"
    using assms(1,3) s Cons l by (auto simp: skips_def)
  then show ?thesis using s at_end_lines [OF s(1,3)] Cons by (simp add: try_line_def here_def)
qed

lemma try_reads:
  assumes "reads parse c v sdp sdp'" and "here s i d ((c, v) # r) sdp st" and "r \<noteq> [] \<or> stop"
  shows "\<exists>st'. try_line parse stop s st = Some st' \<and> here s 1 (d @ [(c, v)]) r sdp' st'"
proof -
  have s: "s = lines (d @ (c, v) # r)" "st = Inr (i, length (lines d), sdp)" "\<forall>l\<in>set r. name_ok (fst l)"
    using assms(2) by (simp_all add: here_def)
  have "s = lines d @ line (c, v) @ lines r" using s(1) by simp
  then have "parse s (length (lines d)) sdp = Some (1, length (lines d) + length (line (c, v)), sdp')"
    using assms(1) unfolding reads_def by blast
  moreover have "length (lines (d @ [(c, v)])) = length (lines d) + length (line (c, v))" by simp
  moreover have "at_end s (length (lines (d @ [(c, v)]))) \<longleftrightarrow> r = []" by (rule at_end_lines) (use s in simp_all)
  ultimately show ?thesis using s assms(3) by (auto simp: try_line_def here_def)
qed

text \<open>A line any number of times.\<close>

lemma many_reads:
  assumes "skips parse c" and "\<And>x sdp. x \<in> set xs \<Longrightarrow> keep sdp \<Longrightarrow> reads parse c (val x) sdp (upd x sdp) \<and> keep (upd x sdp)"
    and "here s i d (map (\<lambda>x. (c, val x)) xs @ r) sdp st" and "keep sdp" and "no_first c r" and "r \<noteq> [] \<or> stop"
  shows "\<exists>st'. many_lines parse stop s st = Some st' \<and> here s 0 (d @ map (\<lambda>x. (c, val x)) xs) r (fold upd xs sdp) st' \<and> keep (fold upd xs sdp)"
  using assms(2-4)
proof (induction xs arbitrary: i d sdp st)
  case Nil
  obtain st' where "try_line parse stop s st = Some st'" "here s 0 d r sdp st'"
    using try_skips [OF assms(1), of s i d r sdp st stop] Nil assms(5) by auto
  then show ?case using Nil by (subst many_lines.simps) (auto simp: here_def split: if_splits)
next
  case (Cons x xs)
  have rd: "reads parse c (val x) sdp (upd x sdp)" "keep (upd x sdp)" using Cons.prems by simp_all
  obtain st1 where 1: "try_line parse stop s st = Some st1" "here s 1 (d @ [(c, val x)]) (map (\<lambda>x. (c, val x)) xs @ r) (upd x sdp) st1"
    using try_reads [OF rd(1), of s i d "map (\<lambda>x. (c, val x)) xs @ r" st stop] Cons.prems(2) assms(6) by auto
  show ?case
  proof (cases "map (\<lambda>x. (c, val x)) xs @ r = []")
    case True
    then have "st1 = Inl (0, upd x sdp)" using 1(2) by (simp add: here_def)
    then show ?thesis using 1 True rd(2) by (subst many_lines.simps) (auto simp: here_def)
  next
    case False
    have "\<exists>st'. many_lines parse stop s st1 = Some st'
        \<and> here s 0 ((d @ [(c, val x)]) @ map (\<lambda>x. (c, val x)) xs) r (fold upd xs (upd x sdp)) st' \<and> keep (fold upd xs (upd x sdp))"
      by (rule Cons.IH [OF _ 1(2) rd(2)]) (use Cons.prems(1) in auto)
    moreover have "st1 = Inr (1, length (lines (d @ [(c, val x)])), upd x sdp)" using 1(2) False by (simp add: here_def split: if_splits)
    ultimately show ?thesis using 1(1) by (subst many_lines.simps) simp
  qed
qed


section \<open>The lines of a description\<close>

definition opt_lines :: "char \<Rightarrow> ('a \<Rightarrow> string) \<Rightarrow> 'a option \<Rightarrow> (char \<times> string) list" where
  "opt_lines c val x = map (\<lambda>v. (c, val v)) (case x of None \<Rightarrow> [] | Some v \<Rightarrow> [v])"

definition list_lines :: "char \<Rightarrow> ('a \<Rightarrow> string) \<Rightarrow> 'a list \<Rightarrow> (char \<times> string) list" where
  "list_lines c val xs = map (\<lambda>v. (c, val v)) xs"

abbreviation key_value :: "sdp_key \<Rightarrow> string" where "key_value \<equiv> \<lambda>k. pair_value (k_keytype k) (k_keydata k)"
abbreviation attribute_value :: "sdp_attribute \<Rightarrow> string" where "attribute_value \<equiv> \<lambda>a. pair_value (a_att_field a) (a_att_value a)"

lemma try_opt:
  assumes "skips parse c" and "\<And>v. x = Some v \<Longrightarrow> reads parse c (val v) sdp (upd v sdp)"
    and "here s i d (opt_lines c val x @ r) sdp st" and "no_first c r" and "r \<noteq> [] \<or> stop"
    and "(case x of None \<Rightarrow> sdp | Some v \<Rightarrow> upd v sdp) = sdp'"
  shows "\<exists>i st'. try_line parse stop s st = Some st' \<and> here s i (d @ opt_lines c val x) r sdp' st'"
proof (cases x)
  case None
  then show ?thesis using try_skips [OF assms(1), of s i d r sdp st stop] assms(3,4,6) by (auto simp: opt_lines_def)
next
  case (Some v)
  then show ?thesis
    using try_reads [OF assms(2) [OF Some], of s i d r st stop] assms(3,5,6) by (auto simp: opt_lines_def)
qed

lemma many_list:
  assumes "skips parse c" and "\<And>x sdp. x \<in> set xs \<Longrightarrow> reads parse c (val x) sdp (upd x sdp)"
    and "here s i d (list_lines c val xs @ r) sdp st" and "no_first c r" and "r \<noteq> [] \<or> stop"
    and "fold upd xs sdp = sdp'"
  shows "\<exists>i st'. many_lines parse stop s st = Some st' \<and> here s i (d @ list_lines c val xs) r sdp' st'"
  using many_reads [OF assms(1), of xs "\<lambda>_. True" val upd s i d r sdp st stop] assms(2-6) by (auto simp: list_lines_def)

definition media_rest :: "sdp_media \<Rightarrow> (char \<times> string) list" where
  "media_rest m = opt_lines (CHR ''i'') (\<lambda>x. x) (med_info m) @ list_lines (CHR ''c'') connection_value (med_connections m)
     @ list_lines (CHR ''b'') bandwidth_value (med_bandwidths m) @ opt_lines (CHR ''k'') key_value (med_key m)
     @ list_lines (CHR ''a'') attribute_value (med_attributes m)"

definition time_rest :: "sdp_time_descr \<Rightarrow> (char \<times> string) list" where
  "time_rest t = list_lines (CHR ''r'') (\<lambda>x. x) (r_repeats t)"

definition session_end :: "sdp_message \<Rightarrow> (char \<times> string) list" where
  "session_end sdp = opt_lines (CHR ''z'') (\<lambda>x. x) (z_adjustments sdp) @ opt_lines (CHR ''k'') key_value (k_key sdp)
     @ list_lines (CHR ''a'') attribute_value (a_attributes sdp)
     @ concat (map (\<lambda>m. (CHR ''m'', media_value m) # media_rest m) (m_medias sdp))"

definition time_lines :: "sdp_time_descr list \<Rightarrow> (char \<times> string) list" where
  "time_lines ts = concat (map (\<lambda>t. (CHR ''t'', time_value t) # time_rest t) ts)"

definition session_begin :: "sdp_message \<Rightarrow> (char \<times> string) list" where
  "session_begin sdp = opt_lines (CHR ''s'') (\<lambda>x. x) (s_name sdp) @ opt_lines (CHR ''i'') (\<lambda>x. x) (i_info sdp)
     @ opt_lines (CHR ''u'') (\<lambda>x. x) (u_uri sdp) @ list_lines (CHR ''e'') (\<lambda>x. x) (e_emails sdp)
     @ list_lines (CHR ''p'') (\<lambda>x. x) (p_phones sdp) @ opt_lines (CHR ''c'') connection_value (c_connection sdp)
     @ list_lines (CHR ''b'') bandwidth_value (b_bandwidths sdp)"

definition sdp_lines :: "sdp_message \<Rightarrow> (char \<times> string) list" where
  "sdp_lines sdp = (CHR ''v'', the (v_version sdp)) # (CHR ''o'', origin_value sdp) # session_begin sdp
     @ time_lines (t_descrs sdp) @ session_end sdp"

definition wf_media :: "sdp_media \<Rightarrow> bool" where
  "wf_media m \<longleftrightarrow> wf_media_head m \<and> maybe {} (med_info m) \<and> (\<forall>c\<in>set (med_connections m). wf_connection c)
     \<and> (\<forall>b\<in>set (med_bandwidths m). wf_bandwidth b) \<and> (\<forall>k. med_key m = Some k \<longrightarrow> wf_key k)
     \<and> (\<forall>a\<in>set (med_attributes m). wf_attribute a)"

definition wf_sdp :: "sdp_message \<Rightarrow> bool" where
  "wf_sdp sdp \<longleftrightarrow> has {} (v_version sdp) \<and> wf_origin sdp \<and> maybe {} (s_name sdp) \<and> maybe {} (i_info sdp) \<and> maybe {} (u_uri sdp)
     \<and> (\<forall>x\<in>set (e_emails sdp). plain {} x) \<and> (\<forall>x\<in>set (p_phones sdp). plain {} x)
     \<and> (\<forall>c. c_connection sdp = Some c \<longrightarrow> wf_connection c) \<and> (\<forall>b\<in>set (b_bandwidths sdp). wf_bandwidth b)
     \<and> t_descrs sdp \<noteq> [] \<and> (\<forall>t\<in>set (t_descrs sdp). wf_time_descr t) \<and> maybe {} (z_adjustments sdp)
     \<and> (\<forall>k. k_key sdp = Some k \<longrightarrow> wf_key k) \<and> (\<forall>a\<in>set (a_attributes sdp). wf_attribute a)
     \<and> (\<forall>m\<in>set (m_medias sdp). wf_media m)"

text \<open>Which names can come first.\<close>

lemma no_first_append: "no_first c a \<Longrightarrow> no_first c b \<Longrightarrow> no_first c (a @ b)"
  by (cases a) simp_all

lemma no_first_opt: "n \<noteq> c \<Longrightarrow> no_first c (opt_lines n val x)"
  by (cases x) (simp_all add: opt_lines_def)

lemma no_first_list: "n \<noteq> c \<Longrightarrow> no_first c (list_lines n val xs)"
  by (cases xs) (simp_all add: list_lines_def)

lemma no_first_blocks: "n \<noteq> c \<Longrightarrow> no_first c (concat (map (\<lambda>m. (n, val m) # after m) ms))"
  by (cases ms) simp_all

lemmas no_firsts = no_first_append no_first_opt no_first_list no_first_blocks

lemma no_first_hd: "a \<noteq> [] \<Longrightarrow> no_first c a \<Longrightarrow> no_first c (a @ b)"
  by (cases a) simp_all


section \<open>The media\<close>

lemma at_level_media [simp]:
  "m_medias sdp = ms @ [x] \<Longrightarrow> at_level f g sdp = sdp\<lparr>m_medias := ms @ [g x]\<rparr>"
  by (simp add: at_level_def last_media_def)

lemma fold_media_connections:
  "m_medias sdp = ms @ [x] \<Longrightarrow> fold add_connection cs sdp = sdp\<lparr>m_medias := ms @ [x\<lparr>med_connections := med_connections x @ cs\<rparr>]\<rparr>"
  by (induction cs arbitrary: sdp x) (simp_all add: add_connection_def)

lemma fold_media_bandwidths:
  "m_medias sdp = ms @ [x] \<Longrightarrow> fold add_bandwidth cs sdp = sdp\<lparr>m_medias := ms @ [x\<lparr>med_bandwidths := med_bandwidths x @ cs\<rparr>]\<rparr>"
  by (induction cs arbitrary: sdp x) (simp_all add: add_bandwidth_def)

lemma fold_media_attributes:
  "m_medias sdp = ms @ [x] \<Longrightarrow> fold add_attribute cs sdp = sdp\<lparr>m_medias := ms @ [x\<lparr>med_attributes := med_attributes x @ cs\<rparr>]\<rparr>"
  by (induction cs arbitrary: sdp x) (simp_all add: add_attribute_def)

lemma returned [simp]:
  "try_line parse stop s (Inl r) = Some (Inl r)" "many_lines parse stop s (Inl r) = Some (Inl r)"
  "media_tail s (Inl r) = Some (Inl r)"
  by (simp_all add: try_line_def many_lines.simps media_tail_def)

lemma opt_texts: "maybe {} x \<Longrightarrow> x = Some v \<Longrightarrow> plain {} v"
  by (simp add: maybe_def has_def)

definition add_info :: "string \<Rightarrow> sdp_message \<Rightarrow> sdp_message" where
  "add_info v = at_level (\<lambda>sdp. sdp\<lparr>i_info := Some v\<rparr>) (\<lambda>m. m\<lparr>med_info := Some v\<rparr>)"

lemma info_reads: "maybe {} x \<Longrightarrow> x = Some v \<Longrightarrow> reads sdp_message_parse_i (CHR ''i'') v sdp (add_info v sdp)"
  unfolding add_info_def by (rule texts_read(2) [OF opt_texts])

lemma media_tail_ok:
  assumes "wf_media m" and "here s i d (media_rest m @ r) (sdp\<lparr>m_medias := ms @ [media_head m]\<rparr>) st"
    and "no_first (CHR ''i'') r" "no_first (CHR ''c'') r" "no_first (CHR ''b'') r" "no_first (CHR ''k'') r" "no_first (CHR ''a'') r"
  shows "\<exists>i st'. media_tail s st = Some st' \<and> here s i (d @ media_rest m) r (sdp\<lparr>m_medias := ms @ [m]\<rparr>) st'"
proof -
  let ?I = "opt_lines (CHR ''i'') (\<lambda>x. x) (med_info m)"
  let ?C = "list_lines (CHR ''c'') connection_value (med_connections m)"
  let ?B = "list_lines (CHR ''b'') bandwidth_value (med_bandwidths m)"
  let ?K = "opt_lines (CHR ''k'') key_value (med_key m)"
  let ?A = "list_lines (CHR ''a'') attribute_value (med_attributes m)"
  note w = assms(1) [unfolded wf_media_def]
  let ?h = "media_head m"
  let ?m1 = "?h\<lparr>med_info := med_info m\<rparr>"
  let ?m2 = "?m1\<lparr>med_connections := med_connections m\<rparr>"
  let ?m3 = "?m2\<lparr>med_bandwidths := med_bandwidths m\<rparr>"
  let ?m4 = "?m3\<lparr>med_key := med_key m\<rparr>"
  let ?s = "\<lambda>x. sdp\<lparr>m_medias := ms @ [x]\<rparr>"
  have nf: "no_first (CHR ''i'') (?C @ ?B @ ?K @ ?A @ r)" "no_first (CHR ''c'') (?B @ ?K @ ?A @ r)"
    "no_first (CHR ''b'') (?K @ ?A @ r)" "no_first (CHR ''k'') (?A @ r)"
    by (intro no_firsts assms(3-7); simp)+
  have h: "here s i d (?I @ ?C @ ?B @ ?K @ ?A @ r) (?s ?h) st" using assms(2) by (simp add: media_rest_def)
  have "\<exists>i st1. try_line sdp_message_parse_i True s st = Some st1 \<and> here s i (d @ ?I) (?C @ ?B @ ?K @ ?A @ r) (?s ?m1) st1"
    by (rule try_opt [where upd = add_info, OF parsers_skip(3) _ h nf(1)])
      (use w info_reads in \<open>blast | (auto simp: media_head_def add_info_def split: option.split)\<close>)+
  then obtain i1 st1 where 1: "try_line sdp_message_parse_i True s st = Some st1"
    "here s i1 (d @ ?I) (?C @ ?B @ ?K @ ?A @ r) (?s ?m1) st1" by blast
  have "\<exists>i st2. many_lines sdp_message_parse_c True s st1 = Some st2 \<and> here s i ((d @ ?I) @ ?C) (?B @ ?K @ ?A @ r) (?s ?m2) st2"
    by (rule many_list [where upd = add_connection, OF parsers_skip(7) _ 1(2) nf(2)])
      (use w connection_reads in \<open>simp_all add: media_head_def fold_media_connections\<close>)
  then obtain i2 st2 where 2: "many_lines sdp_message_parse_c True s st1 = Some st2"
    "here s i2 ((d @ ?I) @ ?C) (?B @ ?K @ ?A @ r) (?s ?m2) st2" by blast
  have "\<exists>i st3. many_lines sdp_message_parse_b True s st2 = Some st3 \<and> here s i (((d @ ?I) @ ?C) @ ?B) (?K @ ?A @ r) (?s ?m3) st3"
    by (rule many_list [where upd = add_bandwidth, OF parsers_skip(8) _ 2(2) nf(3)])
      (use w bandwidth_reads in \<open>simp_all add: media_head_def fold_media_bandwidths\<close>)
  then obtain i3 st3 where 3: "many_lines sdp_message_parse_b True s st2 = Some st3"
    "here s i3 (((d @ ?I) @ ?C) @ ?B) (?K @ ?A @ r) (?s ?m3) st3" by blast
  have "\<exists>i st4. try_line sdp_message_parse_k True s st3 = Some st4 \<and> here s i ((((d @ ?I) @ ?C) @ ?B) @ ?K) (?A @ r) (?s ?m4) st4"
    by (rule try_opt [where upd = add_key, OF parsers_skip(12) _ 3(2) nf(4)])
      (use w key_reads in \<open>blast | (auto simp: media_head_def add_key_def split: option.split)\<close>)+
  then obtain i4 st4 where 4: "try_line sdp_message_parse_k True s st3 = Some st4"
    "here s i4 ((((d @ ?I) @ ?C) @ ?B) @ ?K) (?A @ r) (?s ?m4) st4" by blast
  have "\<exists>i st5. many_lines sdp_message_parse_a True s st4 = Some st5 \<and> here s i (((((d @ ?I) @ ?C) @ ?B) @ ?K) @ ?A) r (?s m) st5"
    by (rule many_list [where upd = add_attribute, OF parsers_skip(13) _ 4(2) assms(7)])
      (use w attribute_reads in \<open>simp_all add: media_head_def fold_media_attributes\<close>)
  then show ?thesis using 1(1) 2(1) 3(1) 4(1) by (auto simp: media_tail_def media_rest_def)
qed


definition media_lines_of :: "sdp_media list \<Rightarrow> (char \<times> string) list" where
  "media_lines_of ms = concat (map (\<lambda>m. (CHR ''m'', media_value m) # media_rest m) ms)"

lemma media_lines_ok:
  "\<forall>m\<in>set ms. wf_media m \<Longrightarrow> here s i d (media_lines_of ms) sdp st
   \<Longrightarrow> media_lines s st = Some (0, sdp\<lparr>m_medias := m_medias sdp @ ms\<rparr>)"
proof (induction ms arbitrary: i d sdp st)
  case Nil
  then have "st = Inl (0, sdp)" by (simp add: here_def media_lines_of_def)
  then show ?case by (subst media_lines.simps) simp
next
  case (Cons m ms)
  let ?s = "\<lambda>x. sdp\<lparr>m_medias := m_medias sdp @ [x]\<rparr>"
  have w: "wf_media m" "wf_media_head m" using Cons.prems(1) by (simp_all add: wf_media_def)
  have "here s i d ((CHR ''m'', media_value m) # (media_rest m @ media_lines_of ms)) sdp st"
    using Cons.prems(2) by (simp add: media_lines_of_def)
  from try_reads [OF media_reads [OF w(2)] this, of True] obtain st1 where
    1: "try_line sdp_message_parse_m True s st = Some st1"
      "here s 1 (d @ [(CHR ''m'', media_value m)]) (media_rest m @ media_lines_of ms) (?s (media_head m)) st1" by blast
  have nf: "c \<noteq> CHR ''m'' \<Longrightarrow> no_first c (media_lines_of ms)" for c
    unfolding media_lines_of_def by (intro no_first_blocks) simp
  obtain j st2 where 2: "media_tail s st1 = Some st2"
      "here s j ((d @ [(CHR ''m'', media_value m)]) @ media_rest m) (media_lines_of ms) (?s m) st2"
    using media_tail_ok [OF w(1) 1(2)] nf by auto
  have r: "media_lines s st2 = Some (0, (?s m)\<lparr>m_medias := m_medias (?s m) @ ms\<rparr>)"
    by (rule Cons.IH [OF _ 2(2)]) (use Cons.prems(1) in simp)
  show ?case
  proof (cases st2)
    case (Inl x)
    then have "media_lines s st2 = Some x" by (subst media_lines.simps) simp
    with r have "x = (0, sdp\<lparr>m_medias := m_medias sdp @ m # ms\<rparr>)" by simp
    with 1(1) 2(1) Inl show ?thesis by (subst media_lines.simps) (simp split: sum.split prod.split)
  next
    case (Inr y)
    have "media_rest m @ media_lines_of ms \<noteq> []" using 2(2) Inr by (auto simp: here_def split: if_splits)
    then obtain z where "st1 = Inr (1, z)" using 1(2) by (auto simp: here_def split: if_splits)
    with 1(1) 2(1) Inr r show ?thesis by (subst media_lines.simps) (simp split: prod.split)
  qed
qed

section \<open>The times\<close>

lemma fold_repeats:
  "t_descrs sdp = ts @ [t] \<Longrightarrow> fold add_repeat rs sdp = sdp\<lparr>t_descrs := ts @ [t\<lparr>r_repeats := r_repeats t @ rs\<rparr>]\<rparr>"
  by (induction rs arbitrary: sdp t) (simp_all add: add_repeat_def Let_def)

lemma repeats_ok:
  assumes "wf_time_descr t" and "here s i d (time_rest t @ r) (sdp\<lparr>t_descrs := ts @ [t\<lparr>r_repeats := []\<rparr>]\<rparr>) st" and "no_first (CHR ''r'') r"
  shows "\<exists>st'. many_lines sdp_message_parse_r True s st = Some st' \<and> here s 0 (d @ time_rest t) r (sdp\<lparr>t_descrs := ts @ [t]\<rparr>) st'"
proof -
  have "\<exists>st'. many_lines sdp_message_parse_r True s st = Some st'
      \<and> here s 0 (d @ map (\<lambda>x. (CHR ''r'', x)) (r_repeats t)) r (fold add_repeat (r_repeats t) (sdp\<lparr>t_descrs := ts @ [t\<lparr>r_repeats := []\<rparr>]\<rparr>)) st'
      \<and> t_descrs (fold add_repeat (r_repeats t) (sdp\<lparr>t_descrs := ts @ [t\<lparr>r_repeats := []\<rparr>]\<rparr>)) \<noteq> []"
  proof (rule many_reads [where val = "\<lambda>x. x" and upd = add_repeat and keep = "\<lambda>sdp. t_descrs sdp \<noteq> []", OF parsers_skip(10)])
    fix x and sdp' :: sdp_message
    assume "x \<in> set (r_repeats t)" "t_descrs sdp' \<noteq> []"
    then show "reads sdp_message_parse_r (CHR ''r'') x sdp' (add_repeat x sdp') \<and> t_descrs (add_repeat x sdp') \<noteq> []"
      using assms(1) repeat_reads by (simp add: wf_time_descr_def add_repeat_def Let_def)
  qed (use assms(2,3) in \<open>simp_all add: time_rest_def list_lines_def\<close>)
  moreover have "fold add_repeat (r_repeats t) (sdp\<lparr>t_descrs := ts @ [t\<lparr>r_repeats := []\<rparr>]\<rparr>) = sdp\<lparr>t_descrs := ts @ [t]\<rparr>"
    by (subst fold_repeats) (simp, cases t, simp)
  ultimately show ?thesis by (auto simp: time_rest_def list_lines_def)
qed

lemma more_times_step:
  assumes "many_lines sdp_message_parse_r True s st = Some st1" and "try_line sdp_message_parse_t True s st1 = Some st2"
  shows "more_times s st = (case st2 of Inr (i, z) \<Rightarrow> if i = 0 then Some st2 else more_times s st2 | Inl _ \<Rightarrow> Some st2)"
    and "more_times s (Inl r) = Some (Inl r)"
proof -
  show "more_times s st = (case st2 of Inr (i, z) \<Rightarrow> if i = 0 then Some st2 else more_times s st2 | Inl _ \<Rightarrow> Some st2)"
    using assms by (subst more_times.simps) (auto simp: ERR_DISCARD_def split: sum.split prod.split)
  show "more_times s (Inl r) = Some (Inl r)" by (subst more_times.simps) simp
qed

lemma time_lines_simps [simp]:
  "time_lines [] = []" "time_lines (t # ts) = (CHR ''t'', time_value t) # time_rest t @ time_lines ts"
  by (simp_all add: time_lines_def)

lemma no_first_times: "c \<noteq> CHR ''t'' \<Longrightarrow> no_first c r \<Longrightarrow> no_first c (time_lines ts @ r)"
  by (cases ts) simp_all

lemma more_times_ok:
  assumes "no_first (CHR ''r'') r" and "no_first (CHR ''t'') r"
  shows "\<forall>t'\<in>set (t # ts). wf_time_descr t' \<Longrightarrow> here s i d (time_rest t @ time_lines ts @ r) (sdp\<lparr>t_descrs := ts0 @ [t\<lparr>r_repeats := []\<rparr>]\<rparr>) st
    \<Longrightarrow> \<exists>j st'. more_times s st = Some st' \<and> here s j (d @ time_rest t @ time_lines ts) r (sdp\<lparr>t_descrs := ts0 @ t # ts\<rparr>) st'"
proof (induction ts arbitrary: i d st t ts0)
  case Nil
  obtain st1 where 1: "many_lines sdp_message_parse_r True s st = Some st1" "here s 0 (d @ time_rest t) r (sdp\<lparr>t_descrs := ts0 @ [t]\<rparr>) st1"
    using repeats_ok [of t s i d r ts0 sdp st] Nil assms(1) by auto
  obtain st2 where 2: "try_line sdp_message_parse_t True s st1 = Some st2" "here s 0 (d @ time_rest t) r (sdp\<lparr>t_descrs := ts0 @ [t]\<rparr>) st2"
    using try_skips [OF parsers_skip(9) 1(2) assms(2)] by blast
  have "more_times s st = Some st2"
    using 2(2) by (subst more_times_step(1) [OF 1(1) 2(1)]) (auto simp: here_def split: if_splits)
  with 2(2) show ?case by auto
next
  case (Cons t' ts)
  have w: "wf_time_descr t" "wf_time_descr t'" using Cons.prems(1) by simp_all
  obtain st1 where 1: "many_lines sdp_message_parse_r True s st = Some st1"
    "here s 0 (d @ time_rest t) ((CHR ''t'', time_value t') # (time_rest t' @ time_lines ts @ r)) (sdp\<lparr>t_descrs := ts0 @ [t]\<rparr>) st1"
    using repeats_ok [of t s i d "time_lines (t' # ts) @ r" ts0 sdp st] Cons.prems(2) w(1) by auto
  obtain st2 where 2: "try_line sdp_message_parse_t True s st1 = Some st2"
    "here s 1 ((d @ time_rest t) @ [(CHR ''t'', time_value t')]) (time_rest t' @ time_lines ts @ r)
       (sdp\<lparr>t_descrs := (ts0 @ [t]) @ [t'\<lparr>r_repeats := []\<rparr>]\<rparr>) st2"
    using try_reads [OF time_reads [OF w(2)] 1(2), of True] by auto
  obtain j st' where 3: "more_times s st2 = Some st'"
    "here s j (((d @ time_rest t) @ [(CHR ''t'', time_value t')]) @ time_rest t' @ time_lines ts) r (sdp\<lparr>t_descrs := (ts0 @ [t]) @ t' # ts\<rparr>) st'"
    using Cons.IH [of t', OF _ 2(2)] Cons.prems(1) by auto
  have "more_times s st = Some st'"
  proof (cases st2)
    case (Inl x)
    then have "st' = Inl x" using 3(1) more_times_step(2) [OF 1(1) 2(1)] by simp
    with Inl show ?thesis by (simp add: more_times_step(1) [OF 1(1) 2(1)])
  next
    case (Inr y)
    then show ?thesis using 2(2) 3(1) by (simp add: more_times_step(1) [OF 1(1) 2(1)] here_def split: if_splits prod.split)
  qed
  with 3(2) show ?case by auto
qed


lemma need_reads:
  assumes "reads parse c v sdp sdp'" and "here s i d ((c, v) # r) sdp st" and "r \<noteq> []"
  shows "\<exists>st'. need_line parse s st = Some st' \<and> here s 1 (d @ [(c, v)]) r sdp' st'"
proof -
  obtain st' where "try_line parse False s st = Some st'" "here s 1 (d @ [(c, v)]) r sdp' st'"
    using try_reads [OF assms(1,2), of False] assms(3) by auto
  then show ?thesis using assms(3) by (auto simp: need_line_def here_def)
qed

lemma need_reads_end:
  assumes "reads parse c v sdp sdp'" and "here s i d ((c, v) # r) sdp st"
  shows "\<exists>st'. need_line parse s st = Some st' \<and> here s 1 (d @ [(c, v)]) r sdp' (stop_at_end s st')"
proof -
  have s: "s = lines (d @ (c, v) # r)" "st = Inr (i, length (lines d), sdp)" "\<forall>l\<in>set r. name_ok (fst l)"
    using assms(2) by (simp_all add: here_def)
  have "s = lines d @ line (c, v) @ lines r" using s(1) by simp
  then have "parse s (length (lines d)) sdp = Some (1, length (lines d) + length (line (c, v)), sdp')"
    using assms(1) unfolding reads_def by blast
  moreover have "at_end s (length (lines (d @ [(c, v)]))) \<longleftrightarrow> r = []" by (rule at_end_lines) (use s in simp_all)
  ultimately show ?thesis using s by (auto simp: try_line_def need_line_def stop_at_end_def here_def)
qed

lemma no_first_some_times: "ts \<noteq> [] \<Longrightarrow> c \<noteq> CHR ''t'' \<Longrightarrow> no_first c (time_lines ts @ r)"
  by (cases ts) simp_all

lemma times_lines_ok:
  assumes "ts \<noteq> []" and "\<forall>t\<in>set ts. wf_time_descr t" and "t_descrs sdp = []" and "here s i d (time_lines ts @ r) sdp st"
    and "no_first (CHR ''r'') r" and "no_first (CHR ''t'') r"
  shows "\<exists>j st'. times_lines s st = Some st' \<and> here s j (d @ time_lines ts) r (sdp\<lparr>t_descrs := ts\<rparr>) st'"
proof -
  obtain t ts' where ts: "ts = t # ts'" using assms(1) by (cases ts) auto
  have w: "wf_time_descr t" using assms(2) ts by simp
  have "here s i d ((CHR ''t'', time_value t) # (time_rest t @ time_lines ts' @ r)) sdp st" using assms(4) ts by simp
  from need_reads_end [OF time_reads [OF w] this] obtain st1 where 1: "need_line sdp_message_parse_t s st = Some st1"
    "here s 1 (d @ [(CHR ''t'', time_value t)]) (time_rest t @ time_lines ts' @ r) (sdp\<lparr>t_descrs := [] @ [t\<lparr>r_repeats := []\<rparr>]\<rparr>) (stop_at_end s st1)"
    using assms(3) by auto
  obtain st2 where 2: "many_lines sdp_message_parse_r True s (stop_at_end s st1) = Some st2"
    "here s 0 ((d @ [(CHR ''t'', time_value t)]) @ time_rest t) (time_lines ts' @ r) (sdp\<lparr>t_descrs := [] @ [t]\<rparr>) st2"
    using repeats_ok [OF w 1(2)] no_first_times [OF _ assms(5)] by auto
  show ?thesis
  proof (cases ts')
    case Nil
    obtain st3 where 3: "try_line sdp_message_parse_t True s st2 = Some st3"
      "here s 0 ((d @ [(CHR ''t'', time_value t)]) @ time_rest t) r (sdp\<lparr>t_descrs := [t]\<rparr>) st3"
      using try_skips [OF parsers_skip(9), of s 0 _ r _ st2 True] 2(2) Nil assms(6) by auto
    have r: "many_lines sdp_message_parse_r True s st3 = Some st3 \<and> try_line sdp_message_parse_t True s st3 = Some st3"
    proof (cases r)
      case Nil
      then show ?thesis using 3(2) by (simp add: here_def)
    next
      case (Cons l r')
      obtain st4 where 4: "try_line sdp_message_parse_r True s st3 = Some st4"
        "here s 0 ((d @ [(CHR ''t'', time_value t)]) @ time_rest t) r (sdp\<lparr>t_descrs := [t]\<rparr>) st4"
        using try_skips [OF parsers_skip(10) 3(2) assms(5), of True] by blast
      then have e: "st4 = st3" "\<exists>z. st3 = Inr (0, z)" using 3(2) Cons by (auto simp: here_def)
      obtain st5 where "try_line sdp_message_parse_t True s st3 = Some st5"
        "here s 0 ((d @ [(CHR ''t'', time_value t)]) @ time_rest t) r (sdp\<lparr>t_descrs := [t]\<rparr>) st5"
        using try_skips [OF parsers_skip(9) 3(2) assms(6), of True] by blast
      moreover have "st5 = st3" using calculation(2) 3(2) Cons by (auto simp: here_def)
      ultimately show ?thesis using 4(1) e by (subst many_lines.simps) auto
    qed
    have "more_times s st3 = Some st3"
    proof (cases "r = []")
      case True
      then have "st3 = Inl (0, sdp\<lparr>t_descrs := [t]\<rparr>)" using 3(2) by (simp add: here_def)
      then show ?thesis by (subst more_times.simps) simp
    next
      case False
      then obtain z where "st3 = Inr (0, z)" using 3(2) by (auto simp: here_def)
      with r show ?thesis by (subst more_times.simps) (auto simp: ERR_DISCARD_def)
    qed
    then show ?thesis using 1(1) 2(1) 3 ts Nil by (auto simp: times_lines_def)
  next
    case (Cons t' ts'')
    have w': "wf_time_descr t'" using assms(2) ts Cons by simp
    have h: "here s 0 ((d @ [(CHR ''t'', time_value t)]) @ time_rest t) ((CHR ''t'', time_value t') # (time_rest t' @ time_lines ts'' @ r))
        (sdp\<lparr>t_descrs := [t]\<rparr>) st2" using 2(2) Cons by simp
    from try_reads [OF time_reads [OF w'] h, of True]
    obtain st3 where 3: "try_line sdp_message_parse_t True s st2 = Some st3"
      "here s 1 (((d @ [(CHR ''t'', time_value t)]) @ time_rest t) @ [(CHR ''t'', time_value t')]) (time_rest t' @ time_lines ts'' @ r)
         (sdp\<lparr>t_descrs := [t] @ [t'\<lparr>r_repeats := []\<rparr>]\<rparr>) st3"
      by auto
    obtain j st' where "more_times s st3 = Some st'"
      "here s j ((((d @ [(CHR ''t'', time_value t)]) @ time_rest t) @ [(CHR ''t'', time_value t')]) @ time_rest t' @ time_lines ts'') r
         (sdp\<lparr>t_descrs := [t] @ t' # ts''\<rparr>) st'"
      using more_times_ok [OF assms(5,6) _ 3(2)] assms(2) ts Cons by auto
    then show ?thesis using 1(1) 2(1) 3(1) ts Cons by (auto simp: times_lines_def)
  qed
qed


section \<open>The whole text is read\<close>

lemma name_ok_lines:
  "n \<in> set ''vosiuepcbtrzkam'' \<Longrightarrow> \<forall>l\<in>set (opt_lines n val x). name_ok (fst l)"
  "n \<in> set ''vosiuepcbtrzkam'' \<Longrightarrow> \<forall>l\<in>set (list_lines n val' xs). name_ok (fst l)"
  by (auto simp: opt_lines_def list_lines_def name_oks split: option.split)

lemma names_ok_append: "\<forall>l\<in>set a. name_ok (fst l) \<Longrightarrow> \<forall>l\<in>set b. name_ok (fst l) \<Longrightarrow> \<forall>l\<in>set (a @ b). name_ok (fst l)"
  by auto

lemma sdp_names_ok: "\<forall>l\<in>set (sdp_lines sdp). name_ok (fst l)"
proof -
  have m: "\<forall>l\<in>set (media_rest x). name_ok (fst l)" for x
    unfolding media_rest_def by (intro names_ok_append name_ok_lines) simp_all
  have t: "\<forall>l\<in>set (time_rest x). name_ok (fst l)" for x
    unfolding time_rest_def by (rule name_ok_lines) simp
  have "\<forall>l\<in>set (time_lines ts). name_ok (fst l)" for ts
    using t name_oks [of "CHR ''t''"] by (induction ts) auto
  moreover have "\<forall>l\<in>set (media_lines_of ms). name_ok (fst l)" for ms
    using m name_oks [of "CHR ''m''"] by (induction ms) (auto simp: media_lines_of_def)
  then have "\<forall>l\<in>set (session_end sdp). name_ok (fst l)"
    unfolding session_end_def media_lines_of_def by (intro names_ok_append name_ok_lines) simp_all
  moreover have "\<forall>l\<in>set (session_begin sdp). name_ok (fst l)"
    unfolding session_begin_def by (intro names_ok_append name_ok_lines) simp_all
  ultimately show ?thesis using name_oks [of "CHR ''v''"] name_oks [of "CHR ''o''"] by (auto simp: sdp_lines_def)
qed

lemma fold_emails: "fold (\<lambda>x sdp. sdp\<lparr>e_emails := e_emails sdp @ [x]\<rparr>) xs sdp = sdp\<lparr>e_emails := e_emails sdp @ xs\<rparr>"
  by (induction xs arbitrary: sdp) simp_all

lemma fold_phones: "fold (\<lambda>x sdp. sdp\<lparr>p_phones := p_phones sdp @ [x]\<rparr>) xs sdp = sdp\<lparr>p_phones := p_phones sdp @ xs\<rparr>"
  by (induction xs arbitrary: sdp) simp_all

lemma fold_bandwidths: "m_medias sdp = [] \<Longrightarrow> fold add_bandwidth xs sdp = sdp\<lparr>b_bandwidths := b_bandwidths sdp @ xs\<rparr>"
  by (induction xs arbitrary: sdp) (simp_all add: add_bandwidth_def at_level_def)

lemma fold_attributes: "m_medias sdp = [] \<Longrightarrow> fold add_attribute xs sdp = sdp\<lparr>a_attributes := a_attributes sdp @ xs\<rparr>"
  by (induction xs arbitrary: sdp) (simp_all add: add_attribute_def at_level_def)


lemma origin_fields [simp]:
  "m_medias (with_origin o1 sdp) = m_medias sdp" "t_descrs (with_origin o1 sdp) = t_descrs sdp"
  by (simp_all add: with_origin_def)

text \<open>The first part of a description, up to the times.\<close>

lemma session_begin_ok:
  assumes "wf_sdp sdp" and "here s i d (session_begin sdp @ time_lines (t_descrs sdp) @ r) x st" and "m_medias x = []"
    and "s_name x = None" "i_info x = None" "u_uri x = None" "e_emails x = []" "p_phones x = []" "c_connection x = None" "b_bandwidths x = []"
  shows "\<exists>j st'. do {
     st \<leftarrow> try_line sdp_message_parse_s False s st;
     st \<leftarrow> try_line sdp_message_parse_i False s st;
     st \<leftarrow> try_line sdp_message_parse_u False s st;
     st \<leftarrow> many_lines sdp_message_parse_e False s st;
     st \<leftarrow> many_lines sdp_message_parse_p False s st;
     st \<leftarrow> try_line sdp_message_parse_c False s st;
     many_lines sdp_message_parse_b False s st } = Some st'
   \<and> here s j (d @ session_begin sdp) (time_lines (t_descrs sdp) @ r)
       (x\<lparr>s_name := s_name sdp, i_info := i_info sdp, u_uri := u_uri sdp, e_emails := e_emails sdp, p_phones := p_phones sdp,
         c_connection := c_connection sdp, b_bandwidths := b_bandwidths sdp\<rparr>) st'"
proof -
  let ?T = "time_lines (t_descrs sdp) @ r"
  let ?S = "opt_lines (CHR ''s'') (\<lambda>x. x) (s_name sdp)" let ?I = "opt_lines (CHR ''i'') (\<lambda>x. x) (i_info sdp)"
  let ?U = "opt_lines (CHR ''u'') (\<lambda>x. x) (u_uri sdp)" let ?E = "list_lines (CHR ''e'') (\<lambda>x. x) (e_emails sdp)"
  let ?P = "list_lines (CHR ''p'') (\<lambda>x. x) (p_phones sdp)" let ?C = "opt_lines (CHR ''c'') connection_value (c_connection sdp)"
  let ?B = "list_lines (CHR ''b'') bandwidth_value (b_bandwidths sdp)"
  note w = assms(1) [unfolded wf_sdp_def]
  have t: "t_descrs sdp \<noteq> []" "?T \<noteq> []" using w by (cases "t_descrs sdp"; simp)+
  note nt = no_first_some_times [OF t(1)]
  have nf: "no_first (CHR ''s'') (?I @ ?U @ ?E @ ?P @ ?C @ ?B @ ?T)" "no_first (CHR ''i'') (?U @ ?E @ ?P @ ?C @ ?B @ ?T)"
    "no_first (CHR ''u'') (?E @ ?P @ ?C @ ?B @ ?T)" "no_first (CHR ''e'') (?P @ ?C @ ?B @ ?T)" "no_first (CHR ''p'') (?C @ ?B @ ?T)"
    "no_first (CHR ''c'') (?B @ ?T)" "no_first (CHR ''b'') ?T"
    by (intro no_first_append [OF no_first_opt] no_first_append [OF no_first_list] nt; simp)+
  define x1 where "x1 = x\<lparr>s_name := s_name sdp\<rparr>"
  define x2 where "x2 = x1\<lparr>i_info := i_info sdp\<rparr>"
  define x3 where "x3 = x2\<lparr>u_uri := u_uri sdp\<rparr>"
  define x4 where "x4 = x3\<lparr>e_emails := e_emails sdp\<rparr>"
  define x5 where "x5 = x4\<lparr>p_phones := p_phones sdp\<rparr>"
  define x6 where "x6 = x5\<lparr>c_connection := c_connection sdp\<rparr>"
  define x7 where "x7 = x6\<lparr>b_bandwidths := b_bandwidths sdp\<rparr>"
  note xs = x1_def x2_def x3_def x4_def x5_def x6_def x7_def
  have 0: "here s i d (?S @ ?I @ ?U @ ?E @ ?P @ ?C @ ?B @ ?T) x st" using assms(2) by (simp add: session_begin_def)
  have "\<exists>i st'. try_line sdp_message_parse_s False s st = Some st' \<and> here s i (d @ ?S) (?I @ ?U @ ?E @ ?P @ ?C @ ?B @ ?T) x1 st'"
    by (rule try_opt [where upd = "\<lambda>v sdp. sdp\<lparr>s_name := Some v\<rparr>", OF parsers_skip(1) _ 0 nf(1)])
      (use w opt_texts texts_read(1) t assms(4) in \<open>blast | (cases "s_name sdp"; simp add: xs; fail)\<close>)+
  then obtain i1 st1 where 1: "try_line sdp_message_parse_s False s st = Some st1" "here s i1 (d @ ?S) (?I @ ?U @ ?E @ ?P @ ?C @ ?B @ ?T) x1 st1" by blast
  have "\<exists>i st'. try_line sdp_message_parse_i False s st1 = Some st' \<and> here s i ((d @ ?S) @ ?I) (?U @ ?E @ ?P @ ?C @ ?B @ ?T) x2 st'"
    by (rule try_opt [where upd = "add_info", OF parsers_skip(3) _ 1(2) nf(2)])
      (use w info_reads t assms(3,5) in \<open>blast | (cases "i_info sdp"; simp add: xs add_info_def at_level_def; fail)\<close>)+
  then obtain i2 st2 where 2: "try_line sdp_message_parse_i False s st1 = Some st2"
    "here s i2 ((d @ ?S) @ ?I) (?U @ ?E @ ?P @ ?C @ ?B @ ?T) x2 st2" by blast
  have "\<exists>i st'. try_line sdp_message_parse_u False s st2 = Some st' \<and> here s i (((d @ ?S) @ ?I) @ ?U) (?E @ ?P @ ?C @ ?B @ ?T) x3 st'"
    by (rule try_opt [where upd = "\<lambda>v sdp. sdp\<lparr>u_uri := Some v\<rparr>", OF parsers_skip(4) _ 2(2) nf(3)])
      (use w opt_texts texts_read(3) t assms(3,6) in \<open>blast | (cases "u_uri sdp"; simp add: xs ; fail)\<close>)+
  then obtain i3 st3 where 3: "try_line sdp_message_parse_u False s st2 = Some st3"
    "here s i3 (((d @ ?S) @ ?I) @ ?U) (?E @ ?P @ ?C @ ?B @ ?T) x3 st3" by blast
  have "\<exists>i st'. many_lines sdp_message_parse_e False s st3 = Some st' \<and> here s i ((((d @ ?S) @ ?I) @ ?U) @ ?E) (?P @ ?C @ ?B @ ?T) x4 st'"
    by (rule many_list [where upd = "\<lambda>x sdp. sdp\<lparr>e_emails := e_emails sdp @ [x]\<rparr>", OF parsers_skip(5) _ 3(2) nf(4)])
      (use w texts_read(4) t assms(3,7) in \<open>blast | (simp add: xs fold_emails; fail)\<close>)+
  then obtain i4 st4 where 4: "many_lines sdp_message_parse_e False s st3 = Some st4"
    "here s i4 ((((d @ ?S) @ ?I) @ ?U) @ ?E) (?P @ ?C @ ?B @ ?T) x4 st4" by blast
  have "\<exists>i st'. many_lines sdp_message_parse_p False s st4 = Some st' \<and> here s i (((((d @ ?S) @ ?I) @ ?U) @ ?E) @ ?P) (?C @ ?B @ ?T) x5 st'"
    by (rule many_list [where upd = "\<lambda>x sdp. sdp\<lparr>p_phones := p_phones sdp @ [x]\<rparr>", OF parsers_skip(6) _ 4(2) nf(5)])
      (use w texts_read(5) t assms(3,8) in \<open>blast | (simp add: xs fold_phones; fail)\<close>)+
  then obtain i5 st5 where 5: "many_lines sdp_message_parse_p False s st4 = Some st5"
    "here s i5 (((((d @ ?S) @ ?I) @ ?U) @ ?E) @ ?P) (?C @ ?B @ ?T) x5 st5" by blast
  have "\<exists>i st'. try_line sdp_message_parse_c False s st5 = Some st' \<and> here s i ((((((d @ ?S) @ ?I) @ ?U) @ ?E) @ ?P) @ ?C) (?B @ ?T) x6 st'"
    by (rule try_opt [where upd = "add_connection", OF parsers_skip(7) _ 5(2) nf(6)])
      (use w connection_reads t assms(3,9) in \<open>blast | (cases "c_connection sdp"; simp add: xs add_connection_def at_level_def; fail)\<close>)+
  then obtain i6 st6 where 6: "try_line sdp_message_parse_c False s st5 = Some st6"
    "here s i6 ((((((d @ ?S) @ ?I) @ ?U) @ ?E) @ ?P) @ ?C) (?B @ ?T) x6 st6" by blast
  have "\<exists>i st'. many_lines sdp_message_parse_b False s st6 = Some st' \<and> here s i (((((((d @ ?S) @ ?I) @ ?U) @ ?E) @ ?P) @ ?C) @ ?B) (?T) x7 st'"
    by (rule many_list [where upd = "add_bandwidth", OF parsers_skip(8) _ 6(2) nf(7)])
      (use w bandwidth_reads t assms(3,10) in \<open>blast | (simp add: xs fold_bandwidths; fail)\<close>)+
  then obtain i7 st7 where 7: "many_lines sdp_message_parse_b False s st6 = Some st7"
    "here s i7 (((((((d @ ?S) @ ?I) @ ?U) @ ?E) @ ?P) @ ?C) @ ?B) (?T) x7 st7" by blast
  show ?thesis
    using 1(1) 2(1) 3(1) 4(1) 5(1) 6(1) 7 by (simp add: session_begin_def xs) blast
qed


lemma sdp_parse_ok:
  assumes "wf_sdp sdp"
  shows "sdp_message_parse sdp_message_init (lines (sdp_lines sdp)) = Some (0, sdp)"
proof -
  let ?s = "lines (sdp_lines sdp)"
  let ?V = "(CHR ''v'', the (v_version sdp))" let ?O = "(CHR ''o'', origin_value sdp)"
  let ?R = "session_begin sdp @ time_lines (t_descrs sdp) @ session_end sdp"
  let ?Z = "opt_lines (CHR ''z'') (\<lambda>x. x) (z_adjustments sdp)" let ?K = "opt_lines (CHR ''k'') key_value (k_key sdp)"
  let ?A = "list_lines (CHR ''a'') attribute_value (a_attributes sdp)" let ?M = "media_lines_of (m_medias sdp)"
  note w = assms [unfolded wf_sdp_def]
  have R: "?R \<noteq> []" using w by (cases "t_descrs sdp") simp_all
  define x1 where "x1 = sdp_message_init\<lparr>v_version := v_version sdp\<rparr>"
  define x2 where "x2 = with_origin sdp x1"
  define x3 where "x3 = x2\<lparr>s_name := s_name sdp, i_info := i_info sdp, u_uri := u_uri sdp, e_emails := e_emails sdp,
    p_phones := p_phones sdp, c_connection := c_connection sdp, b_bandwidths := b_bandwidths sdp\<rparr>"
  define x4 where "x4 = x3\<lparr>t_descrs := t_descrs sdp\<rparr>"
  define x5 where "x5 = x4\<lparr>z_adjustments := z_adjustments sdp\<rparr>"
  define x6 where "x6 = x5\<lparr>k_key := k_key sdp\<rparr>"
  define x7 where "x7 = x6\<lparr>a_attributes := a_attributes sdp\<rparr>"
  note xs = x1_def x2_def x3_def x4_def x5_def x6_def x7_def sdp_message_init_def
  have "here ?s 1 [] (?V # (?O # ?R)) sdp_message_init (Inr (1, 0, sdp_message_init))"
    using sdp_names_ok [of sdp] by (simp add: here_def sdp_lines_def)
  moreover have "reads sdp_message_parse_v (CHR ''v'') (the (v_version sdp)) sdp_message_init x1"
    using w v_reads by (auto simp: has_def x1_def)
  ultimately obtain st1 where 1: "need_line sdp_message_parse_v ?s (Inr (1, 0, sdp_message_init)) = Some st1"
    "here ?s 1 ([] @ [?V]) (?O # ?R) x1 st1"
    using need_reads by blast
  obtain st2 where 2: "try_line sdp_message_parse_s False ?s st1 = Some st2" "here ?s 0 ([] @ [?V]) (?O # ?R) x1 st2"
    using try_skips [OF parsers_skip(1) 1(2), of False] by auto
  obtain st3 where 3: "need_line sdp_message_parse_o ?s st2 = Some st3" "here ?s 1 (([] @ [?V]) @ [?O]) ?R x2 st3"
    using need_reads [OF origin_reads 2(2) R] w unfolding x2_def by blast
  obtain j4 st4 where 4: "do {
      st \<leftarrow> try_line sdp_message_parse_s False ?s st3;
      st \<leftarrow> try_line sdp_message_parse_i False ?s st;
      st \<leftarrow> try_line sdp_message_parse_u False ?s st;
      st \<leftarrow> many_lines sdp_message_parse_e False ?s st;
      st \<leftarrow> many_lines sdp_message_parse_p False ?s st;
      st \<leftarrow> try_line sdp_message_parse_c False ?s st;
      many_lines sdp_message_parse_b False ?s st } = Some st4"
    "here ?s j4 ((([] @ [?V]) @ [?O]) @ session_begin sdp) (time_lines (t_descrs sdp) @ session_end sdp) x3 st4"
    using session_begin_ok [OF assms 3(2)] unfolding x3_def by (auto simp: x2_def x1_def sdp_message_init_def with_origin_def)
  have nM: "c \<noteq> CHR ''m'' \<Longrightarrow> no_first c ?M" for c unfolding media_lines_of_def by (rule no_first_blocks) simp
  have E: "session_end sdp = ?Z @ ?K @ ?A @ ?M" by (simp add: session_end_def media_lines_of_def)
  have nf: "c \<notin> {CHR ''z'', CHR ''k'', CHR ''a'', CHR ''m''} \<Longrightarrow> no_first c (session_end sdp)" for c
    unfolding E by (intro no_first_append no_first_opt no_first_list nM) auto
  obtain j5 st5 where 5: "times_lines ?s st4 = Some st5"
    "here ?s j5 (((([] @ [?V]) @ [?O]) @ session_begin sdp) @ time_lines (t_descrs sdp)) (?Z @ ?K @ ?A @ ?M) x4 st5"
    using times_lines_ok [OF _ _ _ 4(2)] nf w unfolding E [symmetric] x4_def by (auto simp: x3_def x2_def x1_def sdp_message_init_def with_origin_def)
  have nf2: "no_first (CHR ''z'') (?K @ ?A @ ?M)" "no_first (CHR ''k'') (?A @ ?M)" "no_first (CHR ''a'') ?M"
    by (intro no_first_append no_first_opt no_first_list nM; simp)+
  have "\<exists>i st'. try_line sdp_message_parse_z True ?s st5 = Some st' \<and> here ?s i ((((([] @ [?V]) @ [?O]) @ session_begin sdp) @ time_lines (t_descrs sdp)) @ ?Z) (?K @ ?A @ ?M) x5 st'"
    by (rule try_opt [where upd = "\<lambda>v sdp. sdp\<lparr>z_adjustments := Some v\<rparr>", OF parsers_skip(11) _ 5(2) nf2(1)])
      (use w opt_texts texts_read(6) in \<open>blast | (cases "z_adjustments sdp"; simp add: xs with_origin_def; fail)\<close>)+
  then obtain j6 st6 where 6: "try_line sdp_message_parse_z True ?s st5 = Some st6" "here ?s j6 ((((([] @ [?V]) @ [?O]) @ session_begin sdp) @ time_lines (t_descrs sdp)) @ ?Z) (?K @ ?A @ ?M) x5 st6" by blast
  have "\<exists>i st'. try_line sdp_message_parse_k True ?s st6 = Some st' \<and> here ?s i (((((([] @ [?V]) @ [?O]) @ session_begin sdp) @ time_lines (t_descrs sdp)) @ ?Z) @ ?K) (?A @ ?M) x6 st'"
    by (rule try_opt [where upd = add_key, OF parsers_skip(12) _ 6(2) nf2(2)])
      (use w key_reads in \<open>blast | (cases "k_key sdp"; simp add: xs with_origin_def add_key_def at_level_def; fail)\<close>)+
  then obtain j7 st7 where 7: "try_line sdp_message_parse_k True ?s st6 = Some st7" "here ?s j7 (((((([] @ [?V]) @ [?O]) @ session_begin sdp) @ time_lines (t_descrs sdp)) @ ?Z) @ ?K) (?A @ ?M) x6 st7" by blast
  have "\<exists>i st'. many_lines sdp_message_parse_a True ?s st7 = Some st' \<and> here ?s i ((((((([] @ [?V]) @ [?O]) @ session_begin sdp) @ time_lines (t_descrs sdp)) @ ?Z) @ ?K) @ ?A) ?M x7 st'"
    by (rule many_list [where upd = add_attribute, OF parsers_skip(13) _ 7(2) nf2(3)])
      (use w attribute_reads in \<open>blast | (simp add: xs with_origin_def fold_attributes; fail)\<close>)+
  then obtain j8 st8 where 8: "many_lines sdp_message_parse_a True ?s st7 = Some st8" "here ?s j8 ((((((([] @ [?V]) @ [?O]) @ session_begin sdp) @ time_lines (t_descrs sdp)) @ ?Z) @ ?K) @ ?A) ?M x7 st8" by blast
  have "media_lines ?s st8 = Some (0, x7\<lparr>m_medias := m_medias x7 @ m_medias sdp\<rparr>)"
    by (rule media_lines_ok [OF _ 8(2)]) (use w in blast)
  moreover have "x7\<lparr>m_medias := m_medias x7 @ m_medias sdp\<rparr> = sdp" by (cases sdp) (simp add: xs with_origin_def)
  ultimately have 9: "media_lines ?s st8 = Some (0, sdp)" by simp
  from 4(1) obtain a b c d e f where "try_line sdp_message_parse_s False ?s st3 = Some a" "try_line sdp_message_parse_i False ?s a = Some b"
    "try_line sdp_message_parse_u False ?s b = Some c" "many_lines sdp_message_parse_e False ?s c = Some d"
    "many_lines sdp_message_parse_p False ?s d = Some e" "try_line sdp_message_parse_c False ?s e = Some f"
    "many_lines sdp_message_parse_b False ?s f = Some st4"
    by (auto simp: Option.bind_eq_Some_conv)
  with 1(1) 2(1) 3(1) 5(1) 6(1) 7(1) 8(1) 9 show ?thesis by (simp add: sdp_message_parse_def)
qed


section \<open>The printed text\<close>

text \<open>\<open>writes f x\<close>: the text \<open>x\<close> is appended and the buffer keeps room for the zero at the end.\<close>

definition writes :: "(sdp_buffer \<Rightarrow> sdp_appended) \<Rightarrow> string \<Rightarrow> bool" where
  "writes f x \<longleftrightarrow> (\<forall>sz cur. length cur < sz \<longrightarrow>
     (\<exists>sz'. f (sz, cur) = Some (OSIP_SUCCESS, (sz', cur @ x)) \<and> length (cur @ x) < sz'))"

lemma strings_written:
  "length cur < sz \<Longrightarrow> \<exists>sz'. sdp_append_strings xs (sz, cur) = Some (sz', cur @ concat xs) \<and> length (cur @ concat xs) < sz'"
proof (induction xs arbitrary: sz cur)
  case (Cons x xs)
  obtain sz1 where "sdp_append_string (sz, cur) x = Some (sz1, cur @ x)" "length (cur @ x) < sz1"
    using Cons.prems by (auto simp: sdp_append_string_def osip_str_append_def Let_def)
  with Cons.IH [of "cur @ x" sz1] show ?case by auto
qed simp

lemma writesD:
  "writes f x \<Longrightarrow> length cur < sz \<Longrightarrow> \<exists>sz'. f (sz, cur) = Some (OSIP_SUCCESS, (sz', cur @ x)) \<and> length (cur @ x) < sz'"
  by (simp add: writes_def)

lemma writes_appended: "writes (appended xs) (concat xs)"
  unfolding writes_def
proof (intro allI impI)
  fix sz :: nat and cur :: string
  assume "length cur < sz"
  from strings_written [OF this, of xs] obtain sz' where "sdp_append_strings xs (sz, cur) = Some (sz', cur @ concat xs)"
    "length (cur @ concat xs) < sz'" by blast
  then show "\<exists>sz'. appended xs (sz, cur) = Some (OSIP_SUCCESS, (sz', cur @ concat xs)) \<and> length (cur @ concat xs) < sz'"
    by (simp add: appended_def)
qed

lemma writes_cong: "writes f x \<Longrightarrow> x = y \<Longrightarrow> writes f y"
  by simp

lemma writes_seq:
  assumes "writes f x" and "writes g y"
  shows "writes (\<lambda>b. do { (i, b) \<leftarrow> f b; if i \<noteq> 0 then Some (-1, b) else g b }) (x @ y)"
  unfolding writes_def
proof (intro allI impI)
  fix sz :: nat and cur :: string
  assume "length cur < sz"
  from writesD [OF assms(1) this] obtain sz1 where 1: "f (sz, cur) = Some (0, (sz1, cur @ x))" "length (cur @ x) < sz1" by blast
  from writesD [OF assms(2) 1(2)] obtain sz2 where "g (sz1, cur @ x) = Some (0, (sz2, (cur @ x) @ y))" "length ((cur @ x) @ y) < sz2" by blast
  with 1(1) show "\<exists>sz'. do { (i, b) \<leftarrow> f (sz, cur); if i \<noteq> 0 then Some (-1, b) else g b } = Some (OSIP_SUCCESS, (sz', cur @ x @ y))
      \<and> length (cur @ x @ y) < sz'" by simp
qed

lemma writes_each: "(\<And>x. x \<in> set xs \<Longrightarrow> writes (f x) (g x)) \<Longrightarrow> writes (append_each f xs) (concat (map g xs))"
proof (induction xs)
  case (Cons x xs)
  have "append_each f (x # xs) = (\<lambda>b. do { (i, b) \<leftarrow> f x b; if i \<noteq> 0 then Some (-1, b) else append_each f xs b })"
    by (rule ext) simp
  with writes_seq [of "f x" "g x" "append_each f xs" "concat (map g xs)"] Cons show ?case by simp
qed (simp add: writes_def)

lemma writes_optional: "(\<And>v. x = Some v \<Longrightarrow> writes (f v) (g v)) \<Longrightarrow> writes (append_optional f x) (case x of None \<Rightarrow> [] | Some v \<Rightarrow> g v)"
  unfolding append_optional_def using writes_each [of "case x of None \<Rightarrow> [] | Some v \<Rightarrow> [v]" f g] by (cases x) simp_all

lemma writes_parts: "list_all2 writes fs xs \<Longrightarrow> writes (append_parts fs) (concat xs)"
proof (induction rule: list_all2_induct)
  case (Cons f fs x xs)
  have "append_parts (f # fs) = (\<lambda>b. do { (i, b) \<leftarrow> f b; if i \<noteq> 0 then Some (-1, b) else append_parts fs b })"
    by (rule ext) simp
  with writes_seq Cons show ?case by simp
qed (simp add: writes_def)

lemma lines_opt: "lines (opt_lines c val x) = (case x of None \<Rightarrow> [] | Some v \<Rightarrow> line (c, val v))"
  by (simp add: opt_lines_def lines_def split: option.split)

lemma lines_list: "lines (list_lines c val xs) = concat (map (\<lambda>v. line (c, val v)) xs)"
  by (simp add: list_lines_def lines_def comp_def)

lemma writes_line: "concat xs = line l \<Longrightarrow> writes (appended xs) (line l)"
  using writes_appended [of xs] by simp

lemma connection_written:
  assumes "wf_connection c"
  shows "writes (sdp_append_connection c) (line (CHR ''c'', connection_value c))"
proof -
  obtain net aty addr where c: "c_nettype c = Some net" "c_addrtype c = Some aty" "c_addr c = Some addr"
    using assms by (auto simp: wf_connection_def has_def)
  have "sdp_append_connection c = appended ([''c='', net, '' '', aty, '' '', addr] @ optional ''/'' (c_addr_multicast_ttl c) []
      @ optional ''/'' (c_addr_multicast_int c) [] @ [CRLF])"
    by (rule ext) (simp add: sdp_append_connection_def c)
  then show ?thesis by (simp only:) (rule writes_line, simp add: line_def connection_value_def c)
qed

lemma bandwidth_written:
  assumes "wf_bandwidth c"
  shows "writes (sdp_append_bandwidth c) (line (CHR ''b'', bandwidth_value c))"
proof -
  obtain x y where c: "b_bwtype c = Some x" "b_bandwidth c = Some y" using assms by (auto simp: wf_bandwidth_def has_def)
  have "sdp_append_bandwidth c = appended [''b='', x, '':'', y, CRLF]" by (rule ext) (simp add: sdp_append_bandwidth_def c)
  then show ?thesis by (simp only:) (rule writes_line, simp add: line_def bandwidth_value_def c)
qed

lemma time_written:
  assumes "wf_time_descr t"
  shows "writes (sdp_append_time_descr t) (lines ((CHR ''t'', time_value t) # time_rest t))"
proof -
  obtain x y where c: "t_start_time t = Some x" "t_stop_time t = Some y" using assms by (auto simp: wf_time_descr_def has_def)
  have r: "concat (concat (map (\<lambda>str. [''r='', str, CRLF]) rs)) = concat (map (\<lambda>v. line (CHR ''r'', v)) rs)" for rs
    by (induction rs) (simp_all add: line_def)
  have "sdp_append_time_descr t = appended ([''t='', x, '' '', y, CRLF] @ concat (map (\<lambda>str. [''r='', str, CRLF]) (r_repeats t)))"
    by (rule ext) (simp add: sdp_append_time_descr_def c)
  then show ?thesis
    by (simp only:) (rule writes_cong [OF writes_appended], simp add: r time_rest_def lines_list line_def time_value_def c)
qed

lemma key_written:
  assumes "wf_key k"
  shows "writes (sdp_append_key k) (line (CHR ''k'', key_value k))"
proof -
  obtain x where c: "k_keytype k = Some x" using assms by (auto simp: wf_key_def has_def)
  have "sdp_append_key k = appended ([''k='', x] @ optional '':'' (k_keydata k) [] @ [CRLF])"
    by (rule ext) (simp add: sdp_append_key_def c)
  then show ?thesis by (simp only:) (rule writes_line, simp add: line_def pair_value_def c)
qed

lemma attribute_written:
  assumes "wf_attribute k"
  shows "writes (sdp_append_attribute k) (line (CHR ''a'', attribute_value k))"
proof -
  obtain x where c: "a_att_field k = Some x" using assms by (auto simp: wf_attribute_def has_def)
  have "sdp_append_attribute k = appended ([''a='', x] @ optional '':'' (a_att_value k) [] @ [CRLF])"
    by (rule ext) (simp add: sdp_append_attribute_def c)
  then show ?thesis by (simp only:) (rule writes_line, simp add: line_def pair_value_def c)
qed

lemma optional_text: "writes (appended (optional [c, CHR ''=''] x [CRLF])) (lines (opt_lines c (\<lambda>x. x) x))"
  by (rule writes_cong [OF writes_appended]) (simp add: lines_opt optional_def line_def split: option.split)

lemma list_text: "writes (appended (concat (map (\<lambda>x. [[c, CHR ''=''], x, CRLF]) xs))) (lines (list_lines c (\<lambda>x. x) xs))"
proof (rule writes_cong [OF writes_appended])
  show "concat (concat (map (\<lambda>x. [[c, CHR ''=''], x, CRLF]) xs)) = lines (list_lines c (\<lambda>x. x) xs)"
    by (induction xs) (simp_all add: lines_list line_def)
qed

lemma each_written:
  "(\<And>x. x \<in> set xs \<Longrightarrow> writes (f x) (line (c, val x))) \<Longrightarrow> writes (append_each f xs) (lines (list_lines c val xs))"
  unfolding lines_list by (rule writes_each)

lemma optional_written:
  "(\<And>v. x = Some v \<Longrightarrow> writes (f v) (line (c, val v))) \<Longrightarrow> writes (append_optional f x) (lines (opt_lines c val x))"
  unfolding lines_opt by (rule writes_optional)

lemma media_written:
  assumes "wf_media m"
  shows "writes (sdp_append_media m) (lines ((CHR ''m'', media_value m) # media_rest m))"
proof -
  note w = assms [unfolded wf_media_def]
  obtain md prt proto where c: "m_media m = Some md" "m_port m = Some prt" "m_proto m = Some proto"
    using w by (auto simp: wf_media_head_def has_def)
  have p: "concat (concat (map (\<lambda>str. ['' '', str]) ps)) = concat (map (\<lambda>p. CHR '' '' # p) ps)" for ps
    by (induction ps) simp_all
  have "writes (append_parts
        [appended ([''m='', md, '' '', prt] @ optional ''/'' (m_number_of_port m) [] @ ['' '', proto]
           @ concat (map (\<lambda>str. ['' '', str]) (m_payloads m)) @ [CRLF]),
         appended (optional ''i='' (med_info m) [CRLF]),
         append_each sdp_append_connection (med_connections m),
         append_each sdp_append_bandwidth (med_bandwidths m),
         append_optional sdp_append_key (med_key m),
         append_each sdp_append_attribute (med_attributes m)])
      (concat [line (CHR ''m'', media_value m), lines (opt_lines (CHR ''i'') (\<lambda>x. x) (med_info m)),
        lines (list_lines (CHR ''c'') connection_value (med_connections m)),
        lines (list_lines (CHR ''b'') bandwidth_value (med_bandwidths m)),
        lines (opt_lines (CHR ''k'') key_value (med_key m)),
        lines (list_lines (CHR ''a'') attribute_value (med_attributes m))])"
  proof (rule writes_parts, intro list_all2_Cons [THEN iffD2] conjI list_all2_Nil [THEN iffD2])
    show "writes (appended ([''m='', md, '' '', prt] @ optional ''/'' (m_number_of_port m) [] @ ['' '', proto]
           @ concat (map (\<lambda>str. ['' '', str]) (m_payloads m)) @ [CRLF])) (line (CHR ''m'', media_value m))"
      by (rule writes_line) (simp add: line_def media_value_def c p)
  qed (use w in \<open>auto intro!: optional_text each_written optional_written connection_written bandwidth_written key_written attribute_written\<close>)
  moreover have "sdp_append_media m b = append_parts
        [appended ([''m='', md, '' '', prt] @ optional ''/'' (m_number_of_port m) [] @ ['' '', proto]
           @ concat (map (\<lambda>str. ['' '', str]) (m_payloads m)) @ [CRLF]),
         appended (optional ''i='' (med_info m) [CRLF]),
         append_each sdp_append_connection (med_connections m),
         append_each sdp_append_bandwidth (med_bandwidths m),
         append_optional sdp_append_key (med_key m),
         append_each sdp_append_attribute (med_attributes m)] b" for b
    by (simp add: sdp_append_media_def c)
  ultimately show ?thesis by (simp add: writes_def media_rest_def)
qed


lemma blocks_written:
  "(\<And>x. x \<in> set xs \<Longrightarrow> writes (f x) (lines (g x))) \<Longrightarrow> writes (append_each f xs) (lines (concat (map g xs)))"
proof -
  assume "\<And>x. x \<in> set xs \<Longrightarrow> writes (f x) (lines (g x))"
  then have "writes (append_each f xs) (concat (map (\<lambda>x. lines (g x)) xs))" by (rule writes_each)
  moreover have "concat (map (\<lambda>x. lines (g x)) xs) = lines (concat (map g xs))" by (induction xs) simp_all
  ultimately show ?thesis by simp
qed

lemma sdp_print_ok:
  assumes "wf_sdp sdp"
  shows "sdp_message_to_str (Some sdp) = Some (OSIP_SUCCESS, Some (lines (sdp_lines sdp)))"
proof -
  note w = assms [unfolded wf_sdp_def]
  obtain v u i n t y a where c: "v_version sdp = Some v" "o_username sdp = Some u" "o_sess_id sdp = Some i" "o_sess_version sdp = Some n"
    "o_nettype sdp = Some t" "o_addrtype sdp = Some y" "o_addr sdp = Some a"
    using w by (auto simp: wf_origin_def has_def)
  let ?fs = "[appended [''v='', v, CRLF],
    appended [''o='', u, '' '', i, '' '', n, '' '', t, '' '', y, '' '', a, CRLF],
    appended (optional ''s='' (s_name sdp) [CRLF]),
    appended (optional ''i='' (i_info sdp) [CRLF]),
    appended (optional ''u='' (u_uri sdp) [CRLF]),
    appended (concat (map (\<lambda>email. [''e='', email, CRLF]) (e_emails sdp))),
    appended (concat (map (\<lambda>phone. [''p='', phone, CRLF]) (p_phones sdp))),
    append_optional sdp_append_connection (c_connection sdp),
    append_each sdp_append_bandwidth (b_bandwidths sdp),
    append_each sdp_append_time_descr (t_descrs sdp),
    appended (optional ''z='' (z_adjustments sdp) [CRLF]),
    append_optional sdp_append_key (k_key sdp),
    append_each sdp_append_attribute (a_attributes sdp),
    append_each sdp_append_media (m_medias sdp)]"
  have l1: "writes (appended [''v='', v, CRLF]) (line (CHR ''v'', v))" by (rule writes_line) (simp add: line_def)
  have l2: "writes (appended [''o='', u, '' '', i, '' '', n, '' '', t, '' '', y, '' '', a, CRLF]) (line (CHR ''o'', origin_value sdp))"
    by (rule writes_line) (simp add: line_def origin_value_def c)
  have l3: "writes (append_each sdp_append_time_descr (t_descrs sdp)) (lines (time_lines (t_descrs sdp)))"
    unfolding time_lines_def by (rule blocks_written, rule time_written) (use w in blast)
  have l4: "writes (append_each sdp_append_media (m_medias sdp)) (lines (media_lines_of (m_medias sdp)))"
    unfolding media_lines_of_def by (rule blocks_written, rule media_written) (use w in blast)
  have "writes (append_parts ?fs) (concat
     [line (CHR ''v'', v), line (CHR ''o'', origin_value sdp),
      lines (opt_lines (CHR ''s'') (\<lambda>x. x) (s_name sdp)), lines (opt_lines (CHR ''i'') (\<lambda>x. x) (i_info sdp)),
      lines (opt_lines (CHR ''u'') (\<lambda>x. x) (u_uri sdp)), lines (list_lines (CHR ''e'') (\<lambda>x. x) (e_emails sdp)),
      lines (list_lines (CHR ''p'') (\<lambda>x. x) (p_phones sdp)), lines (opt_lines (CHR ''c'') connection_value (c_connection sdp)),
      lines (list_lines (CHR ''b'') bandwidth_value (b_bandwidths sdp)), lines (time_lines (t_descrs sdp)),
      lines (opt_lines (CHR ''z'') (\<lambda>x. x) (z_adjustments sdp)), lines (opt_lines (CHR ''k'') key_value (k_key sdp)),
      lines (list_lines (CHR ''a'') attribute_value (a_attributes sdp)), lines (media_lines_of (m_medias sdp))])"
    by (rule writes_parts, intro list_all2_Cons [THEN iffD2] conjI list_all2_Nil [THEN iffD2] l1 l2 l3 l4 optional_text list_text TrueI
          each_written optional_written connection_written bandwidth_written key_written attribute_written) (use w in blast)+
  from writesD [OF this, of "[]" BODY_MESSAGE_MAX_SIZE] obtain sz where
    "append_parts ?fs (BODY_MESSAGE_MAX_SIZE, []) = Some (OSIP_SUCCESS, (sz, lines (sdp_lines sdp)))"
    by (auto simp: BODY_MESSAGE_MAX_SIZE_def sdp_lines_def session_begin_def session_end_def media_lines_of_def c)
  then show ?thesis by (simp only: sdp_message_to_str_def c option.case prod.case) simp
qed

end
