(* ===== verification/Osip_Sdp_Access.thy ===== *)
theory Osip_Sdp_Access
  imports Osip_Sdp
begin

text \<open>
  Access to a session description, \<^verbatim>\<open>osip/src/osipparser2/sdp_accessor.c\<close>.  A position \<^verbatim>\<open>-1\<close> means the
  session, any other one a media.  The call of a function on a media that is not there, where the code does not test
  for it, is a fault.
\<close>

section \<open>The session and its media\<close>

definition on_media :: "sdp_message \<Rightarrow> int \<Rightarrow> (sdp_media \<Rightarrow> sdp_media) \<Rightarrow> sdp_message option" where
  "on_media sdp pos f =
     (case list_at (m_medias sdp) pos of
        None \<Rightarrow> None
      | Some m \<Rightarrow> Some (sdp\<lparr>m_medias := (m_medias sdp)[nat pos := f m]\<rparr>))"

definition set_field :: "int \<Rightarrow> sdp_message option \<Rightarrow> (sdp_message \<Rightarrow> sdp_message) \<Rightarrow> int \<times> sdp_message option" where
  "set_field err sdp f = (case sdp of None \<Rightarrow> (err, None) | Some s \<Rightarrow> (OSIP_SUCCESS, Some (f s)))"

definition get_field :: "sdp_message option \<Rightarrow> (sdp_message \<Rightarrow> 'a option) \<Rightarrow> 'a option" where
  "get_field sdp f = (case sdp of None \<Rightarrow> None | Some s \<Rightarrow> f s)"

text \<open>
  The frame of the functions that add to the session or to a media: the test of the upper bound, and the
  media that is not tested.
\<close>

definition add_at :: "int \<Rightarrow> sdp_message option \<Rightarrow> int \<Rightarrow> (sdp_message \<Rightarrow> sdp_message) \<Rightarrow> (sdp_media \<Rightarrow> sdp_media)
    \<Rightarrow> (int \<times> sdp_message option) option" where
  "add_at err sdpp pos_media f g =
     (case sdpp of
        None \<Rightarrow> Some (OSIP_BADPARAMETER, None)
      | Some sdp \<Rightarrow>
          if pos_media \<noteq> -1 \<and> int (length (m_medias sdp)) < pos_media + 1 then Some (err, Some sdp)
          else if pos_media = -1 then Some (OSIP_SUCCESS, Some (f sdp))
          else map_option (\<lambda>s. (OSIP_SUCCESS, Some s)) (on_media sdp pos_media g))"

section \<open>Fields of the session\<close>

definition sdp_message_v_version_set :: "sdp_message option \<Rightarrow> string option \<Rightarrow> int \<times> sdp_message option" where
  "sdp_message_v_version_set sdp x = set_field OSIP_BADPARAMETER sdp (\<lambda>s. s\<lparr>v_version := x\<rparr>)"

definition sdp_message_v_version_get :: "sdp_message option \<Rightarrow> string option" where
  "sdp_message_v_version_get sdp = get_field sdp v_version"

definition sdp_message_o_origin_set ::
  "sdp_message option \<Rightarrow> string option \<Rightarrow> string option \<Rightarrow> string option \<Rightarrow> string option \<Rightarrow> string option \<Rightarrow> string option
     \<Rightarrow> int \<times> sdp_message option" where
  "sdp_message_o_origin_set sdp user sess_id sess_version nettype addrtype addr =
     set_field OSIP_BADPARAMETER sdp (\<lambda>s. s\<lparr>o_username := user, o_sess_id := sess_id, o_sess_version := sess_version,
       o_nettype := nettype, o_addrtype := addrtype, o_addr := addr\<rparr>)"

definition sdp_message_o_username_get :: "sdp_message option \<Rightarrow> string option" where
  "sdp_message_o_username_get sdp = get_field sdp o_username"

definition sdp_message_o_sess_id_get :: "sdp_message option \<Rightarrow> string option" where
  "sdp_message_o_sess_id_get sdp = get_field sdp o_sess_id"

definition sdp_message_o_sess_version_get :: "sdp_message option \<Rightarrow> string option" where
  "sdp_message_o_sess_version_get sdp = get_field sdp o_sess_version"

definition sdp_message_o_nettype_get :: "sdp_message option \<Rightarrow> string option" where
  "sdp_message_o_nettype_get sdp = get_field sdp o_nettype"

definition sdp_message_o_addrtype_get :: "sdp_message option \<Rightarrow> string option" where
  "sdp_message_o_addrtype_get sdp = get_field sdp o_addrtype"

definition sdp_message_o_addr_get :: "sdp_message option \<Rightarrow> string option" where
  "sdp_message_o_addr_get sdp = get_field sdp o_addr"

definition sdp_message_s_name_set :: "sdp_message option \<Rightarrow> string option \<Rightarrow> int \<times> sdp_message option" where
  "sdp_message_s_name_set sdp name = set_field (-1) sdp (\<lambda>s. s\<lparr>s_name := name\<rparr>)"

definition sdp_message_s_name_get :: "sdp_message option \<Rightarrow> string option" where
  "sdp_message_s_name_get sdp = get_field sdp s_name"

definition sdp_message_i_info_set :: "sdp_message option \<Rightarrow> int \<Rightarrow> string option \<Rightarrow> int \<times> sdp_message option" where
  "sdp_message_i_info_set sdpp pos_media info =
     (case sdpp of
        None \<Rightarrow> (OSIP_BADPARAMETER, None)
      | Some sdp \<Rightarrow>
          if pos_media = -1 then (OSIP_SUCCESS, Some (sdp\<lparr>i_info := info\<rparr>))
          else (case on_media sdp pos_media (\<lambda>m. m\<lparr>med_info := info\<rparr>) of
                  None \<Rightarrow> (OSIP_UNDEFINED_ERROR, Some sdp)
                | Some s \<Rightarrow> (OSIP_SUCCESS, Some s)))"

definition sdp_message_i_info_get :: "sdp_message option \<Rightarrow> int \<Rightarrow> string option" where
  "sdp_message_i_info_get sdp pos_media =
     get_field sdp (\<lambda>s. if pos_media = -1 then i_info s else Option.bind (list_at (m_medias s) pos_media) med_info)"

definition sdp_message_u_uri_set :: "sdp_message option \<Rightarrow> string option \<Rightarrow> int \<times> sdp_message option" where
  "sdp_message_u_uri_set sdp uri = set_field OSIP_BADPARAMETER sdp (\<lambda>s. s\<lparr>u_uri := uri\<rparr>)"

definition sdp_message_u_uri_get :: "sdp_message option \<Rightarrow> string option" where
  "sdp_message_u_uri_get sdp = get_field sdp u_uri"

definition sdp_message_e_email_add :: "sdp_message option \<Rightarrow> string \<Rightarrow> int \<times> sdp_message option" where
  "sdp_message_e_email_add sdp email = set_field OSIP_BADPARAMETER sdp (\<lambda>s. s\<lparr>e_emails := e_emails s @ [email]\<rparr>)"

definition sdp_message_e_email_get :: "sdp_message option \<Rightarrow> int \<Rightarrow> string option" where
  "sdp_message_e_email_get sdp pos = get_field sdp (\<lambda>s. list_at (e_emails s) pos)"

definition sdp_message_p_phone_add :: "sdp_message option \<Rightarrow> string \<Rightarrow> int \<times> sdp_message option" where
  "sdp_message_p_phone_add sdp phone = set_field OSIP_BADPARAMETER sdp (\<lambda>s. s\<lparr>p_phones := p_phones s @ [phone]\<rparr>)"

definition sdp_message_p_phone_get :: "sdp_message option \<Rightarrow> int \<Rightarrow> string option" where
  "sdp_message_p_phone_get sdp pos = get_field sdp (\<lambda>s. list_at (p_phones s) pos)"

section \<open>Connections and bandwidths\<close>

definition sdp_message_c_connection_add ::
  "sdp_message option \<Rightarrow> int \<Rightarrow> string option \<Rightarrow> string option \<Rightarrow> string option \<Rightarrow> string option \<Rightarrow> string option
     \<Rightarrow> (int \<times> sdp_message option) option" where
  "sdp_message_c_connection_add sdp pos_media nettype addrtype addr ttl num =
     (let conn = \<lparr>c_nettype = nettype, c_addrtype = addrtype, c_addr = addr, c_addr_multicast_ttl = ttl, c_addr_multicast_int = num\<rparr>
      in add_at (-1) sdp pos_media (\<lambda>s. s\<lparr>c_connection := Some conn\<rparr>) (\<lambda>m. m\<lparr>med_connections := med_connections m @ [conn]\<rparr>))"

definition sdp_message_connection_get :: "sdp_message option \<Rightarrow> int \<Rightarrow> int \<Rightarrow> sdp_connection option" where
  "sdp_message_connection_get sdp pos_media pos =
     get_field sdp (\<lambda>s. if pos_media = -1 then c_connection s
       else Option.bind (list_at (m_medias s) pos_media) (\<lambda>m. list_at (med_connections m) pos))"

definition sdp_message_c_nettype_get :: "sdp_message option \<Rightarrow> int \<Rightarrow> int \<Rightarrow> string option" where
  "sdp_message_c_nettype_get sdp pos_media pos = Option.bind (sdp_message_connection_get sdp pos_media pos) c_nettype"

definition sdp_message_c_addrtype_get :: "sdp_message option \<Rightarrow> int \<Rightarrow> int \<Rightarrow> string option" where
  "sdp_message_c_addrtype_get sdp pos_media pos = Option.bind (sdp_message_connection_get sdp pos_media pos) c_addrtype"

definition sdp_message_c_addr_get :: "sdp_message option \<Rightarrow> int \<Rightarrow> int \<Rightarrow> string option" where
  "sdp_message_c_addr_get sdp pos_media pos = Option.bind (sdp_message_connection_get sdp pos_media pos) c_addr"

definition sdp_message_c_addr_multicast_ttl_get :: "sdp_message option \<Rightarrow> int \<Rightarrow> int \<Rightarrow> string option" where
  "sdp_message_c_addr_multicast_ttl_get sdp pos_media pos =
     Option.bind (sdp_message_connection_get sdp pos_media pos) c_addr_multicast_ttl"

definition sdp_message_c_addr_multicast_int_get :: "sdp_message option \<Rightarrow> int \<Rightarrow> int \<Rightarrow> string option" where
  "sdp_message_c_addr_multicast_int_get sdp pos_media pos =
     Option.bind (sdp_message_connection_get sdp pos_media pos) c_addr_multicast_int"

definition sdp_message_b_bandwidth_add ::
  "sdp_message option \<Rightarrow> int \<Rightarrow> string option \<Rightarrow> string option \<Rightarrow> (int \<times> sdp_message option) option" where
  "sdp_message_b_bandwidth_add sdp pos_media bwtype bandwidth =
     (let band = \<lparr>b_bwtype = bwtype, b_bandwidth = bandwidth\<rparr>
      in add_at OSIP_UNDEFINED_ERROR sdp pos_media (\<lambda>s. s\<lparr>b_bandwidths := b_bandwidths s @ [band]\<rparr>)
           (\<lambda>m. m\<lparr>med_bandwidths := med_bandwidths m @ [band]\<rparr>))"

definition sdp_message_bandwidth_get :: "sdp_message option \<Rightarrow> int \<Rightarrow> int \<Rightarrow> sdp_bandwidth option" where
  "sdp_message_bandwidth_get sdp pos_media pos =
     get_field sdp (\<lambda>s. if pos_media = -1 then list_at (b_bandwidths s) pos
       else Option.bind (list_at (m_medias s) pos_media) (\<lambda>m. list_at (med_bandwidths m) pos))"

definition sdp_message_b_bwtype_get :: "sdp_message option \<Rightarrow> int \<Rightarrow> int \<Rightarrow> string option" where
  "sdp_message_b_bwtype_get sdp pos_media pos = Option.bind (sdp_message_bandwidth_get sdp pos_media pos) b_bwtype"

definition sdp_message_b_bandwidth_get :: "sdp_message option \<Rightarrow> int \<Rightarrow> int \<Rightarrow> string option" where
  "sdp_message_b_bandwidth_get sdp pos_media pos = Option.bind (sdp_message_bandwidth_get sdp pos_media pos) b_bandwidth"

section \<open>Times, adjustments and keys\<close>

definition sdp_message_t_time_descr_add :: "sdp_message option \<Rightarrow> string option \<Rightarrow> string option \<Rightarrow> int \<times> sdp_message option" where
  "sdp_message_t_time_descr_add sdp start stop = set_field OSIP_BADPARAMETER sdp
     (\<lambda>s. s\<lparr>t_descrs := t_descrs s @ [\<lparr>t_start_time = start, t_stop_time = stop, r_repeats = []\<rparr>]\<rparr>)"

definition sdp_message_t_start_time_get :: "sdp_message option \<Rightarrow> int \<Rightarrow> string option" where
  "sdp_message_t_start_time_get sdp pos_td = get_field sdp (\<lambda>s. Option.bind (list_at (t_descrs s) pos_td) t_start_time)"

definition sdp_message_t_stop_time_get :: "sdp_message option \<Rightarrow> int \<Rightarrow> string option" where
  "sdp_message_t_stop_time_get sdp pos_td = get_field sdp (\<lambda>s. Option.bind (list_at (t_descrs s) pos_td) t_stop_time)"

definition sdp_message_r_repeat_add :: "sdp_message option \<Rightarrow> int \<Rightarrow> string \<Rightarrow> int \<times> sdp_message option" where
  "sdp_message_r_repeat_add sdpp pos_time_descr field =
     (case sdpp of
        None \<Rightarrow> (OSIP_BADPARAMETER, None)
      | Some sdp \<Rightarrow>
          (case list_at (t_descrs sdp) pos_time_descr of
             None \<Rightarrow> (OSIP_UNDEFINED_ERROR, Some sdp)
           | Some td \<Rightarrow> (OSIP_SUCCESS, Some (sdp\<lparr>t_descrs :=
               (t_descrs sdp)[nat pos_time_descr := td\<lparr>r_repeats := r_repeats td @ [field]\<rparr>]\<rparr>))))"

definition sdp_message_r_repeat_get :: "sdp_message option \<Rightarrow> int \<Rightarrow> int \<Rightarrow> string option" where
  "sdp_message_r_repeat_get sdp pos_time_descr pos_repeat =
     get_field sdp (\<lambda>s. Option.bind (list_at (t_descrs s) pos_time_descr) (\<lambda>td. list_at (r_repeats td) pos_repeat))"

definition sdp_message_z_adjustments_set :: "sdp_message option \<Rightarrow> string option \<Rightarrow> int \<times> sdp_message option" where
  "sdp_message_z_adjustments_set sdp field = set_field OSIP_BADPARAMETER sdp (\<lambda>s. s\<lparr>z_adjustments := field\<rparr>)"

definition sdp_message_z_adjustments_get :: "sdp_message option \<Rightarrow> string option" where
  "sdp_message_z_adjustments_get sdp = get_field sdp z_adjustments"

definition sdp_message_k_key_set ::
  "sdp_message option \<Rightarrow> int \<Rightarrow> string option \<Rightarrow> string option \<Rightarrow> (int \<times> sdp_message option) option" where
  "sdp_message_k_key_set sdp pos_media keytype keydata =
     (let key = \<lparr>k_keytype = keytype, k_keydata = keydata\<rparr>
      in add_at OSIP_UNDEFINED_ERROR sdp pos_media (\<lambda>s. s\<lparr>k_key := Some key\<rparr>) (\<lambda>m. m\<lparr>med_key := Some key\<rparr>))"

text \<open>The key at a position; a media with a negative position is a fault.\<close>

definition key_at :: "sdp_message option \<Rightarrow> int \<Rightarrow> (sdp_key \<Rightarrow> string option) \<Rightarrow> string option option" where
  "key_at sdpp pos_media f =
     (case sdpp of
        None \<Rightarrow> Some None
      | Some sdp \<Rightarrow>
          if pos_media = -1 then Some (Option.bind (k_key sdp) f)
          else if int (length (m_medias sdp)) < pos_media + 1 then Some None
          else map_option (\<lambda>m. Option.bind (med_key m) f) (list_at (m_medias sdp) pos_media))"

definition sdp_message_k_keytype_get :: "sdp_message option \<Rightarrow> int \<Rightarrow> string option option" where
  "sdp_message_k_keytype_get sdp pos_media = key_at sdp pos_media k_keytype"

definition sdp_message_k_keydata_get :: "sdp_message option \<Rightarrow> int \<Rightarrow> string option option" where
  "sdp_message_k_keydata_get sdp pos_media = key_at sdp pos_media k_keydata"

section \<open>Attributes\<close>

definition sdp_message_a_attribute_add ::
  "sdp_message option \<Rightarrow> int \<Rightarrow> string option \<Rightarrow> string option \<Rightarrow> (int \<times> sdp_message option) option" where
  "sdp_message_a_attribute_add sdp pos_media att_field att_value =
     (let attr = \<lparr>a_att_field = att_field, a_att_value = att_value\<rparr>
      in add_at OSIP_UNDEFINED_ERROR sdp pos_media (\<lambda>s. s\<lparr>a_attributes := a_attributes s @ [attr]\<rparr>)
           (\<lambda>m. m\<lparr>med_attributes := med_attributes m @ [attr]\<rparr>))"

text \<open>The loop over the attributes of one name; an attribute without a name is a fault of \<^verbatim>\<open>strcmp\<close>.\<close>

fun delete_named :: "string \<Rightarrow> sdp_attribute list \<Rightarrow> sdp_attribute list option" where
  "delete_named att_field [] = Some []"
| "delete_named att_field (attr # xs) = do {
     field \<leftarrow> a_att_field attr;
     ys \<leftarrow> delete_named att_field xs;
     Some (if field = att_field then ys else attr # ys) }"

text \<open>
  The frame of the two deletions: the attributes of the session or of a media are replaced by what \<open>f\<close> or \<open>g\<close>
  leaves of them.
\<close>

definition delete_at :: "sdp_message option \<Rightarrow> int \<Rightarrow> (sdp_attribute list \<Rightarrow> sdp_attribute list option)
    \<Rightarrow> (sdp_attribute list \<Rightarrow> sdp_attribute list option) \<Rightarrow> (int \<times> sdp_message option) option" where
  "delete_at sdpp pos_media f g =
     (case sdpp of
        None \<Rightarrow> Some (OSIP_BADPARAMETER, None)
      | Some sdp \<Rightarrow>
          if pos_media \<noteq> -1 \<and> int (length (m_medias sdp)) < pos_media + 1 then Some (OSIP_UNDEFINED_ERROR, Some sdp)
          else if pos_media = -1 then do {
            xs \<leftarrow> f (a_attributes sdp);
            Some (OSIP_SUCCESS, Some (sdp\<lparr>a_attributes := xs\<rparr>)) }
          else (case list_at (m_medias sdp) pos_media of
                  None \<Rightarrow> Some (OSIP_UNDEFINED_ERROR, Some sdp)
                | Some med \<Rightarrow> do {
                    xs \<leftarrow> g (med_attributes med);
                    Some (OSIP_SUCCESS, Some (sdp\<lparr>m_medias := (m_medias sdp)[nat pos_media := med\<lparr>med_attributes := xs\<rparr>]\<rparr>)) }))"

definition sdp_message_a_attribute_del :: "sdp_message option \<Rightarrow> int \<Rightarrow> string \<Rightarrow> (int \<times> sdp_message option) option" where
  "sdp_message_a_attribute_del sdp pos_media att_field =
     delete_at sdp pos_media (delete_named att_field) (delete_named att_field)"

definition list_remove_at :: "nat \<Rightarrow> 'a list \<Rightarrow> 'a list" where
  "list_remove_at i xs = take i xs @ drop (Suc i) xs"

definition delete_session_index :: "string \<Rightarrow> int \<Rightarrow> sdp_attribute list \<Rightarrow> sdp_attribute list option" where
  "delete_session_index att_field pos_attr xs =
     (if pos_attr = -1 then delete_named att_field xs
      else (case list_at xs pos_attr of None \<Rightarrow> Some xs | Some attr \<Rightarrow> Some (list_remove_at (nat pos_attr) xs)))"

text \<open>
  The loop for a media.  With a position it neither counts nor stops: \<open>None\<close> is a loop that does not end.
\<close>

partial_function (option) delete_media_index ::
  "string \<Rightarrow> int \<Rightarrow> nat \<Rightarrow> sdp_attribute list \<Rightarrow> sdp_attribute list option" where
  "delete_media_index att_field pos_attr i xs =
     (if length xs \<le> i then Some xs
      else if pos_attr = -1 then do {
        field \<leftarrow> a_att_field (xs ! i);
        (if field = att_field then delete_media_index att_field pos_attr i (list_remove_at i xs)
         else delete_media_index att_field pos_attr (Suc i) xs) }
      else (case list_at xs pos_attr of
              Some attr \<Rightarrow> delete_media_index att_field pos_attr i (list_remove_at (nat pos_attr) xs)
            | None \<Rightarrow> delete_media_index att_field pos_attr i xs))"

definition sdp_message_a_attribute_del_at_index ::
  "sdp_message option \<Rightarrow> int \<Rightarrow> string \<Rightarrow> int \<Rightarrow> (int \<times> sdp_message option) option" where
  "sdp_message_a_attribute_del_at_index sdp pos_media att_field pos_attr =
     delete_at sdp pos_media (delete_session_index att_field pos_attr) (delete_media_index att_field pos_attr 0)"

definition sdp_message_attribute_get :: "sdp_message option \<Rightarrow> int \<Rightarrow> int \<Rightarrow> sdp_attribute option" where
  "sdp_message_attribute_get sdp pos_media pos =
     get_field sdp (\<lambda>s. if pos_media = -1 then list_at (a_attributes s) pos
       else Option.bind (list_at (m_medias s) pos_media) (\<lambda>m. list_at (med_attributes m) pos))"

definition sdp_message_a_att_field_get :: "sdp_message option \<Rightarrow> int \<Rightarrow> int \<Rightarrow> string option" where
  "sdp_message_a_att_field_get sdp pos_media pos = Option.bind (sdp_message_attribute_get sdp pos_media pos) a_att_field"

definition sdp_message_a_att_value_get :: "sdp_message option \<Rightarrow> int \<Rightarrow> int \<Rightarrow> string option" where
  "sdp_message_a_att_value_get sdp pos_media pos = Option.bind (sdp_message_attribute_get sdp pos_media pos) a_att_value"

section \<open>Media\<close>

definition sdp_message_endof_media :: "sdp_message option \<Rightarrow> int \<Rightarrow> int" where
  "sdp_message_endof_media sdpp i =
     (case sdpp of
        None \<Rightarrow> OSIP_BADPARAMETER
      | Some sdp \<Rightarrow> if i = -1 then OSIP_SUCCESS else if i < int (length (m_medias sdp)) then OSIP_SUCCESS else OSIP_UNDEFINED_ERROR)"

text \<open>The functions below do not test for a missing description.\<close>

definition sdp_message_m_media_add ::
  "sdp_message \<Rightarrow> string option \<Rightarrow> string option \<Rightarrow> string option \<Rightarrow> string option \<Rightarrow> int \<times> sdp_message" where
  "sdp_message_m_media_add sdp media prt number_of_port proto =
     (OSIP_SUCCESS, sdp\<lparr>m_medias := m_medias sdp @
        [sdp_media_init\<lparr>m_media := media, m_port := prt, m_number_of_port := number_of_port, m_proto := proto\<rparr>]\<rparr>)"

definition sdp_message_m_media_get :: "sdp_message \<Rightarrow> int \<Rightarrow> string option" where
  "sdp_message_m_media_get sdp pos_media = Option.bind (list_at (m_medias sdp) pos_media) m_media"

definition sdp_message_m_port_get :: "sdp_message \<Rightarrow> int \<Rightarrow> string option" where
  "sdp_message_m_port_get sdp pos_media = Option.bind (list_at (m_medias sdp) pos_media) m_port"

definition sdp_message_m_number_of_port_get :: "sdp_message \<Rightarrow> int \<Rightarrow> string option" where
  "sdp_message_m_number_of_port_get sdp pos_media = Option.bind (list_at (m_medias sdp) pos_media) m_number_of_port"

definition sdp_message_m_port_set :: "sdp_message \<Rightarrow> int \<Rightarrow> string option \<Rightarrow> int \<times> sdp_message" where
  "sdp_message_m_port_set sdp pos_media prt =
     (case on_media sdp pos_media (\<lambda>m. m\<lparr>m_port := prt\<rparr>) of None \<Rightarrow> (OSIP_BADPARAMETER, sdp) | Some s \<Rightarrow> (OSIP_SUCCESS, s))"

definition sdp_message_m_proto_get :: "sdp_message \<Rightarrow> int \<Rightarrow> string option" where
  "sdp_message_m_proto_get sdp pos_media = Option.bind (list_at (m_medias sdp) pos_media) m_proto"

definition sdp_message_m_payload_add :: "sdp_message \<Rightarrow> int \<Rightarrow> string \<Rightarrow> int \<times> sdp_message" where
  "sdp_message_m_payload_add sdp pos_media payload =
     (case on_media sdp pos_media (\<lambda>m. m\<lparr>m_payloads := m_payloads m @ [payload]\<rparr>) of
        None \<Rightarrow> (OSIP_BADPARAMETER, sdp) | Some s \<Rightarrow> (OSIP_SUCCESS, s))"

definition sdp_message_m_payload_get :: "sdp_message \<Rightarrow> int \<Rightarrow> int \<Rightarrow> string option" where
  "sdp_message_m_payload_get sdp pos_media pos = Option.bind (list_at (m_medias sdp) pos_media) (\<lambda>m. list_at (m_payloads m) pos)"

definition sdp_message_m_payload_del :: "sdp_message \<Rightarrow> int \<Rightarrow> int \<Rightarrow> int \<times> sdp_message" where
  "sdp_message_m_payload_del sdp pos_media pos =
     (case list_at (m_medias sdp) pos_media of
        None \<Rightarrow> (OSIP_BADPARAMETER, sdp)
      | Some med \<Rightarrow>
          if list_at (m_payloads med) pos = None then (OSIP_UNDEFINED_ERROR, sdp)
          else (OSIP_SUCCESS, sdp\<lparr>m_medias := (m_medias sdp)[nat pos_media := med\<lparr>m_payloads := list_remove_at (nat pos) (m_payloads med)\<rparr>]\<rparr>))"

section \<open>Deletion by position\<close>

lemma list_remove_at_length: "i < length xs \<Longrightarrow> length (list_remove_at i xs) = length xs - 1"
  by (simp add: list_remove_at_def)

lemma delete_first_all: "delete_media_index f 0 0 xs = Some []"
proof (induction "length xs" arbitrary: xs)
  case 0
  then show ?case by (subst delete_media_index.simps) simp
next
  case (Suc n)
  then obtain y ys where "xs = y # ys" by (cases xs) auto
  with Suc show ?case by (subst delete_media_index.simps) (simp add: list_at_def list_remove_at_def)
qed

lemma delete_returns_empty:
  assumes "delete_media_index att_field pos_attr i xs = Some ys"
  shows "pos_attr \<noteq> 0 \<and> pos_attr \<noteq> -1 \<and> i = 0 \<longrightarrow> xs = []"
proof (rule delete_media_index.raw_induct [OF _ assms, where P = "\<lambda>f p i xs ys. p \<noteq> 0 \<and> p \<noteq> -1 \<and> i = 0 \<longrightarrow> xs = []"])
  fix del att_field pos_attr i xs ys
  assume ih: "\<And>f p i xs ys. del f p i xs = Some ys \<Longrightarrow> p \<noteq> 0 \<and> p \<noteq> -1 \<and> i = 0 \<longrightarrow> xs = []"
    and body: "(if length xs \<le> i then Some xs
      else if pos_attr = -1 then do {
        field \<leftarrow> a_att_field (xs ! i);
        (if field = att_field then del att_field pos_attr i (list_remove_at i xs) else del att_field pos_attr (Suc i) xs) }
      else (case list_at xs pos_attr of
              Some attr \<Rightarrow> del att_field pos_attr i (list_remove_at (nat pos_attr) xs)
            | None \<Rightarrow> del att_field pos_attr i xs)) = Some ys"
  show "pos_attr \<noteq> 0 \<and> pos_attr \<noteq> -1 \<and> i = 0 \<longrightarrow> xs = []"
  proof (intro impI, elim conjE, rule ccontr)
    assume c: "pos_attr \<noteq> 0" "pos_attr \<noteq> -1" "i = 0" "xs \<noteq> []"
    then have "\<not> length xs \<le> i" by simp
    then have r: "(case list_at xs pos_attr of Some attr \<Rightarrow> del att_field pos_attr i (list_remove_at (nat pos_attr) xs)
        | None \<Rightarrow> del att_field pos_attr i xs) = Some ys"
      using body c(2) by simp
    show False
    proof (cases "list_at xs pos_attr")
      case None
      then show ?thesis using r ih c by auto
    next
      case (Some a)
      have "0 < nat pos_attr" "nat pos_attr < length xs" using Some c(1) by (auto simp: list_at_def split: if_splits)
      then have "length (list_remove_at (nat pos_attr) xs) \<noteq> 0" by (simp add: list_remove_at_length)
      then have "list_remove_at (nat pos_attr) xs \<noteq> []" by auto
      then show ?thesis using r ih c Some by auto
    qed
  qed
qed

lemma delete_other_loops:
  "pos \<noteq> 0 \<Longrightarrow> pos \<noteq> -1 \<Longrightarrow> xs \<noteq> [] \<Longrightarrow> delete_media_index f pos 0 xs = None"
  using delete_returns_empty [of f pos 0 xs] by (cases "delete_media_index f pos 0 xs") auto

end
