(* ===== verification/Osip_Sdp_Proofs.thy ===== *)
theory Osip_Sdp_Proofs
  imports Osip_Sdp_Text Osip_Sdp_Access
begin

text \<open>
  The properties of session descriptions: printing and parsing are inverse, the parser leaves all its loops, where it
  goes wrong, and the deletion of attributes by position.
\<close>

section \<open>The parser returns\<close>

definition ends_crlf :: "string \<Rightarrow> bool" where
  "ends_crlf s \<longleftrightarrow> (\<exists>t. s = t @ CRLF)"

lemma ends_crlf_nth:
  assumes "ends_crlf s"
  shows "2 \<le> length s" and "s ! (length s - 1) = LF" and "s ! (length s - 2) = CR"
  using assms by (auto simp: ends_crlf_def CRLF_def nth_append)

text \<open>A token does not end with the text.\<close>

lemma token_before_end:
  assumes "ends_crlf s" and "sdp_token s tmp sep = Some (v, n)"
  shows "n < length s"
proof -
  note e = ends_crlf_nth [OF assms(1)]
  let ?x = "takeWhile (\<lambda>c. c \<noteq> sep \<and> c \<noteq> CR \<and> c \<noteq> LF) (drop tmp s)"
  have n: "n = tmp + length ?x + 1" "?x \<noteq> []" "tmp + length ?x < length s"
    and c: "chr_at s (tmp + length ?x) = sep \<or> chr_at s (tmp + length ?x) \<noteq> CR \<and> chr_at s (tmp + length ?x) \<noteq> LF"
    using assms(2) by (auto simp: sdp_token_def osip_set_next_token_def Let_def split: option.splits if_splits)
  show ?thesis
  proof (rule ccontr)
    assume "\<not> n < length s"
    then have l: "tmp + length ?x = length s - 1" using n by linarith
    then have "sep = LF" using c e(1,2) n(3) by (auto simp: chr_at_def)
    obtain k where k: "length ?x = Suc k" using n(2) by (cases ?x) auto
    have "?x ! k = drop tmp s ! k" using k by (intro takeWhile_nth) simp
    also have "\<dots> = s ! (tmp + k)" using n(3) by (intro nth_drop) linarith
    also have "tmp + k = length s - 2" using l k e(1) by linarith
    finally have "?x ! k = CR" using e(3) by simp
    then have "CR \<in> set ?x" using k by (metis lessI nth_mem)
    then show False using set_takeWhileD by fastforce
  qed
qed

lemma last_token_before_end: "ends_crlf s \<Longrightarrow> last_token s tmp = Some (v, n) \<Longrightarrow> n < length s"
  by (auto simp: last_token_def token_before_end split: option.splits)

lemma payloads_return: "ends_crlf s \<Longrightarrow> tmp < length s \<Longrightarrow> parse_payloads s crlf tmp acc \<noteq> None"
proof (induction s crlf tmp acc rule: parse_payloads.induct)
  case (1 s crlf tmp acc)
  show ?case
    using "1.IH" "1.prems" token_before_end [OF "1.prems"(1)]
    by (subst parse_payloads.simps) (auto split: option.splits)
qed

lemma media_head_before_end: "ends_crlf s \<Longrightarrow> parse_media_head s tmp = Some (m, n) \<Longrightarrow> n < length s"
  by (auto simp: parse_media_head_def Option.bind_eq_Some_conv token_before_end last_token_before_end split: option.splits)

text \<open>What a line parser does at any position behind the first character.\<close>

definition sound :: "string \<Rightarrow> (string \<Rightarrow> nat \<Rightarrow> sdp_message \<Rightarrow> sdp_result) \<Rightarrow> bool" where
  "sound s parse \<longleftrightarrow> (\<forall>ptr sdp. 0 < ptr \<longrightarrow> ptr \<le> length s \<longrightarrow>
     (\<exists>i ptr' sdp'. parse s ptr sdp = Some (i, ptr', sdp') \<and> ptr \<le> ptr' \<and> ptr' \<le> length s \<and> (i = 1 \<longrightarrow> ptr < ptr')
      \<and> i \<in> {-1, 0, 1}))"

lemma sdp_field_bounds: "sdp_field c s ptr = Some (Field v e n) \<Longrightarrow> ptr < n \<and> n \<le> length s"
  by (auto simp: sdp_field_def Let_def equal_sign_def line_end_def chr_at_def LF_def NUL_def split: if_splits)

lemma on_field_sound:
  assumes "\<And>s buf sdp. parse s buf sdp = on_field c s buf sdp (f s buf sdp)" and "\<And>buf sdp v e. f s buf sdp v e \<noteq> None"
  shows "sound s parse"
  unfolding sound_def
proof (intro allI impI)
  fix ptr sdp
  assume ptr: "0 < ptr" "ptr \<le> length s"
  then have "equal_sign s ptr \<noteq> 0" by (simp add: equal_sign_def)
  then have "sdp_field c s ptr \<noteq> None" by (auto simp: sdp_field_def Let_def)
  then obtain l where l: "sdp_field c s ptr = Some l" by blast
  show "\<exists>i ptr' sdp'. parse s ptr sdp = Some (i, ptr', sdp') \<and> ptr \<le> ptr' \<and> ptr' \<le> length s \<and> (i = 1 \<longrightarrow> ptr < ptr')
      \<and> i \<in> {-1, 0, 1}"
  proof (cases l)
    case (Field v e n)
    obtain r where "f s ptr sdp v e = Some r" using assms(2) by blast
    with l Field sdp_field_bounds [of c s ptr v e n] show ?thesis
      by (cases r) (auto simp: assms(1) on_field_def WF_def ERR_ERROR_def ptr)
  qed (use l ptr in \<open>simp_all add: assms(1) on_field_def ERR_ERROR_def ERR_DISCARD_def\<close>)
qed

lemma parsers_sound:
  assumes "ends_crlf s"
  shows "sound s sdp_message_parse_s" "sound s sdp_message_parse_o" "sound s sdp_message_parse_i" "sound s sdp_message_parse_u"
    "sound s sdp_message_parse_e" "sound s sdp_message_parse_p" "sound s sdp_message_parse_c" "sound s sdp_message_parse_b"
    "sound s sdp_message_parse_t" "sound s sdp_message_parse_r" "sound s sdp_message_parse_z" "sound s sdp_message_parse_k"
    "sound s sdp_message_parse_a" "sound s sdp_message_parse_m"
proof -
  show "sound s sdp_message_parse_m"
    by (rule on_field_sound [OF sdp_message_parse_m_def])
      (auto split: option.splits bind_split dest: media_head_before_end [OF assms] payloads_return [OF assms])
qed (rule on_field_sound, (simp only: line_parsers; fail), simp)+


text \<open>Between two lines: not yet returned means a position behind the first character.\<close>

definition within :: "string \<Rightarrow> nat \<Rightarrow> sdp_state \<Rightarrow> bool" where
  "within s p st \<longleftrightarrow> (case st of Inl r \<Rightarrow> fst r = 0 \<or> fst r = -1 | Inr (i, ptr, _) \<Rightarrow> 0 < ptr \<and> p \<le> ptr \<and> ptr \<le> length s)"

definition left :: "string \<Rightarrow> sdp_state \<Rightarrow> nat" where
  "left s st = (case st of Inl _ \<Rightarrow> 0 | Inr (_, ptr, _) \<Rightarrow> Suc (length s) - ptr)"

lemma try_returns:
  assumes "sound s parse" and "within s p st"
  shows "\<exists>st'. try_line parse stop s st = Some st' \<and> within s p st' \<and> left s st' \<le> left s st
    \<and> (\<forall>z. st' = Inr (1, z) \<longrightarrow> left s st' < left s st) \<and> (\<forall>i z. st' = Inr (i, z) \<longrightarrow> i = 0 \<or> i = 1)"
proof (cases st)
  case (Inl r)
  then show ?thesis using assms(2) by (simp add: within_def left_def)
next
  case (Inr y)
  obtain i ptr sdp where y: "y = (i, ptr, sdp)" by (cases y) auto
  have "0 < ptr" "p \<le> ptr" "ptr \<le> length s" using assms(2) Inr y by (simp_all add: within_def)
  moreover then obtain j ptr' sdp' where "parse s ptr sdp = Some (j, ptr', sdp')" "ptr \<le> ptr'" "ptr' \<le> length s" "j = 1 \<longrightarrow> ptr < ptr'" "j \<in> {-1, 0, 1}"
    using assms(1) unfolding sound_def by blast
  ultimately show ?thesis using Inr y by (auto simp: try_line_def within_def left_def)
qed

lemma many_returns:
  assumes "sound s parse"
  shows "within s p st \<Longrightarrow> \<exists>st'. many_lines parse stop s st = Some st' \<and> within s p st' \<and> left s st' \<le> left s st"
proof (induction "left s st" arbitrary: st rule: less_induct)
  case less
  obtain st1 where 1: "try_line parse stop s st = Some st1" "within s p st1" "left s st1 \<le> left s st"
    "\<forall>z. st1 = Inr (1, z) \<longrightarrow> left s st1 < left s st"
    using try_returns [OF assms less.prems, of stop] by blast
  show ?case
  proof (cases "\<exists>z. st1 = Inr (1, z)")
    case True
    with less.hyps [OF _ 1(2)] 1 show ?thesis by (subst many_lines.simps) (auto intro: order_trans)
  next
    case False
    then show ?thesis using 1(1-3) by (subst many_lines.simps) (auto split: sum.split)
  qed
qed

lemma more_times_returns:
  assumes "ends_crlf s"
  shows "within s p st \<Longrightarrow> \<exists>st'. more_times s st = Some st' \<and> within s p st'"
proof (induction "left s st" arbitrary: st rule: less_induct)
  case less
  note r = parsers_sound(10) [OF assms] note t = parsers_sound(9) [OF assms]
  obtain st1 where 1: "many_lines sdp_message_parse_r True s st = Some st1" "within s p st1" "left s st1 \<le> left s st"
    using many_returns [OF r less.prems] by blast
  obtain st2 where 2: "try_line sdp_message_parse_t True s st1 = Some st2" "within s p st2"
    "\<forall>z. st2 = Inr (1, z) \<longrightarrow> left s st2 < left s st1" "\<forall>i z. st2 = Inr (i, z) \<longrightarrow> i = 0 \<or> i = 1"
    using try_returns [OF t 1(2), of True] by blast
  show ?case
  proof (cases "\<exists>z. st2 = Inr (1, z)")
    case True
    then have "left s st2 < left s st1" using 2(3) by blast
    then have "left s st2 < left s st" using 1(3) by (rule less_le_trans)
    with less.hyps [OF _ 2(2)] True show ?thesis
      by (auto simp: more_times_step(1) [OF 1(1) 2(1)])
  next
    case False
    have "i = 0 \<or> i = 1" if "st2 = Inr (i, z)" for i z
      using 2(4) that by blast
    with False show ?thesis using 2(2)
      by (auto simp: more_times_step(1) [OF 1(1) 2(1)] split: sum.split)
  qed
qed

lemma media_tail_returns:
  assumes "ends_crlf s" and "within s p st"
  shows "\<exists>st'. media_tail s st = Some st' \<and> within s p st' \<and> left s st' \<le> left s st"
proof -
  note ok = parsers_sound [OF assms(1)]
  obtain st1 where 1: "try_line sdp_message_parse_i True s st = Some st1" "within s p st1" "left s st1 \<le> left s st"
    using try_returns [OF ok(3) assms(2)] by blast
  obtain st2 where 2: "many_lines sdp_message_parse_c True s st1 = Some st2" "within s p st2" "left s st2 \<le> left s st1"
    using many_returns [OF ok(7) 1(2)] by blast
  obtain st3 where 3: "many_lines sdp_message_parse_b True s st2 = Some st3" "within s p st3" "left s st3 \<le> left s st2"
    using many_returns [OF ok(8) 2(2)] by blast
  obtain st4 where 4: "try_line sdp_message_parse_k True s st3 = Some st4" "within s p st4" "left s st4 \<le> left s st3"
    using try_returns [OF ok(12) 3(2)] by blast
  obtain st5 where 5: "many_lines sdp_message_parse_a True s st4 = Some st5" "within s p st5" "left s st5 \<le> left s st4"
    using many_returns [OF ok(13) 4(2)] by blast
  have "left s st5 \<le> left s st" using 1(3) 2(3) 3(3) 4(3) 5(3) by linarith
  then show ?thesis using 1(1) 2(1) 3(1) 4(1) 5(1,2) by (simp add: media_tail_def)
qed

lemma media_lines_return:
  assumes "ends_crlf s"
  shows "within s p st \<Longrightarrow> \<exists>i sdp. media_lines s st = Some (i, sdp) \<and> (i = 0 \<or> i = -1)"
proof (induction "left s st" arbitrary: st rule: less_induct)
  case less
  obtain st1 where 1: "try_line sdp_message_parse_m True s st = Some st1" "within s p st1"
    "\<forall>z. st1 = Inr (1, z) \<longrightarrow> left s st1 < left s st"
    using try_returns [OF parsers_sound(14) [OF assms] less.prems, of True] by blast
  obtain st2 where 2: "media_tail s st1 = Some st2" "within s p st2" "left s st2 \<le> left s st1"
    using media_tail_returns [OF assms 1(2)] by blast
  show ?case
  proof (cases "\<exists>z. st1 = Inr (1, z)")
    case True
    then have "left s st1 < left s st" using 1(3) by blast
    with 2(3) have "left s st2 < left s st" by (rule le_less_trans)
    with less.hyps [OF _ 2(2)] 1(1) 2(1,2) True show ?thesis by (subst media_lines.simps) (auto simp: within_def split: sum.splits)
  next
    case False
    with 1(1,2) 2(1,2) show ?thesis by (subst media_lines.simps) (auto simp: within_def split: sum.splits)
  qed
qed

lemma need_returns:
  assumes "sound s parse" and "within s p st"
  shows "\<exists>st'. need_line parse s st = Some st' \<and> within s p st'"
proof -
  obtain st' where "try_line parse False s st = Some st'" "within s p st'" using try_returns [OF assms, of False] by blast
  then show ?thesis by (auto simp: need_line_def within_def split: sum.split)
qed

lemma times_return:
  assumes "ends_crlf s" and "within s p st"
  shows "\<exists>st'. times_lines s st = Some st' \<and> within s p st'"
proof -
  note ok = parsers_sound [OF assms(1)]
  obtain st1 where 1: "need_line sdp_message_parse_t s st = Some st1" "within s p st1" using need_returns [OF ok(9) assms(2)] by blast
  then have "within s p (stop_at_end s st1)" by (auto simp: stop_at_end_def within_def split: sum.splits)
  then obtain st2 where 2: "many_lines sdp_message_parse_r True s (stop_at_end s st1) = Some st2" "within s p st2"
    using many_returns [OF ok(10)] by blast
  obtain st3 where 3: "try_line sdp_message_parse_t True s st2 = Some st3" "within s p st3" using try_returns [OF ok(9) 2(2)] by blast
  show ?thesis using more_times_returns [OF assms(1) 3(2)] 1(1) 2(1) 3(1) by (simp add: times_lines_def)
qed

lemma version_returns:
  "\<exists>st. need_line sdp_message_parse_v s (Inr (1, 0, sdp)) = Some st \<and> within s 0 st"
proof (cases "chr_at s (equal_sign s 0) \<noteq> NUL \<and> equal_sign s 0 = 0")
  case True
  have e: "equal_sign s 0 = 0" using True by blast
  have c: "chr_at s 0 \<noteq> NUL" using conjunct1 [OF True] unfolding e by assumption
  have "sdp_message_parse_v s 0 sdp = Some (0, 0, sdp)" using c by (simp add: sdp_message_parse_v_def ERR_DISCARD_def e)
  then show ?thesis by (simp add: need_line_def try_line_def within_def)
next
  case False
  then have "sdp_field (CHR ''v'') s 0 \<noteq> None" by (auto simp: sdp_field_def Let_def)
  then obtain l where l: "sdp_field (CHR ''v'') s 0 = Some l" by blast
  show ?thesis
  proof (cases l)
    case (Field v e n)
    then show ?thesis using l sdp_field_bounds [of "CHR ''v''" s 0 v e n] False
      by (auto simp: need_line_def try_line_def sdp_message_parse_v_def on_text_def on_field_def WF_def within_def)
  qed (use l False in \<open>auto simp: need_line_def try_line_def sdp_message_parse_v_def on_text_def on_field_def
        ERR_ERROR_def ERR_DISCARD_def within_def\<close>)
qed

lemma sdp_returns:
  assumes "ends_crlf s"
  shows "\<exists>i sdp'. sdp_message_parse sdp s = Some (i, sdp') \<and> (i = 0 \<or> i = -1)"
proof -
  note ok = parsers_sound [OF assms] note tr = try_returns note mr = many_returns
  obtain st1 where 1: "need_line sdp_message_parse_v s (Inr (1, 0, sdp)) = Some st1" "within s 0 st1" using version_returns by blast
  obtain st2 where 2: "try_line sdp_message_parse_s False s st1 = Some st2" "within s 0 st2" using tr [OF ok(1) 1(2)] by blast
  obtain st3 where 3: "need_line sdp_message_parse_o s st2 = Some st3" "within s 0 st3" using need_returns [OF ok(2) 2(2)] by blast
  obtain st4 where 4: "try_line sdp_message_parse_s False s st3 = Some st4" "within s 0 st4" using tr [OF ok(1) 3(2)] by blast
  obtain st5 where 5: "try_line sdp_message_parse_i False s st4 = Some st5" "within s 0 st5" using tr [OF ok(3) 4(2)] by blast
  obtain st6 where 6: "try_line sdp_message_parse_u False s st5 = Some st6" "within s 0 st6" using tr [OF ok(4) 5(2)] by blast
  obtain st7 where 7: "many_lines sdp_message_parse_e False s st6 = Some st7" "within s 0 st7" using mr [OF ok(5) 6(2)] by blast
  obtain st8 where 8: "many_lines sdp_message_parse_p False s st7 = Some st8" "within s 0 st8" using mr [OF ok(6) 7(2)] by blast
  obtain st9 where 9: "try_line sdp_message_parse_c False s st8 = Some st9" "within s 0 st9" using tr [OF ok(7) 8(2)] by blast
  obtain sta where a: "many_lines sdp_message_parse_b False s st9 = Some sta" "within s 0 sta" using mr [OF ok(8) 9(2)] by blast
  obtain stb where b: "times_lines s sta = Some stb" "within s 0 stb" using times_return [OF assms a(2)] by blast
  obtain stc where c: "try_line sdp_message_parse_z True s stb = Some stc" "within s 0 stc" using tr [OF ok(11) b(2)] by blast
  obtain std where d: "try_line sdp_message_parse_k True s stc = Some std" "within s 0 std" using tr [OF ok(12) c(2)] by blast
  obtain ste where e: "many_lines sdp_message_parse_a True s std = Some ste" "within s 0 ste" using mr [OF ok(13) d(2)] by blast
  have "\<exists>i sdp'. media_lines s ste = Some (i, sdp') \<and> (i = 0 \<or> i = -1)" by (rule media_lines_return [OF assms e(2)])
  then show ?thesis
    using 1(1) 2(1) 3(1) 4(1) 5(1) 6(1) 7(1) 8(1) 9(1) a(1) b(1) c(1) d(1) e(1) by (simp add: sdp_message_parse_def)
qed


section \<open>Properties\<close>

text \<open>
  C37. Session descriptions survive the wire.  A description whose fields are present, not empty and free of their
  separators and of line ends, with at least one time, is printed without a write behind the growing buffer;
  parsing the text yields the same description, and so does \<^verbatim>\<open>sdp_message_clone\<close>.
\<close>

theorem sdp_roundtrip:
  assumes "wf_sdp sdp"
  shows "\<exists>body. sdp_message_to_str (Some sdp) = Some (OSIP_SUCCESS, Some body)
    \<and> sdp_message_parse sdp_message_init body = Some (OSIP_SUCCESS, sdp)
    \<and> sdp_message_clone (Some sdp) = Some (OSIP_SUCCESS, Some sdp)"
  using sdp_print_ok [OF assms] sdp_parse_ok [OF assms] by (simp add: sdp_message_clone_def)

text \<open>What a camera of the platform offers.\<close>

definition sample_sdp :: sdp_message where
  "sample_sdp = sdp_message_init\<lparr>v_version := Some ''0'', o_username := Some ''34020000001320000001'', o_sess_id := Some ''0'',
     o_sess_version := Some ''0'', o_nettype := Some ''IN'', o_addrtype := Some ''IP4'', o_addr := Some ''192.168.1.2'',
     s_name := Some ''Play'', c_connection := Some (sdp_connection_init\<lparr>c_nettype := Some ''IN'', c_addrtype := Some ''IP4'',
       c_addr := Some ''192.168.1.2''\<rparr>),
     t_descrs := [sdp_time_descr_init\<lparr>t_start_time := Some ''0'', t_stop_time := Some ''0''\<rparr>],
     m_medias := [sdp_media_init\<lparr>m_media := Some ''video'', m_port := Some ''6000'', m_proto := Some ''RTP/AVP'',
       m_payloads := [''96'', ''98''], med_attributes := [\<lparr>a_att_field = Some ''recvonly'', a_att_value = None\<rparr>,
         \<lparr>a_att_field = Some ''rtpmap'', a_att_value = Some ''96 PS/90000''\<rparr>]\<rparr>]\<rparr>"

lemma sample_sdp_wf: "wf_sdp sample_sdp"
  by (simp add: wf_sdp_def wf_origin_def wf_connection_def wf_time_descr_def wf_media_def wf_media_head_def wf_attribute_def
      has_def maybe_def plain_def sample_sdp_def sdp_message_init_def sdp_connection_init_def sdp_time_descr_init_def
      sdp_media_init_def CR_def LF_def)

theorem sdp_roundtrip_witness:
  "\<exists>body. sdp_message_to_str (Some sample_sdp) = Some (OSIP_SUCCESS, Some body)
    \<and> sdp_message_parse sdp_message_init body = Some (OSIP_SUCCESS, sample_sdp)
    \<and> sdp_message_clone (Some sample_sdp) = Some (OSIP_SUCCESS, Some sample_sdp)"
  by (rule sdp_roundtrip [OF sample_sdp_wf])

text \<open>
  C38. The parser returns.  On every text that ends with a carriage return and a line feed \<^verbatim>\<open>sdp_message_parse\<close>
  leaves all its loops, reads neither in front of the text nor behind it, and returns success or \<^verbatim>\<open>-1\<close>.
\<close>

theorem sdp_parse_terminates:
  assumes "ends_crlf s"
  shows "\<exists>i sdp'. sdp_message_parse sdp s = Some (i, sdp') \<and> i \<in> {OSIP_SUCCESS, OSIP_UNDEFINED_ERROR}"
  using sdp_returns [OF assms] by auto

theorem sdp_parse_terminates_witness:
  "\<exists>i sdp'. sdp_message_parse sdp_message_init (''=v=1'' @ CRLF) = Some (i, sdp') \<and> i \<in> {OSIP_SUCCESS, OSIP_UNDEFINED_ERROR}"
  by (rule sdp_parse_terminates) (auto simp: ends_crlf_def)

text \<open>A text with the lines that must be there and some more.\<close>

definition sdp_sample_lines :: "string list \<Rightarrow> string" where
  "sdp_sample_lines ls = concat (map (\<lambda>l. l @ CRLF) ([''v=0'', ''o=- 0 0 IN IP4 a'', ''t=0 0''] @ ls))"


text \<open>
  C40. Deletion of an attribute of a media by its position.  \<^verbatim>\<open>sdp_message_a_attribute_del_at_index\<close> removes all
  attributes of the media instead of the first one, and does not return for any other position.
\<close>

theorem sdp_delete_by_index:
  assumes "list_at (m_medias sdp) pos_media = Some med" and "med_attributes med \<noteq> []" and "pos_attr \<noteq> -1"
  shows "sdp_message_a_attribute_del_at_index (Some sdp) pos_media att_field pos_attr =
    (if pos_attr = 0 then Some (OSIP_SUCCESS, Some (sdp\<lparr>m_medias := (m_medias sdp)[nat pos_media := med\<lparr>med_attributes := []\<rparr>]\<rparr>))
     else None)"
proof -
  have "pos_media \<noteq> -1" "\<not> int (length (m_medias sdp)) < pos_media + 1"
    using assms(1) by (auto simp: list_at_def split: if_splits)
  then show ?thesis
    using assms delete_first_all delete_other_loops [of pos_attr "med_attributes med" att_field]
    by (simp add: sdp_message_a_attribute_del_at_index_def delete_at_def)
qed

theorem sdp_delete_by_index_witness:
  "sdp_message_a_attribute_del_at_index (Some sample_sdp) 0 ''recvonly'' 1 = None"
proof -
  have "list_at (m_medias sample_sdp) 0 = Some (hd (m_medias sample_sdp))" by (simp add: sample_sdp_def)
  then show ?thesis
    using sdp_delete_by_index [of sample_sdp 0 "hd (m_medias sample_sdp)" 1 "''recvonly''"] by (simp add: sample_sdp_def)
qed

end
