(* ===== verification/Spec2Isabelle.thy ===== *)
theory Spec2Isabelle
  imports Osip_Fifo Osip_Dialog_Proofs Osip_Auth_Proofs Osip_To_Str_Proofs Osip_Core_Proofs Osip_Sdp_Proofs
begin

text \<open>
  The SIP stack of the GB28181 platform: a verification library for the oSIP library of the repository
  (\<^verbatim>\<open>src/osip\<close>), on which \<^verbatim>\<open>src/eXosip\<close> and the C++ application stand.  Paths below are relative to
  \<^verbatim>\<open>osip/src\<close> unless they name another directory.

  The program.  A SIP message arrives as bytes.  \<^verbatim>\<open>osipparser2/osip_message_parse.c\<close> splits it into the start
  line, header lines and bodies and hands every header to its own parser; the result is an \<^verbatim>\<open>osip_message_t\<close>.
  \<^verbatim>\<open>osip2/osip.c\<close> wraps it in an event, looks for the transaction it belongs to and queues it there.  A
  transaction is one of four state machines (client or server, INVITE or not); \<^verbatim>\<open>osip_transaction_execute\<close>
  takes an event from the queue, runs the handler of the transition table, sends messages through a callback,
  starts timers and reports to the application through callbacks.  Timers are polled and become events of the same
  queues.  A dialog keeps the peers, routes and sequence numbers of a call beyond its transactions.
  \<^verbatim>\<open>osipparser2/osip_message_to_str.c\<close> turns a message into text again.  The body of a call is a session
  description, with a parser and printer of its own.

  The theories and the code.
  \<^item> \<open>Osip_Prelude\<close>: return codes, collections of theorems, generic facts.
  \<^item> \<open>Osip_Port\<close>: \<^verbatim>\<open>osip_port.c\<close> and the functions of the C library the parsers use.
  \<^item> \<open>Osip_List\<close>, \<open>Osip_Fifo\<close>: \<^verbatim>\<open>osip_list.c\<close> over an explicit heap whose allocations may fail, and on it
    \<^verbatim>\<open>osip2/port_fifo.c\<close>.  \<open>list_rep\<close> relates heap and abstract list; all other theories use the abstract list.
  \<^item> \<open>Osip_Uri\<close>, \<open>Osip_Headers\<close>, \<open>Osip_Auth\<close>, \<open>Osip_Small_Headers\<close>: one group of definitions for each of
    \<^verbatim>\<open>osip_uri.c\<close>, \<^verbatim>\<open>osip_via.c\<close>, \<^verbatim>\<open>osip_from.c\<close>, \<^verbatim>\<open>osip_to.c\<close>, \<^verbatim>\<open>osip_contact.c\<close>, \<^verbatim>\<open>osip_cseq.c\<close>,
    \<^verbatim>\<open>osip_call_id.c\<close>, the six authentication headers and the headers of content and capabilities: a record, a
    parser, a printer, a copy.
  \<^item> \<open>Osip_Message\<close>, \<open>Osip_Body\<close>: \<^verbatim>\<open>osip_message.c\<close>, \<^verbatim>\<open>osip_header.c\<close>, \<^verbatim>\<open>osip_body.c\<close>.
  \<^item> \<open>Osip_Parse\<close>, \<open>Osip_To_Str\<close>: \<^verbatim>\<open>osip_parser_cfg.c\<close>, \<^verbatim>\<open>osip_message_parse.c\<close>,
    \<^verbatim>\<open>osip_message_to_str.c\<close>.
  \<^item> \<open>Osip_Time\<close>, \<open>Osip_Transaction\<close>: \<^verbatim>\<open>osip_time.c\<close>, the record of a transaction, events
    (\<^verbatim>\<open>osip_event.c\<close>), the dispatch of a transition (\<^verbatim>\<open>fsm_misc.c\<close>) and the steps the handlers share.
  \<^item> \<open>Osip_Ict\<close>, \<open>Osip_Nict\<close>, \<open>Osip_Ist\<close>, \<open>Osip_Nist\<close>: \<^verbatim>\<open>ict.c\<close>, \<^verbatim>\<open>ict_fsm.c\<close> and so on; one definition
    for each handler, and the transition table.
  \<^item> \<open>Osip_Fsm\<close>: \<^verbatim>\<open>osip_transaction.c\<close>, execution and matching.
  \<^item> \<open>Osip_Core\<close>: \<^verbatim>\<open>osip.c\<close>, the stack \<^verbatim>\<open>osip_t\<close> with its four lists of transactions.
  \<^item> \<open>Osip_Dialog\<close>: \<^verbatim>\<open>osip_dialog.c\<close>.
  \<^item> \<open>Osip_Sdp\<close>, \<open>Osip_Sdp_Access\<close>: \<^verbatim>\<open>sdp_message.c\<close>, \<^verbatim>\<open>sdp_accessor.c\<close>.

  What is proved.
  \<^item> Round trips of URIs, headers, whole messages and session descriptions, for every structure that satisfies a
    \<open>wf\<close> predicate; the predicates ask that a field has none of the separators behind it.  Texts, not only structures,
    are characterised: \<open>osip_message_parse_text\<close>, \<open>osip_message_to_str_text\<close>.
  \<^item> Memory: a printer or parser that writes or reads outside its buffer yields \<open>None\<close>, so every statement
    with \<open>Some\<close> excludes it.  The properties of kind error give the inputs where the code does go wrong.
  \<^item> Lists, fifo and hash table refine abstract lists, queues and a linear search.
  \<^item> Transactions.  The locale \<open>transaction_machine\<close> of \<open>Osip_Machine\<close> states the contract of a transition table; the four
    tables are its interpretations (\<open>Osip_Client_Proofs\<close>, \<open>Osip_Server_Proofs\<close>).  From it follow the invariants,
    the diagram of RFC 3261, the absence of faults, one kill callback, and a ledger of messages: each message is
    stored, queued, freed or given away exactly once.
  \<^item> The stack (\<open>Osip_Core_Proofs\<close>): the lists and numbers of transactions are consistent in every reachable stack,
    the loops that execute pending events end, a retransmission finds its transaction, and the sleep time is safe.
  \<^item> Matching and dialogs: the decisions of the code are those of RFC 3261 on messages with complete headers.

  How the code is modelled.
  \<^item> A C string is a HOL \<open>string\<close> without zero; \<^verbatim>\<open>NULL\<close> is \<open>None\<close>; a pointer into a string is an offset.  A
    buffer that may contain zeros is a string of which \<open>cstr\<close> is the C string.
  \<^item> An outer \<open>option\<close> is a fault: a null pointer dereferenced, a read or write outside a buffer, a double free, or
    a loop that does not end.  Return codes are the integers of the code.
  \<^item> Allocation succeeds, outside of lists and fifos.  Integers that only count (sizes, timers, transaction numbers)
    are unbounded; the header hash is computed on 32-bit words; \<^verbatim>\<open>atoi\<close> and \<^verbatim>\<open>sscanf\<close> saturate.
  \<^item> The configuration is the one of the Visual Studio projects: \<^verbatim>\<open>WIN32\<close>, none of \<^verbatim>\<open>MINISIZE\<close>,
    \<^verbatim>\<open>USE_BLOCKINGSOCKET\<close>, \<^verbatim>\<open>FWDSUPPORT\<close>, \<^verbatim>\<open>AC_BUG\<close>, \<^verbatim>\<open>FIREFLY_BUG_SUPPORT\<close>,
    \<^verbatim>\<open>HAVE_DICT_DICT_H\<close>.
  \<^item> Names lose their leading underscores.  Functions that take a mutex are atomic.  Lists of parameters and of
    headers are HOL lists.
  \<^item> Callbacks are logged; they do not call back into the stack.  The callback that sends and the clock are
    parameters, with one reading of the clock for each step.  Pointers of the application and DNS records are left out.
  \<^item> Messages are values.  Ownership is accounted for by a multiset of messages.  A transaction is found by
    its number; the lists of the stack hold the transactions themselves.
  \<^item> The parsers of the authentication headers are one loop over a table of fields, as their code repeats one loop body.
  \<^item> Loops whose end is not structural are \<open>partial_function (option)\<close>; that they return is proved, for the queues in
    \<open>pending_events_executed\<close> and for session descriptions in \<open>sdp_parse_terminates\<close>.  No definition has fuel.

  Not modelled.
  \<^item> Threads, semaphores, condition variables and the tracing and random number functions of \<^verbatim>\<open>osip_port.c\<close>: they are
    wrappers of the operating system.  \<^verbatim>\<open>platform/vsnet/dict\<close> is not compiled.  Free functions of plain
    structures, and getters and setters that only access a field, have nothing to state, except those of
    \<^verbatim>\<open>sdp_accessor.c\<close>.
  \<^item> \<^verbatim>\<open>eXosip\<close>: sockets, TLS, DNS and the event loop of the user agent, whose behaviour is that of the operating
    system and of the libraries it calls.
  \<^item> \<^verbatim>\<open>c-ares\<close>, \<^verbatim>\<open>sqlite3\<close>, \<^verbatim>\<open>catch.hpp\<close>: third-party code.
  \<^item> The C++ application (\<^verbatim>\<open>GB28181.*\<close>, \<^verbatim>\<open>GBUtils\<close>): classes over MFC, COM, XML and a database, outside of what
    a model of the C code can reach.
\<close>

end
